(* ===== verification/Prelude.thy ===== *)
theory Prelude
  imports Main "HOL-Library.Word" "HOL-Library.AList"
begin

text \<open>
  Shared vocabulary of the development.

  \<^item> Machine integers of the program are words of their width (\<open>u8\<close>, \<open>u32\<close>, \<open>u64\<close>);
    addition wraps as in a release build, and \<open>sat_sub\<close> and \<open>gen_next\<close> are the
    \<open>saturating_sub\<close> and \<open>wrapping_add(1).max(1)\<close> idioms of the code.
  \<^item> Byte strings are \<open>u8 list\<close>; \<open>be_bytes\<close> and \<open>from_be_bytes\<close> are
    \<open>to_be_bytes\<close> and \<open>from_be_bytes\<close>.
  \<^item> A \<open>HashMap\<close> is an association list with distinct keys, so that lookups, removals,
    \<open>retain\<close> and \<open>len\<close> all evaluate.
  \<^item> Instants and durations are natural numbers of nanoseconds; differences of instants
    saturate at zero, as \<open>saturating_duration_since\<close> does.
  \<^item> A fallible operation returns \<open>error + value\<close>, \<open>Inl\<close> for \<open>Err\<close>.
\<close>

section \<open>Machine integers\<close>

type_synonym u8 = "8 word"
type_synonym u16 = "16 word"
type_synonym u32 = "32 word"
type_synonym u64 = "64 word"

definition sat_sub :: "u64 \<Rightarrow> u64 \<Rightarrow> u64" where
  "sat_sub a b = (if b \<le> a then a - b else 0)"

definition sat_sub32 :: "u32 \<Rightarrow> u32 \<Rightarrow> u32" where
  "sat_sub32 a b = (if b \<le> a then a - b else 0)"

definition gen_next :: "u64 \<Rightarrow> u64" where
  "gen_next g = max (g + 1) 1"

lemma unat_sat_sub [simp]: "unat (sat_sub a b) = unat a - unat b"
  by (auto simp: sat_sub_def word_le_nat_alt unat_sub_if')

lemma unat_sat_sub32 [simp]: "unat (sat_sub32 a b) = unat a - unat b"
  by (auto simp: sat_sub32_def word_le_nat_alt unat_sub_if')

lemma gen_next_nonzero [simp]: "gen_next g \<noteq> 0"
  by (auto simp: gen_next_def max_def word_le_nat_alt unat_eq_0)

lemma unat_gen_next: "unat g < 2 ^ 64 - 1 \<Longrightarrow> unat (gen_next g) = unat g + 1"
  by (auto simp: gen_next_def max_def word_le_nat_alt unat_word_ariths)

section \<open>Bytes\<close>

type_synonym bytes = "u8 list"

text \<open>The UTF-8 bytes of a Rust string: a character of a HOL string is one byte.\<close>

definition as_bytes :: "string \<Rightarrow> bytes" where
  "as_bytes s = map (\<lambda>c. of_nat (of_char c)) s"

lemma byte_of_char_inj: "(of_nat (of_char c) :: u8) = of_nat (of_char d) \<longleftrightarrow> c = d"
proof
  assume "(of_nat (of_char c) :: u8) = of_nat (of_char d)"
  then have "(of_char c :: nat) mod 256 = of_char d mod 256"
    unfolding word_of_nat_eq_iff by (simp add: take_bit_eq_mod)
  then show "c = d" by simp
qed simp

lemma length_as_bytes [simp]: "length (as_bytes s) = length s"
  by (simp add: as_bytes_def)

lemma as_bytes_Nil_iff [simp]: "as_bytes s = [] \<longleftrightarrow> s = []"
  by (simp add: as_bytes_def)

lemma as_bytes_inj [simp]: "as_bytes s = as_bytes t \<longleftrightarrow> s = t"
  by (auto simp: as_bytes_def byte_of_char_inj inj_on_def dest: map_injective [rotated])

text \<open>The string of a byte sequence that has been validated.\<close>

definition of_bytes :: "bytes \<Rightarrow> string" where
  "of_bytes bs = map (\<lambda>b. char_of (unat b)) bs"

lemma of_bytes_as_bytes [simp]: "of_bytes (as_bytes s) = s"
proof -
  have "char_of (unat (of_nat (of_char c) :: u8)) = c" for c :: char
    by (simp add: unat_of_nat take_bit_eq_mod)
  then show ?thesis
    by (induction s) (simp_all add: of_bytes_def as_bytes_def)
qed

text \<open>Big-endian integers of a fixed number of bytes.\<close>

fun be_of_nat :: "nat \<Rightarrow> nat \<Rightarrow> bytes" where
  "be_of_nat 0 x = []"
| "be_of_nat (Suc n) x = be_of_nat n (x div 256) @ [of_nat (x mod 256)]"

lemma be_of_nat_numeral:
  "be_of_nat (numeral k) x = be_of_nat (pred_numeral k) (x div 256) @ [of_nat (x mod 256)]"
  by (subst numeral_eq_Suc) (rule be_of_nat.simps(2))

definition nat_of_be :: "bytes \<Rightarrow> nat" where
  "nat_of_be bs = foldl (\<lambda>a b. a * 256 + unat b) 0 bs"

lemma nat_of_be_Nil [simp]: "nat_of_be [] = 0"
  by (simp add: nat_of_be_def)

lemma nat_of_be_snoc [simp]: "nat_of_be (bs @ [b]) = nat_of_be bs * 256 + unat b"
  by (simp add: nat_of_be_def)

lemma length_be_of_nat [simp]: "length (be_of_nat n x) = n"
  by (induction n arbitrary: x) auto

lemma unat_byte_of_nat [simp]: "unat (of_nat (x mod 256) :: u8) = x mod 256"
  by (simp add: unat_of_nat take_bit_eq_mod)

lemma unat_u8_less: "unat (b :: u8) < 256"
  using unsigned_less [of b, where 'a = nat] by simp

lemma nat_of_be_of_nat: "nat_of_be (be_of_nat n x) = x mod 256 ^ n"
proof (induction n arbitrary: x)
  case (Suc n)
  have "x mod (256 * 256 ^ n) = 256 * (x div 256 mod 256 ^ n) + x mod 256"
    by (rule mod_mult2_eq)
  then show ?case by (simp add: Suc.IH)
qed simp

lemma be_of_nat_of_be: "length bs = n \<Longrightarrow> be_of_nat n (nat_of_be bs) = bs"
proof (induction bs arbitrary: n rule: rev_induct)
  case (snoc b bs)
  then show ?case using unat_u8_less [of b] by auto
qed simp

lemma nat_of_be_less: "nat_of_be bs < 256 ^ length bs"
  using nat_of_be_of_nat [of "length bs" "nat_of_be bs"]
  by (metis be_of_nat_of_be mod_less_divisor zero_less_numeral zero_less_power)

definition u64_to_be_bytes :: "u64 \<Rightarrow> bytes" where
  "u64_to_be_bytes w = be_of_nat 8 (unat w)"

definition u64_from_be_bytes :: "bytes \<Rightarrow> u64" where
  "u64_from_be_bytes bs = of_nat (nat_of_be bs)"

definition u32_to_be_bytes :: "u32 \<Rightarrow> bytes" where
  "u32_to_be_bytes w = be_of_nat 4 (unat w)"

definition u32_from_be_bytes :: "bytes \<Rightarrow> u32" where
  "u32_from_be_bytes bs = of_nat (nat_of_be bs)"

lemma length_u64_to_be_bytes [simp]: "length (u64_to_be_bytes w) = 8"
  by (simp add: u64_to_be_bytes_def)

lemma length_u32_to_be_bytes [simp]: "length (u32_to_be_bytes w) = 4"
  by (simp add: u32_to_be_bytes_def)

lemma u64_from_to_be [simp]: "u64_from_be_bytes (u64_to_be_bytes w) = w"
proof -
  have "unat w mod 256 ^ 8 = unat w"
    using unsigned_less [of w, where 'a = nat] by (intro mod_less) simp
  then show ?thesis
    by (simp add: u64_from_be_bytes_def u64_to_be_bytes_def nat_of_be_of_nat)
qed

lemma u32_from_to_be [simp]: "u32_from_be_bytes (u32_to_be_bytes w) = w"
proof -
  have "unat w mod 256 ^ 4 = unat w"
    using unsigned_less [of w, where 'a = nat] by (intro mod_less) simp
  then show ?thesis
    by (simp add: u32_from_be_bytes_def u32_to_be_bytes_def nat_of_be_of_nat)
qed

lemma u64_to_from_be: "length bs = 8 \<Longrightarrow> u64_to_be_bytes (u64_from_be_bytes bs) = bs"
  using nat_of_be_less [of bs]
  by (simp add: u64_from_be_bytes_def u64_to_be_bytes_def unat_of_nat take_bit_eq_mod
      be_of_nat_of_be)

lemma u32_to_from_be: "length bs = 4 \<Longrightarrow> u32_to_be_bytes (u32_from_be_bytes bs) = bs"
  using nat_of_be_less [of bs]
  by (simp add: u32_from_be_bytes_def u32_to_be_bytes_def unat_of_nat take_bit_eq_mod
      be_of_nat_of_be)

lemma u64_to_be_bytes_inj [simp]: "u64_to_be_bytes a = u64_to_be_bytes b \<longleftrightarrow> a = b"
  by (metis u64_from_to_be)

lemma u32_to_be_bytes_inj [simp]: "u32_to_be_bytes a = u32_to_be_bytes b \<longleftrightarrow> a = b"
  by (metis u32_from_to_be)

section \<open>Byte buffers\<close>

text \<open>\<open>dst[off..off + src.len()].copy_from_slice(src)\<close>, for a slice within the buffer.\<close>

definition copy_at :: "nat \<Rightarrow> 'a list \<Rightarrow> 'a list \<Rightarrow> 'a list" where
  "copy_at off src dst = take off dst @ src @ drop (off + length src) dst"

lemma length_copy_at [simp]:
  "off + length src \<le> length dst \<Longrightarrow> length (copy_at off src dst) = length dst"
  by (simp add: copy_at_def)

lemma slice_copy_at_same:
  "off + length src \<le> length dst \<Longrightarrow> take (length src) (drop off (copy_at off src dst)) = src"
  by (simp add: copy_at_def)

lemma slice_copy_at_other:
  assumes fit: "off + length src \<le> length dst"
    and away: "n + k \<le> off \<or> off + length src \<le> n"
  shows "take k (drop n (copy_at off src dst)) = take k (drop n dst)"
  using away
proof
  assume "n + k \<le> off"
  with fit show ?thesis
    by (simp add: copy_at_def drop_take take_append)
next
  assume "off + length src \<le> n"
  with fit show ?thesis
    by (simp add: copy_at_def)
qed

section \<open>Hash maps\<close>

type_synonym ('k, 'v) hash_map = "('k \<times> 'v) list"

definition hm_wf :: "('k, 'v) hash_map \<Rightarrow> bool" where
  "hm_wf m \<longleftrightarrow> distinct (map fst m)"

definition hm_get :: "('k, 'v) hash_map \<Rightarrow> 'k \<Rightarrow> 'v option" where
  "hm_get m = map_of m"

definition hm_insert :: "'k \<Rightarrow> 'v \<Rightarrow> ('k, 'v) hash_map \<Rightarrow> ('k, 'v) hash_map" where
  "hm_insert k v m = AList.update k v m"

definition hm_remove :: "'k \<Rightarrow> ('k, 'v) hash_map \<Rightarrow> ('k, 'v) hash_map" where
  "hm_remove k m = AList.delete k m"

definition hm_retain :: "('k \<Rightarrow> 'v \<Rightarrow> bool) \<Rightarrow> ('k, 'v) hash_map \<Rightarrow> ('k, 'v) hash_map" where
  "hm_retain P m = filter (\<lambda>(k, v). P k v) m"

definition hm_keys :: "('k, 'v) hash_map \<Rightarrow> 'k list" where
  "hm_keys m = map fst m"

lemma hm_wf_Nil [simp, intro!]: "hm_wf []"
  by (simp add: hm_wf_def)

lemma hm_wf_insert [simp, intro]: "hm_wf m \<Longrightarrow> hm_wf (hm_insert k v m)"
  by (simp add: hm_wf_def hm_insert_def distinct_update)

lemma hm_wf_remove [simp, intro]: "hm_wf m \<Longrightarrow> hm_wf (hm_remove k m)"
  by (simp add: hm_wf_def hm_remove_def distinct_delete)

lemma hm_wf_retain [simp, intro]: "hm_wf m \<Longrightarrow> hm_wf (hm_retain P m)"
  by (simp add: hm_wf_def hm_retain_def distinct_map_filter)

lemma hm_get_Nil [simp]: "hm_get [] k = None"
  by (simp add: hm_get_def)

lemma hm_get_insert [simp]: "hm_get (hm_insert k v m) l = (if l = k then Some v else hm_get m l)"
  by (simp add: hm_get_def hm_insert_def update_conv')

lemma hm_get_remove [simp]: "hm_get (hm_remove k m) l = (if l = k then None else hm_get m l)"
  by (simp add: hm_get_def hm_remove_def delete_conv')

lemma hm_get_retain:
  "hm_wf m \<Longrightarrow> hm_get (hm_retain P m) k =
     (case hm_get m k of None \<Rightarrow> None | Some v \<Rightarrow> if P k v then Some v else None)"
  by (induction m)
    (auto simp: hm_wf_def hm_get_def hm_retain_def image_iff split: option.splits
      dest!: map_of_SomeD)

lemma hm_get_in_set: "hm_wf m \<Longrightarrow> hm_get m k = Some v \<longleftrightarrow> (k, v) \<in> set m"
  by (simp add: hm_wf_def hm_get_def)

lemma hm_get_keys: "hm_get m k \<noteq> None \<longleftrightarrow> k \<in> set (hm_keys m)"
  by (auto simp: hm_get_def hm_keys_def map_of_eq_None_iff image_iff)

lemma hm_get_None_keys: "hm_get m k = None \<longleftrightarrow> k \<notin> set (hm_keys m)"
  using hm_get_keys [of m k] by auto

lemma length_hm_remove:
  "hm_wf m \<Longrightarrow> hm_get m k \<noteq> None \<Longrightarrow> length (hm_remove k m) = length m - 1"
proof (induction m)
  case (Cons a m)
  obtain l v where a: "a = (l, v)" by (cases a)
  have del: "k \<notin> fst ` set m \<Longrightarrow> AList.delete k m = m"
    by (simp add: delete_idem)
  from Cons show ?case
    by (cases m) (auto simp: a hm_wf_def hm_get_def hm_remove_def del split: if_splits)
qed simp

lemma hm_remove_absent: "hm_get m k = None \<Longrightarrow> hm_remove k m = m"
  by (simp add: hm_remove_def hm_get_def map_of_eq_None_iff delete_idem)

lemma length_hm_insert:
  "length (hm_insert k v m) = (if hm_get m k = None then Suc (length m) else length m)"
  by (induction m) (auto simp: hm_get_def hm_insert_def)

lemma length_hm_retain [simp]: "length (hm_retain P m) \<le> length m"
  by (simp add: hm_retain_def)

section \<open>Time\<close>

definition millis :: "nat \<Rightarrow> nat" where "millis n = n * 1000000"

definition secs :: "nat \<Rightarrow> nat" where "secs n = n * 1000000000"

text \<open>\<open>now.saturating_duration_since(t)\<close> and \<open>t.elapsed()\<close>: subtraction on \<open>nat\<close>.\<close>

definition since :: "nat \<Rightarrow> nat \<Rightarrow> nat" where "since now t = now - t"

section \<open>Text\<close>

fun starts_with :: "string \<Rightarrow> string \<Rightarrow> bool" where
  "starts_with s [] = True"
| "starts_with [] (p # ps) = False"
| "starts_with (c # cs) (p # ps) = (c = p \<and> starts_with cs ps)"

fun contains :: "string \<Rightarrow> string \<Rightarrow> bool" where
  "contains [] p = (p = [])"
| "contains (c # cs) p = (starts_with (c # cs) p \<or> contains cs p)"

definition ascii_lower :: "char \<Rightarrow> char" where
  "ascii_lower c = (let n = (of_char c :: nat) in
     if 65 \<le> n \<and> n \<le> 90 then char_of (n + 32) else c)"

definition to_ascii_lowercase :: "string \<Rightarrow> string" where
  "to_ascii_lowercase = map ascii_lower"

lemma starts_with_iff: "starts_with s p \<longleftrightarrow> (\<exists>t. s = p @ t)"
  by (induction s p rule: starts_with.induct) auto

lemma contains_iff: "contains s p \<longleftrightarrow> (\<exists>u v. s = u @ p @ v)"
proof (induction s)
  case (Cons c cs)
  have "(\<exists>u v. c # cs = u @ p @ v) \<longleftrightarrow> (\<exists>v. c # cs = p @ v) \<or> (\<exists>u v. cs = u @ p @ v)"
    by (metis append_Cons append_Nil list.exhaust list.inject)
  with Cons show ?case by (simp add: starts_with_iff)
qed simp

lemma contains_append_left: "contains t p \<Longrightarrow> contains (s @ t) p"
  by (metis append_assoc contains_iff)

lemma contains_append_right: "contains s p \<Longrightarrow> contains (s @ t) p"
  by (metis append_assoc contains_iff)

definition digit_char :: "nat \<Rightarrow> char" where
  "digit_char d = char_of (48 + d)"

fun show_nat :: "nat \<Rightarrow> string" where
  "show_nat n = (if n < 10 then [digit_char n] else show_nat (n div 10) @ [digit_char (n mod 10)])"

declare show_nat.simps [simp del]

definition show_int :: "int \<Rightarrow> string" where
  "show_int i = (if i < 0 then CHR ''-'' # show_nat (nat (- i)) else show_nat (nat i))"

end
