(* ===== verification/Domain.thy ===== *)
theory Domain
  imports Prelude
begin

text \<open>
  The domain types of \<open>gemacast-core/src/domain\<close>: addresses and identifiers, the validated
  bitrate, network links with the jitter profile chosen for a pair of links, and the error
  types with the messages their \<open>Display\<close> prints. Fields of third-party error types are
  strings. An \<open>f32\<close> is its IEEE bit pattern, since these types only store and copy it.
\<close>

section \<open>Addresses and identifiers\<close>

type_synonym i32 = int
type_synonym f32 = "32 word"
type_synonym device_id = string

datatype ip_addr = IpV4 u8 u8 u8 u8 | IpV6 "128 word"

datatype socket_addr = SocketAddr (addr_ip: ip_addr) (addr_port: u16)

fun is_loopback :: "ip_addr \<Rightarrow> bool" where
  "is_loopback (IpV4 a b c d) = (a = 127)"
| "is_loopback (IpV6 w) = (w = 1)"

definition set_port :: "u16 \<Rightarrow> socket_addr \<Rightarrow> socket_addr" where
  "set_port p a = SocketAddr (addr_ip a) p"

datatype target_id = Udp socket_addr | Tcp device_id

datatype transport_type = TransportWifi | TransportUsb | TransportAdb

datatype audio_source = Desktop | Process u32 string

record discovered_device =
  dev_id :: device_id
  dev_name :: string
  dev_addr :: socket_addr
  dev_last_seen :: nat
  dev_is_offline :: bool
  dev_transport :: "transport_type option"

definition from_presence ::
  "device_id \<Rightarrow> string \<Rightarrow> bool \<Rightarrow> socket_addr \<Rightarrow> transport_type option \<Rightarrow> nat \<Rightarrow> discovered_device" where
  "from_presence streamer_id streamer_name is_offline addr transport now =
     \<lparr>dev_id = streamer_id, dev_name = streamer_name, dev_addr = addr, dev_last_seen = now,
      dev_is_offline = is_offline, dev_transport = transport\<rparr>"

section \<open>Errors\<close>

datatype protocol_error =
    UnsupportedAudioFormat u8
  | InvalidPcmDatagram string
  | PacketTooShort nat nat
  | PacketLengthExceedsBuffer nat nat
  | PacketPayloadTooLarge nat nat
  | EmptyAdbHandshakeField string
  | AdbHandshakeFieldTooLong string nat nat
  | MissingAdbSessionCredential string

datatype codec_direction = EncoderDir | DecoderDir

datatype stream_direction = InputDir | OutputDir

datatype audio_error =
    HostUnavailable string
  | NoOutputDevice
  | StreamConfigUnavailable string
  | BuildStreamFailed stream_direction string
  | PlayStreamFailed stream_direction string
  | PauseStreamFailed stream_direction string
  | StreamError string
  | OpusInitFailed codec_direction string
  | InvalidBitrate i32 i32 i32
  | OpusCodecFailed codec_direction string
  | ProcessCaptureUnavailable
  | ProcessNotFound u32
  | CaptureInstanceFailed string
  | MissingOpusEncoder
  | CapturePoolExhausted nat
  | ResampleFailed string
  | UnsupportedCaptureFormat u32 nat
  | InvalidFrameLength nat nat
  | SourceNotSubscribed
  | PlaybackControlUnavailable
  | PlaybackControlFailed string

fun display_codec_direction :: "codec_direction \<Rightarrow> string" where
  "display_codec_direction EncoderDir = ''encoder''"
| "display_codec_direction DecoderDir = ''decoder''"

fun display_stream_direction :: "stream_direction \<Rightarrow> string" where
  "display_stream_direction InputDir = ''input''"
| "display_stream_direction OutputDir = ''output''"

fun display_audio_error :: "audio_error \<Rightarrow> string" where
  "display_audio_error (HostUnavailable e) = ''audio host is not available''"
| "display_audio_error NoOutputDevice = ''no default output device available''"
| "display_audio_error (StreamConfigUnavailable e) =
     ''failed to get default stream config from output device''"
| "display_audio_error (BuildStreamFailed d e) =
     ''failed to build '' @ display_stream_direction d @ '' stream on output device''"
| "display_audio_error (PlayStreamFailed d e) =
     ''failed to play '' @ display_stream_direction d @ '' stream''"
| "display_audio_error (PauseStreamFailed d e) =
     ''failed to pause '' @ display_stream_direction d @ '' stream''"
| "display_audio_error (StreamError e) = ''cpal stream error''"
| "display_audio_error (OpusInitFailed d e) =
     ''failed to create Opus '' @ display_codec_direction d"
| "display_audio_error (InvalidBitrate v lo hi) =
     ''invalid audio bitrate '' @ show_int v @ '' bps (expected '' @ show_int lo @ ''..='' @
     show_int hi @ '', or null for uncompressed)''"
| "display_audio_error (OpusCodecFailed d e) =
     ''Opus '' @ display_codec_direction d @ '' failed''"
| "display_audio_error ProcessCaptureUnavailable =
     ''per-process audio capture is not available on this platform''"
| "display_audio_error (ProcessNotFound pid) =
     ''process with PID '' @ show_nat (unat pid) @ '' not found or not producing audio''"
| "display_audio_error (CaptureInstanceFailed s) =
     ''failed to create capture instance for source: '' @ s"
| "display_audio_error MissingOpusEncoder = ''compressed stream has no Opus encoder''"
| "display_audio_error (CapturePoolExhausted n) =
     ''capture pool is full (max '' @ show_nat n @ '' concurrent captures)''"
| "display_audio_error (ResampleFailed s) = ''audio resampling failed: '' @ s"
| "display_audio_error (UnsupportedCaptureFormat r c) =
     ''unsupported capture format: '' @ show_nat (unat r) @ '' Hz, '' @ show_nat c @
     '' channel(s) '' @ [CHR 0xE2, CHR 0x80, CHR 0x94] @ '' expected 48000 Hz stereo''"
| "display_audio_error (InvalidFrameLength g e) =
     ''invalid frame length: '' @ show_nat g @ '' samples, expected '' @ show_nat e"
| "display_audio_error SourceNotSubscribed = ''source is not actively subscribed''"
| "display_audio_error PlaybackControlUnavailable = ''playback control channel is unavailable''"
| "display_audio_error (PlaybackControlFailed s) = ''playback control failed: '' @ s"

section \<open>Bitrate\<close>

definition MIN_OPUS_BITRATE_BPS :: i32 where "MIN_OPUS_BITRATE_BPS = 6000"
definition MAX_OPUS_BITRATE_BPS :: i32 where "MAX_OPUS_BITRATE_BPS = 512000"

datatype audio_bitrate = Uncompressed | Opus i32

definition from_wire :: "i32 option \<Rightarrow> audio_error + audio_bitrate" where
  "from_wire v = (case v of
       None \<Rightarrow> Inr Uncompressed
     | Some bps \<Rightarrow>
         if MIN_OPUS_BITRATE_BPS \<le> bps \<and> bps \<le> MAX_OPUS_BITRATE_BPS then Inr (Opus bps)
         else Inl (InvalidBitrate bps MIN_OPUS_BITRATE_BPS MAX_OPUS_BITRATE_BPS))"

fun to_wire :: "audio_bitrate \<Rightarrow> i32 option" where
  "to_wire Uncompressed = None"
| "to_wire (Opus bps) = Some bps"

fun bitrate_ok :: "audio_bitrate \<Rightarrow> bool" where
  "bitrate_ok Uncompressed = True"
| "bitrate_ok (Opus bps) = (MIN_OPUS_BITRATE_BPS \<le> bps \<and> bps \<le> MAX_OPUS_BITRATE_BPS)"

text \<open>
  The wire form of a bitrate and the validated bitrate correspond exactly: a wire value is
  accepted as \<open>b\<close> precisely when \<open>b\<close> is within Opus' limits and prints as that wire value, so
  nothing is altered on the way and nothing invalid gets through.
\<close>

theorem from_wire_to_wire: "from_wire v = Inr b \<longleftrightarrow> bitrate_ok b \<and> to_wire b = v"
  by (cases b) (auto simp: from_wire_def split: option.splits)

lemma from_wire_error:
  "from_wire v = Inl e \<Longrightarrow>
     \<exists>bps. v = Some bps \<and> e = InvalidBitrate bps MIN_OPUS_BITRATE_BPS MAX_OPUS_BITRATE_BPS"
  by (auto simp: from_wire_def split: option.splits if_splits)

section \<open>Network links and jitter profiles\<close>

datatype network_link = LAdb | UsbTether | Wifi5Ghz | Wifi24Ghz | Ethernet | WifiUnknown | LUnknown

fun quality_rank :: "network_link \<Rightarrow> u8" where
  "quality_rank LAdb = 0"
| "quality_rank UsbTether = 0"
| "quality_rank Ethernet = 1"
| "quality_rank Wifi5Ghz = 2"
| "quality_rank WifiUnknown = 3"
| "quality_rank Wifi24Ghz = 4"
| "quality_rank LUnknown = 5"

record link_pair =
  phone :: network_link
  pc :: network_link

definition has_link :: "link_pair \<Rightarrow> network_link \<Rightarrow> bool" where
  "has_link p l \<longleftrightarrow> phone p = l \<or> pc p = l"

definition effective_link :: "link_pair \<Rightarrow> network_link" where
  "effective_link p =
     (if has_link p LAdb then LAdb
      else if has_link p UsbTether then UsbTether
      else if has_link p Wifi24Ghz then Wifi24Ghz
      else if has_link p Wifi5Ghz then Wifi5Ghz
      else if has_link p Ethernet then
        (if has_link p WifiUnknown \<or> has_link p LUnknown then WifiUnknown else Ethernet)
      else if has_link p WifiUnknown then WifiUnknown
      else LUnknown)"

record jitter_config =
  min_depth_ms :: u32
  comfort_cap_ms :: u32
  peak_decay_halflife_ms :: u32
  resume_threshold_pct :: f32
  static_target_ms :: "u32 option"

text \<open>The bit patterns of the \<open>f32\<close> literals \<open>0.0\<close>, \<open>0.2\<close>, \<open>0.25\<close> and \<open>0.5\<close>.\<close>

definition f32_0 :: f32 where "f32_0 = 0"
definition f32_0_2 :: f32 where "f32_0_2 = 0x3E4CCCCD"
definition f32_0_25 :: f32 where "f32_0_25 = 0x3E800000"
definition f32_0_5 :: f32 where "f32_0_5 = 0x3F000000"

definition default_jitter_config :: jitter_config where
  "default_jitter_config =
     \<lparr>min_depth_ms = 0, comfort_cap_ms = 0, peak_decay_halflife_ms = 1000,
      resume_threshold_pct = f32_0, static_target_ms = None\<rparr>"

definition for_link_pair :: "link_pair \<Rightarrow> jitter_config" where
  "for_link_pair p = (case effective_link p of
       LAdb \<Rightarrow> \<lparr>min_depth_ms = 30, comfort_cap_ms = 100, peak_decay_halflife_ms = 500,
                resume_threshold_pct = f32_0_2, static_target_ms = None\<rparr>
     | UsbTether \<Rightarrow> \<lparr>min_depth_ms = 30, comfort_cap_ms = 100, peak_decay_halflife_ms = 500,
                resume_threshold_pct = f32_0_2, static_target_ms = None\<rparr>
     | Ethernet \<Rightarrow> \<lparr>min_depth_ms = 5, comfort_cap_ms = 200, peak_decay_halflife_ms = 800,
                resume_threshold_pct = f32_0_25, static_target_ms = None\<rparr>
     | Wifi5Ghz \<Rightarrow> \<lparr>min_depth_ms = 30, comfort_cap_ms = 400, peak_decay_halflife_ms = 800,
                resume_threshold_pct = f32_0_25, static_target_ms = None\<rparr>
     | Wifi24Ghz \<Rightarrow> \<lparr>min_depth_ms = 30, comfort_cap_ms = 800, peak_decay_halflife_ms = 0,
                resume_threshold_pct = f32_0_5, static_target_ms = None\<rparr>
     | WifiUnknown \<Rightarrow> \<lparr>min_depth_ms = 30, comfort_cap_ms = 1000, peak_decay_halflife_ms = 0,
                resume_threshold_pct = f32_0_25, static_target_ms = None\<rparr>
     | LUnknown \<Rightarrow> \<lparr>min_depth_ms = 30, comfort_cap_ms = 1000, peak_decay_halflife_ms = 0,
                resume_threshold_pct = f32_0_25, static_target_ms = None\<rparr>)"

definition is_auto_sentinel :: "jitter_config \<Rightarrow> bool" where
  "is_auto_sentinel c \<longleftrightarrow> peak_decay_halflife_ms c = 0 \<and> static_target_ms c = None"

lemma effective_link_sym: "effective_link \<lparr>phone = a, pc = b\<rparr> = effective_link \<lparr>phone = b, pc = a\<rparr>"
  by (simp add: effective_link_def has_link_def disj_commute)

fun cable :: "network_link \<Rightarrow> bool" where
  "cable LAdb = True" | "cable UsbTether = True" | "cable _ = False"

fun known :: "network_link \<Rightarrow> bool" where
  "known WifiUnknown = False" | "known LUnknown = False" | "known _ = True"

text \<open>
  A cable on either side always wins; otherwise, when both sides know their link, the
  effective link is the side with the larger quality rank (the weaker one); and whichever side
  it is learnt from, the result does not depend on which end is the phone. The jitter profile
  picked for any pair has no static target and a minimum depth below its cap.
\<close>

theorem effective_link_bottleneck:
  "(cable (phone p) \<or> cable (pc p) \<longleftrightarrow> cable (effective_link p)) \<and>
   (known (phone p) \<and> known (pc p) \<and> \<not> cable (phone p) \<and> \<not> cable (pc p) \<longrightarrow>
      quality_rank (effective_link p) = max (quality_rank (phone p)) (quality_rank (pc p)) \<and>
      effective_link p \<in> {phone p, pc p}) \<and>
   effective_link \<lparr>phone = pc p, pc = phone p\<rparr> = effective_link p \<and>
   min_depth_ms (for_link_pair p) \<le> comfort_cap_ms (for_link_pair p) \<and>
   static_target_ms (for_link_pair p) = None"
  by (cases "phone p"; cases "pc p")
    (simp_all add: effective_link_def has_link_def for_link_pair_def max_def word_le_nat_alt)

theorem effective_link_bottleneck_witness:
  "quality_rank (effective_link \<lparr>phone = Wifi24Ghz, pc = Ethernet\<rparr>) = 4"
  using effective_link_bottleneck [of "\<lparr>phone = Wifi24Ghz, pc = Ethernet\<rparr>"] by simp

end
