(* ===== verification/Float32.thy ===== *)
theory Float32
  imports Domain "HOL-Library.Log_Nat"
begin

text \<open>
  Single-precision arithmetic as the language defines it (IEEE 754 binary32, round to nearest,
  ties to even), on bit patterns. A finite pattern is a signed integer times a power of
  two; every operation computes its exact result as a ratio of integers and rounds it once, so
  the operations evaluate. The few places of
  the program where a decision hangs on \<open>f32\<close> values (silence detection, the filtered buffer
  level) are modelled with these operations and not with real numbers.
\<close>

section \<open>Patterns and values\<close>

definition f32_sign :: "f32 \<Rightarrow> bool" where "f32_sign w \<longleftrightarrow> 0x80000000 \<le> w"

definition f32_exp :: "f32 \<Rightarrow> nat" where "f32_exp w = unat w div 2 ^ 23 mod 256"

definition f32_frac :: "f32 \<Rightarrow> nat" where "f32_frac w = unat w mod 2 ^ 23"

definition f32_is_nan :: "f32 \<Rightarrow> bool" where
  "f32_is_nan w \<longleftrightarrow> f32_exp w = 255 \<and> f32_frac w \<noteq> 0"

definition f32_is_inf :: "f32 \<Rightarrow> bool" where
  "f32_is_inf w \<longleftrightarrow> f32_exp w = 255 \<and> f32_frac w = 0"

definition f32_nan :: f32 where "f32_nan = 0x7FC00000"

definition f32_pack :: "bool \<Rightarrow> nat \<Rightarrow> f32" where
  "f32_pack s n = of_nat (n + (if s then 2 ^ 31 else 0))"

definition f32_inf :: "bool \<Rightarrow> f32" where "f32_inf s = f32_pack s 0x7F800000"

text \<open>A finite pattern is \<open>\<plusminus> f32_mant w * 2 ^ f32_scale w\<close>.\<close>

definition f32_mant :: "f32 \<Rightarrow> nat" where
  "f32_mant w = (if f32_exp w = 0 then f32_frac w else f32_frac w + 2 ^ 23)"

definition f32_scale :: "f32 \<Rightarrow> int" where
  "f32_scale w = (if f32_exp w = 0 then - 149 else int (f32_exp w) - 150)"

text \<open>The finite value in units of \<open>2 ^ u\<close>, for a unit no larger than its own scale.\<close>

definition f32_units :: "int \<Rightarrow> f32 \<Rightarrow> int" where
  "f32_units u w =
     (let m = int (f32_mant w * 2 ^ nat (f32_scale w - u)) in if f32_sign w then - m else m)"

definition f32_is_zero :: "f32 \<Rightarrow> bool" where
  "f32_is_zero w \<longleftrightarrow> f32_exp w = 0 \<and> f32_frac w = 0"

section \<open>Rounding\<close>

text \<open>The quotient \<open>n / d\<close> rounded to the nearest integer, ties to even.\<close>

definition div_half_even :: "nat \<Rightarrow> nat \<Rightarrow> nat" where
  "div_half_even n d =
     (let m = n div d; r = n mod d
      in if 2 * r < d then m else if d < 2 * r then m + 1 else if even m then m else m + 1)"

text \<open>The exponent of the binade that holds the positive rational \<open>p / q\<close>.\<close>

definition log2_ratio :: "nat \<Rightarrow> nat \<Rightarrow> int" where
  "log2_ratio p q =
     (let k = int (floorlog 2 p) - int (floorlog 2 q)
      in if q * 2 ^ nat k \<le> p * 2 ^ nat (- k) then k else k - 1)"

text \<open>
  The pattern with exponent \<open>e\<close> and 24-bit significand \<open>m\<close>: a carry out of the significand
  moves into the exponent field by itself, and a pattern past the largest finite one is
  infinity.
\<close>

definition f32_assemble :: "bool \<Rightarrow> int \<Rightarrow> nat \<Rightarrow> f32" where
  "f32_assemble s e m =
     (let n = nat (e + 126) * 2 ^ 23 + m
      in if 0x7F800000 \<le> n then f32_inf s else f32_pack s n)"

definition f32_of_ratio :: "bool \<Rightarrow> nat \<Rightarrow> nat \<Rightarrow> f32" where
  "f32_of_ratio s p q =
     (if p = 0 then f32_pack s 0
      else let e = max (log2_ratio p q) (- 126)
           in f32_assemble s e (div_half_even (p * 2 ^ nat (23 - e)) (q * 2 ^ nat (e - 23))))"

section \<open>Operations\<close>

definition f32_add :: "f32 \<Rightarrow> f32 \<Rightarrow> f32" where
  "f32_add a b =
     (if f32_is_nan a \<or> f32_is_nan b then f32_nan
      else if f32_is_inf a then
        (if f32_is_inf b \<and> f32_sign a \<noteq> f32_sign b then f32_nan else a)
      else if f32_is_inf b then b
      else let u = min (f32_scale a) (f32_scale b); t = f32_units u a + f32_units u b
           in if t = 0 then f32_pack (f32_sign a \<and> f32_sign b) 0
              else f32_of_ratio (t < 0) (nat \<bar>t\<bar> * 2 ^ nat u) (2 ^ nat (- u)))"

definition f32_neg :: "f32 \<Rightarrow> f32" where
  "f32_neg a = a + 0x80000000"

definition f32_sub :: "f32 \<Rightarrow> f32 \<Rightarrow> f32" where
  "f32_sub a b = f32_add a (f32_neg b)"

definition f32_mul :: "f32 \<Rightarrow> f32 \<Rightarrow> f32" where
  "f32_mul a b =
     (let s = (f32_sign a \<noteq> f32_sign b) in
      if f32_is_nan a \<or> f32_is_nan b then f32_nan
      else if f32_is_inf a then (if f32_is_zero b then f32_nan else f32_inf s)
      else if f32_is_inf b then (if f32_is_zero a then f32_nan else f32_inf s)
      else let u = f32_scale a + f32_scale b
           in f32_of_ratio s (f32_mant a * f32_mant b * 2 ^ nat u) (2 ^ nat (- u)))"

definition f32_div :: "f32 \<Rightarrow> f32 \<Rightarrow> f32" where
  "f32_div a b =
     (let s = (f32_sign a \<noteq> f32_sign b) in
      if f32_is_nan a \<or> f32_is_nan b then f32_nan
      else if f32_is_inf a then (if f32_is_inf b then f32_nan else f32_inf s)
      else if f32_is_inf b then f32_pack s 0
      else if f32_is_zero b then (if f32_is_zero a then f32_nan else f32_inf s)
      else let u = f32_scale a - f32_scale b
           in f32_of_ratio s (f32_mant a * 2 ^ nat u) (f32_mant b * 2 ^ nat (- u)))"

definition f32_of_nat :: "nat \<Rightarrow> f32" where
  "f32_of_nat n = f32_of_ratio False n 1"

definition f32_lt :: "f32 \<Rightarrow> f32 \<Rightarrow> bool" where
  "f32_lt a b \<longleftrightarrow>
     \<not> f32_is_nan a \<and> \<not> f32_is_nan b \<and>
     (if f32_is_inf a then f32_sign a \<and> \<not> (f32_is_inf b \<and> f32_sign b)
      else if f32_is_inf b then \<not> f32_sign b
      else let u = min (f32_scale a) (f32_scale b) in f32_units u a < f32_units u b)"

text \<open>\<open>f32::max\<close>: the other operand when one is a NaN.\<close>

definition f32_max :: "f32 \<Rightarrow> f32 \<Rightarrow> f32" where
  "f32_max a b = (if f32_is_nan a then b else if f32_is_nan b then a
                  else if f32_lt a b then b else a)"

text \<open>
  The correctly rounded square root: the integer square root of the scaled value, rounded up
  exactly when the value lies above the square of the midpoint (it is never on it).
\<close>

fun isqrt :: "nat \<Rightarrow> nat" where
  "isqrt n = (if n = 0 then 0
     else let r = 2 * isqrt (n div 4) in if (r + 1) * (r + 1) \<le> n then r + 1 else r)"

declare isqrt.simps [simp del]

definition round_sqrt :: "nat \<Rightarrow> nat \<Rightarrow> nat" where
  "round_sqrt n d =
     (let r = isqrt (n div d) in if (2 * r + 1) * (2 * r + 1) * d < 4 * n then r + 1 else r)"

definition f32_sqrt :: "f32 \<Rightarrow> f32" where
  "f32_sqrt a =
     (if f32_is_nan a then f32_nan
      else if f32_is_zero a then a
      else if f32_sign a then f32_nan
      else if f32_is_inf a then a
      else let p = f32_mant a * 2 ^ nat (f32_scale a); q = 2 ^ nat (- f32_scale a);
               e = log2_ratio p q div 2
           in f32_assemble False e
                (round_sqrt (p * 2 ^ (2 * nat (23 - e))) (q * 2 ^ (2 * nat (e - 23)))))"

section \<open>Facts\<close>

lemma isqrt_sq: "isqrt n * isqrt n \<le> n \<and> n < (isqrt n + 1) * (isqrt n + 1)"
proof (induction n rule: isqrt.induct)
  case (1 n)
  show ?case
  proof (cases "n = 0")
    case True
    then show ?thesis by (simp add: isqrt.simps)
  next
    case False
    define r where "r = isqrt (n div 4)"
    from 1 [OF False] have IH: "r * r \<le> n div 4" "n div 4 < (r + 1) * (r + 1)"
      by (simp_all add: r_def)
    have n: "isqrt n = (if (2 * r + 1) * (2 * r + 1) \<le> n then 2 * r + 1 else 2 * r)"
      using False by (subst isqrt.simps) (simp add: r_def Let_def)
    have "4 * (r * r) \<le> n" "n < 4 * ((r + 1) * (r + 1))"
      using IH by (auto simp: less_eq_div_iff_mult_less_eq div_less_iff_less_mult algebra_simps)
    then show ?thesis
      by (auto simp: n algebra_simps)
  qed
qed

lemma f32_zero_facts [simp]:
  "f32_is_zero 0" "\<not> f32_is_nan 0" "\<not> f32_is_inf 0" "\<not> f32_sign 0"
  "f32_mant 0 = 0" "f32_units u 0 = 0"
  by (simp_all add: f32_is_zero_def f32_is_nan_def f32_is_inf_def f32_sign_def f32_exp_def
      f32_frac_def f32_mant_def f32_units_def)

lemma f32_mul_zero [simp]: "f32_mul 0 0 = 0"
  by (simp add: f32_mul_def f32_of_ratio_def f32_pack_def)

lemma f32_add_zero [simp]: "f32_add 0 0 = 0"
  by (simp add: f32_add_def f32_pack_def)

lemma f32_sqrt_zero [simp]: "f32_sqrt 0 = 0"
  by (simp add: f32_sqrt_def)

text \<open>Equations that evaluate the operations on numerals by rewriting.\<close>

lemmas f32_eval =
  f32_mul_def f32_add_def f32_div_def f32_sub_def f32_neg_def f32_sqrt_def f32_lt_def f32_of_nat_def
  f32_of_ratio_def f32_assemble_def log2_ratio_def div_half_even_def round_sqrt_def
  f32_mant_def f32_scale_def f32_units_def f32_is_zero_def f32_is_nan_def f32_is_inf_def
  f32_sign_def f32_exp_def f32_frac_def f32_inf_def f32_pack_def Let_def compute_floorlog

end
