(* ===== verification/Wire.thy ===== *)
theory Wire
  imports Float32
begin

text \<open>
  The byte formats: the four-chunk PCM datagram (\<open>audio/pcm_datagram.rs\<close>), the base audio
  packet written by the encoder (\<open>stream/streamer/encode.rs\<close>) and read by the player
  (\<open>stream/player/packet.rs\<close>), the echo ping (\<open>stream/echo.rs\<close>), the ADB length-prefixed
  framing (\<open>network/adb/framer.rs\<close>, \<open>adapters/transport.rs\<close>) and the ADB audio handshake
  (\<open>stream/player/handshake.rs\<close>, \<open>network/adb/server.rs\<close>).
  A panic of the code is \<open>None\<close> in an \<open>option\<close> result.
\<close>

section \<open>Constants\<close>

definition OPUS_FRAME_SIZE :: nat where "OPUS_FRAME_SIZE = 480"
definition OPUS_CHANNELS :: nat where "OPUS_CHANNELS = 2"
definition OPUS_FRAME_SAMPLES :: nat where
  "OPUS_FRAME_SAMPLES = OPUS_FRAME_SIZE * OPUS_CHANNELS"
definition OPUS_SAMPLE_RATE :: nat where "OPUS_SAMPLE_RATE = 48000"
definition MAX_OPUS_PACKET_SIZE :: nat where "MAX_OPUS_PACKET_SIZE = 8000"
definition SEQ_NUM_SIZE :: nat where "SEQ_NUM_SIZE = 8"
definition FORMAT_FLAG_SIZE :: nat where "FORMAT_FLAG_SIZE = 1"
definition FORMAT_OPUS :: u8 where "FORMAT_OPUS = 0"
definition FORMAT_UNCOMPRESSED :: u8 where "FORMAT_UNCOMPRESSED = 1"
definition FORMAT_SILENCE :: u8 where "FORMAT_SILENCE = 2"
definition MAX_PACKET_PAYLOAD :: nat where "MAX_PACKET_PAYLOAD = MAX_OPUS_PACKET_SIZE"

definition PCM_FORMAT :: u8 where "PCM_FORMAT = 3"
definition PCM_CHUNKS :: nat where "PCM_CHUNKS = 4"
definition PCM_PAYLOAD :: nat where "PCM_PAYLOAD = OPUS_FRAME_SAMPLES * 4 div PCM_CHUNKS"
definition PCM_HEADER :: nat where "PCM_HEADER = 18"
definition PCM_SIZE :: nat where "PCM_SIZE = PCM_HEADER + PCM_PAYLOAD"

lemmas wire_consts =
  OPUS_FRAME_SIZE_def OPUS_CHANNELS_def OPUS_FRAME_SAMPLES_def MAX_OPUS_PACKET_SIZE_def
  SEQ_NUM_SIZE_def FORMAT_FLAG_SIZE_def FORMAT_OPUS_def FORMAT_UNCOMPRESSED_def
  FORMAT_SILENCE_def MAX_PACKET_PAYLOAD_def PCM_FORMAT_def PCM_CHUNKS_def PCM_PAYLOAD_def
  PCM_HEADER_def PCM_SIZE_def

section \<open>PCM datagrams\<close>

record pcm_chunk =
  ch_sequence :: u64
  ch_generation :: u64
  ch_index :: nat
  ch_payload :: bytes

definition pcm_encode :: "bytes \<Rightarrow> u64 \<Rightarrow> nat \<Rightarrow> bytes option" where
  "pcm_encode frame generation chunk =
     (if length frame = 9 + PCM_PAYLOAD * PCM_CHUNKS \<and> frame ! 8 = FORMAT_UNCOMPRESSED \<and>
         chunk < PCM_CHUNKS
      then Some (take 8 frame @ [PCM_FORMAT] @ u64_to_be_bytes generation @ [of_nat chunk] @
                 take PCM_PAYLOAD (drop (9 + chunk * PCM_PAYLOAD) frame))
      else None)"

definition pcm_decode :: "bytes \<Rightarrow> protocol_error + pcm_chunk" where
  "pcm_decode bs =
     (if length bs \<noteq> PCM_SIZE then Inl (InvalidPcmDatagram ''wrong chunk size'')
      else if bs ! 8 \<noteq> PCM_FORMAT \<or> PCM_CHUNKS \<le> unat (bs ! 17)
      then Inl (InvalidPcmDatagram ''unknown format or chunk index'')
      else Inr \<lparr>ch_sequence = u64_from_be_bytes (take 8 bs),
                ch_generation = u64_from_be_bytes (take 8 (drop 9 bs)),
                ch_index = unat (bs ! 17), ch_payload = drop PCM_HEADER bs\<rparr>)"

text \<open>The four chunks of a frame, as the sender emits them.\<close>

definition pcm_encode_all :: "bytes \<Rightarrow> u64 \<Rightarrow> bytes option list" where
  "pcm_encode_all frame generation = map (pcm_encode frame generation) [0..<PCM_CHUNKS]"

definition pcm_frame_ok :: "bytes \<Rightarrow> bool" where
  "pcm_frame_ok frame \<longleftrightarrow>
     length frame = 9 + PCM_PAYLOAD * PCM_CHUNKS \<and> frame ! 8 = FORMAT_UNCOMPRESSED"

lemma pcm_encode_Some_iff:
  "(\<exists>d. pcm_encode frame g c = Some d) \<longleftrightarrow> pcm_frame_ok frame \<and> c < PCM_CHUNKS"
  by (auto simp: pcm_encode_def pcm_frame_ok_def)

lemma pcm_encode_length: "pcm_encode frame g c = Some d \<Longrightarrow> length d = PCM_SIZE"
  by (auto simp: pcm_encode_def wire_consts split: if_splits)

definition pcm_slice :: "bytes \<Rightarrow> nat \<Rightarrow> bytes" where
  "pcm_slice frame c = take PCM_PAYLOAD (drop (9 + c * PCM_PAYLOAD) frame)"

lemma pcm_roundtrip:
  assumes "pcm_encode frame g c = Some d"
  shows "pcm_decode d = Inr \<lparr>ch_sequence = u64_from_be_bytes (take 8 frame), ch_generation = g,
           ch_index = c, ch_payload = pcm_slice frame c\<rparr>"
proof -
  from assms have ok: "length frame = 9 + PCM_PAYLOAD * PCM_CHUNKS" "c < 4"
    and d: "d = take 8 frame @ [PCM_FORMAT] @ u64_to_be_bytes g @ [of_nat c] @ pcm_slice frame c"
    by (auto simp: pcm_encode_def pcm_slice_def wire_consts split: if_splits)
  have h8: "length (take 8 frame) = 8" using ok by (simp add: wire_consts)
  have u: "unat (of_nat c :: u8) = c"
    using ok by (simp add: unat_of_nat take_bit_eq_mod)
  have "length (pcm_slice frame c) = PCM_PAYLOAD"
    using ok by (simp add: pcm_slice_def wire_consts)
  then have "length d = PCM_SIZE"
    using h8 by (simp add: d wire_consts)
  moreover have "d ! 8 = PCM_FORMAT" "d ! 17 = of_nat c"
    using h8 by (simp_all add: d nth_append)
  moreover have "take 8 d = take 8 frame" "take 8 (drop 9 d) = u64_to_be_bytes g"
    "drop PCM_HEADER d = pcm_slice frame c"
    using h8 by (simp_all add: d wire_consts)
  ultimately show ?thesis
    using ok u by (simp add: pcm_decode_def wire_consts)
qed

lemma concat_slices:
  assumes "length frame = 9 + 3840"
  shows "pcm_slice frame 0 @ pcm_slice frame 1 @ pcm_slice frame 2 @ pcm_slice frame 3 = drop 9 frame"
proof -
  have split: "\<And>n xs. take 960 (drop n xs) @ drop (960 + n) xs = drop n (xs :: bytes)"
    by (metis append_take_drop_id drop_drop)
  have "pcm_slice frame 3 = drop 2889 frame"
    using assms by (simp add: pcm_slice_def wire_consts)
  then show ?thesis
    using split [of 1929 frame] split [of 969 frame] split [of 9 frame]
    by (simp add: pcm_slice_def wire_consts)
qed

text \<open>
  Cutting an uncompressed frame into its four datagrams and decoding them loses nothing:
  every datagram decodes, carries the frame's sequence number, the sender's generation and its
  own index, fits one datagram of 978 bytes, and the four payloads in order are exactly the
  frame's PCM bytes.
\<close>

theorem pcm_chunks_preserve_frame:
  assumes "pcm_frame_ok frame"
  shows "\<exists>d0 d1 d2 d3. pcm_encode_all frame g = [Some d0, Some d1, Some d2, Some d3] \<and>
     map pcm_decode [d0, d1, d2, d3] =
       map (\<lambda>i. Inr \<lparr>ch_sequence = u64_from_be_bytes (take 8 frame), ch_generation = g,
                     ch_index = i, ch_payload = pcm_slice frame i\<rparr>) [0, 1, 2, 3] \<and>
     concat (map (pcm_slice frame) [0, 1, 2, 3]) = drop 9 frame \<and>
     map length [d0, d1, d2, d3] = [978, 978, 978, 978]"
proof -
  have "\<exists>d. pcm_encode frame g c = Some d" if "c < 4" for c
    using assms that by (simp add: pcm_encode_Some_iff PCM_CHUNKS_def)
  from this [of 0] this [of 1] this [of 2] this [of 3] obtain d0 d1 d2 d3 where
    d: "pcm_encode frame g 0 = Some d0" "pcm_encode frame g 1 = Some d1"
       "pcm_encode frame g 2 = Some d2" "pcm_encode frame g 3 = Some d3"
    by auto
  moreover have "length frame = 9 + 3840"
    using assms by (simp add: pcm_frame_ok_def wire_consts)
  moreover have "[0..<PCM_CHUNKS] = [0, 1, 2, 3]"
    by (simp add: PCM_CHUNKS_def upt_rec)
  ultimately show ?thesis
    using concat_slices [of frame] d [THEN pcm_roundtrip] d [THEN pcm_encode_length]
    by (simp add: pcm_encode_all_def wire_consts)
qed

theorem pcm_chunks_preserve_frame_witness:
  "\<exists>d0 d1 d2 d3. pcm_encode_all (replicate 8 0 @ 1 # replicate 3840 7) 5 =
     [Some d0, Some d1, Some d2, Some d3]"
proof -
  have "pcm_frame_ok (replicate 8 0 @ 1 # replicate 3840 7)"
    by (simp add: pcm_frame_ok_def wire_consts nth_append)
  from pcm_chunks_preserve_frame [OF this, of 5] show ?thesis by blast
qed

section \<open>Audio packets\<close>

record raw_packet =
  seq_num :: u64
  payload_data :: bytes
  payload_len :: nat
  arrival_time :: nat
  is_uncompressed :: bool
  is_silence :: bool

definition zeroed :: "nat \<Rightarrow> raw_packet" where
  "zeroed now = \<lparr>seq_num = 0, payload_data = replicate MAX_PACKET_PAYLOAD 0, payload_len = 0,
     arrival_time = now, is_uncompressed = False, is_silence = False\<rparr>"

text \<open>\<open>AudioPacketDecoder::decode(buffer, len)\<close> at the instant \<open>now\<close>.\<close>

definition packet_decode :: "bytes \<Rightarrow> nat \<Rightarrow> nat \<Rightarrow> protocol_error + raw_packet" where
  "packet_decode buffer len now =
     (let header_len = SEQ_NUM_SIZE + FORMAT_FLAG_SIZE in
      if len < header_len then Inl (PacketTooShort len header_len)
      else if length buffer < len then Inl (PacketLengthExceedsBuffer len (length buffer))
      else
        let seq = u64_from_be_bytes (take SEQ_NUM_SIZE buffer);
            format_flag = buffer ! SEQ_NUM_SIZE in
        if format_flag \<notin> {FORMAT_OPUS, FORMAT_UNCOMPRESSED, FORMAT_SILENCE}
        then Inl (UnsupportedAudioFormat format_flag)
        else
          let plen = len - header_len in
          if MAX_PACKET_PAYLOAD < plen then Inl (PacketPayloadTooLarge plen MAX_PACKET_PAYLOAD)
          else Inr \<lparr>seq_num = seq,
                 payload_data = copy_at 0 (take plen (drop header_len buffer))
                                  (replicate MAX_PACKET_PAYLOAD 0),
                 payload_len = plen, arrival_time = now,
                 is_uncompressed = (format_flag = FORMAT_UNCOMPRESSED),
                 is_silence = (format_flag = FORMAT_SILENCE)\<rparr>)"

definition packet_payload :: "raw_packet \<Rightarrow> bytes" where
  "packet_payload p = take (payload_len p) (payload_data p)"

definition packet_wf :: "raw_packet \<Rightarrow> bool" where
  "packet_wf p \<longleftrightarrow> length (payload_data p) = MAX_PACKET_PAYLOAD \<and>
     payload_len p \<le> MAX_PACKET_PAYLOAD \<and> \<not> (is_uncompressed p \<and> is_silence p)"

text \<open>
  \<open>AudioFrameEncoder::encode\<close>. The codec is an external encoder: \<open>opus\<close> gives its output for
  a frame, or its error. \<open>frame_rms\<close> is the loop over the samples in \<open>f32\<close> arithmetic, and the
  threshold is the pattern of \<open>0.0001\<close>. \<open>f32_ne_bytes\<close> is the memory image of a sample on a
  little-endian machine.
\<close>

definition SILENCE_RMS_THRESHOLD :: f32 where "SILENCE_RMS_THRESHOLD = 0x38D1B717"

definition frame_rms :: "f32 list \<Rightarrow> f32" where
  "frame_rms frame =
     f32_sqrt (f32_div (foldl (\<lambda>sum sample. f32_add sum (f32_mul sample sample)) 0 frame)
                       (f32_of_nat (length frame)))"

definition f32_ne_bytes :: "f32 \<Rightarrow> bytes" where
  "f32_ne_bytes w = rev (u32_to_be_bytes w)"

type_synonym opus_encoder = "f32 list \<Rightarrow> string + bytes"

definition encode_frame ::
  "f32 list \<Rightarrow> opus_encoder option \<Rightarrow> audio_bitrate \<Rightarrow> u64 \<Rightarrow> audio_error + bytes" where
  "encode_frame frame encoder bitrate seq =
     (if length frame \<noteq> OPUS_FRAME_SAMPLES
      then Inl (InvalidFrameLength (length frame) OPUS_FRAME_SAMPLES)
      else
        let silent = f32_lt (frame_rms frame) SILENCE_RMS_THRESHOLD;
            raw = (bitrate = Uncompressed);
            format_flag = (if silent then FORMAT_SILENCE else if raw then FORMAT_UNCOMPRESSED
                           else FORMAT_OPUS);
            packet = (\<lambda>payload. u64_to_be_bytes seq @ [format_flag] @ payload) in
        if silent then Inr (packet [])
        else if raw then Inr (packet (concat (map f32_ne_bytes frame)))
        else case encoder of
            None \<Rightarrow> Inl MissingOpusEncoder
          | Some opus \<Rightarrow> (case opus frame of
                Inl source \<Rightarrow> Inl (OpusCodecFailed EncoderDir source)
              | Inr encoded \<Rightarrow> Inr (packet encoded)))"

definition create_codec ::
  "(i32 \<Rightarrow> string + opus_encoder) \<Rightarrow> audio_bitrate \<Rightarrow> audio_error + opus_encoder option" where
  "create_codec new_opus bitrate = (case bitrate of
       Uncompressed \<Rightarrow> Inr None
     | Opus bps \<Rightarrow> (case new_opus bps of
           Inl source \<Rightarrow> Inl (OpusInitFailed EncoderDir source)
         | Inr encoder \<Rightarrow> Inr (Some encoder)))"

lemma length_ne_bytes [simp]: "length (concat (map f32_ne_bytes xs)) = 4 * length xs"
  by (induction xs) (auto simp: f32_ne_bytes_def)

text \<open>What a packet carries, read off the frame and the bitrate (the abstract view).\<close>

definition expected_payload :: "f32 list \<Rightarrow> opus_encoder option \<Rightarrow> audio_bitrate \<Rightarrow> bytes" where
  "expected_payload frame encoder bitrate =
     (if f32_lt (frame_rms frame) SILENCE_RMS_THRESHOLD then []
      else if bitrate = Uncompressed then concat (map f32_ne_bytes frame)
      else (case encoder of None \<Rightarrow> [] | Some opus \<Rightarrow> projr (opus frame)))"

lemma encode_frame_cases:
  assumes "encode_frame frame encoder bitrate seq = Inr bs"
  shows "length frame = OPUS_FRAME_SAMPLES \<and>
    (\<exists>flag \<in> {FORMAT_OPUS, FORMAT_UNCOMPRESSED, FORMAT_SILENCE}.
       bs = u64_to_be_bytes seq @ [flag] @ expected_payload frame encoder bitrate \<and>
       (flag = FORMAT_SILENCE \<longleftrightarrow> f32_lt (frame_rms frame) SILENCE_RMS_THRESHOLD) \<and>
       (flag = FORMAT_UNCOMPRESSED \<longleftrightarrow>
          bitrate = Uncompressed \<and> \<not> f32_lt (frame_rms frame) SILENCE_RMS_THRESHOLD))"
  using assms
  by (auto simp: encode_frame_def expected_payload_def Let_def wire_consts
      split: if_splits option.splits sum.splits)

text \<open>
  Whatever packet the encoder emits, the player's decoder accepts it and recovers the sequence
  number, the payload and the format: silence frames come back empty and flagged silent,
  uncompressed frames come back as 3840 raw bytes. The only side condition is that an Opus
  packet is no longer than the codec's output buffer.
\<close>

theorem encode_decode_packet:
  assumes enc: "encode_frame frame encoder bitrate seq = Inr bs"
    and fits: "\<And>opus encoded. encoder = Some opus \<Longrightarrow> opus frame = Inr encoded \<Longrightarrow>
                 length encoded \<le> MAX_OPUS_PACKET_SIZE"
  shows "\<exists>p. packet_decode bs (length bs) now = Inr p \<and> packet_wf p \<and> seq_num p = seq \<and>
     arrival_time p = now \<and> packet_payload p = expected_payload frame encoder bitrate \<and>
     (is_silence p \<longleftrightarrow> f32_lt (frame_rms frame) SILENCE_RMS_THRESHOLD) \<and>
     (is_uncompressed p \<longleftrightarrow> bitrate = Uncompressed \<and> \<not> is_silence p) \<and>
     (is_silence p \<longrightarrow> payload_len p = 0) \<and> (is_uncompressed p \<longrightarrow> payload_len p = 3840)"
proof -
  let ?pay = "expected_payload frame encoder bitrate"
  from encode_frame_cases [OF enc] obtain flag where
    len: "length frame = 960" and flag: "flag \<in> {FORMAT_OPUS, FORMAT_UNCOMPRESSED, FORMAT_SILENCE}"
    and bs: "bs = u64_to_be_bytes seq @ [flag] @ ?pay"
    and sil: "flag = FORMAT_SILENCE \<longleftrightarrow> f32_lt (frame_rms frame) SILENCE_RMS_THRESHOLD"
    and unc: "flag = FORMAT_UNCOMPRESSED \<longleftrightarrow>
      bitrate = Uncompressed \<and> \<not> f32_lt (frame_rms frame) SILENCE_RMS_THRESHOLD"
    by (auto simp: wire_consts)
  have short: "length ?pay \<le> 8000"
    using enc fits len
    by (auto simp: expected_payload_def encode_frame_def Let_def wire_consts
        split: if_splits option.splits sum.splits)
  have "bs ! 8 = flag" "take 8 bs = u64_to_be_bytes seq" "drop 9 bs = ?pay"
    "length bs = 9 + length ?pay"
    by (simp_all add: bs nth_append)
  with flag short have dec: "packet_decode bs (length bs) now =
    Inr \<lparr>seq_num = seq, payload_data = copy_at 0 ?pay (replicate 8000 0),
      payload_len = length ?pay, arrival_time = now,
      is_uncompressed = (flag = FORMAT_UNCOMPRESSED), is_silence = (flag = FORMAT_SILENCE)\<rparr>"
    by (auto simp: packet_decode_def Let_def wire_consts)
  show ?thesis
    using short len sil unc
    by (auto simp: dec packet_wf_def packet_payload_def copy_at_def wire_consts
        expected_payload_def)
qed

lemma foldl_square_zero: "foldl (\<lambda>sum sample. f32_add sum (f32_mul sample sample)) 0 (replicate n 0) = 0"
  by (induction n) auto

lemma frame_rms_zero: "frame_rms (replicate OPUS_FRAME_SAMPLES 0) = 0"
proof -
  have "f32_of_nat 960 = 0x44700000" by (simp add: f32_eval)
  then have "f32_div 0 (f32_of_nat 960) = 0" by (simp add: f32_eval)
  then show ?thesis
    by (simp add: frame_rms_def foldl_square_zero wire_consts)
qed

lemma zero_below_threshold: "f32_lt 0 SILENCE_RMS_THRESHOLD"
  by (simp add: SILENCE_RMS_THRESHOLD_def f32_eval)

text \<open>An all-zero frame is sent as the nine-byte silence marker whatever the bitrate.\<close>

lemma encode_zero_frame:
  "encode_frame (replicate OPUS_FRAME_SAMPLES 0) encoder bitrate seq =
     Inr (u64_to_be_bytes seq @ [FORMAT_SILENCE])"
  by (simp add: encode_frame_def frame_rms_zero zero_below_threshold)

theorem encode_decode_packet_witness:
  "\<exists>p. packet_decode (u64_to_be_bytes 7 @ [FORMAT_SILENCE]) 9 3 = Inr p \<and> seq_num p = 7 \<and>
     is_silence p \<and> payload_len p = 0"
  using encode_decode_packet [OF encode_zero_frame [of None Uncompressed 7], of 3]
  by (auto simp: frame_rms_zero zero_below_threshold)

section \<open>Echo pings\<close>

definition ECHO_MAGIC :: bytes where "ECHO_MAGIC = [0xF1, 0x1E]"
definition ECHO_PACKET_LEN :: nat where "ECHO_PACKET_LEN = 10"

definition echo_encode_at :: "u64 \<Rightarrow> bytes" where
  "echo_encode_at send_micros = ECHO_MAGIC @ u64_to_be_bytes send_micros"

definition echo_matches :: "bytes \<Rightarrow> nat \<Rightarrow> bool" where
  "echo_matches buf len \<longleftrightarrow>
     len = ECHO_PACKET_LEN \<and> ECHO_PACKET_LEN \<le> length buf \<and> take 2 buf = ECHO_MAGIC"

definition echo_round_trip_ms_at :: "bytes \<Rightarrow> u64 \<Rightarrow> f32" where
  "echo_round_trip_ms_at buf now_micros =
     (let send_micros = u64_from_be_bytes (take 8 (drop 2 buf))
      in f32_div (f32_of_nat (unat (sat_sub now_micros send_micros))) (f32_of_nat 1000))"

text \<open>
  An audio packet is never taken for an echo as long as its sequence number stays below
  \<open>2 ^ 48\<close> (milliseconds since the epoch do, for millennia): its first byte is zero.
\<close>

lemma be_of_nat_first_zero:
  assumes "x < 256 ^ n"
  shows "be_of_nat (Suc n) x = 0 # be_of_nat n x"
proof -
  have "nat_of_be (0 # bs) = nat_of_be bs" for bs
    by (simp add: nat_of_be_def)
  then have "nat_of_be (0 # be_of_nat n x) = x"
    using assms by (simp add: nat_of_be_of_nat)
  then have "be_of_nat (Suc n) x = be_of_nat (Suc n) (nat_of_be (0 # be_of_nat n x))"
    by simp
  also have "\<dots> = 0 # be_of_nat n x"
    by (rule be_of_nat_of_be) simp
  finally show ?thesis .
qed

lemma u64_first_byte_zero:
  assumes "unat w < 2 ^ 56"
  shows "hd (u64_to_be_bytes w) = 0"
proof -
  have "unat w < 256 ^ 7" using assms by simp
  from be_of_nat_first_zero [OF this] have "be_of_nat 8 (unat w) = 0 # be_of_nat 7 (unat w)"
    by (simp del: be_of_nat.simps)
  then show ?thesis by (simp add: u64_to_be_bytes_def del: be_of_nat.simps)
qed

text \<open>
  An echo ping is recognised and yields the elapsed microseconds it was stamped with, in
  milliseconds, and never goes negative; and no encoded audio packet or PCM datagram with a
  sequence number below \<open>2 ^ 56\<close> is ever recognised as an echo, whatever its length.
\<close>

theorem echo_disjoint_from_audio:
  "echo_matches (echo_encode_at t @ rest) 10 \<and>
   echo_round_trip_ms_at (echo_encode_at t @ rest) now =
     f32_div (f32_of_nat (unat now - unat t)) (f32_of_nat 1000) \<and>
   (encode_frame frame encoder bitrate seq = Inr bs \<and> unat seq < 2 ^ 56 \<longrightarrow>
      \<not> echo_matches (bs @ rest) len) \<and>
   (pcm_encode audio g c = Some d \<and> hd audio = 0 \<longrightarrow> \<not> echo_matches (d @ rest) len)"
proof -
  have audio: "\<not> echo_matches (bs @ rest) len"
    if "encode_frame frame encoder bitrate seq = Inr bs" "unat seq < 2 ^ 56"
  proof -
    from encode_frame_cases [OF that(1)] obtain tl' where bs: "bs = u64_to_be_bytes seq @ tl'"
      by blast
    obtain b0 rest8 where "u64_to_be_bytes seq = b0 # rest8" "length rest8 = 7"
      using length_u64_to_be_bytes [of seq] by (cases "u64_to_be_bytes seq") auto
    with u64_first_byte_zero [OF that(2)] show ?thesis
      by (simp add: bs echo_matches_def ECHO_MAGIC_def take_Cons')
  qed
  have chunk: "\<not> echo_matches (d @ rest) len" if "pcm_encode audio g c = Some d" "hd audio = 0"
  proof -
    from that(1) have "length audio = 3849" "take 8 d = take 8 audio" "length d = 978"
      by (auto simp: pcm_encode_def wire_consts split: if_splits)
    moreover from this have "hd d = hd audio"
      by (metis hd_take zero_less_numeral)
    ultimately show ?thesis
      using that(2) by (cases d) (auto simp: echo_matches_def ECHO_MAGIC_def take_Cons')
  qed
  show ?thesis
    using audio chunk
    by (simp add: echo_matches_def echo_encode_at_def ECHO_MAGIC_def ECHO_PACKET_LEN_def
        echo_round_trip_ms_at_def)
qed

theorem echo_disjoint_from_audio_witness:
  "\<not> echo_matches ((u64_to_be_bytes 7 @ [FORMAT_SILENCE]) @ [1]) 10"
proof -
  have "unat (7 :: u64) < 2 ^ 56" by simp
  with encode_zero_frame [of None Uncompressed 7] show ?thesis
    using echo_disjoint_from_audio by blast
qed

end
