(* ===== verification/Adb_Link.thy ===== *)
theory Adb_Link
  imports Wire
begin

text \<open>
  The ADB audio connection: length-prefixed framing written by \<open>TcpAudioFramer\<close> and read by
  \<open>TcpTransport\<close>, and the handshake the phone sends (\<open>AdbAudioHandshake::encode\<close>) and the PC
  parses (\<open>read_adb_audio_handshake\<close>, \<open>parse_adb_audio_handshake\<close>).

  A socket is the list of what its reads will see: bytes, and read timeouts between them. When
  the list is used up the peer has closed the connection.
\<close>

section \<open>Blocking reads\<close>

datatype read_event = Data u8 | ReadTimeout

datatype io_error_kind = TimedOut | UnexpectedEof | InvalidData

fun read_exact :: "nat \<Rightarrow> read_event list \<Rightarrow> (io_error_kind + bytes) \<times> read_event list" where
  "read_exact 0 s = (Inr [], s)"
| "read_exact (Suc n) [] = (Inl UnexpectedEof, [])"
| "read_exact (Suc n) (ReadTimeout # s) = (Inl TimedOut, s)"
| "read_exact (Suc n) (Data b # s) =
     (case read_exact n s of
        (Inl e, s') \<Rightarrow> (Inl e, s')
      | (Inr bs, s') \<Rightarrow> (Inr (b # bs), s'))"

lemma read_exact_data [simp]: "read_exact (length bs) (map Data bs @ s) = (Inr bs, s)"
  by (induction bs) auto

lemma read_exact_data':
  "length bs = n \<Longrightarrow> read_exact n (map Data bs @ s) = (Inr bs, s)"
  using read_exact_data [of bs s] by blast

lemma read_exact_length: "length (snd (read_exact n s)) \<le> length s"
  by (induction n s rule: read_exact.induct) (auto split: prod.splits sum.splits)

lemma read_exact_Inr_length:
  "read_exact n s = (Inr bs, s') \<Longrightarrow> length bs = n \<and> s = map Data bs @ s'"
  by (induction n s arbitrary: bs s' rule: read_exact.induct)
    (auto split: prod.splits sum.splits)

section \<open>Framing\<close>

definition framer_append :: "bytes \<Rightarrow> bytes \<Rightarrow> bytes" where
  "framer_append batch payload = batch @ u32_to_be_bytes (of_nat (length payload)) @ payload"

definition framer_has_pending :: "bytes \<Rightarrow> bool" where
  "framer_has_pending batch \<longleftrightarrow> batch \<noteq> []"

text \<open>
  \<open>flush\<close>: the result, what went to the socket, and the batch kept. \<open>fails_after\<close> is what the
  socket does: \<open>None\<close> takes every byte, \<open>Some n\<close> fails after \<open>n\<close> bytes. The batch is cleared only
  when the write and the socket flush succeeded.
\<close>

definition framer_flush :: "nat option \<Rightarrow> bytes \<Rightarrow> bool \<times> bytes \<times> bytes" where
  "framer_flush fails_after batch =
     (if batch = [] then (True, [], batch)
      else case fails_after of
        None \<Rightarrow> (True, batch, [])
      | Some n \<Rightarrow> (False, take n batch, batch))"

definition framer_clear :: "bytes \<Rightarrow> bytes" where
  "framer_clear batch = []"

definition tcp_receive ::
  "nat \<Rightarrow> read_event list \<Rightarrow> (io_error_kind + bytes) \<times> read_event list" where
  "tcp_receive buffer_len s =
     (case read_exact 4 s of
        (Inl e, s') \<Rightarrow> (Inl e, s')
      | (Inr len_buf, s') \<Rightarrow>
          let length' = unat (u32_from_be_bytes len_buf) in
          if buffer_len < length' then (Inl InvalidData, s')
          else read_exact length' s')"

lemma tcp_receive_framed:
  assumes "length payload \<le> buffer_len" and "length payload < 2 ^ 32"
  shows "tcp_receive buffer_len (map Data (framer_append [] payload) @ s) = (Inr payload, s)"
proof -
  have "unat (of_nat (length payload) :: u32) = length payload"
    using assms(2) by (simp add: unat_of_nat take_bit_eq_mod)
  then show ?thesis
    using assms(1)
    by (simp add: tcp_receive_def framer_append_def read_exact_data')
qed

text \<open>Receiving until the first error, as the player's loop does between timeouts.\<close>

fun receive_n :: "nat \<Rightarrow> nat \<Rightarrow> read_event list \<Rightarrow> bytes list \<times> io_error_kind option \<times> read_event list" where
  "receive_n 0 buffer_len s = ([], None, s)"
| "receive_n (Suc n) buffer_len s =
     (case tcp_receive buffer_len s of
        (Inl TimedOut, s') \<Rightarrow> receive_n n buffer_len s'
      | (Inl e, s') \<Rightarrow> ([], Some e, s')
      | (Inr p, s') \<Rightarrow> (case receive_n n buffer_len s' of (ps, e, s'') \<Rightarrow> (p # ps, e, s'')))"

declare receive_n.simps [simp del]

definition framed :: "bytes list \<Rightarrow> bytes" where
  "framed ps = fold (\<lambda>p batch. framer_append batch p) ps []"

lemma framed_snoc: "framed (ps @ [p]) = framed ps @ framer_append [] p"
  by (simp add: framed_def framer_append_def)

lemma framed_append: "framed (ps @ qs) = framed ps @ framed qs"
proof (induction qs rule: rev_induct)
  case (snoc q qs)
  then show ?case
    by (metis append.assoc framed_snoc)
qed (simp add: framed_def)

lemma framed_Cons: "framed (p # ps) = framer_append [] p @ framed ps"
  using framed_append [of "[p]" ps] by (simp add: framed_def)

lemma receive_framed:
  "\<forall>p \<in> set ps. length p \<le> buffer_len \<Longrightarrow> buffer_len < 2 ^ 32 \<Longrightarrow>
   receive_n (length ps + k) buffer_len (map Data (framed ps) @ t) =
     (case receive_n k buffer_len t of (qs, e, u) \<Rightarrow> (ps @ qs, e, u))"
proof (induction ps)
  case Nil
  then show ?case by (auto simp: framed_def split: prod.splits)
next
  case (Cons p ps)
  have "length p < 2 ^ 32" using Cons.prems by simp
  with Cons have "tcp_receive buffer_len (map Data (framer_append [] p) @ map Data (framed ps) @ t)
    = (Inr p, map Data (framed ps) @ t)"
    by (intro tcp_receive_framed) auto
  with Cons show ?case by (auto simp: framed_Cons receive_n.simps split: prod.splits)
qed

lemma tcp_receive_eof: "tcp_receive buffer_len [] = (Inl UnexpectedEof, [])"
  by (simp add: tcp_receive_def eval_nat_numeral)

lemma tcp_receive_timeout: "tcp_receive buffer_len (ReadTimeout # u) = (Inl TimedOut, u)"
  by (simp add: tcp_receive_def eval_nat_numeral)

lemmas receive_steps = receive_n.simps tcp_receive_eof tcp_receive_timeout

text \<open>
  C37: a batch of packets appended by the framer and flushed once is received by the transport as the
  same packets in the same order, one per call, and then the end of the stream, provided each
  packet fits the player's receive buffer; and a read timeout that falls between two frames
  (or before the batch) costs nothing but the call that saw it.
\<close>

theorem framed_packets_received:
  assumes "\<forall>p \<in> set ps. length p \<le> buffer_len" and "buffer_len < 2 ^ 32"
  shows "receive_n (length ps) buffer_len (map Data (framed ps) @ s) = (ps, None, s) \<and>
    receive_n (Suc (length ps)) buffer_len (ReadTimeout # map Data (framed ps) @ s) = (ps, None, s) \<and>
    receive_n (Suc (length ps)) buffer_len (map Data (framed ps)) = (ps, Some UnexpectedEof, [])"
  using receive_framed [OF assms, of 0 s] receive_framed [OF assms, of 1 "[]"]
  by (simp add: receive_steps)

theorem framed_packets_received_witness:
  "receive_n 2 8009 (map Data (framed [[1, 2, 3], []]) @ []) = ([[1, 2, 3], []], None, [])"
proof -
  have "\<forall>p \<in> set [[1, 2, 3 :: u8], []]. length p \<le> 8009" "(8009 :: nat) < 2 ^ 32"
    by simp_all
  from framed_packets_received [OF this, of "[]"] show ?thesis
    by (metis One_nat_def Suc_1 list.size(3) list.size(4) plus_1_eq_Suc add.commute)
qed

lemma framed_silence:
  "framed [u64_to_be_bytes 7 @ [FORMAT_SILENCE]] = [0, 0, 0, 9, 0, 0, 0, 0, 0, 0, 0, 7, 2]"
  by (simp add: framed_def framer_append_def u32_to_be_bytes_def u64_to_be_bytes_def
      FORMAT_SILENCE_def be_of_nat_numeral)

lemma read_prefix:
  "read_exact 4 (Data a # Data b # ReadTimeout # s) = (Inl TimedOut, s)"
  "read_exact 4 (Data a # Data b # Data c # Data d # s) = (Inr [a, b, c, d], s)"
  by (simp_all add: eval_nat_numeral)

text \<open>
  A read timeout inside a length prefix loses the bytes already read, because \<open>read_exact\<close>
  drops them and the player's loop goes on: the transport then reads a length out of the middle
  of the frame. A silence packet whose prefix is interrupted after two bytes is followed by a
  fatal error instead of the packet, although every byte of it arrives.
\<close>

theorem timeout_inside_prefix_desyncs:
  "receive_n 2 8009 (map Data (framed [u64_to_be_bytes 7 @ [FORMAT_SILENCE]])) =
     ([u64_to_be_bytes 7 @ [FORMAT_SILENCE]], Some UnexpectedEof, []) \<and>
   fst (snd (receive_n 2 8009
     (map Data (take 2 (framed [u64_to_be_bytes 7 @ [FORMAT_SILENCE]])) @ [ReadTimeout] @
      map Data (drop 2 (framed [u64_to_be_bytes 7 @ [FORMAT_SILENCE]]))))) = Some InvalidData"
proof
  let ?p = "u64_to_be_bytes 7 @ [FORMAT_SILENCE]"
  have "\<forall>p \<in> set [?p]. length p \<le> 8009" "(8009 :: nat) < 2 ^ 32"
    by simp_all
  from receive_framed [OF this, of "Suc 0" "[]"]
  show "receive_n 2 8009 (map Data (framed [?p])) = ([?p], Some UnexpectedEof, [])"
    by (simp add: receive_steps flip: Suc_1)
  have len: "unat (u32_from_be_bytes [0, 9, 0, 0]) = 589824"
    by (simp add: u32_from_be_bytes_def nat_of_be_def)
  have "tcp_receive 8009 (Data 0 # Data 0 # ReadTimeout # s) = (Inl TimedOut, s)" for s
    by (simp add: tcp_receive_def read_prefix)
  moreover have "tcp_receive 8009 (Data 0 # Data 9 # Data 0 # Data 0 # s) = (Inl InvalidData, s)" for s
    by (simp add: tcp_receive_def read_prefix len)
  ultimately show "fst (snd (receive_n 2 8009
     (map Data (take 2 (framed [?p])) @ [ReadTimeout] @ map Data (drop 2 (framed [?p]))))) =
     Some InvalidData"
    by (simp add: framed_silence receive_n.simps flip: Suc_1)
qed

section \<open>UTF-8\<close>

text \<open>\<open>std::str::from_utf8\<close>: the well-formed byte sequences of the Unicode standard.\<close>

definition utf8_tail :: "u8 \<Rightarrow> bool" where
  "utf8_tail b \<longleftrightarrow> 0x80 \<le> b \<and> b \<le> 0xBF"

fun utf8_valid :: "bytes \<Rightarrow> bool" where
  "utf8_valid [] = True"
| "utf8_valid (a # s) =
     (if a \<le> 0x7F then utf8_valid s
      else case s of
        [] \<Rightarrow> False
      | b # s1 \<Rightarrow>
          if 0xC2 \<le> a \<and> a \<le> 0xDF then utf8_tail b \<and> utf8_valid s1
          else case s1 of
            [] \<Rightarrow> False
          | c # s2 \<Rightarrow>
              if 0xE0 \<le> a \<and> a \<le> 0xEF then
                utf8_tail b \<and> (a = 0xE0 \<longrightarrow> 0xA0 \<le> b) \<and> (a = 0xED \<longrightarrow> b \<le> 0x9F) \<and>
                utf8_tail c \<and> utf8_valid s2
              else case s2 of
                [] \<Rightarrow> False
              | d # s3 \<Rightarrow>
                  0xF0 \<le> a \<and> a \<le> 0xF4 \<and>
                  utf8_tail b \<and> (a = 0xF0 \<longrightarrow> 0x90 \<le> b) \<and> (a = 0xF4 \<longrightarrow> b \<le> 0x8F) \<and>
                  utf8_tail c \<and> utf8_tail d \<and> utf8_valid s3)"

section \<open>Handshake\<close>

definition ADB_HANDSHAKE_VERSION :: u8 where "ADB_HANDSHAKE_VERSION = 1"
definition MAX_DEVICE_ID_LENGTH :: nat where "MAX_DEVICE_ID_LENGTH = 128"
definition MAX_SESSION_TOKEN_LENGTH :: nat where "MAX_SESSION_TOKEN_LENGTH = 255"

record adb_handshake =
  hs_device_id :: device_id
  hs_session_token :: string
  hs_generation :: u64

definition write_field :: "bytes \<Rightarrow> bytes \<Rightarrow> string \<Rightarrow> nat \<Rightarrow> protocol_error + bytes" where
  "write_field output value field max' =
     (if value = [] then Inl (EmptyAdbHandshakeField field)
      else if max' < length value then Inl (AdbHandshakeFieldTooLong field (length value) max')
      else Inr (output @ [of_nat (length value)] @ value))"

definition handshake_encode :: "device_id \<Rightarrow> string \<Rightarrow> u64 \<Rightarrow> protocol_error + bytes" where
  "handshake_encode device session_token generation =
     (case write_field [ADB_HANDSHAKE_VERSION] (as_bytes device) ''device ID''
             MAX_DEVICE_ID_LENGTH of
        Inl e \<Rightarrow> Inl e
      | Inr h1 \<Rightarrow> (case write_field h1 (as_bytes session_token) ''session token''
                        MAX_SESSION_TOKEN_LENGTH of
            Inl e \<Rightarrow> Inl e
          | Inr h2 \<Rightarrow> Inr (h2 @ u64_to_be_bytes generation)))"

definition hs_take :: "bytes \<Rightarrow> nat \<Rightarrow> nat \<Rightarrow> (bytes \<times> nat) option" where
  "hs_take bs cursor len =
     (if cursor + len \<le> length bs then Some (take len (drop cursor bs), cursor + len) else None)"

definition parse_handshake :: "bytes \<Rightarrow> string + adb_handshake" where
  "parse_handshake bs =
     (case hs_take bs 0 1 of
        None \<Rightarrow> Inl ''unsupported ADB audio handshake version''
      | Some (v, c0) \<Rightarrow>
        if v \<noteq> [ADB_HANDSHAKE_VERSION] then Inl ''unsupported ADB audio handshake version''
        else case hs_take bs c0 1 of
          None \<Rightarrow> Inl ''missing ADB device ID length''
        | Some (l1, c1) \<Rightarrow>
          (let device_len = unat (l1 ! 0) in
           if device_len = 0 \<or> MAX_DEVICE_ID_LENGTH < device_len
           then Inl ''invalid ADB device ID length''
           else case hs_take bs c1 device_len of
             None \<Rightarrow> Inl ''truncated ADB device ID''
           | Some (dev, c2) \<Rightarrow>
             if \<not> utf8_valid dev then Inl ''ADB device ID is not UTF-8''
             else case hs_take bs c2 1 of
               None \<Rightarrow> Inl ''missing ADB session token length''
             | Some (l2, c3) \<Rightarrow>
               (let token_len = unat (l2 ! 0) in
                if token_len = 0 \<or> MAX_SESSION_TOKEN_LENGTH < token_len
                then Inl ''invalid ADB session token length''
                else case hs_take bs c3 token_len of
                  None \<Rightarrow> Inl ''truncated ADB session token''
                | Some (tok, c4) \<Rightarrow>
                  if \<not> utf8_valid tok then Inl ''ADB session token is not UTF-8''
                  else case hs_take bs c4 8 of
                    None \<Rightarrow> Inl ''missing ADB session generation''
                  | Some (g, c5) \<Rightarrow>
                    if u64_from_be_bytes g = 0 \<or> c5 \<noteq> length bs
                    then Inl ''invalid ADB session generation or trailing data''
                    else Inr \<lparr>hs_device_id = of_bytes dev, hs_session_token = of_bytes tok,
                               hs_generation = u64_from_be_bytes g\<rparr>)))"

definition read_handshake :: "read_event list \<Rightarrow> (string + adb_handshake) \<times> read_event list" where
  "read_handshake s =
     (case read_exact 2 s of
        (Inl e, s1) \<Rightarrow> (Inl ''truncated ADB audio handshake'', s1)
      | (Inr prefix, s1) \<Rightarrow>
        (let device_len = unat (prefix ! 1) in
         if device_len = 0 \<or> MAX_DEVICE_ID_LENGTH < device_len
         then (Inl ''invalid ADB device ID length'', s1)
         else case read_exact (device_len + 1) s1 of
           (Inl e, s2) \<Rightarrow> (Inl ''truncated ADB audio handshake'', s2)
         | (Inr dt, s2) \<Rightarrow>
           (let token_len = unat (dt ! device_len) in
            if token_len = 0 \<or> MAX_SESSION_TOKEN_LENGTH < token_len
            then (Inl ''invalid ADB session token length'', s2)
            else case read_exact (token_len + 8) s2 of
              (Inl e, s3) \<Rightarrow> (Inl ''truncated ADB audio handshake'', s3)
            | (Inr tg, s3) \<Rightarrow> (parse_handshake (prefix @ dt @ tg), s3))))"

lemma hs_take_mid:
  "cursor = length a \<Longrightarrow> len = length b \<Longrightarrow>
   hs_take (a @ b @ c) cursor len = Some (b, cursor + len)"
  by (simp add: hs_take_def)

lemma unat_byte_length: "n < 256 \<Longrightarrow> unat (of_nat n :: u8) = n"
  by (simp add: unat_of_nat take_bit_eq_mod)

text \<open>The layout of an accepted handshake, in one place.\<close>

definition handshake_bytes :: "bytes \<Rightarrow> bytes \<Rightarrow> u64 \<Rightarrow> bytes" where
  "handshake_bytes dev tok gen =
     [ADB_HANDSHAKE_VERSION, of_nat (length dev)] @ dev @
     [of_nat (length tok)] @ tok @ u64_to_be_bytes gen"

definition field_ok :: "nat \<Rightarrow> bytes \<Rightarrow> bool" where
  "field_ok max' v \<longleftrightarrow> 1 \<le> length v \<and> length v \<le> max'"

lemmas handshake_limits = MAX_DEVICE_ID_LENGTH_def MAX_SESSION_TOKEN_LENGTH_def

lemma handshake_encode_Inr:
  "handshake_encode device tok gen = Inr bs \<longleftrightarrow>
     field_ok MAX_DEVICE_ID_LENGTH (as_bytes device) \<and>
     field_ok MAX_SESSION_TOKEN_LENGTH (as_bytes tok) \<and>
     bs = handshake_bytes (as_bytes device) (as_bytes tok) gen"
  by (auto simp: handshake_encode_def write_field_def field_ok_def handshake_bytes_def
      not_less Suc_le_eq split: if_splits)

lemma field_ok_byte:
  "field_ok MAX_DEVICE_ID_LENGTH v \<Longrightarrow> unat (of_nat (length v) :: u8) = length v"
  "field_ok MAX_SESSION_TOKEN_LENGTH v \<Longrightarrow> unat (of_nat (length v) :: u8) = length v"
  by (auto simp: field_ok_def handshake_limits intro!: unat_byte_length)

lemma parse_handshake_bytes:
  assumes dev: "field_ok MAX_DEVICE_ID_LENGTH dev" "utf8_valid dev"
    and tok: "field_ok MAX_SESSION_TOKEN_LENGTH tok" "utf8_valid tok"
  shows "parse_handshake (handshake_bytes dev tok gen) =
    (if gen = 0 then Inl ''invalid ADB session generation or trailing data''
     else Inr \<lparr>hs_device_id = of_bytes dev, hs_session_token = of_bytes tok, hs_generation = gen\<rparr>)"
proof -
  let ?l1 = "of_nat (length dev) :: u8" and ?l2 = "of_nat (length tok) :: u8"
  let ?g = "u64_to_be_bytes gen" and ?v = "ADB_HANDSHAKE_VERSION"
  let ?bs = "handshake_bytes dev tok gen"
  have t1: "hs_take ?bs 0 (Suc 0) = Some ([?v], Suc 0)"
    using hs_take_mid [of 0 "[]" 1 "[?v]"] by (simp add: handshake_bytes_def)
  have t2: "c = 1 \<Longrightarrow> hs_take ?bs c (Suc 0) = Some ([?l1], c + 1)" for c
    using hs_take_mid [of c "[?v]" 1 "[?l1]"] by (simp add: handshake_bytes_def)
  have t3: "c = 2 \<Longrightarrow> hs_take ?bs c (length dev) = Some (dev, c + length dev)" for c
    using hs_take_mid [of c "[?v, ?l1]" "length dev" dev] by (simp add: handshake_bytes_def)
  have t4: "c = 2 + length dev \<Longrightarrow> hs_take ?bs c (Suc 0) = Some ([?l2], c + 1)" for c
    using hs_take_mid [of c "[?v, ?l1] @ dev" 1 "[?l2]"] by (simp add: handshake_bytes_def)
  have t5: "c = 3 + length dev \<Longrightarrow> hs_take ?bs c (length tok) = Some (tok, c + length tok)" for c
    using hs_take_mid [of c "[?v, ?l1] @ dev @ [?l2]" "length tok" tok]
    by (simp add: handshake_bytes_def)
  have t6: "c = 3 + length dev + length tok \<Longrightarrow> hs_take ?bs c 8 = Some (?g, c + 8)" for c
    using hs_take_mid [of c "[?v, ?l1] @ dev @ [?l2] @ tok" 8 ?g "[]"]
    by (simp add: handshake_bytes_def)
  have len: "length ?bs = 11 + length dev + length tok"
    by (simp add: handshake_bytes_def)
  have ok: "dev \<noteq> []" "\<not> MAX_DEVICE_ID_LENGTH < length dev"
    "tok \<noteq> []" "\<not> MAX_SESSION_TOKEN_LENGTH < length tok"
    using dev tok by (auto simp: field_ok_def)
  show ?thesis
    using dev tok ok
    by (simp add: parse_handshake_def t1 t2 t3 t4 t5 t6 len field_ok_byte Let_def)
qed

lemma read_handshake_bytes:
  assumes dev: "field_ok MAX_DEVICE_ID_LENGTH dev"
    and tok: "field_ok MAX_SESSION_TOKEN_LENGTH tok"
  shows "read_handshake (map Data (handshake_bytes dev tok gen) @ s) =
    (parse_handshake (handshake_bytes dev tok gen), s)"
proof -
  let ?p = "[ADB_HANDSHAKE_VERSION, of_nat (length dev) :: u8]"
  let ?t = "tok @ u64_to_be_bytes gen"
  let ?d = "dev @ [of_nat (length tok) :: u8]"
  have r1: "read_exact 2 (map Data ?p @ u) = (Inr ?p, u)" for u
    by (rule read_exact_data') simp
  have r2: "read_exact (length dev + 1) (map Data ?d @ u) = (Inr ?d, u)" for u
    by (rule read_exact_data') simp
  have r3: "read_exact (length tok + 8) (map Data ?t @ u) = (Inr ?t, u)" for u
    by (rule read_exact_data') simp
  have split: "handshake_bytes dev tok gen = ?p @ ?d @ ?t"
    by (simp add: handshake_bytes_def)
  have ok: "length dev \<noteq> 0" "\<not> MAX_DEVICE_ID_LENGTH < length dev"
    "length tok \<noteq> 0" "\<not> MAX_SESSION_TOKEN_LENGTH < length tok"
    using dev tok by (auto simp: field_ok_def)
  have s: "map Data (handshake_bytes dev tok gen) @ s = map Data ?p @ map Data ?d @ map Data ?t @ s"
    by (simp add: split)
  show ?thesis
    unfolding read_handshake_def s r1
    using ok r2 [of "map Data ?t @ s"] r3 [of s] field_ok_byte(1) [OF dev] field_ok_byte(2) [OF tok]
    by (simp add: Let_def split nth_append)
qed

text \<open>
  The PC reads from the socket exactly the handshake the phone encoded, leaving the audio
  that follows it untouched, for every device id of 1 to 128 bytes, token of 1 to 255 bytes and
  non-zero generation; generation zero is encodable but refused by the reader.
\<close>

theorem handshake_round_trip:
  assumes "handshake_encode device token gen = Inr bs"
    and "utf8_valid (as_bytes device)" and "utf8_valid (as_bytes token)"
  shows "read_handshake (map Data bs @ rest) =
    (if gen = 0 then Inl ''invalid ADB session generation or trailing data''
     else Inr \<lparr>hs_device_id = device, hs_session_token = token, hs_generation = gen\<rparr>, rest)"
  using assms by (auto simp: handshake_encode_Inr read_handshake_bytes parse_handshake_bytes)

theorem handshake_round_trip_witness:
  "read_handshake (map Data (handshake_bytes (as_bytes ''pixel'') (as_bytes ''tok'') 3) @ [Data 9]) =
     (Inr \<lparr>hs_device_id = ''pixel'', hs_session_token = ''tok'', hs_generation = 3\<rparr>, [Data 9])"
proof -
  have "handshake_encode ''pixel'' ''tok'' 3 =
      Inr (handshake_bytes (as_bytes ''pixel'') (as_bytes ''tok'') 3)"
    by (simp add: handshake_encode_Inr field_ok_def handshake_limits)
  moreover have "utf8_valid (as_bytes ''pixel'')" "utf8_valid (as_bytes ''tok'')"
    by code_simp+
  ultimately show ?thesis by (simp add: handshake_round_trip)
qed

end
