(* ===== verification/Pcm_Assembly.thy ===== *)
theory Pcm_Assembly
  imports Wire
begin

unbundle bit_operations_syntax

text \<open>
  Reassembly of uncompressed frames on the phone (\<open>stream/player/pcm_assembly.rs\<close>): sixteen
  slots, one per frame in flight, each collecting the four datagrams of its frame.

  The lemmas show that a completed frame is made only of datagrams of its own sequence number
  and generation, that a frame completes at most once per generation, and that the four
  datagrams of a frame complete it in any order of arrival.
\<close>

definition SLOTS :: nat where "SLOTS = 16"
definition ASSEMBLY_DEADLINE :: nat where "ASSEMBLY_DEADLINE = millis 100"

record frame_slot =
  sl_sequence :: "u64 option"
  sl_first_arrival :: "nat option"
  sl_mask :: u8
  sl_packet :: "raw_packet option"

definition empty_slot :: frame_slot where
  "empty_slot = \<lparr>sl_sequence = None, sl_first_arrival = None, sl_mask = 0, sl_packet = None\<rparr>"

record pcm_assembly =
  asm_generation :: "u64 option"
  newest_sequence :: u64
  slots :: "frame_slot list"
  completed_frames :: u64
  expired_frames :: u64

definition new_assembly :: pcm_assembly where
  "new_assembly = \<lparr>asm_generation = None, newest_sequence = 0,
     slots = replicate SLOTS empty_slot, completed_frames = 0, expired_frames = 0\<rparr>"

definition slot_expired :: "nat \<Rightarrow> frame_slot \<Rightarrow> bool" where
  "slot_expired now slot \<longleftrightarrow> sl_packet slot \<noteq> None \<and>
     (case sl_first_arrival slot of None \<Rightarrow> False
      | Some start \<Rightarrow> ASSEMBLY_DEADLINE \<le> since now start)"

definition expire_slot :: "nat \<Rightarrow> frame_slot \<Rightarrow> frame_slot" where
  "expire_slot now slot = (if slot_expired now slot then slot\<lparr>sl_packet := None\<rparr> else slot)"

definition expire :: "pcm_assembly \<Rightarrow> nat \<Rightarrow> pcm_assembly" where
  "expire a now = a\<lparr>slots := map (expire_slot now) (slots a),
     expired_frames := expired_frames a + of_nat (length (filter (slot_expired now) (slots a)))\<rparr>"

text \<open>The part of \<open>push\<close> that starts a newer generation and moves the window.\<close>

definition enter_generation :: "pcm_assembly \<Rightarrow> pcm_chunk \<Rightarrow> pcm_assembly" where
  "enter_generation a c =
     (let a' = (if asm_generation a \<noteq> Some (ch_generation c)
                then a\<lparr>slots := map (\<lambda>_. empty_slot) (slots a),
                       asm_generation := Some (ch_generation c),
                       newest_sequence := ch_sequence c\<rparr>
                else a) in
      a'\<lparr>newest_sequence := max (newest_sequence a') (ch_sequence c)\<rparr>)"

definition slot_index :: "u64 \<Rightarrow> nat" where
  "slot_index seq = unat seq mod SLOTS"

text \<open>The part that gives the slot to the chunk's frame, and counts a frame it displaces.\<close>

definition claim_slot :: "pcm_assembly \<Rightarrow> u64 \<Rightarrow> nat \<Rightarrow> pcm_assembly" where
  "claim_slot a seq now =
     (let i = slot_index seq; slot = slots a ! i in
      if sl_sequence slot = Some seq then a
      else a\<lparr>expired_frames := (if sl_packet slot \<noteq> None then expired_frames a + 1
                               else expired_frames a),
             slots := (slots a)[i := \<lparr>sl_sequence = Some seq, sl_first_arrival = Some now,
               sl_mask = 0,
               sl_packet = Some ((zeroed now)\<lparr>seq_num := seq, is_uncompressed := True,
                 payload_len := PCM_PAYLOAD * PCM_CHUNKS\<rparr>)\<rparr>]\<rparr>)"

text \<open>The part that copies the chunk into the frame and hands out a complete frame.\<close>

definition store_chunk :: "pcm_assembly \<Rightarrow> pcm_chunk \<Rightarrow> nat \<Rightarrow> pcm_assembly \<times> raw_packet option" where
  "store_chunk a c now =
     (let i = slot_index (ch_sequence c); slot = slots a ! i in
      case sl_packet slot of
        None \<Rightarrow> (a, None)
      | Some p \<Rightarrow>
          if sl_mask slot AND push_bit (ch_index c) 1 \<noteq> 0 then (a, None)
          else
            let p' = p\<lparr>payload_data :=
                       copy_at (ch_index c * PCM_PAYLOAD) (ch_payload c) (payload_data p)\<rparr>;
                mask = sl_mask slot OR push_bit (ch_index c) 1 in
            if mask \<noteq> 15
            then (a\<lparr>slots := (slots a)[i := slot\<lparr>sl_mask := mask, sl_packet := Some p'\<rparr>]\<rparr>, None)
            else (a\<lparr>slots := (slots a)[i := slot\<lparr>sl_mask := mask, sl_packet := None\<rparr>],
                    completed_frames := completed_frames a + 1\<rparr>,
                  Some (p'\<lparr>arrival_time := now\<rparr>)))"

definition push :: "pcm_assembly \<Rightarrow> pcm_chunk \<Rightarrow> nat \<Rightarrow> pcm_assembly \<times> raw_packet option" where
  "push a c now =
     (let a1 = expire a now in
      if (case asm_generation a1 of None \<Rightarrow> False | Some g \<Rightarrow> ch_generation c < g) then (a1, None)
      else let a2 = enter_generation a1 c in
        if of_nat SLOTS \<le> sat_sub (newest_sequence a2) (ch_sequence c) then (a2, None)
        else store_chunk (claim_slot a2 (ch_sequence c) now) c now)"

text \<open>A run of arrivals, with the frames it completed and the datagram that completed each.\<close>

fun run_push :: "pcm_assembly \<Rightarrow> (pcm_chunk \<times> nat) list \<Rightarrow>
    pcm_assembly \<times> (pcm_chunk \<times> raw_packet) list" where
  "run_push a [] = (a, [])"
| "run_push a ((c, now) # cs) =
     (case push a c now of
        (a', None) \<Rightarrow> run_push a' cs
      | (a', Some p) \<Rightarrow> (case run_push a' cs of (a'', out) \<Rightarrow> (a'', (c, p) # out)))"

text \<open>What a datagram accepted by \<open>PcmDatagram::decode\<close> satisfies.\<close>

definition chunk_ok :: "pcm_chunk \<Rightarrow> bool" where
  "chunk_ok c \<longleftrightarrow> ch_index c < PCM_CHUNKS \<and> length (ch_payload c) = PCM_PAYLOAD"

lemma decoded_chunk_ok: "pcm_decode bs = Inr c \<Longrightarrow> chunk_ok c"
  by (auto simp: pcm_decode_def chunk_ok_def wire_consts split: if_splits)

section \<open>Frames are made of their own datagrams\<close>

definition frame_slice :: "raw_packet \<Rightarrow> nat \<Rightarrow> bytes" where
  "frame_slice p k = take PCM_PAYLOAD (drop (k * PCM_PAYLOAD) (payload_data p))"

text \<open>
  What a slot knows: its frame's number fits the slot, and every datagram it has marked was
  received, for this frame and this generation, and sits where it belongs.
\<close>

definition slot_inv :: "pcm_chunk set \<Rightarrow> u64 option \<Rightarrow> nat \<Rightarrow> frame_slot \<Rightarrow> bool" where
  "slot_inv seen gen i slot \<longleftrightarrow>
     (case sl_packet slot of None \<Rightarrow> True
      | Some p \<Rightarrow> sl_sequence slot = Some (seq_num p) \<and> slot_index (seq_num p) = i \<and>
          is_uncompressed p \<and> \<not> is_silence p \<and> payload_len p = PCM_PAYLOAD * PCM_CHUNKS \<and>
          length (payload_data p) = MAX_PACKET_PAYLOAD \<and>
          (\<forall>k < PCM_CHUNKS. bit (sl_mask slot) k \<longrightarrow>
             (\<exists>c \<in> seen. ch_sequence c = seq_num p \<and> Some (ch_generation c) = gen \<and>
                ch_index c = k \<and> ch_payload c = frame_slice p k)))"

definition asm_inv :: "pcm_chunk set \<Rightarrow> pcm_assembly \<Rightarrow> bool" where
  "asm_inv seen a \<longleftrightarrow> length (slots a) = SLOTS \<and>
     (\<forall>i < SLOTS. slot_inv seen (asm_generation a) i (slots a ! i))"

lemma asm_invI:
  assumes "length (slots a) = SLOTS"
    and "\<And>i. i < SLOTS \<Longrightarrow> slot_inv seen (asm_generation a) i (slots a ! i)"
  shows "asm_inv seen a"
  using assms by (simp add: asm_inv_def)

lemma slot_inv_no_packet [simp]: "sl_packet slot = None \<Longrightarrow> slot_inv seen g i slot"
  by (simp add: slot_inv_def)

lemma slot_index_less [simp]: "slot_index s < SLOTS"
  by (simp add: slot_index_def SLOTS_def)

lemma asm_inv_new: "asm_inv seen new_assembly"
  by (auto simp: asm_inv_def new_assembly_def empty_slot_def slot_inv_def)

lemma asm_inv_mono: "asm_inv seen a \<Longrightarrow> seen \<subseteq> seen' \<Longrightarrow> asm_inv seen' a"
  by (fastforce simp: asm_inv_def slot_inv_def split: option.splits)

lemma asm_inv_expire: "asm_inv seen a \<Longrightarrow> asm_inv seen (expire a now)"
  by (auto simp: asm_inv_def expire_def expire_slot_def)

lemma asm_inv_enter: "asm_inv seen a \<Longrightarrow> asm_inv seen (enter_generation a c)"
  by (auto simp: asm_inv_def enter_generation_def empty_slot_def Let_def)

definition fresh_slot :: "u64 \<Rightarrow> nat \<Rightarrow> frame_slot" where
  "fresh_slot seq now = \<lparr>sl_sequence = Some seq, sl_first_arrival = Some now, sl_mask = 0,
     sl_packet = Some ((zeroed now)\<lparr>seq_num := seq, is_uncompressed := True,
       payload_len := PCM_PAYLOAD * PCM_CHUNKS\<rparr>)\<rparr>"

lemma slots_claim: "slots (claim_slot a s now) =
  (if sl_sequence (slots a ! slot_index s) = Some s then slots a
   else (slots a)[slot_index s := fresh_slot s now])"
  by (simp add: claim_slot_def fresh_slot_def Let_def)

lemma claim_slot_other [simp]:
  "asm_generation (claim_slot a s now) = asm_generation a"
  "newest_sequence (claim_slot a s now) = newest_sequence a"
  "completed_frames (claim_slot a s now) = completed_frames a"
  by (simp_all add: claim_slot_def Let_def)

lemma slot_inv_fresh: "slot_inv seen g (slot_index s) (fresh_slot s now)"
  by (simp add: slot_inv_def fresh_slot_def zeroed_def)

lemma asm_inv_claim: "asm_inv seen a \<Longrightarrow> asm_inv seen (claim_slot a s now)"
  by (auto simp: asm_inv_def slots_claim nth_list_update slot_inv_fresh)

lemma mask_bit: "sl_mask slot AND push_bit k 1 \<noteq> 0 \<longleftrightarrow> bit (sl_mask slot) k"
  by (simp add: bit_iff_and_push_bit_not_eq_0)

lemma frame_slice_copy:
  assumes "length (payload_data p) = MAX_PACKET_PAYLOAD" and "chunk_ok c" and "k < PCM_CHUNKS"
  shows "frame_slice (p\<lparr>payload_data := copy_at (ch_index c * PCM_PAYLOAD) (ch_payload c)
            (payload_data p)\<rparr>) k = (if k = ch_index c then ch_payload c else frame_slice p k)"
proof -
  have fit: "ch_index c * PCM_PAYLOAD + length (ch_payload c) \<le> length (payload_data p)"
    using assms by (simp add: chunk_ok_def wire_consts)
  show ?thesis
  proof (cases "k = ch_index c")
    case True
    then show ?thesis
      using slice_copy_at_same [OF fit] assms(2) by (simp add: frame_slice_def chunk_ok_def)
  next
    case False
    then have "k * PCM_PAYLOAD + PCM_PAYLOAD \<le> ch_index c * PCM_PAYLOAD \<or>
        ch_index c * PCM_PAYLOAD + length (ch_payload c) \<le> k * PCM_PAYLOAD"
      using assms(2) by (auto simp: chunk_ok_def wire_consts)
    from slice_copy_at_other [OF fit this] False show ?thesis by (simp add: frame_slice_def)
  qed
qed

lemma slot_invD:
  assumes "slot_inv seen gen i slot" and "sl_packet slot = Some p"
  shows "sl_sequence slot = Some (seq_num p)" "slot_index (seq_num p) = i"
    "is_uncompressed p" "\<not> is_silence p" "payload_len p = PCM_PAYLOAD * PCM_CHUNKS"
    "length (payload_data p) = MAX_PACKET_PAYLOAD"
    "\<And>k. k < PCM_CHUNKS \<Longrightarrow> bit (sl_mask slot) k \<Longrightarrow> \<exists>c \<in> seen.
       ch_sequence c = seq_num p \<and> Some (ch_generation c) = gen \<and> ch_index c = k \<and>
       ch_payload c = frame_slice p k"
  using assms(1) unfolding slot_inv_def assms(2) option.case by blast+

lemma slot_invI:
  assumes "\<And>p. sl_packet slot = Some p \<Longrightarrow>
      sl_sequence slot = Some (seq_num p) \<and> slot_index (seq_num p) = i \<and>
      is_uncompressed p \<and> \<not> is_silence p \<and> payload_len p = PCM_PAYLOAD * PCM_CHUNKS \<and>
      length (payload_data p) = MAX_PACKET_PAYLOAD \<and>
      (\<forall>k < PCM_CHUNKS. bit (sl_mask slot) k \<longrightarrow>
         (\<exists>c \<in> seen. ch_sequence c = seq_num p \<and> Some (ch_generation c) = gen \<and>
            ch_index c = k \<and> ch_payload c = frame_slice p k))"
  shows "slot_inv seen gen i slot"
  using assms unfolding slot_inv_def by (cases "sl_packet slot") simp_all

lemma asm_inv_store:
  assumes inv: "asm_inv seen a" and c: "c \<in> seen" "chunk_ok c"
    and gen: "asm_generation a = Some (ch_generation c)"
    and seq: "sl_sequence (slots a ! slot_index (ch_sequence c)) = Some (ch_sequence c)"
  shows "asm_inv seen (fst (store_chunk a c now))"
    and "snd (store_chunk a c now) = Some p \<Longrightarrow>
      seq_num p = ch_sequence c \<and> is_uncompressed p \<and> \<not> is_silence p \<and> arrival_time p = now \<and>
      payload_len p = PCM_PAYLOAD * PCM_CHUNKS \<and> length (payload_data p) = MAX_PACKET_PAYLOAD \<and>
      (\<forall>k < PCM_CHUNKS. \<exists>d \<in> seen. ch_sequence d = seq_num p \<and>
         ch_generation d = ch_generation c \<and> ch_index d = k \<and> ch_payload d = frame_slice p k)"
proof -
  let ?i = "slot_index (ch_sequence c)"
  let ?slot = "slots a ! ?i"
  have len: "length (slots a) = SLOTS" and si: "slot_inv seen (asm_generation a) ?i ?slot"
    and all: "\<And>j. j < SLOTS \<Longrightarrow> slot_inv seen (asm_generation a) j (slots a ! j)"
    using inv by (simp_all add: asm_inv_def)
  have new: "slot_inv seen (asm_generation a) ?i
      (?slot\<lparr>sl_mask := sl_mask ?slot OR push_bit (ch_index c) 1,
             sl_packet := Some (q\<lparr>payload_data := copy_at (ch_index c * PCM_PAYLOAD)
                 (ch_payload c) (payload_data q)\<rparr>)\<rparr>)"
    if "sl_packet ?slot = Some q" for q
  proof -
    have q: "seq_num q = ch_sequence c" "is_uncompressed q" "\<not> is_silence q"
      "payload_len q = PCM_PAYLOAD * PCM_CHUNKS" "length (payload_data q) = MAX_PACKET_PAYLOAD"
      and old: "\<And>k. k < PCM_CHUNKS \<Longrightarrow> bit (sl_mask ?slot) k \<Longrightarrow> \<exists>d \<in> seen.
         ch_sequence d = ch_sequence c \<and> ch_generation d = ch_generation c \<and>
         ch_index d = k \<and> ch_payload d = frame_slice q k"
      using slot_invD [OF si that] seq gen by auto
    have fit: "ch_index c * PCM_PAYLOAD + length (ch_payload c) \<le> length (payload_data q)"
      using q(5) c(2) by (simp add: chunk_ok_def wire_consts)
    have "\<exists>d \<in> seen. ch_sequence d = ch_sequence c \<and> ch_generation d = ch_generation c \<and>
         ch_index d = k \<and> ch_payload d = frame_slice (q\<lparr>payload_data :=
           copy_at (ch_index c * PCM_PAYLOAD) (ch_payload c) (payload_data q)\<rparr>) k"
      if "k < PCM_CHUNKS" "bit (sl_mask ?slot OR push_bit (ch_index c) 1) k" for k
      using that old [of k] c frame_slice_copy [OF q(5) c(2) that(1)]
      by (auto simp: bit_or_iff bit_exp_iff split: if_splits)
    with q fit gen seq show ?thesis by (intro slot_invI) auto
  qed
  show "asm_inv seen (fst (store_chunk a c now))"
    using inv new
    by (auto simp: asm_inv_def store_chunk_def Let_def nth_list_update split: option.splits)
  show "snd (store_chunk a c now) = Some p \<Longrightarrow>
      seq_num p = ch_sequence c \<and> is_uncompressed p \<and> \<not> is_silence p \<and> arrival_time p = now \<and>
      payload_len p = PCM_PAYLOAD * PCM_CHUNKS \<and> length (payload_data p) = MAX_PACKET_PAYLOAD \<and>
      (\<forall>k < PCM_CHUNKS. \<exists>d \<in> seen. ch_sequence d = seq_num p \<and>
         ch_generation d = ch_generation c \<and> ch_index d = k \<and> ch_payload d = frame_slice p k)"
  proof -
    assume "snd (store_chunk a c now) = Some p"
    then obtain q where q: "sl_packet ?slot = Some q"
      and full: "sl_mask ?slot OR push_bit (ch_index c) 1 = 15"
      and p: "p = q\<lparr>payload_data := copy_at (ch_index c * PCM_PAYLOAD) (ch_payload c)
                   (payload_data q), arrival_time := now\<rparr>"
      by (auto simp: store_chunk_def Let_def split: option.splits if_splits)
    have "bit (15 :: u8) k" if "k < PCM_CHUNKS" for k
    proof -
      have "k \<in> {0, 1, 2, 3}" using that by (auto simp: wire_consts)
      then show ?thesis by auto
    qed
    moreover have "sl_packet (?slot\<lparr>sl_mask := sl_mask ?slot OR push_bit (ch_index c) 1,
        sl_packet := Some (q\<lparr>payload_data := copy_at (ch_index c * PCM_PAYLOAD) (ch_payload c)
          (payload_data q)\<rparr>)\<rparr>) = Some (q\<lparr>payload_data := copy_at (ch_index c * PCM_PAYLOAD)
          (ch_payload c) (payload_data q)\<rparr>)"
      by simp
    note D = slot_invD [OF new [OF q] this]
    ultimately have "\<exists>d \<in> seen. ch_sequence d = seq_num p \<and> ch_generation d = ch_generation c \<and>
        ch_index d = k \<and> ch_payload d = frame_slice p k" if "k < PCM_CHUNKS" for k
      using D(7) [of k] that full p gen by (simp add: frame_slice_def)
    with D(1-6) p seq show ?thesis by simp
  qed
qed

text \<open>What a completed frame promises, given the datagrams received so far.\<close>

definition assembled_from :: "pcm_chunk set \<Rightarrow> pcm_chunk \<Rightarrow> raw_packet \<Rightarrow> bool" where
  "assembled_from seen c p \<longleftrightarrow>
     seq_num p = ch_sequence c \<and> is_uncompressed p \<and> \<not> is_silence p \<and>
     (\<exists>ds. set ds \<subseteq> seen \<and> map ch_index ds = [0, 1, 2, 3] \<and>
        (\<forall>d \<in> set ds. ch_sequence d = ch_sequence c \<and> ch_generation d = ch_generation c) \<and>
        packet_payload p = concat (map ch_payload ds))"

lemma assembled_from_mono:
  "assembled_from seen c p \<Longrightarrow> seen \<subseteq> seen' \<Longrightarrow> assembled_from seen' c p"
  unfolding assembled_from_def by (meson subset_trans)

lemma payload_slices:
  assumes "length (payload_data p) = MAX_PACKET_PAYLOAD"
    and "payload_len p = PCM_PAYLOAD * PCM_CHUNKS"
  shows "packet_payload p =
    frame_slice p 0 @ frame_slice p 1 @ frame_slice p 2 @ frame_slice p 3"
proof -
  let ?d = "payload_data p"
  have add: "take (m + n) xs = take m xs @ take n (drop m xs)" for m n and xs :: bytes
    by (rule take_add)
  show ?thesis
    using assms(2) add [of 960 2880 ?d] add [of 960 1920 "drop 960 ?d"]
      add [of 960 960 "drop 1920 ?d"]
    by (simp add: packet_payload_def frame_slice_def wire_consts add.commute)
qed

lemma store_chunk_assembled:
  assumes "asm_inv seen a" "c \<in> seen" "chunk_ok c" "asm_generation a = Some (ch_generation c)"
    and "sl_sequence (slots a ! slot_index (ch_sequence c)) = Some (ch_sequence c)"
    and p: "snd (store_chunk a c now) = Some p"
  shows "assembled_from seen c p"
proof -
  note S = asm_inv_store(2) [OF assms]
  have four: "\<forall>k < PCM_CHUNKS. Q k \<Longrightarrow> Q 0 \<and> Q 1 \<and> Q 2 \<and> Q 3" for Q :: "nat \<Rightarrow> bool"
    by (simp add: wire_consts)
  from S have "\<forall>k < PCM_CHUNKS. \<exists>d \<in> seen. ch_sequence d = seq_num p \<and>
         ch_generation d = ch_generation c \<and> ch_index d = k \<and> ch_payload d = frame_slice p k"
    by blast
  from four [OF this] obtain d0 d1 d2 d3 where d:
    "set [d0, d1, d2, d3] \<subseteq> seen" "map ch_index [d0, d1, d2, d3] = [0, 1, 2, 3]"
    "\<forall>d \<in> set [d0, d1, d2, d3].
       ch_sequence d = ch_sequence c \<and> ch_generation d = ch_generation c"
    "map ch_payload [d0, d1, d2, d3] =
       [frame_slice p 0, frame_slice p 1, frame_slice p 2, frame_slice p 3]"
    using S by auto
  have "packet_payload p = concat (map ch_payload [d0, d1, d2, d3])"
    using S d(4) by (simp add: payload_slices)
  moreover have "seq_num p = ch_sequence c" "is_uncompressed p" "\<not> is_silence p"
    using S by auto
  ultimately show ?thesis
    unfolding assembled_from_def using d(1-3) by (intro conjI exI [of _ "[d0, d1, d2, d3]"])
qed

lemma generation_enter [simp]:
  "asm_generation (enter_generation a c) = Some (ch_generation c)"
  by (simp add: enter_generation_def Let_def)

lemma generation_expire [simp]:
  "asm_generation (expire a now) = asm_generation a"
  "newest_sequence (expire a now) = newest_sequence a"
  by (simp_all add: expire_def)

lemma claimed_sequence:
  "length (slots a) = SLOTS \<Longrightarrow>
   sl_sequence (slots (claim_slot a s now) ! slot_index s) = Some s"
  by (auto simp: slots_claim fresh_slot_def)

lemma push_cases:
  obtains (stale) g where "asm_generation a = Some g" "ch_generation c < g"
      "push a c now = (expire a now, None)"
  | (late) "\<And>g. asm_generation a = Some g \<Longrightarrow> g \<le> ch_generation c"
      "of_nat SLOTS \<le> sat_sub (newest_sequence (enter_generation (expire a now) c)) (ch_sequence c)"
      "push a c now = (enter_generation (expire a now) c, None)"
  | (kept) "\<And>g. asm_generation a = Some g \<Longrightarrow> g \<le> ch_generation c"
      "\<not> of_nat SLOTS \<le> sat_sub (newest_sequence (enter_generation (expire a now) c)) (ch_sequence c)"
      "push a c now =
        store_chunk (claim_slot (enter_generation (expire a now) c) (ch_sequence c) now) c now"
  by (cases "case asm_generation a of None \<Rightarrow> False | Some g \<Rightarrow> ch_generation c < g")
    (auto simp: push_def Let_def not_less split: option.splits if_splits)

lemma asm_inv_push:
  assumes "asm_inv seen a" "chunk_ok c"
  shows "asm_inv (insert c seen) (fst (push a c now))"
    and "snd (push a c now) = Some p \<Longrightarrow> assembled_from (insert c seen) c p"
proof -
  let ?a = "claim_slot (enter_generation (expire a now) c) (ch_sequence c) now"
  have seen: "asm_inv (insert c seen) a" using asm_inv_mono [OF assms(1)] by blast
  then have pre: "asm_inv (insert c seen) ?a"
    by (intro asm_inv_claim asm_inv_enter asm_inv_expire)
  have "length (slots (enter_generation (expire a now) c)) = SLOTS"
    using asm_inv_enter [OF asm_inv_expire [OF assms(1)]] by (simp add: asm_inv_def)
  note claimed = claimed_sequence [OF this, of "ch_sequence c" now]
  show "asm_inv (insert c seen) (fst (push a c now))"
    by (rule push_cases [of a c now])
      (use seen pre asm_inv_store(1) [OF pre _ assms(2) _ claimed]
        in \<open>auto intro: asm_inv_expire asm_inv_enter\<close>)
  show "snd (push a c now) = Some p \<Longrightarrow> assembled_from (insert c seen) c p"
    by (rule push_cases [of a c now])
      (use store_chunk_assembled [OF pre _ assms(2) _ claimed] in auto)
qed

lemma run_push_assembled:
  assumes "asm_inv seen a" "\<forall>(c, t) \<in> set cs. chunk_ok c" "(c, p) \<in> set (snd (run_push a cs))"
  shows "assembled_from (seen \<union> fst ` set cs) c p"
  using assms
proof (induction a cs arbitrary: seen rule: run_push.induct)
  case (2 a c' now cs)
  obtain a' r where push: "push a c' now = (a', r)" by (cases "push a c' now")
  have ok: "chunk_ok c'" using 2(4) by simp
  have inv: "asm_inv (insert c' seen) a'"
    and first: "r = Some q \<Longrightarrow> assembled_from (insert c' seen) c' q" for q
    using asm_inv_push [OF 2(3) ok, of now] push by auto
  have mono: "assembled_from (insert c' seen) c' q \<Longrightarrow>
      assembled_from (seen \<union> fst ` set ((c', now) # cs)) c' q" for q
    by (erule assembled_from_mono) auto
  show ?case
  proof (cases r)
    case None
    with 2(1) [OF push [symmetric] None inv] 2(4, 5) push show ?thesis by simp
  next
    case (Some q)
    with 2(2) [OF push [symmetric] Some inv] 2(4, 5) push first mono show ?thesis
      by (auto split: prod.splits)
  qed
qed simp

section \<open>A frame completes at most once per generation\<close>

text \<open>
  After a frame has completed, its slot remembers its number with no packet, or the window has
  moved past it.
\<close>

definition closed_in :: "pcm_assembly \<Rightarrow> u64 \<Rightarrow> bool" where
  "closed_in a s \<longleftrightarrow> unat s \<le> unat (newest_sequence a) \<and>
     (unat s + SLOTS \<le> unat (newest_sequence a) \<or>
      sl_sequence (slots a ! slot_index s) = Some s \<and> sl_packet (slots a ! slot_index s) = None)"

definition done_inv :: "(u64 \<times> u64) set \<Rightarrow> pcm_assembly \<Rightarrow> bool" where
  "done_inv D a \<longleftrightarrow> length (slots a) = SLOTS \<and>
     (\<forall>(g, s) \<in> D. \<exists>g0. asm_generation a = Some g0 \<and> g \<le> g0 \<and> (g = g0 \<longrightarrow> closed_in a s))"

lemma closed_in_expire: "length (slots a) = SLOTS \<Longrightarrow> closed_in a s \<Longrightarrow> closed_in (expire a now) s"
  by (auto simp: closed_in_def expire_def expire_slot_def)

lemma done_inv_expire: "done_inv D a \<Longrightarrow> done_inv D (expire a now)"
  by (auto simp: done_inv_def closed_in_expire) (simp_all add: expire_def)

lemma newest_enter:
  "newest_sequence (enter_generation a c) =
     (if asm_generation a = Some (ch_generation c) then max (newest_sequence a) (ch_sequence c)
      else ch_sequence c)"
  by (simp add: enter_generation_def Let_def)

lemma slots_enter:
  "slots (enter_generation a c) = (if asm_generation a = Some (ch_generation c) then slots a
     else map (\<lambda>_. empty_slot) (slots a))"
  by (simp add: enter_generation_def Let_def)

lemma done_inv_enter:
  assumes "done_inv D a" and "\<And>g. asm_generation a = Some g \<Longrightarrow> g \<le> ch_generation c"
  shows "done_inv D (enter_generation a c)"
proof -
  have grow: "unat (newest_sequence a) \<le> unat (max (newest_sequence a) (ch_sequence c))"
    by (simp add: max_def word_le_nat_alt)
  have keep: "closed_in a s \<Longrightarrow> asm_generation a = Some (ch_generation c) \<Longrightarrow>
      closed_in (enter_generation a c) s" for s
    using grow by (auto simp: closed_in_def newest_enter slots_enter)
  show ?thesis
    unfolding done_inv_def
  proof (intro conjI ballI)
    show "length (slots (enter_generation a c)) = SLOTS"
      using assms(1) by (simp add: done_inv_def slots_enter)
    fix x assume "x \<in> D"
    then obtain g s g0 where x: "x = (g, s)" "asm_generation a = Some g0" "g \<le> g0"
      "g = g0 \<longrightarrow> closed_in a s"
      using assms(1) by (cases x) (auto simp: done_inv_def)
    with assms(2) [of g0] keep
    show "case x of (g, s) \<Rightarrow> \<exists>g0. asm_generation (enter_generation a c) = Some g0 \<and> g \<le> g0 \<and>
        (g = g0 \<longrightarrow> closed_in (enter_generation a c) s)"
      by (auto dest: order.antisym)
  qed
qed

lemma same_slot_same_window:
  assumes "slot_index s = slot_index t" "unat s \<le> n" "unat t \<le> n" "n < unat s + SLOTS"
    "n < unat t + SLOTS"
  shows "s = t"
proof -
  have "unat s div 16 = unat t div 16 \<or> unat s div 16 < unat t div 16 \<or> unat t div 16 < unat s div 16"
    by linarith
  moreover have "unat s = unat s div 16 * 16 + unat s mod 16" "unat t = unat t div 16 * 16 + unat t mod 16"
    by simp_all
  ultimately have "unat s = unat t"
    using assms unfolding slot_index_def SLOTS_def by linarith
  then show ?thesis by (simp add: word_unat_eq_iff)
qed

lemma in_window:
  "\<not> of_nat SLOTS \<le> sat_sub n s \<longleftrightarrow> unat n < unat s + SLOTS"
  by (auto simp: word_le_nat_alt SLOTS_def)

lemma done_inv_claim:
  assumes "done_inv D a" and "asm_generation a = Some g" and "unat s \<le> unat (newest_sequence a)"
    and "unat (newest_sequence a) < unat s + SLOTS"
  shows "done_inv D (claim_slot a s now)"
proof -
  have "closed_in (claim_slot a s now) t" if "closed_in a t" for t
  proof (cases "unat t + SLOTS \<le> unat (newest_sequence a)")
    case True
    with that show ?thesis by (simp add: closed_in_def)
  next
    case False
    with that have t: "unat t \<le> unat (newest_sequence a)" "unat (newest_sequence a) < unat t + SLOTS"
      "sl_sequence (slots a ! slot_index t) = Some t" "sl_packet (slots a ! slot_index t) = None"
      by (auto simp: closed_in_def)
    then have "slot_index s = slot_index t \<Longrightarrow> s = t"
      using same_slot_same_window [of s t] assms(3, 4) by blast
    with t show ?thesis
      by (cases "slot_index s = slot_index t") (auto simp: closed_in_def slots_claim)
  qed
  with assms(1) show ?thesis
    by (auto simp: done_inv_def) (simp_all add: slots_claim)
qed

lemma store_chunk_frame:
  "asm_generation (fst (store_chunk a c now)) = asm_generation a"
  "newest_sequence (fst (store_chunk a c now)) = newest_sequence a"
  "length (slots (fst (store_chunk a c now))) = length (slots a)"
  by (auto simp: store_chunk_def Let_def split: option.splits)

lemma done_inv_store:
  assumes "done_inv D a" and g: "asm_generation a = Some (ch_generation c)"
    and n: "unat (ch_sequence c) \<le> unat (newest_sequence a)"
      "unat (newest_sequence a) < unat (ch_sequence c) + SLOTS"
    and s: "sl_sequence (slots a ! slot_index (ch_sequence c)) = Some (ch_sequence c)"
  shows "snd (store_chunk a c now) = None \<Longrightarrow> done_inv D (fst (store_chunk a c now))"
    and "snd (store_chunk a c now) \<noteq> None \<Longrightarrow> (ch_generation c, ch_sequence c) \<notin> D \<and>
       done_inv (insert (ch_generation c, ch_sequence c) D) (fst (store_chunk a c now))"
proof -
  let ?i = "slot_index (ch_sequence c)"
  have len: "length (slots a) = SLOTS" using assms(1) by (simp add: done_inv_def)
  have keep: "closed_in (fst (store_chunk a c now)) t" if "closed_in a t" for t
    using that s
    by (cases "slot_index (ch_sequence c) = slot_index t")
      (auto simp: closed_in_def store_chunk_frame,
       auto simp: store_chunk_def Let_def nth_list_update split: option.splits)
  show "snd (store_chunk a c now) = None \<Longrightarrow> done_inv D (fst (store_chunk a c now))"
    using assms(1) keep by (auto simp: done_inv_def store_chunk_frame)
  assume some: "snd (store_chunk a c now) \<noteq> None"
  then have "sl_packet (slots a ! ?i) \<noteq> None"
    by (auto simp: store_chunk_def Let_def split: option.splits)
  with n s have "\<not> closed_in a (ch_sequence c)" by (simp add: closed_in_def)
  with assms(1) g have "(ch_generation c, ch_sequence c) \<notin> D" by (auto simp: done_inv_def)
  moreover have "closed_in (fst (store_chunk a c now)) (ch_sequence c)"
    using some n s len
    by (auto simp: closed_in_def store_chunk_frame)
      (auto simp: store_chunk_def Let_def split: option.splits if_splits)
  ultimately show "(ch_generation c, ch_sequence c) \<notin> D \<and>
       done_inv (insert (ch_generation c, ch_sequence c) D) (fst (store_chunk a c now))"
    using assms(1) keep g by (auto simp: done_inv_def store_chunk_frame)
qed

lemma done_inv_push:
  assumes "done_inv D a"
  shows "snd (push a c now) = None \<Longrightarrow> done_inv D (fst (push a c now))"
    and "snd (push a c now) \<noteq> None \<Longrightarrow> (ch_generation c, ch_sequence c) \<notin> D \<and>
       done_inv (insert (ch_generation c, ch_sequence c) D) (fst (push a c now))"
proof -
  let ?e = "enter_generation (expire a now) c"
  let ?a = "claim_slot ?e (ch_sequence c) now"
  have mid: "done_inv D ?e" if "\<And>g. asm_generation a = Some g \<Longrightarrow> g \<le> ch_generation c"
    by (rule done_inv_enter [OF done_inv_expire [OF assms]]) (use that in simp)
  have le: "unat (ch_sequence c) \<le> unat (newest_sequence ?e)"
    by (simp add: newest_enter max_def word_le_nat_alt)
  have kept: "(snd (store_chunk ?a c now) = None \<longrightarrow> done_inv D (fst (store_chunk ?a c now))) \<and>
      (snd (store_chunk ?a c now) \<noteq> None \<longrightarrow> (ch_generation c, ch_sequence c) \<notin> D \<and>
       done_inv (insert (ch_generation c, ch_sequence c) D) (fst (store_chunk ?a c now)))"
    if gen: "\<And>g. asm_generation a = Some g \<Longrightarrow> g \<le> ch_generation c"
      and "\<not> of_nat SLOTS \<le> sat_sub (newest_sequence ?e) (ch_sequence c)"
  proof -
    from that(2) have win: "unat (newest_sequence ?e) < unat (ch_sequence c) + SLOTS"
      by (simp only: in_window)
    have inv: "done_inv D ?a"
      by (rule done_inv_claim [OF mid [OF gen] _ le win]) simp_all
    have "length (slots ?e) = SLOTS" using mid [OF gen] by (simp add: done_inv_def)
    then show ?thesis
      using done_inv_store [OF inv _ _ _ claimed_sequence] le win by simp
  qed
  show "snd (push a c now) = None \<Longrightarrow> done_inv D (fst (push a c now))"
    by (rule push_cases [of a c now])
      (use kept mid done_inv_expire [OF assms] in auto)
  show "snd (push a c now) \<noteq> None \<Longrightarrow> (ch_generation c, ch_sequence c) \<notin> D \<and>
       done_inv (insert (ch_generation c, ch_sequence c) D) (fst (push a c now))"
    by (rule push_cases [of a c now]) (use kept in auto)
qed

lemma run_push_once:
  "done_inv D a \<Longrightarrow>
   distinct (map (\<lambda>x. (ch_generation (fst x), ch_sequence (fst x))) (snd (run_push a cs))) \<and>
   (\<forall>x \<in> set (snd (run_push a cs)). (ch_generation (fst x), ch_sequence (fst x)) \<notin> D)"
proof (induction a cs arbitrary: D rule: run_push.induct)
  case (2 a c now cs)
  obtain a' r where push: "push a c now = (a', r)" by (cases "push a c now")
  show ?case
  proof (cases r)
    case None
    with 2(1) [OF push [symmetric] None] done_inv_push(1) [OF 2(3), of c now] push
    show ?thesis by simp
  next
    case (Some q)
    with done_inv_push(2) [OF 2(3), of c now] push
    have new: "(ch_generation c, ch_sequence c) \<notin> D"
      and inv: "done_inv (insert (ch_generation c, ch_sequence c) D) a'" by simp_all
    from 2(2) [OF push [symmetric] Some inv] new push Some show ?thesis
      by (fastforce split: prod.splits)
  qed
qed simp

section \<open>Any order of arrival completes a frame\<close>

definition frame_chunk :: "u64 \<Rightarrow> u64 \<Rightarrow> (nat \<Rightarrow> bytes) \<Rightarrow> nat \<Rightarrow> pcm_chunk" where
  "frame_chunk s g pl i =
     \<lparr>ch_sequence = s, ch_generation = g, ch_index = i, ch_payload = pl i\<rparr>"

definition collecting :: "u64 \<Rightarrow> u64 \<Rightarrow> (nat \<Rightarrow> bytes) \<Rightarrow> nat \<Rightarrow> nat set \<Rightarrow> pcm_assembly \<Rightarrow> bool" where
  "collecting s g pl t0 K a \<longleftrightarrow> length (slots a) = SLOTS \<and> asm_generation a = Some g \<and>
     unat s \<le> unat (newest_sequence a) \<and> unat (newest_sequence a) < unat s + SLOTS \<and>
     sl_sequence (slots a ! slot_index s) = Some s \<and>
     sl_first_arrival (slots a ! slot_index s) = Some t0 \<and>
     (\<forall>k. bit (sl_mask (slots a ! slot_index s)) k \<longleftrightarrow> k \<in> K) \<and>
     (\<exists>p. sl_packet (slots a ! slot_index s) = Some p \<and> seq_num p = s \<and>
        payload_len p = PCM_PAYLOAD * PCM_CHUNKS \<and>
        length (payload_data p) = MAX_PACKET_PAYLOAD \<and> (\<forall>k \<in> K. frame_slice p k = pl k))"

text \<open>The window can still take frame \<open>s\<close> of generation \<open>g\<close>, and its slot is not already its own.\<close>

definition awaits :: "pcm_assembly \<Rightarrow> u64 \<Rightarrow> u64 \<Rightarrow> bool" where
  "awaits a s g \<longleftrightarrow> length (slots a) = SLOTS \<and>
     (case asm_generation a of None \<Rightarrow> True
      | Some g0 \<Rightarrow> g0 < g \<or> g0 = g \<and> unat (newest_sequence a) < unat s + SLOTS \<and>
          sl_sequence (slots a ! slot_index s) \<noteq> Some s)"

lemma frame_chunk_sel [simp]:
  "ch_sequence (frame_chunk s g pl i) = s" "ch_generation (frame_chunk s g pl i) = g"
  "ch_index (frame_chunk s g pl i) = i" "ch_payload (frame_chunk s g pl i) = pl i"
  by (simp_all add: frame_chunk_def)

lemma bit_15: "bit (15 :: u8) k \<longleftrightarrow> k < 4"
proof
  assume b: "bit (15 :: u8) k"
  then have "k < 8" using bit_imp_le_length [of "15 :: u8" k] by simp
  then have "k \<in> {0, 1, 2, 3, 4, 5, 6, 7}" by auto
  with b show "k < 4" by auto
next
  assume "k < 4"
  then have "k \<in> {0, 1, 2, 3}" by auto
  then show "bit (15 :: u8) k" by auto
qed

lemma collecting_store:
  assumes col: "collecting s g pl t0 K a" and i: "i \<notin> K" "i < 4" and K: "K \<subseteq> {..<4}"
    and len: "length (pl i) = PCM_PAYLOAD"
  shows "K \<union> {i} \<noteq> {..<4} \<Longrightarrow> snd (store_chunk a (frame_chunk s g pl i) now) = None \<and>
      collecting s g pl t0 (K \<union> {i}) (fst (store_chunk a (frame_chunk s g pl i) now))"
    and "K \<union> {i} = {..<4} \<Longrightarrow> \<exists>p. snd (store_chunk a (frame_chunk s g pl i) now) = Some p \<and>
      seq_num p = s \<and> arrival_time p = now \<and> packet_payload p = concat (map pl [0, 1, 2, 3])"
proof -
  let ?c = "frame_chunk s g pl i" and ?slot = "slots a ! slot_index s"
  obtain p where p: "sl_packet ?slot = Some p" "seq_num p = s"
    "payload_len p = PCM_PAYLOAD * PCM_CHUNKS" "length (payload_data p) = MAX_PACKET_PAYLOAD"
    "\<forall>k \<in> K. frame_slice p k = pl k"
    using col unfolding collecting_def by blast
  let ?p = "p\<lparr>payload_data := copy_at (i * PCM_PAYLOAD) (pl i) (payload_data p)\<rparr>"
  let ?m = "sl_mask ?slot OR push_bit i 1"
  have ok: "chunk_ok ?c" using i len by (simp add: chunk_ok_def wire_consts)
  have bits: "bit ?m k \<longleftrightarrow> k \<in> K \<union> {i}" for k
    using col i by (auto simp: collecting_def bit_or_iff bit_exp_iff possible_bit_def)
  have fresh: "\<not> sl_mask ?slot AND push_bit i 1 \<noteq> 0"
    unfolding mask_bit using col i by (simp add: collecting_def)
  have "?m = 15 \<longleftrightarrow> (\<forall>k < 8. k \<in> K \<union> {i} \<longleftrightarrow> k < 4)"
    unfolding bit_eq_iff bits bit_15 by simp
  also have "\<dots> \<longleftrightarrow> K \<union> {i} = {..<4}"
    using K i by (intro iffI equalityI subsetI) auto
  finally have full: "?m = 15 \<longleftrightarrow> K \<union> {i} = {..<4}" .
  have slice: "frame_slice ?p k = (if k = i then pl i else frame_slice p k)" if "k < 4" for k
    using frame_slice_copy [OF p(4) ok, of k] that by (simp add: wire_consts)
  have plen: "length (payload_data ?p) = MAX_PACKET_PAYLOAD"
    using p(4) i len by (simp add: wire_consts)
  have store: "store_chunk a ?c now = (if ?m \<noteq> 15
      then (a\<lparr>slots := (slots a)[slot_index s := ?slot\<lparr>sl_mask := ?m, sl_packet := Some ?p\<rparr>]\<rparr>, None)
      else (a\<lparr>slots := (slots a)[slot_index s := ?slot\<lparr>sl_mask := ?m, sl_packet := None\<rparr>],
              completed_frames := completed_frames a + 1\<rparr>, Some (?p\<lparr>arrival_time := now\<rparr>)))"
    using fresh p(1) by (simp add: store_chunk_def Let_def)
  have slices: "\<forall>k \<in> K \<union> {i}. frame_slice ?p k = pl k"
    using slice p(5) K i by auto
  show "K \<union> {i} \<noteq> {..<4} \<Longrightarrow> snd (store_chunk a ?c now) = None \<and>
      collecting s g pl t0 (K \<union> {i}) (fst (store_chunk a ?c now))"
    using col bits slices p(2, 3) plen full by (simp add: store collecting_def)
  assume all: "K \<union> {i} = {..<4}"
  have "packet_payload (?p\<lparr>arrival_time := now\<rparr>) = packet_payload ?p"
    by (simp add: packet_payload_def)
  also have "\<dots> = concat (map pl [0, 1, 2, 3])"
  proof -
    have "frame_slice ?p k = pl k" if "k < 4" for k using slices all that by blast
    then show ?thesis using payload_slices [OF plen] p(3) by simp
  qed
  finally show "\<exists>p. snd (store_chunk a ?c now) = Some p \<and>
      seq_num p = s \<and> arrival_time p = now \<and> packet_payload p = concat (map pl [0, 1, 2, 3])"
    using all full p(2) by (simp add: store)
qed

lemma collecting_pre:
  assumes "collecting s g pl t0 K a" and "since now t0 < ASSEMBLY_DEADLINE"
  shows "collecting s g pl t0 K
      (claim_slot (enter_generation (expire a now) (frame_chunk s g pl i)) s now)"
    and "push a (frame_chunk s g pl i) now = store_chunk
      (claim_slot (enter_generation (expire a now) (frame_chunk s g pl i)) s now)
      (frame_chunk s g pl i) now"
proof -
  let ?e = "enter_generation (expire a now) (frame_chunk s g pl i)"
  have slot: "slots ?e ! slot_index s = slots a ! slot_index s"
    using assms by (auto simp: collecting_def slots_enter expire_def expire_slot_def slot_expired_def)
  have newest: "newest_sequence ?e = newest_sequence a"
    using assms(1)
    by (auto simp: collecting_def newest_enter max_def word_le_nat_alt word_unat_eq_iff)
  show "collecting s g pl t0 K (claim_slot ?e s now)"
    using assms(1) slot newest by (simp add: collecting_def slots_claim)
      (simp add: slots_enter expire_def)
  have "\<not> of_nat SLOTS \<le> sat_sub (newest_sequence ?e) s"
    unfolding in_window using assms(1) newest by (simp add: collecting_def)
  with assms(1) show "push a (frame_chunk s g pl i) now =
      store_chunk (claim_slot ?e s now) (frame_chunk s g pl i) now"
    by (simp add: push_def Let_def collecting_def)
qed

lemma awaits_pre:
  assumes "awaits a s g"
  shows "collecting s g pl now {}
      (claim_slot (enter_generation (expire a now) (frame_chunk s g pl i)) s now)"
    and "push a (frame_chunk s g pl i) now = store_chunk
      (claim_slot (enter_generation (expire a now) (frame_chunk s g pl i)) s now)
      (frame_chunk s g pl i) now"
proof -
  let ?e = "enter_generation (expire a now) (frame_chunk s g pl i)"
  have len: "length (slots ?e) = SLOTS"
    using assms by (simp add: awaits_def slots_enter expire_def)
  have open': "sl_sequence (slots ?e ! slot_index s) \<noteq> Some s"
    using assms slot_index_less [of s]
    by (auto simp: awaits_def slots_enter expire_def expire_slot_def empty_slot_def
        split: option.splits)
  have win: "unat s \<le> unat (newest_sequence ?e)" "unat (newest_sequence ?e) < unat s + SLOTS"
    using assms by (auto simp: awaits_def newest_enter max_def word_le_nat_alt SLOTS_def
        split: option.splits)
  show "collecting s g pl now {} (claim_slot ?e s now)"
    using win len open' by (simp add: collecting_def slots_claim)
      (simp add: fresh_slot_def zeroed_def)
  have "\<not> of_nat SLOTS \<le> sat_sub (newest_sequence ?e) s"
    unfolding in_window by (rule win(2))
  with assms show "push a (frame_chunk s g pl i) now =
      store_chunk (claim_slot ?e s now) (frame_chunk s g pl i) now"
    by (auto simp: push_def Let_def awaits_def split: option.splits)
qed

lemma run_collecting:
  assumes "collecting s g pl t0 K a" and "K \<inter> set is = {}" "K \<union> set is = {..<4}" "distinct is"
    "is \<noteq> []" "\<forall>i < 4. length (pl i) = PCM_PAYLOAD" "length ts = length is"
    "\<forall>t \<in> set ts. since t t0 < ASSEMBLY_DEADLINE"
  shows "\<exists>p. snd (run_push a (zip (map (frame_chunk s g pl) is) ts)) =
      [(frame_chunk s g pl (last is), p)] \<and> seq_num p = s \<and> arrival_time p = last ts \<and>
      packet_payload p = concat (map pl [0, 1, 2, 3])"
  using assms
proof (induction "is" arbitrary: K a ts)
  case (Cons i js)
  obtain t us where ts: "ts = t # us" "length us = length js"
    using Cons.prems(7) by (cases ts) auto
  let ?b = "claim_slot (enter_generation (expire a t) (frame_chunk s g pl i)) s t"
  have i: "i \<notin> K" "i < 4" and K: "K \<subseteq> {..<4}" and pli: "length (pl i) = PCM_PAYLOAD"
    using Cons.prems(2, 3, 6) by auto
  have t: "since t t0 < ASSEMBLY_DEADLINE" using Cons.prems(8) ts by simp
  note pre = collecting_pre [OF Cons.prems(1) t, of i]
  note step = collecting_store [OF pre(1) i K pli, of t]
  show ?case
  proof (cases "js = []")
    case True
    with Cons.prems(3) have "K \<union> {i} = {..<4}" by simp
    from step(2) [OF this] True ts pre(2) show ?thesis by (auto split: prod.splits)
  next
    case False
    then obtain j where j: "j \<in> set js" by (cases js) auto
    then have "j \<in> {..<4}" using Cons.prems(3) by (metis UnI2 list.set_intros(2))
    moreover have "j \<notin> K \<union> {i}" using j Cons.prems(2, 4) by auto
    ultimately have "K \<union> {i} \<noteq> {..<4}" by blast
    from step(1) [OF this] obtain a' where a': "push a (frame_chunk s g pl i) t = (a', None)"
      "collecting s g pl t0 (K \<union> {i}) a'"
      using pre(2) by (metis prod.collapse)
    have "\<exists>p. snd (run_push a' (zip (map (frame_chunk s g pl) js) us)) =
      [(frame_chunk s g pl (last js), p)] \<and> seq_num p = s \<and> arrival_time p = last us \<and>
      packet_payload p = concat (map pl [0, 1, 2, 3])"
      by (rule Cons.IH [OF a'(2)]) (use Cons.prems False ts in auto)
    then show ?thesis using a'(1) False ts by auto
  qed
qed simp

lemma any_order:
  assumes "awaits a s g" and "distinct is" "set is = {..<4}" "length ts = 4"
    and "\<forall>i < 4. length (pl i) = PCM_PAYLOAD"
    and "\<forall>t \<in> set (tl ts). since t (hd ts) < ASSEMBLY_DEADLINE"
  shows "\<exists>p. snd (run_push a (zip (map (frame_chunk s g pl) is) ts)) =
      [(frame_chunk s g pl (last is), p)] \<and> seq_num p = s \<and> arrival_time p = last ts \<and>
      packet_payload p = concat (map pl [0, 1, 2, 3])"
proof -
  have "length is = 4" using assms(2, 3) distinct_card [of "is"] by simp
  then obtain i js where is': "is = i # js" "length js = 3" by (cases "is") auto
  obtain t us where ts: "ts = t # us" "length us = 3" using assms(4) by (cases ts) auto
  let ?b = "claim_slot (enter_generation (expire a t) (frame_chunk s g pl i)) s t"
  have i: "js \<noteq> []" "i \<notin> set js" "distinct js" using assms(2) is' by auto
  have all: "insert i (set js) = {..<4}" using assms(3) is' by simp
  then have i4: "i < 4" by blast
  obtain j where "j \<in> set js" using i(1) by (cases js) auto
  then have "j \<in> {..<4}" "j \<noteq> i" using all i(2) by blast+
  then have ne: "{} \<union> {i} \<noteq> {..<4}" by blast
  have pli: "length (pl i) = PCM_PAYLOAD" using assms(5) i4 by blast
  note pre = awaits_pre [OF assms(1), where pl = pl and now = t and i = i]
  from collecting_store(1) [OF pre(1) _ i4 _ pli ne, of t] obtain a' where
    a': "push a (frame_chunk s g pl i) t = (a', None)" "collecting s g pl t ({} \<union> {i}) a'"
    using pre(2) by (metis empty_iff empty_subsetI prod.collapse)
  have "\<exists>p. snd (run_push a' (zip (map (frame_chunk s g pl) js) us)) =
      [(frame_chunk s g pl (last js), p)] \<and> seq_num p = s \<and> arrival_time p = last us \<and>
      packet_payload p = concat (map pl [0, 1, 2, 3])"
    by (rule run_collecting [OF a'(2)]) (use assms(4-6) all is' ts i in auto)
  then show ?thesis using a'(1) is' ts i by auto
qed

text \<open>
  C38: every frame the assembly hands to the jitter buffer is built from four datagrams that were
  received, all with the frame's sequence number and the completing datagram's generation, whose
  payloads in index order are exactly the frame's bytes: losses, reordering, duplicates,
  displaced and expired frames and sender restarts never mix two frames or two generations.
\<close>

theorem assembled_frames_are_pure:
  assumes "\<forall>(c, t) \<in> set cs. chunk_ok c"
    and "(c, p) \<in> set (snd (run_push new_assembly cs))"
  shows "seq_num p = ch_sequence c \<and> is_uncompressed p \<and> \<not> is_silence p \<and>
    (\<exists>ds. set ds \<subseteq> fst ` set cs \<and> map ch_index ds = [0, 1, 2, 3] \<and>
       (\<forall>d \<in> set ds. ch_sequence d = ch_sequence c \<and> ch_generation d = ch_generation c) \<and>
       packet_payload p = concat (map ch_payload ds))"
  using run_push_assembled [OF asm_inv_new [of "{}"] assms] by (simp add: assembled_from_def)

definition sample_payload :: "nat \<Rightarrow> bytes" where
  "sample_payload i = replicate PCM_PAYLOAD (of_nat i)"

lemma sample_run:
  "awaits new_assembly 7 1" "distinct [2, 0, 3, 1 :: nat]" "set [2, 0, 3, 1 :: nat] = {..<4}"
  "length [0, 5, 99999999, 50 :: nat] = 4" "\<forall>i < 4. length (sample_payload i) = PCM_PAYLOAD"
  "\<forall>t \<in> set (tl [0, 5, 99999999, 50]). since t (hd [0, 5, 99999999, 50]) < ASSEMBLY_DEADLINE"
  by (auto simp: awaits_def new_assembly_def sample_payload_def since_def ASSEMBLY_DEADLINE_def
      millis_def)

abbreviation "sample_arrivals \<equiv>
  zip (map (frame_chunk 7 1 sample_payload) [2, 0, 3, 1]) [0, 5, 99999999, 50 :: nat]"

theorem assembled_frames_are_pure_witness:
  "\<exists>p :: raw_packet. (\<exists>ds :: pcm_chunk list. map ch_index ds = [0, 1, 2, 3] \<and>
     packet_payload p = concat (map ch_payload ds)) \<and> seq_num p = 7"
proof -
  have last: "last [2, 0, 3, 1 :: nat] = 1" by simp
  from any_order [OF sample_run, unfolded last] obtain p where
    "snd (run_push new_assembly sample_arrivals) = [(frame_chunk 7 1 sample_payload 1, p)]"
    by (elim exE conjE)
  then have p: "(frame_chunk 7 1 sample_payload 1, p) \<in> set (snd (run_push new_assembly sample_arrivals))"
    by (simp only: list.set_intros)
  have "\<forall>(c, t) \<in> set sample_arrivals. chunk_ok c"
    by (simp add: chunk_ok_def sample_payload_def PCM_CHUNKS_def)
  note pure = assembled_frames_are_pure [OF this p]
  have eq: "ch_sequence (frame_chunk 7 1 sample_payload 1) = 7" by simp
  show ?thesis by (rule exI [of _ p]) (use pure eq in metis)
qed

text \<open>
  No frame is delivered twice: in any run, the completed frames have pairwise different
  pairs of generation and sequence number.
\<close>

theorem frames_complete_at_most_once:
  "distinct (map (\<lambda>x. (ch_generation (fst x), ch_sequence (fst x)))
     (snd (run_push new_assembly cs)))"
proof -
  have "done_inv {} new_assembly" by (simp add: done_inv_def new_assembly_def)
  then show ?thesis using run_push_once by blast
qed

text \<open>
  The four datagrams of a frame, arriving in any order and each less than the 100 ms deadline
  after the first, complete that frame exactly once, with the last arrival's time, from any
  state of the assembly whose window can still take it.
\<close>

theorem any_order_completes:
  assumes "awaits a s g" and "distinct is" "set is = {..<4}" "length ts = 4"
    and "\<forall>i < 4. length (pl i) = PCM_PAYLOAD"
    and "\<forall>t \<in> set (tl ts). since t (hd ts) < ASSEMBLY_DEADLINE"
  shows "\<exists>p. snd (run_push a (zip (map (frame_chunk s g pl) is) ts)) =
      [(frame_chunk s g pl (last is), p)] \<and> seq_num p = s \<and> arrival_time p = last ts \<and>
      packet_payload p = concat (map pl [0, 1, 2, 3])"
  using assms by (rule any_order)

theorem any_order_completes_witness:
  "\<exists>p. snd (run_push new_assembly sample_arrivals) = [(frame_chunk 7 1 sample_payload 1, p)] \<and>
     seq_num p = 7 \<and> arrival_time p = 50 \<and>
     packet_payload p = concat (map sample_payload [0, 1, 2, 3])"
proof -
  have last: "last [2, 0, 3, 1 :: nat] = 1" "last [0, 5, 99999999, 50 :: nat] = 50" by simp_all
  show ?thesis by (rule any_order_completes [OF sample_run, unfolded last])
qed

end
