(* ===== verification/Jitter_Buffer.thy ===== *)
theory Jitter_Buffer
  imports Wire
begin

text \<open>
  The reorder buffer of the jitter pipeline (\<open>jitter/buffer.rs\<close>): 512 slots indexed by sequence
  number modulo the capacity, and a playhead.

  The abstract view of a buffer is the partial map \<open>jb_lookup\<close> from sequence numbers to packets,
  with the playhead. Under the invariant \<open>jb_inv\<close> the slots hold exactly the packets of the
  window \<open>[playhead, playhead + 512)\<close>, the count is exact, and every operation is the obvious
  operation on the map. The cache of the lowest sequence number is only shown to name a stored
  packet, because that is all it does.
\<close>

definition BUFFER_CAPACITY :: u64 where "BUFFER_CAPACITY = 512"

datatype insert_result = Accepted | Stale | StreamRestarted

record jitter_buffer =
  jb_slots :: "raw_packet option list"
  jb_capacity :: u64
  jb_next :: u64
  jb_initialized :: bool
  jb_occupied :: u32
  jb_cached_min :: "u64 option"

definition jb_new :: jitter_buffer where
  "jb_new = \<lparr>jb_slots = replicate (unat BUFFER_CAPACITY) None, jb_capacity = BUFFER_CAPACITY,
     jb_next = 0, jb_initialized = False, jb_occupied = 0, jb_cached_min = None\<rparr>"

definition jb_reset :: "jitter_buffer \<Rightarrow> jitter_buffer" where
  "jb_reset b = b\<lparr>jb_slots := map (\<lambda>_. None) (jb_slots b), jb_next := 0,
     jb_initialized := False, jb_occupied := 0, jb_cached_min := None\<rparr>"

definition jb_index :: "jitter_buffer \<Rightarrow> u64 \<Rightarrow> nat" where
  "jb_index b seq = unat (seq mod jb_capacity b)"

text \<open>One step of the clearing loop of \<open>skip_to\<close>, and \<open>skip_to\<close> itself.\<close>

fun clear_slot :: "nat \<Rightarrow> raw_packet option list \<times> u32 \<Rightarrow> nat \<Rightarrow> raw_packet option list \<times> u32" where
  "clear_slot cap (slots, occ) seq =
     (let i = seq mod cap in
      if slots ! i \<noteq> None then (slots[i := None], sat_sub32 occ 1) else (slots, occ))"

definition skip_to :: "jitter_buffer \<Rightarrow> u64 \<Rightarrow> jitter_buffer" where
  "skip_to b new_seq =
     (let b' =
        (if jb_capacity b \<le> sat_sub new_seq (jb_next b)
         then b\<lparr>jb_slots := map (\<lambda>_. None) (jb_slots b), jb_occupied := 0\<rparr>
         else
           let clear_end = min new_seq (jb_next b + jb_capacity b);
               cleared = foldl (clear_slot (unat (jb_capacity b))) (jb_slots b, jb_occupied b)
                 [unat (jb_next b)..<unat clear_end] in
           b\<lparr>jb_slots := fst cleared, jb_occupied := snd cleared\<rparr>) in
      b'\<lparr>jb_next := new_seq, jb_cached_min := None\<rparr>)"

definition fast_forward :: "jitter_buffer \<Rightarrow> u64 \<Rightarrow> jitter_buffer" where
  "fast_forward b next_seq = skip_to b next_seq"

definition put_packet :: "jitter_buffer \<Rightarrow> raw_packet \<Rightarrow> jitter_buffer" where
  "put_packet b p =
     (let seq = seq_num p; i = jb_index b seq in
      b\<lparr>jb_occupied := (if jb_slots b ! i = None then jb_occupied b + 1 else jb_occupied b),
        jb_slots := (jb_slots b)[i := Some p],
        jb_cached_min := Some (case jb_cached_min b of None \<Rightarrow> seq | Some m \<Rightarrow> min m seq)\<rparr>)"

definition jb_insert :: "jitter_buffer \<Rightarrow> raw_packet \<Rightarrow> jitter_buffer \<times> insert_result" where
  "jb_insert b0 p =
     (let b = (if jb_initialized b0 then b0
               else b0\<lparr>jb_next := seq_num p, jb_initialized := True\<rparr>);
          far = jb_capacity b < sat_sub (jb_next b) (seq_num p) in
      if seq_num p < jb_next b \<and> \<not> far then (b, Stale)
      else
        let restarted = seq_num p < jb_next b;
            b1 = (if restarted then (jb_reset b)\<lparr>jb_next := seq_num p, jb_initialized := True\<rparr> else b);
            b2 = (if jb_next b1 + jb_capacity b1 \<le> seq_num p
                  then skip_to b1 (sat_sub (seq_num p) (jb_capacity b1 div 2)) else b1) in
        (put_packet b2 p, if restarted then StreamRestarted else Accepted))"

definition pop_next :: "jitter_buffer \<Rightarrow> jitter_buffer \<times> raw_packet option" where
  "pop_next b =
     (if \<not> jb_initialized b then (b, None)
      else let i = jb_index b (jb_next b) in
        case jb_slots b ! i of
          None \<Rightarrow> (b\<lparr>jb_next := jb_next b + 1\<rparr>, None)
        | Some p \<Rightarrow>
            if seq_num p = jb_next b
            then (b\<lparr>jb_slots := (jb_slots b)[i := None], jb_occupied := sat_sub32 (jb_occupied b) 1,
                    jb_next := jb_next b + 1, jb_cached_min := None\<rparr>, Some p)
            else if jb_next b < seq_num p
            then (b\<lparr>jb_next := jb_next b + 1, jb_cached_min := None\<rparr>, None)
            else (b\<lparr>jb_slots := (jb_slots b)[i := None], jb_occupied := sat_sub32 (jb_occupied b) 1,
                    jb_next := jb_next b + 1, jb_cached_min := None\<rparr>, None))"

definition has_next :: "jitter_buffer \<Rightarrow> bool" where
  "has_next b \<longleftrightarrow> jb_initialized b \<and>
     (case jb_slots b ! jb_index b (jb_next b) of None \<Rightarrow> False
      | Some p \<Rightarrow> seq_num p = jb_next b)"

definition advance_one :: "jitter_buffer \<Rightarrow> jitter_buffer" where
  "advance_one b =
     (let i = jb_index b (jb_next b);
          hit = (case jb_slots b ! i of None \<Rightarrow> False | Some p \<Rightarrow> seq_num p = jb_next b);
          b' = (if hit then b\<lparr>jb_slots := (jb_slots b)[i := None],
                              jb_occupied := sat_sub32 (jb_occupied b) 1\<rparr> else b) in
      b'\<lparr>jb_next := jb_next b + 1, jb_cached_min := None\<rparr>)"

definition occupied_count :: "jitter_buffer \<Rightarrow> u32" where
  "occupied_count b = (if jb_initialized b then jb_occupied b else 0)"

definition contiguous_depth :: "jitter_buffer \<Rightarrow> u32" where
  "contiguous_depth b =
     (if \<not> jb_initialized b then 0
      else of_nat (length (filter (\<lambda>i.
        case jb_slots b ! jb_index b (jb_next b + of_nat i) of
          None \<Rightarrow> False | Some p \<Rightarrow> jb_next b \<le> seq_num p) [0..<unat (jb_capacity b)])))"

fun min_seq :: "raw_packet option list \<Rightarrow> u64 option \<Rightarrow> u64 option" where
  "min_seq [] m = m"
| "min_seq (None # s) m = min_seq s m"
| "min_seq (Some p # s) m =
     min_seq s (Some (case m of None \<Rightarrow> seq_num p | Some x \<Rightarrow> min x (seq_num p)))"

definition lowest_available_seq :: "jitter_buffer \<Rightarrow> jitter_buffer \<times> u64 option" where
  "lowest_available_seq b = (case jb_cached_min b of
       Some m \<Rightarrow> (b, Some m)
     | None \<Rightarrow> (let m = min_seq (jb_slots b) None in (b\<lparr>jb_cached_min := m\<rparr>, m)))"

section \<open>Counting filled slots\<close>

definition filled :: "'a option list \<Rightarrow> nat" where
  "filled xs = length (filter (\<lambda>x. x \<noteq> None) xs)"

lemma filled_le: "filled xs \<le> length xs"
  by (simp add: filled_def)

lemma filled_update:
  "i < length xs \<Longrightarrow> filled (xs[i := x]) + (if xs ! i \<noteq> None then 1 else 0) =
     filled xs + (if x \<noteq> None then 1 else 0)"
proof -
  assume i: "i < length xs"
  have "filled xs = filled (take i xs @ xs ! i # drop (Suc i) xs)"
    using id_take_nth_drop [OF i] by simp
  then show ?thesis
    by (simp add: upd_conv_take_nth_drop [OF i] filled_def)
qed

lemma filled_clear: "i < length xs \<Longrightarrow> xs ! i \<noteq> None \<Longrightarrow> Suc (filled (xs[i := None])) = filled xs"
  using filled_update [of i xs None] by simp

lemma filled_pos: "i < length xs \<Longrightarrow> xs ! i \<noteq> None \<Longrightarrow> 0 < filled xs"
  using filled_clear [of i xs] by simp

lemma filled_none [simp]: "filled (map (\<lambda>_. None) xs) = 0" "filled (replicate n None) = 0"
  by (simp_all add: filled_def)

section \<open>The buffer as a map\<close>

definition jb_lookup :: "jitter_buffer \<Rightarrow> nat \<Rightarrow> raw_packet option" where
  "jb_lookup b s = (case jb_slots b ! (s mod 512) of None \<Rightarrow> None
     | Some p \<Rightarrow> if unat (seq_num p) = s then Some p else None)"

definition jb_head :: "jitter_buffer \<Rightarrow> nat" where
  "jb_head b = unat (jb_next b)"

definition jb_inv :: "jitter_buffer \<Rightarrow> bool" where
  "jb_inv b \<longleftrightarrow> length (jb_slots b) = 512 \<and> jb_capacity b = 512 \<and>
     unat (jb_occupied b) = filled (jb_slots b) \<and>
     (\<not> jb_initialized b \<longrightarrow> filled (jb_slots b) = 0) \<and>
     (\<forall>i < 512. \<forall>p. jb_slots b ! i = Some p \<longrightarrow>
        unat (seq_num p) mod 512 = i \<and> jb_head b \<le> unat (seq_num p) \<and>
        unat (seq_num p) < jb_head b + 512) \<and>
     (\<forall>m. jb_cached_min b = Some m \<longrightarrow> jb_lookup b (unat m) \<noteq> None)"

text \<open>The sequence numbers for which the arithmetic of the window cannot wrap.\<close>

definition SEQ_LIMIT :: nat where "SEQ_LIMIT = 2 ^ 64 - 1024"

lemma jb_invD:
  assumes "jb_inv b"
  shows "length (jb_slots b) = 512" "jb_capacity b = 512"
    "unat (jb_occupied b) = filled (jb_slots b)"
    "\<not> jb_initialized b \<Longrightarrow> filled (jb_slots b) = 0"
    "\<And>i p. i < 512 \<Longrightarrow> jb_slots b ! i = Some p \<Longrightarrow> unat (seq_num p) mod 512 = i"
    "\<And>i p. i < 512 \<Longrightarrow> jb_slots b ! i = Some p \<Longrightarrow> jb_head b \<le> unat (seq_num p)"
    "\<And>i p. i < 512 \<Longrightarrow> jb_slots b ! i = Some p \<Longrightarrow> unat (seq_num p) < jb_head b + 512"
    "\<And>m. jb_cached_min b = Some m \<Longrightarrow> jb_lookup b (unat m) \<noteq> None"
  using assms unfolding jb_inv_def by blast+

lemma unat_mod_capacity: "unat (s mod 512 :: u64) = unat s mod 512"
  by (simp add: unat_mod)

lemma jb_index_eq: "jb_inv b \<Longrightarrow> jb_index b s = unat s mod 512"
  by (simp add: jb_index_def jb_invD(2) unat_mod_capacity)

lemma window_unique:
  "(s :: nat) mod 512 = t mod 512 \<Longrightarrow> h \<le> s \<Longrightarrow> s < h + 512 \<Longrightarrow> h \<le> t \<Longrightarrow> t < h + 512 \<Longrightarrow> s = t"
proof -
  assume a: "s mod 512 = t mod 512" "h \<le> s" "s < h + 512" "h \<le> t" "t < h + 512"
  have "s = s div 512 * 512 + s mod 512" "t = t div 512 * 512 + t mod 512" by simp_all
  moreover have "s div 512 = t div 512 \<or> s div 512 < t div 512 \<or> t div 512 < s div 512" by linarith
  ultimately show ?thesis using a by linarith
qed

text \<open>In a slot inside the window there is nothing but the packet of that number.\<close>

lemma slot_lookup:
  assumes "jb_inv b" and "jb_head b \<le> s" "s < jb_head b + 512"
  shows "jb_slots b ! (s mod 512) = jb_lookup b s"
proof (cases "jb_slots b ! (s mod 512)")
  case (Some p)
  have i: "s mod 512 < 512" by simp
  have "unat (seq_num p) = s"
    by (rule window_unique [OF jb_invD(5) [OF assms(1) i Some]])
      (use assms jb_invD(6, 7) [OF assms(1) i Some] in auto)
  with Some show ?thesis by (simp add: jb_lookup_def)
qed (simp add: jb_lookup_def)

lemma lookup_window: "jb_inv b \<Longrightarrow> jb_lookup b s = Some p \<Longrightarrow>
    unat (seq_num p) = s \<and> jb_head b \<le> s \<and> s < jb_head b + 512"
  using jb_invD(6, 7) [of b "s mod 512"]
  by (auto simp: jb_lookup_def split: option.splits if_splits)

lemma lookup_empty: "\<forall>i < 512. jb_slots b ! i = None \<Longrightarrow> jb_lookup b s = None"
  by (simp add: jb_lookup_def)

lemma filled_0_iff: "filled xs = 0 \<longleftrightarrow> (\<forall>i < length xs. xs ! i = None)"
  by (simp add: filled_def filter_empty_conv all_set_conv_all_nth)

lemma jb_inv_new: "jb_inv jb_new"
  by (simp add: jb_inv_def jb_new_def BUFFER_CAPACITY_def jb_head_def)

lemma jb_inv_reset: "jb_inv b \<Longrightarrow> jb_inv (jb_reset b)"
  by (simp add: jb_inv_def jb_reset_def)

lemma lookup_reset [simp]: "jb_inv b \<Longrightarrow> jb_lookup (jb_reset b) s = None"
  by (simp add: jb_lookup_def jb_reset_def jb_invD(1))

text \<open>Moving only the playhead or the flags of an empty buffer.\<close>

lemma jb_inv_anchor:
  assumes "jb_inv b" "filled (jb_slots b) = 0"
  shows "jb_inv (b\<lparr>jb_next := n, jb_initialized := i\<rparr>)"
    and "jb_lookup b s = None" and "jb_lookup (b\<lparr>jb_next := n, jb_initialized := i\<rparr>) s = None"
proof -
  have none: "\<forall>i < 512. jb_slots b ! i = None"
    using assms filled_0_iff [of "jb_slots b"] jb_invD(1) [OF assms(1)] by simp
  show empty: "jb_lookup b s = None" for s using none by (rule lookup_empty)
  show "jb_lookup (b\<lparr>jb_next := n, jb_initialized := i\<rparr>) s = None"
    by (rule lookup_empty) (use none in simp)
  have "jb_cached_min b = None"
    using jb_invD(8) [OF assms(1)] empty by (cases "jb_cached_min b") auto
  then show "jb_inv (b\<lparr>jb_next := n, jb_initialized := i\<rparr>)"
    using assms none by (simp add: jb_inv_def)
qed

section \<open>The clearing loop\<close>

lemma clear_loop:
  assumes "length xs = 512" and "unat occ = filled xs"
  shows "length (fst (foldl (clear_slot 512) (xs, occ) ss)) = 512 \<and>
    unat (snd (foldl (clear_slot 512) (xs, occ) ss)) =
      filled (fst (foldl (clear_slot 512) (xs, occ) ss)) \<and>
    (\<forall>i < 512. fst (foldl (clear_slot 512) (xs, occ) ss) ! i =
      (if \<exists>s \<in> set ss. s mod 512 = i then None else xs ! i))"
proof (induction ss rule: rev_induct)
  case (snoc s ss)
  obtain ys o' where ys: "foldl (clear_slot 512) (xs, occ) ss = (ys, o')"
    by (cases "foldl (clear_slot 512) (xs, occ) ss")
  have len: "s mod 512 < length ys" using snoc ys by simp
  show ?case
  proof (cases "ys ! (s mod 512) = None")
    case True
    then show ?thesis using snoc ys by auto
  next
    case False
    then have "Suc (filled (ys[s mod 512 := None])) = filled ys"
      using filled_clear len by blast
    then show ?thesis using snoc ys False by (auto simp: nth_list_update)
  qed
qed (use assms in simp)

lemma unat_add_small: "unat a + unat b < 2 ^ 64 \<Longrightarrow> unat (a + b :: u64) = unat a + unat b"
  by (simp add: unat_word_ariths)

lemma unat_next_capacity:
  "jb_head b + 512 < 2 ^ 64 \<Longrightarrow> unat (jb_next b + 512) = jb_head b + 512"
  using unat_add_small [of "jb_next b" 512] by (simp add: jb_head_def)

definition cleared_upto :: "jitter_buffer \<Rightarrow> u64 \<Rightarrow> raw_packet option list \<times> u32" where
  "cleared_upto b n =
     foldl (clear_slot 512) (jb_slots b, jb_occupied b) [jb_head b..<unat n]"

lemma skip_to_far:
  assumes "jb_inv b" and "jb_head b + 512 \<le> unat n"
  shows "skip_to b n = b\<lparr>jb_slots := map (\<lambda>_. None) (jb_slots b), jb_occupied := 0,
    jb_next := n, jb_cached_min := None\<rparr>"
proof -
  have "512 \<le> sat_sub n (jb_next b)"
    using assms(2) by (simp add: word_le_nat_alt jb_head_def)
  then show ?thesis by (simp add: skip_to_def Let_def jb_invD(2) [OF assms(1)])
qed

lemma skip_to_near:
  assumes "jb_inv b" and "\<not> jb_head b + 512 \<le> unat n" and "jb_head b + 512 < 2 ^ 64"
  shows "skip_to b n = b\<lparr>jb_slots := fst (cleared_upto b n), jb_occupied := snd (cleared_upto b n),
    jb_next := n, jb_cached_min := None\<rparr>"
proof -
  have "\<not> 512 \<le> sat_sub n (jb_next b)"
    using assms(2) by (simp add: word_le_nat_alt jb_head_def)
  moreover have "min n (jb_next b + 512) = n"
    using assms(2) unat_next_capacity [OF assms(3)] by (simp add: min_def word_le_nat_alt)
  ultimately show ?thesis
    by (simp add: skip_to_def Let_def jb_invD(2) [OF assms(1)] cleared_upto_def jb_head_def)
qed

lemma skip_to_slots:
  assumes inv: "jb_inv b" and lim: "jb_head b + 512 < 2 ^ 64"
  shows "length (jb_slots (skip_to b n)) = 512"
    "unat (jb_occupied (skip_to b n)) = filled (jb_slots (skip_to b n))"
    "i < 512 \<Longrightarrow> jb_slots (skip_to b n) ! i =
       (case jb_slots b ! i of None \<Rightarrow> None
        | Some p \<Rightarrow> if unat n \<le> unat (seq_num p) then Some p else None)"
proof -
  note D = jb_invD [OF inv]
  note L = clear_loop [OF D(1) D(3), of "[jb_head b..<unat n]", folded cleared_upto_def]
  show "length (jb_slots (skip_to b n)) = 512"
    "unat (jb_occupied (skip_to b n)) = filled (jb_slots (skip_to b n))"
    using skip_to_far [OF inv, of n] skip_to_near [OF inv _ lim, of n] D(1) L
    by (cases "jb_head b + 512 \<le> unat n"; simp)+
  assume i: "i < 512"
  show "jb_slots (skip_to b n) ! i = (case jb_slots b ! i of None \<Rightarrow> None
        | Some p \<Rightarrow> if unat n \<le> unat (seq_num p) then Some p else None)"
  proof (cases "jb_head b + 512 \<le> unat n")
    case True
    with D(7) [OF i] show ?thesis
      by (auto simp: skip_to_far [OF inv] D(1) i split: option.splits)
  next
    case False
    have "(\<exists>t \<in> set [jb_head b..<unat n]. t mod 512 = i) \<longleftrightarrow> unat (seq_num p) < unat n"
      if Some: "jb_slots b ! i = Some p" for p
    proof
      note P = D(5-7) [OF i Some]
      assume "\<exists>t \<in> set [jb_head b..<unat n]. t mod 512 = i"
      then obtain t where t: "jb_head b \<le> t" "t < unat n" "t mod 512 = i" by auto
      then have "t = unat (seq_num p)"
        using window_unique [of t "unat (seq_num p)" "jb_head b"] P False by auto
      with t show "unat (seq_num p) < unat n" by simp
    next
      note P = D(5-7) [OF i Some]
      assume "unat (seq_num p) < unat n"
      with P show "\<exists>t \<in> set [jb_head b..<unat n]. t mod 512 = i" by auto
    qed
    then show ?thesis
      using L i by (auto simp: skip_to_near [OF inv False lim] split: option.splits)
  qed
qed

lemma skip_to_other [simp]:
  "jb_head (skip_to b n) = unat n" "jb_initialized (skip_to b n) = jb_initialized b"
  "jb_next (skip_to b n) = n" "jb_cached_min (skip_to b n) = None"
  "jb_capacity (skip_to b n) = jb_capacity b"
  by (simp_all add: skip_to_def jb_head_def Let_def)

lemma skip_to_spec:
  assumes inv: "jb_inv b" and le: "jb_head b \<le> unat n" and lim: "jb_head b + 512 < 2 ^ 64"
  shows "jb_inv (skip_to b n)"
    "jb_lookup (skip_to b n) s = (if unat n \<le> s then jb_lookup b s else None)"
proof -
  note S = skip_to_slots [OF inv lim, where n = n]
  note D = jb_invD [OF inv]
  show "jb_lookup (skip_to b n) s = (if unat n \<le> s then jb_lookup b s else None)"
    by (auto simp: jb_lookup_def S(3) split: option.splits)
  have "filled (jb_slots (skip_to b n)) = 0" if "\<not> jb_initialized b"
    using D(4) [OF that] S(1, 3) D(1) by (simp add: filled_0_iff)
  moreover have "unat (seq_num p) mod 512 = i \<and> unat n \<le> unat (seq_num p) \<and>
      unat (seq_num p) < unat n + 512" if i: "i < 512" "jb_slots (skip_to b n) ! i = Some p" for i p
    using i(2) D(5, 7) [OF i(1)] le unfolding S(3) [OF i(1)]
    by (auto split: option.splits if_splits)
  ultimately show "jb_inv (skip_to b n)"
    unfolding jb_inv_def using S(1, 2) D(2) by auto
qed

section \<open>The operations on the map\<close>

lemma put_packet_spec:
  assumes inv: "jb_inv b" and init: "jb_initialized b" and "jb_head b \<le> unat (seq_num p)"
    "unat (seq_num p) < jb_head b + 512"
  shows "jb_inv (put_packet b p)" "jb_head (put_packet b p) = jb_head b"
    "jb_initialized (put_packet b p)"
    "jb_lookup (put_packet b p) s = (if s = unat (seq_num p) then Some p else jb_lookup b s)"
proof -
  let ?i = "unat (seq_num p) mod 512"
  note D = jb_invD [OF inv]
  have len: "?i < length (jb_slots b)" using D(1) by simp
  have slots: "jb_slots (put_packet b p) = (jb_slots b)[?i := Some p]"
    by (simp add: put_packet_def jb_index_eq [OF inv] Let_def)
  have same: "jb_slots b ! ?i = jb_lookup b (unat (seq_num p))"
    by (rule slot_lookup [OF inv]) (use assms in auto)
  show head: "jb_head (put_packet b p) = jb_head b" "jb_initialized (put_packet b p)"
    using init by (simp_all add: put_packet_def jb_head_def Let_def)
  show lookup: "jb_lookup (put_packet b p) s =
      (if s = unat (seq_num p) then Some p else jb_lookup b s)" for s
  proof (cases "s mod 512 = ?i")
    case True
    have "jb_lookup b s = None" if ne: "s \<noteq> unat (seq_num p)"
    proof (rule ccontr)
      assume "jb_lookup b s \<noteq> None"
      then obtain q where q: "jb_lookup b s = Some q" by blast
      then have "jb_slots b ! (s mod 512) = Some q" "unat (seq_num q) = s"
        by (simp_all add: jb_lookup_def split: option.splits if_splits)
      with same True lookup_window [OF inv, of "unat (seq_num p)" q] ne show False by simp
    qed
    with True show ?thesis using len by (auto simp: jb_lookup_def slots)
  next
    case False
    then show ?thesis using len by (auto simp: jb_lookup_def slots)
  qed
  have small: "filled (jb_slots b) + 1 < 2 ^ 32"
    using filled_le [of "jb_slots b"] D(1) by simp
  have "unat (jb_occupied b + 1) = unat (jb_occupied b) + 1"
    using small D(3) by (simp add: unat_word_ariths)
  then have occ: "unat (jb_occupied (put_packet b p)) = filled (jb_slots (put_packet b p))"
    using filled_update [OF len, of "Some p"] D(3)
    by (auto simp: slots) (auto simp: put_packet_def jb_index_eq [OF inv] Let_def)
  have cache: "jb_lookup (put_packet b p) (unat m) \<noteq> None" if "jb_cached_min (put_packet b p) = Some m" for m
    using that D(8) by (auto simp: lookup) (auto simp: put_packet_def Let_def min_def split: option.splits if_splits)
  have "unat (seq_num q) mod 512 = i \<and> jb_head b \<le> unat (seq_num q) \<and>
      unat (seq_num q) < jb_head b + 512"
    if i: "i < 512" "jb_slots (put_packet b p) ! i = Some q" for i q
    using i D(5-7) [OF i(1)] assms(3, 4) D(1) by (cases "i = ?i") (auto simp: slots)
  moreover have "length (jb_slots (put_packet b p)) = 512" "jb_capacity (put_packet b p) = 512"
    using D(1, 2) by (simp_all add: slots) (simp add: put_packet_def Let_def)
  ultimately show "jb_inv (put_packet b p)"
    unfolding jb_inv_def head(1) using occ cache head(2) by blast
qed

lemma head_slot: "jb_inv b \<Longrightarrow> jb_slots b ! jb_index b (jb_next b) = jb_lookup b (jb_head b)"
  using slot_lookup [of b "jb_head b"] by (simp add: jb_index_eq jb_head_def)

lemma head_Suc: "jb_head b + 512 < 2 ^ 64 \<Longrightarrow> unat (jb_next b + 1) = Suc (jb_head b)"
  using unat_add_small [of "jb_next b" 1] by (simp add: jb_head_def)

text \<open>Stepping the playhead over its slot, which is emptied when it held the packet.\<close>

definition step_head :: "jitter_buffer \<Rightarrow> u64 option \<Rightarrow> jitter_buffer" where
  "step_head b cache = (if jb_lookup b (jb_head b) = None
     then b\<lparr>jb_next := jb_next b + 1, jb_cached_min := cache\<rparr>
     else b\<lparr>jb_slots := (jb_slots b)[jb_head b mod 512 := None],
            jb_occupied := sat_sub32 (jb_occupied b) 1, jb_next := jb_next b + 1,
            jb_cached_min := cache\<rparr>)"

lemma step_head_spec:
  assumes inv: "jb_inv b" and lim: "jb_head b + 512 < 2 ^ 64"
    and cache: "\<And>m. cache = Some m \<Longrightarrow> jb_lookup b (jb_head b) = None \<and> jb_cached_min b = Some m"
  shows "jb_inv (step_head b cache)" "jb_head (step_head b cache) = Suc (jb_head b)"
    "jb_initialized (step_head b cache) = jb_initialized b"
    "jb_lookup (step_head b cache) s = (if s = jb_head b then None else jb_lookup b s)"
proof -
  let ?i = "jb_head b mod 512" and ?b = "step_head b cache"
  note D = jb_invD [OF inv]
  have len: "?i < length (jb_slots b)" using D(1) by simp
  have at: "jb_slots b ! ?i = jb_lookup b (jb_head b)" by (rule slot_lookup [OF inv]) simp_all
  have slots: "jb_slots ?b = (if jb_lookup b (jb_head b) = None then jb_slots b
      else (jb_slots b)[?i := None])"
    by (simp add: step_head_def)
  show head: "jb_head ?b = Suc (jb_head b)" "jb_initialized ?b = jb_initialized b"
    using head_Suc [OF lim] by (simp_all add: step_head_def jb_head_def)
  show lookup: "jb_lookup ?b s = (if s = jb_head b then None else jb_lookup b s)" for s
  proof (cases "s mod 512 = ?i")
    case True
    have "jb_lookup b s = None" if "s \<noteq> jb_head b" "jb_lookup b (jb_head b) \<noteq> None"
      using that at True lookup_window [OF inv, of "jb_head b"]
      by (auto simp: jb_lookup_def [of b s])
    with True show ?thesis using len by (auto simp: jb_lookup_def slots)
  next
    case False
    then show ?thesis using len by (auto simp: jb_lookup_def slots)
  qed
  have occ: "unat (jb_occupied ?b) = filled (jb_slots ?b)"
    using filled_clear [OF len] D(3) at by (auto simp: step_head_def)
  have cached: "jb_lookup ?b (unat m) \<noteq> None" if "jb_cached_min ?b = Some m" for m
  proof -
    have c: "cache = Some m" using that by (simp add: step_head_def split: if_splits)
    with cache D(8) have "jb_lookup b (unat m) \<noteq> None" "jb_lookup b (jb_head b) = None" by blast+
    then show ?thesis by (auto simp: lookup)
  qed
  have "unat (seq_num q) mod 512 = i \<and> Suc (jb_head b) \<le> unat (seq_num q) \<and>
      unat (seq_num q) < Suc (jb_head b) + 512"
    if i: "i < 512" "jb_slots ?b ! i = Some q" for i q
  proof -
    have old: "jb_slots b ! i = Some q" "i = ?i \<Longrightarrow> jb_lookup b (jb_head b) = None"
      using i len by (auto simp: slots nth_list_update split: if_splits)
    then have "unat (seq_num q) \<noteq> jb_head b"
      using D(5) [OF i(1) old(1)] at by auto
    with D(5-7) [OF i(1) old(1)] show ?thesis by auto
  qed
  moreover have "length (jb_slots ?b) = 512" "jb_capacity ?b = 512"
    using D(1, 2) by (simp_all add: step_head_def)
  moreover have "filled (jb_slots ?b) = 0" if "\<not> jb_initialized ?b"
    using D(4) that head(2) filled_pos [OF len] at by (auto simp: slots)
  ultimately show "jb_inv ?b"
    unfolding jb_inv_def head(1) using occ cached by blast
qed

lemma pop_next_eq:
  assumes inv: "jb_inv b" and "jb_initialized b"
  shows "pop_next b = (step_head b
      (if jb_lookup b (jb_head b) = None then jb_cached_min b else None), jb_lookup b (jb_head b))"
proof (cases "jb_lookup b (jb_head b)")
  case None
  then show ?thesis
    using assms head_slot [OF inv] by (simp add: pop_next_def step_head_def Let_def)
next
  case (Some p)
  then have "seq_num p = jb_next b"
    using lookup_window [OF inv Some] by (simp add: jb_head_def word_unat_eq_iff)
  then show ?thesis
    using Some assms head_slot [OF inv] jb_index_eq [OF inv, of "jb_next b"]
    by (simp add: pop_next_def step_head_def Let_def jb_head_def)
qed

lemma advance_one_eq: "jb_inv b \<Longrightarrow> advance_one b = step_head b None"
proof -
  assume inv: "jb_inv b"
  show ?thesis
  proof (cases "jb_lookup b (jb_head b)")
    case None
    then show ?thesis
      using head_slot [OF inv] by (simp add: advance_one_def step_head_def Let_def)
  next
    case (Some p)
    then have "seq_num p = jb_next b"
      using lookup_window [OF inv Some] by (simp add: jb_head_def word_unat_eq_iff)
    then show ?thesis
      using Some head_slot [OF inv] jb_index_eq [OF inv, of "jb_next b"]
      by (simp add: advance_one_def step_head_def Let_def jb_head_def)
  qed
qed

lemma pop_next_spec:
  assumes "jb_inv b" "jb_initialized b" "jb_head b + 512 < 2 ^ 64"
  shows "snd (pop_next b) = jb_lookup b (jb_head b)" "jb_inv (fst (pop_next b))"
    "jb_head (fst (pop_next b)) = Suc (jb_head b)" "jb_initialized (fst (pop_next b))"
    "jb_lookup (fst (pop_next b)) s = (if s = jb_head b then None else jb_lookup b s)"
proof -
  let ?c = "if jb_lookup b (jb_head b) = None then jb_cached_min b else None"
  have "?c = Some m \<Longrightarrow> jb_lookup b (jb_head b) = None \<and> jb_cached_min b = Some m" for m
    by (simp split: if_splits)
  note S = step_head_spec [OF assms(1, 3) this]
  show "snd (pop_next b) = jb_lookup b (jb_head b)" "jb_inv (fst (pop_next b))"
    "jb_head (fst (pop_next b)) = Suc (jb_head b)" "jb_initialized (fst (pop_next b))"
    "jb_lookup (fst (pop_next b)) s = (if s = jb_head b then None else jb_lookup b s)"
    by (simp_all only: pop_next_eq [OF assms(1, 2)] fst_conv snd_conv S assms(2))
qed

lemma has_next_iff:
  "jb_inv b \<Longrightarrow> has_next b \<longleftrightarrow> jb_initialized b \<and> jb_lookup b (jb_head b) \<noteq> None"
  using head_slot [of b] lookup_window [of b "jb_head b"]
  by (auto simp: has_next_def word_unat_eq_iff jb_head_def split: option.splits)

text \<open>Which packets a packet's arrival leaves in the buffer, and where the playhead is.\<close>

definition insert_head :: "jitter_buffer \<Rightarrow> nat \<Rightarrow> nat" where
  "insert_head b s =
     (if \<not> jb_initialized b then s
      else if s < jb_head b then (if 512 < jb_head b - s then s else jb_head b)
      else if jb_head b + 512 \<le> s then s - 256 else jb_head b)"

lemma sat_sub_256: "unat (sat_sub (seq_num p) (512 div 2)) = unat (seq_num p) - 256"
  by simp

lemma jb_insert_spec:
  assumes inv: "jb_inv b" and lim: "jb_head b + 512 < 2 ^ 64" "unat (seq_num p) + 512 < 2 ^ 64"
  defines "s \<equiv> unat (seq_num p)"
  shows "jb_initialized b \<Longrightarrow> s < jb_head b \<Longrightarrow> jb_head b - s \<le> 512 \<Longrightarrow>
      jb_insert b p = (b, Stale)"
    and "\<not> jb_initialized b \<or> jb_head b \<le> s \<or> 512 < jb_head b - s \<Longrightarrow>
      snd (jb_insert b p) =
        (if jb_initialized b \<and> s < jb_head b then StreamRestarted else Accepted) \<and>
      jb_inv (fst (jb_insert b p)) \<and> jb_initialized (fst (jb_insert b p)) \<and>
      jb_head (fst (jb_insert b p)) = insert_head b s \<and>
      (\<forall>t. jb_lookup (fst (jb_insert b p)) t =
        (if t = s then Some p
         else if jb_initialized b \<and> jb_head b \<le> s \<and> insert_head b s \<le> t then jb_lookup b t
         else None))"
proof -
  note D = jb_invD [OF inv]
  have lt: "seq_num p < jb_next b \<longleftrightarrow> s < jb_head b"
    by (simp add: s_def jb_head_def word_less_nat_alt)
  have far: "jb_capacity b < sat_sub (jb_next b) (seq_num p) \<longleftrightarrow> 512 < jb_head b - s"
    by (simp add: D(2) s_def jb_head_def word_less_nat_alt)
  show "jb_initialized b \<Longrightarrow> s < jb_head b \<Longrightarrow> jb_head b - s \<le> 512 \<Longrightarrow>
      jb_insert b p = (b, Stale)"
    using lt far by (simp add: jb_insert_def Let_def)
  show "snd (jb_insert b p) =
        (if jb_initialized b \<and> s < jb_head b then StreamRestarted else Accepted) \<and>
      jb_inv (fst (jb_insert b p)) \<and> jb_initialized (fst (jb_insert b p)) \<and>
      jb_head (fst (jb_insert b p)) = insert_head b s \<and>
      (\<forall>t. jb_lookup (fst (jb_insert b p)) t =
        (if t = s then Some p
         else if jb_initialized b \<and> jb_head b \<le> s \<and> insert_head b s \<le> t then jb_lookup b t
         else None))"
    if go: "\<not> jb_initialized b \<or> jb_head b \<le> s \<or> 512 < jb_head b - s"
  proof -
    have fresh: ?thesis
      if e: "jb_inv e" "filled (jb_slots e) = 0" "\<not> (jb_initialized b \<and> jb_head b \<le> s)"
        and ins: "jb_insert b p = (put_packet (e\<lparr>jb_next := seq_num p, jb_initialized := True\<rparr>) p,
          if jb_initialized b \<and> s < jb_head b then StreamRestarted else Accepted)" for e
    proof -
      let ?e = "e\<lparr>jb_next := seq_num p, jb_initialized := True\<rparr>"
      have head: "jb_head ?e = s" by (simp add: jb_head_def s_def)
      have "jb_head ?e \<le> unat (seq_num p)" "unat (seq_num p) < jb_head ?e + 512"
        unfolding head by (simp_all add: s_def)
      note P = put_packet_spec [OF jb_inv_anchor(1) [OF e(1, 2)] _ this]
      have "insert_head b s = s" using e(3) go by (auto simp: insert_head_def)
      with P head e jb_inv_anchor(3) [OF e(1, 2)] show ?thesis
        unfolding ins by (auto simp: s_def)
    qed
    show ?thesis
    proof (cases "jb_initialized b")
      case False
      have "jb_head (b\<lparr>jb_next := seq_num p, jb_initialized := True\<rparr>) + 512 < 2 ^ 64"
        using lim(2) by (simp add: jb_head_def)
      from unat_next_capacity [OF this]
      have "jb_insert b p = (put_packet (b\<lparr>jb_next := seq_num p, jb_initialized := True\<rparr>) p, Accepted)"
        using False D(2) by (simp add: jb_insert_def Let_def word_le_nat_alt jb_head_def)
      with False D(4) inv show ?thesis by (intro fresh [of b]) auto
    next
      case True
      show ?thesis
      proof (cases "s < jb_head b")
        case restart: True
        have "jb_head (b\<lparr>jb_next := seq_num p, jb_initialized := True\<rparr>) + 512 < 2 ^ 64"
          using lim(2) by (simp add: jb_head_def)
        from unat_next_capacity [OF this]
        have "jb_insert b p =
            (put_packet ((jb_reset b)\<lparr>jb_next := seq_num p, jb_initialized := True\<rparr>) p, StreamRestarted)"
          using restart go True D(2) lt far
          by (simp add: jb_insert_def Let_def word_le_nat_alt jb_head_def)
            (simp add: jb_reset_def)
        with restart True jb_inv_reset [OF inv] show ?thesis
          by (intro fresh [of "jb_reset b"]) (auto simp: jb_reset_def)
      next
        case False
        let ?skip = "jb_head b + 512 \<le> s"
        let ?c = "if ?skip then skip_to b (sat_sub (seq_num p) 256) else b"
        have ins: "jb_insert b p = (put_packet ?c p, Accepted)"
          using False True D(2) lt unat_next_capacity [OF lim(1)]
          by (simp add: jb_insert_def Let_def word_le_nat_alt s_def)
        have head: "jb_head ?c = insert_head b s"
          using False True by (auto simp: insert_head_def s_def)
        have le: "jb_head b \<le> unat (sat_sub (seq_num p) 256)" if ?skip
          using that by (simp add: s_def)
        have c: "jb_inv ?c" "jb_initialized ?c"
          using inv True skip_to_spec(1) [OF inv le lim(1)] by auto
        have look: "jb_lookup ?c t = (if insert_head b s \<le> t then jb_lookup b t else None)" for t
        proof (cases ?skip)
          case skip: True
          with False True show ?thesis
            using skip_to_spec(2) [OF inv le lim(1), of t] by (simp add: insert_head_def s_def)
        next
          case False
          then have "insert_head b s = jb_head b" using \<open>\<not> s < jb_head b\<close> True
            by (simp add: insert_head_def)
          with False lookup_window [OF inv, of t] show ?thesis
            by (cases "jb_lookup b t") auto
        qed
        have "jb_head ?c \<le> unat (seq_num p)" "unat (seq_num p) < jb_head ?c + 512"
          unfolding head using False True by (auto simp: insert_head_def s_def)
        note P = put_packet_spec [OF c this]
        have "jb_lookup (put_packet ?c p) t =
            (if t = s then Some p else if insert_head b s \<le> t then jb_lookup b t else None)" for t
          unfolding P(4) look by (simp add: s_def)
        moreover have "jb_head (put_packet ?c p) = insert_head b s"
          by (simp only: P(2) head)
        ultimately show ?thesis
          unfolding ins fst_conv snd_conv using P(1, 3) False True by simp
      qed
    qed
  qed
qed

section \<open>The lowest stored number\<close>

lemma min_seq_spec:
  "min_seq xs m = Some x \<Longrightarrow>
     (m = Some x \<or> (\<exists>p. Some p \<in> set xs \<and> seq_num p = x)) \<and>
     (\<forall>y. m = Some y \<longrightarrow> x \<le> y) \<and> (\<forall>p. Some p \<in> set xs \<longrightarrow> x \<le> seq_num p)"
  by (induction xs m rule: min_seq.induct) (auto simp: min_def split: option.splits if_splits)

lemma min_seq_None: "min_seq xs m = None \<longleftrightarrow> m = None \<and> (\<forall>x \<in> set xs. x = None)"
  by (induction xs m rule: min_seq.induct) auto

lemma slot_lookup_seq:
  assumes "jb_inv b" "Some p \<in> set (jb_slots b)"
  shows "jb_lookup b (unat (seq_num p)) = Some p"
proof -
  obtain i where i: "i < 512" "jb_slots b ! i = Some p"
    using assms jb_invD(1) [OF assms(1)] by (metis in_set_conv_nth)
  with jb_invD(5) [OF assms(1) i] show ?thesis by (simp add: jb_lookup_def)
qed

lemma lookup_in_slots: "jb_inv b \<Longrightarrow> jb_lookup b s = Some p \<Longrightarrow> Some p \<in> set (jb_slots b)"
  using jb_invD(1) [of b]
  by (auto simp: jb_lookup_def split: option.splits if_splits)
    (metis mod_less_divisor nth_mem zero_less_numeral)

lemma lowest_available_spec:
  assumes inv: "jb_inv b"
  shows "jb_inv (fst (lowest_available_seq b))"
    "jb_lookup (fst (lowest_available_seq b)) = jb_lookup b"
    "jb_head (fst (lowest_available_seq b)) = jb_head b"
    "jb_initialized (fst (lowest_available_seq b)) = jb_initialized b"
    "snd (lowest_available_seq b) = Some m \<Longrightarrow> jb_lookup b (unat m) \<noteq> None"
    "jb_cached_min b = None \<Longrightarrow> snd (lowest_available_seq b) = Some m \<Longrightarrow>
       jb_lookup b s = Some p \<Longrightarrow> unat m \<le> s"
    "jb_cached_min b = None \<Longrightarrow> snd (lowest_available_seq b) = None \<Longrightarrow> jb_lookup b s = None"
proof -
  let ?b = "fst (lowest_available_seq b)"
  have upd: "?b = b\<lparr>jb_cached_min := snd (lowest_available_seq b)\<rparr>"
    by (simp add: lowest_available_seq_def Let_def split: option.splits)
  show look: "jb_lookup ?b = jb_lookup b" "jb_head ?b = jb_head b"
    "jb_initialized ?b = jb_initialized b"
    by (simp_all add: upd jb_lookup_def jb_head_def fun_eq_iff)
  show stored: "jb_lookup b (unat m) \<noteq> None" if "snd (lowest_available_seq b) = Some m" for m
  proof (cases "jb_cached_min b")
    case None
    with that have "min_seq (jb_slots b) None = Some m"
      by (simp add: lowest_available_seq_def Let_def)
    from min_seq_spec [OF this] slot_lookup_seq [OF inv] show ?thesis by auto
  next
    case (Some k)
    with that jb_invD(8) [OF inv Some] show ?thesis by (simp add: lowest_available_seq_def)
  qed
  show "jb_cached_min b = None \<Longrightarrow> snd (lowest_available_seq b) = Some m \<Longrightarrow>
       jb_lookup b s = Some p \<Longrightarrow> unat m \<le> s"
    using min_seq_spec [of "jb_slots b" None m] lookup_in_slots [OF inv, of s p]
      lookup_window [OF inv, of s p]
    by (auto simp: lowest_available_seq_def Let_def word_le_nat_alt)
  show "jb_cached_min b = None \<Longrightarrow> snd (lowest_available_seq b) = None \<Longrightarrow> jb_lookup b s = None"
    using lookup_in_slots [OF inv, of s]
    by (cases "jb_lookup b s") (auto simp: lowest_available_seq_def Let_def min_seq_None)
  have "jb_slots ?b = jb_slots b" "jb_capacity ?b = jb_capacity b" "jb_occupied ?b = jb_occupied b"
    "jb_cached_min ?b = snd (lowest_available_seq b)"
    by (simp_all add: upd)
  with inv look(3) stored show "jb_inv ?b"
    unfolding jb_inv_def look(1, 2) by simp
qed

section \<open>Exact occupancy\<close>

lemma filled_card: "filled xs = card {i. i < length xs \<and> xs ! i \<noteq> None}"
  by (simp add: filled_def length_filter_conv_card)

lemma occupied_card:
  assumes inv: "jb_inv b"
  shows "unat (occupied_count b) = card (dom (jb_lookup b))"
proof -
  note D = jb_invD [OF inv]
  have "bij_betw (\<lambda>s. s mod 512) (dom (jb_lookup b)) {i. i < 512 \<and> jb_slots b ! i \<noteq> None}"
  proof (rule bij_betw_imageI)
    show "inj_on (\<lambda>s. s mod 512) (dom (jb_lookup b))"
    proof (rule inj_onI)
      fix s t assume "s \<in> dom (jb_lookup b)" "t \<in> dom (jb_lookup b)" "s mod 512 = t mod 512"
      then show "s = t"
        using lookup_window [OF inv, of s] lookup_window [OF inv, of t]
        by (intro window_unique [of s t "jb_head b"]) (auto simp: dom_def)
    qed
    show "(\<lambda>s. s mod 512) ` dom (jb_lookup b) = {i. i < 512 \<and> jb_slots b ! i \<noteq> None}"
    proof (intro equalityI subsetI)
      fix i assume i: "i \<in> {i. i < 512 \<and> jb_slots b ! i \<noteq> None}"
      then obtain p where p: "jb_slots b ! i = Some p" "i < 512" by auto
      then have "unat (seq_num p) mod 512 = i" using D(5) by blast
      with p show "i \<in> (\<lambda>s. s mod 512) ` dom (jb_lookup b)"
        by (intro image_eqI [of _ _ "unat (seq_num p)"]) (auto simp: jb_lookup_def dom_def)
    qed (auto simp: jb_lookup_def split: option.splits)
  qed
  from bij_betw_same_card [OF this]
  have "card (dom (jb_lookup b)) = filled (jb_slots b)" by (simp add: filled_card D(1))
  with D(3, 4) show ?thesis by (simp add: occupied_count_def)
qed

section \<open>Playback runs\<close>

text \<open>
  What the jitter manager does to the buffer: packets arrive, the next frame is played, a hole
  is stepped over, and, past the reorder tolerance, the playhead jumps to the lowest stored
  number (\<open>try_fast_forward_over_gap\<close>).
\<close>

datatype jb_op = Arrive raw_packet | Play | Advance | Jump

definition jump_gap :: "jitter_buffer \<Rightarrow> jitter_buffer" where
  "jump_gap b =
     (if 0 < occupied_count b \<and> \<not> has_next b
      then (case lowest_available_seq b of
              (b', Some lo) \<Rightarrow> fast_forward b' lo
            | (b', None) \<Rightarrow> advance_one b')
      else b)"

fun jb_run :: "jitter_buffer \<Rightarrow> jb_op list \<Rightarrow> jitter_buffer \<times> raw_packet list \<times> bool" where
  "jb_run b [] = (b, [], False)"
| "jb_run b (Arrive p # ops) =
     (case jb_insert b p of (b', r) \<Rightarrow>
        (case jb_run b' ops of (b'', out, restarted) \<Rightarrow> (b'', out, r = StreamRestarted \<or> restarted)))"
| "jb_run b (Play # ops) =
     (case pop_next b of (b', r) \<Rightarrow>
        (case jb_run b' ops of (b'', out, restarted) \<Rightarrow>
           (b'', (case r of None \<Rightarrow> out | Some p \<Rightarrow> p # out), restarted)))"
| "jb_run b (Advance # ops) = jb_run (advance_one b) ops"
| "jb_run b (Jump # ops) = jb_run (jump_gap b) ops"

text \<open>What a run preserves, with the packets played and the packets that have arrived.\<close>

definition run_inv :: "jitter_buffer \<Rightarrow> nat \<Rightarrow> raw_packet set \<Rightarrow> bool" where
  "run_inv b n A \<longleftrightarrow> jb_inv b \<and> jb_head b \<le> 2 ^ 63 + n \<and>
     (\<forall>s p. jb_lookup b s = Some p \<longrightarrow> p \<in> A)"

lemma run_inv_new: "run_inv jb_new 0 {}"
  using jb_inv_new
  by (simp add: run_inv_def jb_head_def jb_new_def jb_lookup_def BUFFER_CAPACITY_def)

lemma run_inv_insert:
  assumes "run_inv b n A" "n < 2 ^ 32" "unat (seq_num p) < 2 ^ 63"
    "snd (jb_insert b p) \<noteq> StreamRestarted"
  shows "run_inv (fst (jb_insert b p)) n (insert p A)"
    and "jb_initialized (fst (jb_insert b p))"
    and "jb_initialized b \<Longrightarrow> jb_head b \<le> jb_head (fst (jb_insert b p))"
proof -
  have inv: "jb_inv b" and h: "jb_head b + 512 < 2 ^ 64" "unat (seq_num p) + 512 < 2 ^ 64"
    and A: "\<And>s q. jb_lookup b s = Some q \<Longrightarrow> q \<in> A"
    using assms(1-3) by (auto simp: run_inv_def)
  note I = jb_insert_spec [OF inv h]
  have "run_inv (fst (jb_insert b p)) n (insert p A) \<and> jb_initialized (fst (jb_insert b p)) \<and>
    (jb_initialized b \<longrightarrow> jb_head b \<le> jb_head (fst (jb_insert b p)))"
  proof (cases "jb_initialized b \<and> unat (seq_num p) < jb_head b \<and> jb_head b - unat (seq_num p) \<le> 512")
    case True
    with I(1) assms(1) show ?thesis by (auto simp: run_inv_def)
  next
    case False
    then have go: "\<not> jb_initialized b \<or> jb_head b \<le> unat (seq_num p) \<or>
        512 < jb_head b - unat (seq_num p)" by auto
    note J = I(2) [OF go]
    have fwd: "jb_initialized b \<Longrightarrow> jb_head b \<le> unat (seq_num p)"
      using J assms(4) by (auto split: if_splits)
    have head: "jb_head (fst (jb_insert b p)) \<le> 2 ^ 63 + n"
      using J fwd assms(1, 3) by (auto simp: insert_head_def run_inv_def)
    have "q \<in> insert p A" if "jb_lookup (fst (jb_insert b p)) t = Some q" for t q
    proof -
      from J have "jb_lookup (fst (jb_insert b p)) t =
        (if t = unat (seq_num p) then Some p
         else if jb_initialized b \<and> jb_head b \<le> unat (seq_num p) \<and>
            insert_head b (unat (seq_num p)) \<le> t then jb_lookup b t else None)" by blast
      with that A show ?thesis by (auto split: if_splits)
    qed
    with J fwd head show ?thesis by (auto simp: run_inv_def insert_head_def)
  qed
  then show "run_inv (fst (jb_insert b p)) n (insert p A)" "jb_initialized (fst (jb_insert b p))"
    "jb_initialized b \<Longrightarrow> jb_head b \<le> jb_head (fst (jb_insert b p))" by auto
qed

lemma run_inv_advance:
  assumes "run_inv b n A" "n < 2 ^ 32"
  shows "run_inv (advance_one b) (Suc n) A" "jb_head (advance_one b) = Suc (jb_head b)"
    "jb_initialized (advance_one b) = jb_initialized b"
proof -
  have inv: "jb_inv b" and h: "jb_head b + 512 < 2 ^ 64"
    using assms by (auto simp: run_inv_def)
  note S = step_head_spec [OF inv h, where cache = None]
  show head: "jb_head (advance_one b) = Suc (jb_head b)"
    "jb_initialized (advance_one b) = jb_initialized b"
    using S(2, 3) by (simp_all add: advance_one_eq [OF inv])
  show "run_inv (advance_one b) (Suc n) A"
    using assms(1) S(1, 4) head unfolding run_inv_def by (simp add: advance_one_eq [OF inv])
qed

lemma run_inv_jump:
  assumes "run_inv b n A" "n < 2 ^ 32"
  shows "run_inv (jump_gap b) (Suc n + 512) A" "jb_head b \<le> jb_head (jump_gap b)"
    "jb_initialized (jump_gap b) = jb_initialized b"
proof -
  have inv: "jb_inv b" using assms(1) by (simp add: run_inv_def)
  note L = lowest_available_spec [OF inv]
  obtain b' lo where low: "lowest_available_seq b = (b', lo)" by (cases "lowest_available_seq b")
  have b': "run_inv b' n A" "jb_head b' = jb_head b" "jb_initialized b' = jb_initialized b"
    using L(1-4) low assms(1) by (auto simp: run_inv_def)
  have "run_inv (jump_gap b) (Suc n + 512) A \<and> jb_head b \<le> jb_head (jump_gap b) \<and>
    jb_initialized (jump_gap b) = jb_initialized b"
  proof (cases "0 < occupied_count b \<and> \<not> has_next b")
    case False
    then show ?thesis using assms(1) by (auto simp: jump_gap_def run_inv_def)
  next
    case True
    show ?thesis
    proof (cases lo)
      case None
      with True low run_inv_advance [OF b'(1) assms(2)] b' show ?thesis
        by (auto simp: jump_gap_def run_inv_def)
    next
      case (Some m)
      then obtain q where "jb_lookup b (unat m) = Some q" using L(5) low by fastforce
      from lookup_window [OF inv this] have m: "jb_head b' \<le> unat m" "unat m < jb_head b + 512"
        using b'(2) by auto
      have "jb_head b' + 512 < 2 ^ 64" "jb_inv b'"
        using b'(1) assms(2) by (auto simp: run_inv_def)
      from skip_to_spec [OF this(2) m(1) this(1)] have
        "jb_inv (skip_to b' m)" "\<And>s. jb_lookup (skip_to b' m) s = (if unat m \<le> s then jb_lookup b' s else None)" .
      moreover have "jump_gap b = skip_to b' m"
        using True low Some by (simp add: jump_gap_def fast_forward_def)
      ultimately show ?thesis using b' m assms(1) by (auto simp: run_inv_def split: if_splits)
    qed
  qed
  then show "run_inv (jump_gap b) (Suc n + 512) A" "jb_head b \<le> jb_head (jump_gap b)"
    "jb_initialized (jump_gap b) = jb_initialized b" by auto
qed

definition arrivals :: "jb_op list \<Rightarrow> raw_packet set" where
  "arrivals ops = {p. Arrive p \<in> set ops}"

lemma arrivals_simps [simp]:
  "arrivals [] = {}" "arrivals (Arrive p # ops) = insert p (arrivals ops)"
  "arrivals (Play # ops) = arrivals ops" "arrivals (Advance # ops) = arrivals ops"
  "arrivals (Jump # ops) = arrivals ops"
  by (auto simp: arrivals_def)

lemma jb_run_ordered:
  assumes "run_inv b n A" and "n + 513 * length ops < 2 ^ 32"
    and "\<forall>p \<in> arrivals ops. unat (seq_num p) < 2 ^ 63"
    and "jb_run b ops = (b', out, False)"
  shows "sorted_wrt (<) (map (unat \<circ> seq_num) out) \<and> set out \<subseteq> A \<union> arrivals ops \<and>
    (\<forall>p \<in> set out. jb_initialized b \<longrightarrow> jb_head b \<le> unat (seq_num p)) \<and> jb_inv b'"
  using assms
proof (induction b ops arbitrary: n A b' out rule: jb_run.induct)
  case (1 b)
  then show ?case by (simp add: run_inv_def)
next
  case (2 b p ops)
  obtain b1 r where ins: "jb_insert b p = (b1, r)" by (cases "jb_insert b p")
  have r: "r \<noteq> StreamRestarted" and run: "jb_run b1 ops = (b', out, False)"
    using 2(5) ins by (auto split: prod.splits)
  have "n < 2 ^ 32" "unat (seq_num p) < 2 ^ 63" "snd (jb_insert b p) \<noteq> StreamRestarted"
    using 2(3, 4) r ins by auto
  note I = run_inv_insert [OF 2(2) this]
  have pre: "run_inv b1 n (insert p A)" using I(1) ins by simp
  have "n + 513 * length ops < 2 ^ 32" "\<forall>p \<in> arrivals ops. unat (seq_num p) < 2 ^ 63"
    using 2(3, 4) by auto
  from 2(1) [OF ins [symmetric] pre this run]
  show ?case using I(2, 3) ins by fastforce
next
  case (3 b ops)
  obtain b1 r where pop: "pop_next b = (b1, r)" by (cases "pop_next b")
  obtain out1 where run: "jb_run b1 ops = (b', out1, False)"
    and out: "out = (case r of None \<Rightarrow> out1 | Some p \<Rightarrow> p # out1)"
    using 3(5) pop by (auto split: prod.splits)
  have inv: "jb_inv b" and h: "jb_head b + 512 < 2 ^ 64" using 3(2, 3) by (auto simp: run_inv_def)
  have n: "Suc n + 513 * length ops < 2 ^ 32" "\<forall>p \<in> arrivals ops. unat (seq_num p) < 2 ^ 63"
    using 3(3, 4) by auto
  show ?case
  proof (cases "jb_initialized b")
    case False
    then have "b1 = b" "r = None" using pop by (simp_all add: pop_next_def)
    then show ?thesis
      using 3(1) [OF pop [symmetric] _ _ n(2) run, of "Suc n" A] 3(2) n(1) out False
      by (auto simp: run_inv_def)
  next
    case True
    note P = pop_next_spec [OF inv True h]
    have pre: "run_inv b1 (Suc n) A"
      using 3(2) P pop by (auto simp: run_inv_def split: if_splits)
    have head: "jb_head b1 = Suc (jb_head b)" "jb_initialized b1" using P pop by auto
    have first: "p \<in> A \<and> unat (seq_num p) = jb_head b" if "r = Some p" for p
      using that P(1) pop lookup_window [OF inv, of "jb_head b" p] 3(2) by (auto simp: run_inv_def)
    from 3(1) [OF pop [symmetric] pre n run] head first out show ?thesis
      by (cases r) fastforce+
  qed
next
  case (4 b ops)
  have n: "n < 2 ^ 32" "Suc n + 513 * length ops < 2 ^ 32"
    "\<forall>p \<in> arrivals ops. unat (seq_num p) < 2 ^ 63"
    using 4(3, 4) by auto
  note S = run_inv_advance [OF 4(2) n(1)]
  have run: "jb_run (advance_one b) ops = (b', out, False)" using 4(5) by simp
  from 4(1) [OF S(1) n(2, 3) run] S(2, 3) show ?case by fastforce
next
  case (5 b ops)
  have n: "n < 2 ^ 32" "Suc n + 512 + 513 * length ops < 2 ^ 32"
    "\<forall>p \<in> arrivals ops. unat (seq_num p) < 2 ^ 63"
    using 5(3, 4) by auto
  note S = run_inv_jump [OF 5(2) n(1)]
  have run: "jb_run (jump_gap b) ops = (b', out, False)" using 5(5) by simp
  from 5(1) [OF S(1) n(2, 3) run] S(2, 3) show ?case by fastforce
qed

section \<open>Properties\<close>


definition sample_packet :: "u64 \<Rightarrow> raw_packet" where
  "sample_packet s = (zeroed 0)\<lparr>seq_num := s\<rparr>"

lemma sample_packet_seq [simp]: "seq_num (sample_packet s) = s"
  by (simp add: sample_packet_def)

lemma jb_new_slots:
  "jb_slots jb_new ! (i mod 512) = None" "jb_capacity jb_new = 512" "\<not> jb_initialized jb_new"
  "jb_cached_min jb_new = None" "jb_occupied jb_new = 0" "jb_next jb_new = 0"
  "length (jb_slots jb_new) = 512"
  by (simp_all add: jb_new_def BUFFER_CAPACITY_def)


text \<open>
  C40: an arriving packet that is not stale changes the buffer's map exactly as intended: it is
  stored under its number, the playhead moves only for the first packet, a restart (more than
  512 behind) or a packet beyond the window (to 256 before it), a restart empties the map,
  packets behind the new playhead are dropped, and every other packet is kept.
\<close>

theorem insert_refines_map:
  assumes "jb_inv b" and "jb_head b + 512 < 2 ^ 64" "unat (seq_num p) + 512 < 2 ^ 64"
    and "\<not> jb_initialized b \<or> jb_head b \<le> unat (seq_num p) \<or> 512 < jb_head b - unat (seq_num p)"
  shows "jb_inv (fst (jb_insert b p)) \<and>
    jb_head (fst (jb_insert b p)) = insert_head b (unat (seq_num p)) \<and>
    snd (jb_insert b p) =
      (if jb_initialized b \<and> unat (seq_num p) < jb_head b then StreamRestarted else Accepted) \<and>
    (\<forall>t. jb_lookup (fst (jb_insert b p)) t =
        (if t = unat (seq_num p) then Some p
         else if jb_initialized b \<and> jb_head b \<le> unat (seq_num p) \<and>
            insert_head b (unat (seq_num p)) \<le> t then jb_lookup b t
         else None))"
  using jb_insert_spec(2) [OF assms] by blast

theorem insert_refines_map_witness:
  "jb_lookup (fst (jb_insert jb_new (sample_packet 10))) 10 = Some (sample_packet 10) \<and>
   jb_head (fst (jb_insert jb_new (sample_packet 10))) = 10"
proof -
  have "jb_head jb_new + 512 < 2 ^ 64" "unat (seq_num (sample_packet 10)) + 512 < 2 ^ 64"
    "\<not> jb_initialized jb_new \<or> jb_head jb_new \<le> unat (seq_num (sample_packet 10)) \<or>
       512 < jb_head jb_new - unat (seq_num (sample_packet 10))"
    by (simp_all add: jb_head_def jb_new_slots)
  from insert_refines_map [OF jb_inv_new this] show ?thesis
    by (auto simp: insert_head_def jb_new_slots)
qed

lemma cached_after_insert:
  assumes "jb_inv b" "jb_initialized b" "jb_head b \<le> unat (seq_num p)"
    "unat (seq_num p) < jb_head b + 512" "jb_head b + 512 < 2 ^ 64"
  shows "jb_insert b p = (put_packet b p, Accepted)"
  using assms unat_next_capacity [OF assms(5)] jb_invD(2) [OF assms(1)]
  by (simp add: jb_insert_def Let_def word_le_nat_alt word_less_nat_alt jb_head_def)

text \<open>
  The cached minimum is not the lowest stored number once it has been invalidated: after a
  frame is played, the next arrival installs its own number, and a gap jump then goes to it and
  throws away every stored packet in between.
\<close>

theorem stale_minimum_loses_packet:
  assumes "jb_inv b" "jb_initialized b" "jb_cached_min b = None" "jb_head b + 512 < 2 ^ 64"
    and "jb_head b < lo" "lo < unat (seq_num p)" "unat (seq_num p) < jb_head b + 512"
    and "jb_lookup b (jb_head b) = None" and "jb_lookup b lo = Some q"
  shows "jb_lookup (fst (jb_insert b p)) lo = Some q \<and>
    snd (lowest_available_seq (fst (jb_insert b p))) = Some (seq_num p) \<and>
    jb_lookup (jump_gap (fst (jb_insert b p))) lo = None \<and>
    jb_head (jump_gap (fst (jb_insert b p))) = unat (seq_num p)"
proof -
  let ?b = "fst (jb_insert b p)"
  have le: "jb_head b \<le> unat (seq_num p)" using assms by simp
  have ins: "?b = put_packet b p"
    using cached_after_insert [OF assms(1, 2) le assms(7, 4)] by simp
  note P = put_packet_spec [OF assms(1, 2) le assms(7), folded ins]
  have lo: "jb_lookup ?b lo = Some q" using P(4) assms by simp
  have cache: "jb_cached_min ?b = Some (seq_num p)"
    using assms(3) unfolding ins by (simp add: put_packet_def Let_def)
  then have low: "lowest_available_seq ?b = (?b, Some (seq_num p))"
    by (simp add: lowest_available_seq_def)
  have "finite (dom (jb_lookup ?b))"
    by (rule finite_subset [of _ "{..<jb_head ?b + 512}"])
      (use lookup_window [OF P(1)] in \<open>auto simp: dom_def\<close>)
  with lo have "0 < card (dom (jb_lookup ?b))" by (auto simp: card_gt_0_iff)
  then have occ: "0 < occupied_count ?b"
    using occupied_card [OF P(1)] by (simp add: word_less_nat_alt)
  have "jb_lookup ?b (jb_head ?b) = None" using P(2, 4) assms by simp
  then have "\<not> has_next ?b" by (simp add: has_next_iff [OF P(1)])
  with occ low have jump: "jump_gap ?b = skip_to ?b (seq_num p)"
    by (simp add: jump_gap_def fast_forward_def)
  have "jb_head ?b \<le> unat (seq_num p)" "jb_head ?b + 512 < 2 ^ 64" using P(2) le assms(4) by simp_all
  from skip_to_spec [OF P(1) this] show ?thesis
    using lo low jump assms(6) by simp
qed

theorem stale_minimum_loses_packet_witness:
  "let b = fst (jb_run jb_new [Arrive (sample_packet 10), Arrive (sample_packet 12), Play,
                               Arrive (sample_packet 13)]) in
   jb_lookup b 12 = Some (sample_packet 12) \<and> snd (lowest_available_seq b) = Some 13 \<and>
   jb_lookup (jump_gap b) 12 = None \<and> jb_head (jump_gap b) = 13"
proof -
  let ?b1 = "fst (jb_insert jb_new (sample_packet 10))"
  let ?b2 = "fst (jb_insert ?b1 (sample_packet 12))"
  let ?b3 = "fst (pop_next ?b2)"
  have small: "jb_head jb_new + 512 < 2 ^ 64" "unat (seq_num (sample_packet 10)) + 512 < 2 ^ 64"
    by (simp_all add: jb_head_def jb_new_slots)
  note I = jb_insert_spec(2) [OF jb_inv_new small]
  have b1: "jb_inv ?b1" "jb_initialized ?b1" "jb_head ?b1 = 10"
    "\<And>t. jb_lookup ?b1 t = (if t = 10 then Some (sample_packet 10) else None)"
    using I by (auto simp: jb_new_slots insert_head_def)
  have b2: "?b2 = put_packet ?b1 (sample_packet 12)"
    using cached_after_insert [of ?b1 "sample_packet 12"] b1 by simp
  have P: "jb_inv ?b2" "jb_initialized ?b2" "jb_head ?b2 = 10"
    "\<And>t. jb_lookup ?b2 t = (if t = 12 then Some (sample_packet 12)
        else if t = 10 then Some (sample_packet 10) else None)"
    using put_packet_spec [of ?b1 "sample_packet 12"] b1 by (auto simp: b2)
  have small2: "jb_head ?b2 + 512 < 2 ^ 64" using P(3) by simp
  note Q = pop_next_spec [OF P(1, 2) small2]
  have b3: "jb_inv ?b3" "jb_initialized ?b3" "jb_head ?b3 = 11"
    "\<And>t. jb_lookup ?b3 t = (if t = 12 then Some (sample_packet 12) else None)"
    using Q P(3, 4) by auto
  have "jb_cached_min ?b3 = None"
    unfolding pop_next_eq [OF P(1, 2)] using P(3, 4) by (simp add: step_head_def)
  from stale_minimum_loses_packet [OF b3(1, 2) this, of 12 "sample_packet 13" "sample_packet 12"]
  have "let b = fst (jb_insert ?b3 (sample_packet 13)) in
    jb_lookup b 12 = Some (sample_packet 12) \<and> snd (lowest_available_seq b) = Some 13 \<and>
    jb_lookup (jump_gap b) 12 = None \<and> jb_head (jump_gap b) = 13"
    using b3 by (simp add: Let_def)
  moreover have "fst (jb_run jb_new [Arrive (sample_packet 10), Arrive (sample_packet 12), Play,
      Arrive (sample_packet 13)]) = fst (jb_insert ?b3 (sample_packet 13))"
    by (simp add: case_prod_beta)
  ultimately show ?thesis by (simp only:)
qed

text \<open>
  The constant-time occupancy count is the number of packets stored, never more than the 512
  of the window, and the buffer says the next frame is there exactly when it is stored.
\<close>

theorem occupancy_is_exact:
  assumes "jb_inv b"
  shows "unat (occupied_count b) = card (dom (jb_lookup b)) \<and> unat (occupied_count b) \<le> 512 \<and>
    (has_next b \<longleftrightarrow> jb_initialized b \<and> jb_lookup b (jb_head b) \<noteq> None)"
proof -
  have "unat (occupied_count b) \<le> 512"
    using filled_le [of "jb_slots b"] jb_invD(1, 3) [OF assms] by (simp add: occupied_count_def)
  then show ?thesis using occupied_card [OF assms] has_next_iff [OF assms] by simp
qed

theorem occupancy_is_exact_witness:
  "unat (occupied_count jb_new) = card (dom (jb_lookup jb_new)) \<and> \<not> has_next jb_new"
  using occupancy_is_exact [OF jb_inv_new] by (simp add: jb_new_slots)

end
