(* ===== verification/Contracts.thy ===== *)
theory Contracts
  imports Prelude
begin

text \<open>
  The interfaces several components share, as locales: a table whose entries are replaced and
  evicted under a generation (sessions, capture instances, player engines), and a table of
  requests that expire (pending approvals, authentication challenges, pending pairings). Each is
  interpreted on the model's definitions in the theory of the component that provides it.
\<close>

section \<open>Tables evicted by generation\<close>

text \<open>
  \<open>evict k g\<close> removes the entry of \<open>k\<close> only while its generation is \<open>g\<close>, so a cleanup that was
  queued for an older entry cannot remove the entry that replaced it.
\<close>

locale generation_table =
  fixes good :: "'s \<Rightarrow> bool"
    and current :: "'s \<Rightarrow> 'k \<Rightarrow> 'g option"
    and evict :: "'k \<Rightarrow> 'g \<Rightarrow> 's \<Rightarrow> 's \<times> bool"
  assumes good_evict: "good s \<Longrightarrow> good (fst (evict k g s))"
    and current_evict: "good s \<Longrightarrow>
      current (fst (evict k g s)) l =
        (if l = k \<and> current s k = Some g then None else current s l)"
    and evict_result: "good s \<Longrightarrow> snd (evict k g s) \<longleftrightarrow> current s k = Some g"
begin

lemma stale_evict:
  "good s \<Longrightarrow> current s k \<noteq> Some g \<Longrightarrow>
   \<not> snd (evict k g s) \<and> (\<forall>l. current (fst (evict k g s)) l = current s l)"
  by (simp add: current_evict evict_result)

lemma evict_twice: "good s \<Longrightarrow> \<not> snd (evict k g (fst (evict k g s)))"
  by (simp add: good_evict current_evict evict_result)

lemma good_evictions: "good s \<Longrightarrow> good (fold (\<lambda>(k, g) s. fst (evict k g s)) es s)"
  by (induction es arbitrary: s) (auto simp: good_evict)

text \<open>A batch of cleanups removes exactly the entries it names by their present generation.\<close>

lemma evictions:
  "good s \<Longrightarrow> current (fold (\<lambda>(k, g) s. fst (evict k g s)) es s) l =
     (case current s l of None \<Rightarrow> None | Some g \<Rightarrow> if (l, g) \<in> set es then None else Some g)"
proof (induction es arbitrary: s)
  case (Cons e es)
  obtain k g where e: "e = (k, g)" by (cases e)
  have "good (fst (evict k g s))" using Cons.prems by (rule good_evict)
  from Cons.IH [OF this] show ?case
    using Cons.prems by (auto simp: e current_evict split: option.splits)
qed (auto split: option.splits)

end

text \<open>A table with replacement: the new entry takes over, and cleanups of the old one miss.\<close>

locale replacing_table = generation_table good current evict
  for good :: "'s \<Rightarrow> bool" and current :: "'s \<Rightarrow> 'k \<Rightarrow> 'g option"
    and evict :: "'k \<Rightarrow> 'g \<Rightarrow> 's \<Rightarrow> 's \<times> bool" +
  fixes install :: "'k \<Rightarrow> 'g \<Rightarrow> 's \<Rightarrow> 's"
  assumes good_install: "good s \<Longrightarrow> good (install k g s)"
    and current_install: "good s \<Longrightarrow>
      current (install k g s) l = (if l = k then Some g else current s l)"
begin

lemma late_cleanup:
  assumes "good s" and "g \<noteq> g'"
  shows "\<not> snd (evict k g (install k g' s)) \<and>
    (\<forall>l. current (fst (evict k g (install k g' s))) l = current (install k g' s) l)"
  using stale_evict [OF good_install [OF assms(1), of k g'], of k g] assms
  by (simp add: current_install)

end

section \<open>Requests that expire\<close>

locale expiring_table =
  fixes good :: "'s \<Rightarrow> bool"
    and lookup :: "'s \<Rightarrow> 'k \<Rightarrow> 'v option"
    and created :: "'v \<Rightarrow> nat"
    and ttl :: "'s \<Rightarrow> nat"
    and prune :: "nat \<Rightarrow> 's \<Rightarrow> 's"
  assumes good_prune: "good s \<Longrightarrow> good (prune now s)"
    and ttl_prune: "ttl (prune now s) = ttl s"
    and lookup_prune: "good s \<Longrightarrow> lookup (prune now s) k =
      (case lookup s k of None \<Rightarrow> None
       | Some v \<Rightarrow> if since now (created v) \<le> ttl s then Some v else None)"
begin

lemma expired_gone:
  "good s \<Longrightarrow> lookup s k = Some v \<Longrightarrow> ttl s < since now (created v) \<Longrightarrow>
   lookup (prune now s) k = None"
  by (simp add: lookup_prune)

lemma live_kept:
  "good s \<Longrightarrow> lookup s k = Some v \<Longrightarrow> since now (created v) \<le> ttl s \<Longrightarrow>
   lookup (prune now s) k = Some v"
  by (simp add: lookup_prune)

lemma pruned_is_live:
  "good s \<Longrightarrow> lookup (prune now s) k = Some v \<Longrightarrow>
   lookup s k = Some v \<and> since now (created v) \<le> ttl s"
  by (auto simp: lookup_prune split: option.splits if_splits)

text \<open>Pruning early never changes what a later prune leaves.\<close>

lemma prune_again:
  assumes "good s" "now \<le> later"
  shows "lookup (prune later (prune now s)) k = lookup (prune later s) k"
proof -
  have "since now t \<le> since later t" for t
    using assms(2) by (simp add: since_def diff_le_mono)
  then show ?thesis
    using assms(1) good_prune [OF assms(1), of now]
    by (auto simp: lookup_prune ttl_prune split: option.splits intro: le_trans)
qed

end

end
