(* ===== verification/Session_Auth.thy ===== *)
theory Session_Auth
  imports Domain Contracts "HOL-Library.Multiset"
begin

unbundle bit_operations_syntax

text \<open>
  \<open>SessionAuthorizer\<close> (\<open>control/auth.rs\<close>): the bearer token and generation of each device's
  session, and the pairing requests waiting for the user. Randomness is an argument of the
  operations that draw it (\<open>Inl\<close> when the generator fails), and so is the \<open>hex\<close> encoding of the
  external crate. A poisoned lock is not modelled: the mutex is always available.
\<close>

section \<open>State\<close>

type_synonym generation = u64

record authorized_session =
  as_device_id :: device_id
  as_generation :: generation

record pending_session =
  ps_device_id :: device_id
  ps_token :: string
  ps_generation :: generation

record session_record =
  sr_token :: string
  sr_generation :: generation

datatype approval_status = ApprovalPending | Approved | Rejected

record pending_approval =
  pa_device_id :: device_id
  pa_status :: approval_status
  pa_created_at :: nat

record authorizer =
  au_sessions :: "(device_id, session_record) hash_map"
  au_pending :: "(string, pending_approval) hash_map"
  au_next_generation :: u64
  au_pending_ttl :: nat

definition PENDING_APPROVAL_TTL :: nat where "PENDING_APPROVAL_TTL = secs 65"

definition default_authorizer :: authorizer where
  "default_authorizer = \<lparr>au_sessions = [], au_pending = [], au_next_generation = 0,
     au_pending_ttl = PENDING_APPROVAL_TTL\<rparr>"

section \<open>Pending approvals\<close>

definition prune_pending :: "nat \<Rightarrow> authorizer \<Rightarrow> authorizer" where
  "prune_pending now a =
     a\<lparr>au_pending := hm_retain (\<lambda>_ r. since now (pa_created_at r) \<le> au_pending_ttl a) (au_pending a)\<rparr>"

definition pending_request_id :: "(bytes \<Rightarrow> string) \<Rightarrow> string + bytes \<Rightarrow> string + string" where
  "pending_request_id hex random = (case random of
       Inl e \<Rightarrow> Inl (''failed to generate request id: '' @ e)
     | Inr bs \<Rightarrow> Inr (hex bs))"

definition create_pending ::
  "(bytes \<Rightarrow> string) \<Rightarrow> string + bytes \<Rightarrow> nat \<Rightarrow> device_id \<Rightarrow> authorizer \<Rightarrow>
   authorizer \<times> (string + string)" where
  "create_pending hex random now device a = (case pending_request_id hex random of
       Inl e \<Rightarrow> (a, Inl e)
     | Inr request_id \<Rightarrow>
         let a1 = prune_pending now a;
             others = hm_retain (\<lambda>_ r. pa_device_id r \<noteq> device) (au_pending a1) in
         (a1\<lparr>au_pending := hm_insert request_id
              \<lparr>pa_device_id = device, pa_status = ApprovalPending, pa_created_at = now\<rparr> others\<rparr>,
          Inr request_id))"

definition pending_status ::
  "nat \<Rightarrow> string \<Rightarrow> device_id \<Rightarrow> authorizer \<Rightarrow> authorizer \<times> approval_status option" where
  "pending_status now request_id device a =
     (let a1 = prune_pending now a in
      (a1, case hm_get (au_pending a1) request_id of
             None \<Rightarrow> None
           | Some r \<Rightarrow> if pa_device_id r = device then Some (pa_status r) else None))"

definition resolve_pending :: "nat \<Rightarrow> string \<Rightarrow> bool \<Rightarrow> authorizer \<Rightarrow> authorizer \<times> bool" where
  "resolve_pending now request_id approved a =
     (let a1 = prune_pending now a in
      case hm_get (au_pending a1) request_id of
        None \<Rightarrow> (a1, False)
      | Some r \<Rightarrow>
          if pa_status r \<noteq> ApprovalPending then (a1, False)
          else (a1\<lparr>au_pending := hm_insert request_id
                   (r\<lparr>pa_status := (if approved then Approved else Rejected)\<rparr>) (au_pending a1)\<rparr>, True))"

definition remove_pending :: "string \<Rightarrow> authorizer \<Rightarrow> authorizer" where
  "remove_pending request_id a = a\<lparr>au_pending := hm_remove request_id (au_pending a)\<rparr>"

definition cancel_pending_for_device ::
  "nat \<Rightarrow> device_id \<Rightarrow> authorizer \<Rightarrow> authorizer \<times> nat" where
  "cancel_pending_for_device now device a =
     (let a1 = prune_pending now a;
          kept = hm_retain (\<lambda>_ r. pa_device_id r \<noteq> device) (au_pending a1) in
      (a1\<lparr>au_pending := kept\<rparr>, length (au_pending a1) - length kept))"

section \<open>Sessions\<close>

definition prepare ::
  "(bytes \<Rightarrow> string) \<Rightarrow> string + bytes \<Rightarrow> device_id \<Rightarrow> authorizer \<Rightarrow>
   authorizer \<times> (string + pending_session)" where
  "prepare hex random device a = (case random of
       Inl e \<Rightarrow> (a, Inl (''failed to generate session token: '' @ e))
     | Inr bs \<Rightarrow>
         let g = gen_next (au_next_generation a) in
         (a\<lparr>au_next_generation := g\<rparr>,
          Inr \<lparr>ps_device_id = device, ps_token = hex bs, ps_generation = g\<rparr>))"

definition commit :: "pending_session \<Rightarrow> authorizer \<Rightarrow> authorizer \<times> (string \<times> generation)" where
  "commit p a =
     (a\<lparr>au_sessions := hm_insert (ps_device_id p)
          \<lparr>sr_token = ps_token p, sr_generation = ps_generation p\<rparr> (au_sessions a)\<rparr>,
      (ps_token p, ps_generation p))"

definition issue ::
  "(bytes \<Rightarrow> string) \<Rightarrow> string + bytes \<Rightarrow> device_id \<Rightarrow> authorizer \<Rightarrow>
   authorizer \<times> (string + string \<times> generation)" where
  "issue hex random device a = (case prepare hex random device a of
       (a1, Inl e) \<Rightarrow> (a1, Inl e)
     | (a1, Inr p) \<Rightarrow> (case commit p a1 of (a2, r) \<Rightarrow> (a2, Inr r)))"

text \<open>\<open>constant_time_eq\<close>: the difference of every pair of bytes is accumulated.\<close>

definition constant_time_eq :: "bytes \<Rightarrow> bytes \<Rightarrow> bool" where
  "constant_time_eq left right =
     (if length left \<noteq> length right then False
      else foldl (\<lambda>difference (l, r). difference OR (l XOR r)) 0 (zip left right) = 0)"

definition authenticate :: "device_id \<Rightarrow> string \<Rightarrow> authorizer \<Rightarrow> authorized_session option" where
  "authenticate device token a = (case hm_get (au_sessions a) device of
       None \<Rightarrow> None
     | Some r \<Rightarrow>
         if constant_time_eq (as_bytes (sr_token r)) (as_bytes token)
         then Some \<lparr>as_device_id = device, as_generation = sr_generation r\<rparr> else None)"

definition authenticate_token :: "string \<Rightarrow> authorizer \<Rightarrow> authorized_session option" where
  "authenticate_token token a =
     (case filter (\<lambda>(d, r). constant_time_eq (as_bytes (sr_token r)) (as_bytes token)) (au_sessions a) of
        [] \<Rightarrow> None
      | (d, r) # _ \<Rightarrow> Some \<lparr>as_device_id = d, as_generation = sr_generation r\<rparr>)"

definition session_generation :: "authorizer \<Rightarrow> device_id \<Rightarrow> generation option" where
  "session_generation a device = map_option sr_generation (hm_get (au_sessions a) device)"

definition is_current :: "device_id \<Rightarrow> generation \<Rightarrow> authorizer \<Rightarrow> bool" where
  "is_current device g a \<longleftrightarrow> session_generation a device = Some g"

definition has_session :: "device_id \<Rightarrow> authorizer \<Rightarrow> bool" where
  "has_session device a \<longleftrightarrow> hm_get (au_sessions a) device \<noteq> None"

definition revoke :: "device_id \<Rightarrow> generation option \<Rightarrow> authorizer \<Rightarrow> authorizer \<times> bool" where
  "revoke device gen a =
     (if (case gen of None \<Rightarrow> False | Some g \<Rightarrow> session_generation a device \<noteq> Some g)
      then (a, False)
      else (a\<lparr>au_sessions := hm_remove device (au_sessions a)\<rparr>, has_session device a))"

definition revoke_all :: "authorizer \<Rightarrow> authorizer" where
  "revoke_all a = a\<lparr>au_sessions := [], au_pending := []\<rparr>"

section \<open>Basic facts\<close>

lemma or_eq_0: "(a OR b = 0) \<longleftrightarrow> a = 0 \<and> b = (0 :: u8)"
  by (auto simp: bit_eq_iff bit_or_iff)

lemma difference_fold:
  "length l = length r \<Longrightarrow>
   foldl (\<lambda>difference (x, y). difference OR (x XOR y)) d (zip l r) = 0 \<longleftrightarrow> d = 0 \<and> l = (r :: bytes)"
proof (induction l r arbitrary: d rule: list_induct2)
  case (Cons x l y r)
  have "x XOR y = 0 \<longleftrightarrow> x = y"
    by (metis xor.right_neutral xor_self_eq xor.assoc)
  with Cons show ?case by (auto simp: or_eq_0)
qed simp

lemma constant_time_eq_iff [simp]: "constant_time_eq l r \<longleftrightarrow> l = r"
  using difference_fold [of l r 0] by (auto simp: constant_time_eq_def)

definition authorizer_ok :: "authorizer \<Rightarrow> bool" where
  "authorizer_ok a \<longleftrightarrow> hm_wf (au_sessions a) \<and> hm_wf (au_pending a)"

lemma authorizer_ok_default [simp]: "authorizer_ok default_authorizer"
  by (simp add: authorizer_ok_def default_authorizer_def)

lemma authorizer_ok_steps [simp]:
  assumes "authorizer_ok a"
  shows "authorizer_ok (prune_pending now a)" "authorizer_ok (fst (create_pending hex random now d a))"
    "authorizer_ok (fst (pending_status now i d a))"
    "authorizer_ok (fst (resolve_pending now i ok a))" "authorizer_ok (remove_pending i a)"
    "authorizer_ok (fst (cancel_pending_for_device now d a))"
    "authorizer_ok (fst (prepare hex random d a))" "authorizer_ok (fst (commit p a))"
    "authorizer_ok (fst (revoke d g a))" "authorizer_ok (revoke_all a)"
  using assms
  by (simp_all add: authorizer_ok_def prune_pending_def create_pending_def pending_status_def
      resolve_pending_def remove_pending_def cancel_pending_for_device_def prepare_def commit_def
      revoke_def revoke_all_def Let_def split: sum.split option.split)

lemma authorizer_ok_issue [simp]: "authorizer_ok a \<Longrightarrow> authorizer_ok (fst (issue hex random d a))"
  by (cases random) (auto simp: issue_def prepare_def commit_def authorizer_ok_def Let_def)

lemma session_generation_prune [simp]:
  "au_sessions (prune_pending now a) = au_sessions a"
  "au_next_generation (prune_pending now a) = au_next_generation a"
  "au_pending_ttl (prune_pending now a) = au_pending_ttl a"
  by (simp_all add: prune_pending_def)

lemma session_generation_revoke:
  "session_generation (fst (revoke d g a)) e =
     (if e = d \<and> (g = None \<or> g = session_generation a d) then None else session_generation a e)"
  by (cases g; cases "hm_get (au_sessions a) d") (auto simp: revoke_def session_generation_def)

lemma revoke_result:
  "snd (revoke d (Some g) a) \<longleftrightarrow> session_generation a d = Some g"
  by (auto simp: revoke_def session_generation_def has_session_def)

lemma session_generation_commit:
  "session_generation (fst (commit p a)) e =
     (if e = ps_device_id p then Some (ps_generation p) else session_generation a e)"
  by (simp add: commit_def session_generation_def)

section \<open>The shared contracts\<close>

interpretation session_table: generation_table authorizer_ok session_generation
  "\<lambda>d g a. revoke d (Some g) a"
  by unfold_locales (simp_all add: session_generation_revoke revoke_result)

text \<open>A committed credential takes the place of the device's session, whatever its token is.\<close>

interpretation issued: replacing_table authorizer_ok session_generation
  "\<lambda>d g a. revoke d (Some g) a"
  "\<lambda>d g a. fst (commit \<lparr>ps_device_id = d, ps_token = token, ps_generation = g\<rparr> a)" for token
  by unfold_locales (simp_all add: session_generation_commit)

interpretation approvals: expiring_table authorizer_ok "\<lambda>a. hm_get (au_pending a)" pa_created_at
  au_pending_ttl prune_pending
  by unfold_locales
    (auto simp: prune_pending_def authorizer_ok_def hm_get_retain split: option.splits)

section \<open>Sessions over the life of the process\<close>

text \<open>
  The authorizer with the credentials that were prepared and neither committed nor dropped, and
  those committed so far. A step is one operation of the dispatcher, the command handler, the
  watchdog or the control server; a prepared session whose stream did not start is dropped.
\<close>

record auth_system =
  sy_auth :: authorizer
  sy_prepared :: "pending_session list"
  sy_committed :: "pending_session list"

definition initial_system :: auth_system where
  "initial_system = \<lparr>sy_auth = default_authorizer, sy_prepared = [], sy_committed = []\<rparr>"

inductive sys_step :: "auth_system \<Rightarrow> auth_system \<Rightarrow> bool" where
  step_prepare: "prepare hex random d (sy_auth s) = (a, Inr p) \<Longrightarrow>
     sys_step s (s\<lparr>sy_auth := a, sy_prepared := p # sy_prepared s\<rparr>)"
| step_commit: "p \<in> set (sy_prepared s) \<Longrightarrow>
     sys_step s (s\<lparr>sy_auth := fst (commit p (sy_auth s)),
       sy_prepared := remove1 p (sy_prepared s), sy_committed := p # sy_committed s\<rparr>)"
| step_drop: "sys_step s (s\<lparr>sy_prepared := remove1 p (sy_prepared s)\<rparr>)"
| step_revoke: "sys_step s (s\<lparr>sy_auth := fst (revoke d g (sy_auth s))\<rparr>)"
| step_revoke_all: "sys_step s (s\<lparr>sy_auth := revoke_all (sy_auth s)\<rparr>)"
| step_create: "sys_step s (s\<lparr>sy_auth := fst (create_pending hex random now d (sy_auth s))\<rparr>)"
| step_status: "sys_step s (s\<lparr>sy_auth := fst (pending_status now i d (sy_auth s))\<rparr>)"
| step_resolve: "sys_step s (s\<lparr>sy_auth := fst (resolve_pending now i ok (sy_auth s))\<rparr>)"
| step_remove: "sys_step s (s\<lparr>sy_auth := remove_pending i (sy_auth s)\<rparr>)"
| step_cancel: "sys_step s (s\<lparr>sy_auth := fst (cancel_pending_for_device now d (sy_auth s))\<rparr>)"

inductive_cases sys_stepE: "sys_step s t"

inductive reachable_sys :: "auth_system \<Rightarrow> bool" where
  reach_init: "reachable_sys initial_system"
| reach_step: "reachable_sys s \<Longrightarrow> sys_step s t \<Longrightarrow>
     unat (au_next_generation (sy_auth s)) < 2 ^ 64 - 1 \<Longrightarrow> reachable_sys t"

definition generation_inv :: "auth_system \<Rightarrow> bool" where
  "generation_inv s \<longleftrightarrow> authorizer_ok (sy_auth s) \<and>
     (let all = sy_prepared s @ sy_committed s in
      distinct (map ps_generation all) \<and>
      (\<forall>p \<in> set all. unat (ps_generation p) \<le> unat (au_next_generation (sy_auth s)))) \<and>
     (\<forall>d r. hm_get (au_sessions (sy_auth s)) d = Some r \<longrightarrow>
        (\<exists>p \<in> set (sy_committed s). ps_device_id p = d \<and> ps_token p = sr_token r \<and>
           ps_generation p = sr_generation r))"

lemma approval_ops_sessions [simp]:
  "au_sessions (fst (create_pending hex random now d a)) = au_sessions a"
  "au_next_generation (fst (create_pending hex random now d a)) = au_next_generation a"
  "au_sessions (fst (pending_status now i d a)) = au_sessions a"
  "au_next_generation (fst (pending_status now i d a)) = au_next_generation a"
  "au_sessions (fst (resolve_pending now i ok a)) = au_sessions a"
  "au_next_generation (fst (resolve_pending now i ok a)) = au_next_generation a"
  "au_sessions (remove_pending i a) = au_sessions a"
  "au_next_generation (remove_pending i a) = au_next_generation a"
  "au_sessions (fst (cancel_pending_for_device now d a)) = au_sessions a"
  "au_next_generation (fst (cancel_pending_for_device now d a)) = au_next_generation a"
  by (simp_all add: create_pending_def pending_status_def resolve_pending_def remove_pending_def
      cancel_pending_for_device_def Let_def split: sum.split option.split)

lemma generation_inv_initial: "generation_inv initial_system"
  by (simp add: generation_inv_def initial_system_def) (simp add: default_authorizer_def)

lemma generation_inv_approvals:
  "generation_inv s \<Longrightarrow> authorizer_ok a \<Longrightarrow> au_sessions a = au_sessions (sy_auth s) \<Longrightarrow>
   au_next_generation a = au_next_generation (sy_auth s) \<Longrightarrow> generation_inv (s\<lparr>sy_auth := a\<rparr>)"
  by (simp add: generation_inv_def)

lemma generation_inv_fewer_sessions:
  "generation_inv s \<Longrightarrow> authorizer_ok a \<Longrightarrow> au_next_generation a = au_next_generation (sy_auth s) \<Longrightarrow>
   (\<And>d r. hm_get (au_sessions a) d = Some r \<Longrightarrow> hm_get (au_sessions (sy_auth s)) d = Some r) \<Longrightarrow>
   generation_inv (s\<lparr>sy_auth := a\<rparr>)"
  by (simp add: generation_inv_def)

lemma generation_inv_prepare:
  assumes inv: "generation_inv s" and lim: "unat (au_next_generation (sy_auth s)) < 2 ^ 64 - 1"
    and p: "prepare hex random d (sy_auth s) = (a, Inr p)"
  shows "generation_inv (s\<lparr>sy_auth := a, sy_prepared := p # sy_prepared s\<rparr>)"
proof -
  have ok: "authorizer_ok a"
    using inv p authorizer_ok_steps(7) [of "sy_auth s" hex random d] by (simp add: generation_inv_def)
  have a: "au_sessions a = au_sessions (sy_auth s)"
    "unat (au_next_generation a) = unat (au_next_generation (sy_auth s)) + 1"
    "ps_generation p = au_next_generation a"
    using p unat_gen_next [OF lim] by (auto simp: prepare_def Let_def split: sum.splits)
  have "ps_generation p \<noteq> ps_generation q" if "q \<in> set (sy_prepared s @ sy_committed s)" for q
  proof -
    have "unat (ps_generation q) \<le> unat (au_next_generation (sy_auth s))"
      using inv that by (simp add: generation_inv_def Let_def)
    with a(2, 3) show ?thesis by auto
  qed
  then have "distinct (map ps_generation (p # sy_prepared s @ sy_committed s))"
    using inv by (auto simp: generation_inv_def Let_def)
  moreover have "unat (ps_generation q) \<le> unat (au_next_generation a)"
    if "q \<in> set (p # sy_prepared s @ sy_committed s)" for q
    using that inv a(2, 3) by (force simp: generation_inv_def Let_def)
  ultimately show ?thesis
    using inv ok a(1) unfolding generation_inv_def Let_def by simp
qed

lemma distinct_move:
  assumes "p \<in> set xs"
  shows "distinct (map f (remove1 p xs @ p # ys)) \<longleftrightarrow> distinct (map f (xs @ ys))"
    and "set (remove1 p xs @ p # ys) = set (xs @ ys)"
proof -
  have m: "mset (remove1 p xs @ p # ys) = mset (xs @ ys)"
    using assms by simp
  show "set (remove1 p xs @ p # ys) = set (xs @ ys)"
    by (rule mset_eq_setD [OF m])
  have "mset (map f (remove1 p xs @ p # ys)) = mset (map f (xs @ ys))"
    unfolding mset_map m ..
  then show "distinct (map f (remove1 p xs @ p # ys)) \<longleftrightarrow> distinct (map f (xs @ ys))"
    by (rule mset_eq_imp_distinct_iff)
qed

lemma distinct_map_remove1: "distinct (map f (xs @ ys)) \<Longrightarrow> distinct (map f (remove1 p xs @ ys))"
  by (induction xs) (auto dest: notin_set_remove1 simp: image_iff)

lemma generation_inv_commit:
  assumes inv: "generation_inv s" and p: "p \<in> set (sy_prepared s)"
  shows "generation_inv (s\<lparr>sy_auth := fst (commit p (sy_auth s)),
    sy_prepared := remove1 p (sy_prepared s), sy_committed := p # sy_committed s\<rparr>)"
proof -
  note move = distinct_move(1) [OF p, where f = ps_generation and ys = "sy_committed s"]
    distinct_move(2) [OF p, where ys = "sy_committed s"]
  have "distinct (map ps_generation (remove1 p (sy_prepared s) @ p # sy_committed s))"
    using inv move(1) by (simp add: generation_inv_def Let_def)
  moreover note move(2)
  moreover have "au_next_generation (fst (commit p (sy_auth s))) = au_next_generation (sy_auth s)"
    by (simp add: commit_def)
  moreover have "\<exists>q \<in> set (p # sy_committed s). ps_device_id q = d \<and> ps_token q = sr_token r \<and>
      ps_generation q = sr_generation r"
    if "hm_get (au_sessions (fst (commit p (sy_auth s)))) d = Some r" for d r
    using that inv by (auto simp: commit_def generation_inv_def Let_def split: if_splits)
  ultimately show ?thesis
    using inv unfolding generation_inv_def Let_def by simp
qed

lemma generation_inv_drop:
  assumes "generation_inv s"
  shows "generation_inv (s\<lparr>sy_prepared := remove1 p (sy_prepared s)\<rparr>)"
proof -
  have sub: "set (remove1 p (sy_prepared s)) \<subseteq> set (sy_prepared s)" by (rule set_remove1_subset)
  have "distinct (map ps_generation (remove1 p (sy_prepared s) @ sy_committed s))"
    using assms by (intro distinct_map_remove1) (simp add: generation_inv_def Let_def)
  with assms sub show ?thesis by (auto simp: generation_inv_def Let_def)
qed

lemma generation_inv_step:
  assumes step: "sys_step s t" and inv: "generation_inv s"
    and lim: "unat (au_next_generation (sy_auth s)) < 2 ^ 64 - 1"
  shows "generation_inv t"
proof -
  have ok: "authorizer_ok (sy_auth s)" using inv by (simp add: generation_inv_def)
  show ?thesis
    using step
  proof (cases rule: sys_step.cases)
    case (step_prepare hex random d a p)
    with generation_inv_prepare [OF inv lim] show ?thesis by blast
  next
    case (step_commit p)
    with generation_inv_commit [OF inv] show ?thesis by blast
  next
    case (step_revoke d g)
    have "au_next_generation (fst (revoke d g (sy_auth s))) = au_next_generation (sy_auth s)"
      "\<And>e r. hm_get (au_sessions (fst (revoke d g (sy_auth s)))) e = Some r \<Longrightarrow>
         hm_get (au_sessions (sy_auth s)) e = Some r"
      by (auto simp: revoke_def split: if_splits)
    with step_revoke ok inv show ?thesis by (auto intro: generation_inv_fewer_sessions)
  next
    case step_revoke_all
    with ok inv show ?thesis
      by (auto simp: revoke_all_def intro!: generation_inv_fewer_sessions)
        (simp add: authorizer_ok_def)
  qed (use ok inv in \<open>auto intro: generation_inv_approvals generation_inv_drop\<close>)
qed

lemma reachable_generation_inv: "reachable_sys s \<Longrightarrow> generation_inv s"
  by (induction rule: reachable_sys.induct) (auto intro: generation_inv_initial generation_inv_step)

lemma credential_of_session:
  assumes inv: "generation_inv s" and p: "p \<in> set (sy_committed s)"
    and cur: "is_current d (ps_generation p) (sy_auth s)"
  shows "d = ps_device_id p \<and>
    (\<exists>r. hm_get (au_sessions (sy_auth s)) d = Some r \<and> sr_token r = ps_token p)"
proof -
  obtain r where r: "hm_get (au_sessions (sy_auth s)) d = Some r" "sr_generation r = ps_generation p"
    using cur by (auto simp: is_current_def session_generation_def)
  then obtain q where q: "q \<in> set (sy_committed s)" "ps_device_id q = d" "ps_token q = sr_token r"
    "ps_generation q = sr_generation r"
    using inv by (fastforce simp: generation_inv_def)
  have "inj_on ps_generation (set (sy_committed s))"
    using inv by (simp add: generation_inv_def Let_def distinct_map inj_on_Un)
  with q p r have "q = p" by (metis inj_onD)
  with q r show ?thesis by auto
qed

text \<open>
  In every reachable state of the session table, a generation identifies one credential: if a
  credential's generation is current for a device, the device is the one it was issued to and
  the session's token is the one it was issued with, and no other device holds that generation.
  (Reachable within the 2^64 - 1 generations before the counter starts over.)
\<close>

theorem generation_identifies_credential:
  assumes "reachable_sys s" and "p \<in> set (sy_committed s)"
    and "is_current d (ps_generation p) (sy_auth s)"
  shows "d = ps_device_id p \<and>
    authenticate d (ps_token p) (sy_auth s) = Some \<lparr>as_device_id = d, as_generation = ps_generation p\<rparr> \<and>
    (\<forall>e. is_current e (ps_generation p) (sy_auth s) \<longrightarrow> e = d)"
proof -
  note inv = reachable_generation_inv [OF assms(1)]
  from credential_of_session [OF inv assms(2)] assms(3) have
    "\<forall>e. is_current e (ps_generation p) (sy_auth s) \<longrightarrow> e = ps_device_id p" by blast
  moreover from credential_of_session [OF inv assms(2, 3)] assms(3) have
    "authenticate d (ps_token p) (sy_auth s) = Some \<lparr>as_device_id = d, as_generation = ps_generation p\<rparr>"
    by (auto simp: authenticate_def is_current_def session_generation_def)
  ultimately show ?thesis using assms(3) by blast
qed

definition sample_system :: auth_system where
  "sample_system =
     (let (a, r) = prepare (\<lambda>_. ''t1'') (Inr []) ''phone'' default_authorizer; p = projr r in
      \<lparr>sy_auth = fst (commit p a), sy_prepared = [], sy_committed = [p]\<rparr>)"

lemma sample_system_eq:
  "sample_system = \<lparr>sy_auth = default_authorizer\<lparr>au_next_generation := 1, au_sessions :=
       hm_insert ''phone'' \<lparr>sr_token = ''t1'', sr_generation = 1\<rparr> []\<rparr>, sy_prepared = [],
     sy_committed = [\<lparr>ps_device_id = ''phone'', ps_token = ''t1'', ps_generation = 1\<rparr>]\<rparr>"
  by (simp add: sample_system_def prepare_def commit_def default_authorizer_def gen_next_def Let_def)

lemma sample_reachable: "reachable_sys sample_system"
proof -
  let ?p = "\<lparr>ps_device_id = ''phone'', ps_token = ''t1'', ps_generation = 1\<rparr>"
  let ?a = "default_authorizer\<lparr>au_next_generation := 1\<rparr>"
  let ?s = "initial_system\<lparr>sy_auth := ?a, sy_prepared := [?p]\<rparr>"
  have "prepare (\<lambda>_. ''t1'') (Inr []) ''phone'' (sy_auth initial_system) = (?a, Inr ?p)"
    by (simp add: prepare_def initial_system_def default_authorizer_def gen_next_def Let_def)
  from step_prepare [OF this] have "sys_step initial_system ?s"
    by (simp add: initial_system_def)
  then have "reachable_sys ?s"
    by (rule reach_step [OF reach_init]) (simp add: initial_system_def default_authorizer_def)
  moreover have "sys_step ?s sample_system"
    using step_commit [of ?p ?s] by (simp add: sample_system_eq commit_def initial_system_def
        default_authorizer_def)
  ultimately show ?thesis by (rule reach_step) (simp add: default_authorizer_def)
qed

theorem generation_identifies_credential_witness:
  "authenticate ''phone'' ''t1'' (sy_auth sample_system) =
     Some \<lparr>as_device_id = ''phone'', as_generation = 1\<rparr>"
proof -
  let ?p = "\<lparr>ps_device_id = ''phone'', ps_token = ''t1'', ps_generation = 1\<rparr>"
  have p: "?p \<in> set (sy_committed sample_system)" by (simp add: sample_system_eq)
  have "is_current ''phone'' (ps_generation ?p) (sy_auth sample_system)"
    by (simp add: sample_system_eq is_current_def session_generation_def)
  from generation_identifies_credential [OF sample_reachable p this] show ?thesis by simp
qed

text \<open>
  A reconnect supersedes every earlier session of the device: once a prepared credential is
  committed, no credential committed before is current any more, a cleanup carrying an older
  generation removes nothing, and the new token authenticates.
\<close>

theorem reconnect_supersedes:
  assumes "reachable_sys s" and "p \<in> set (sy_prepared s)" and "q \<in> set (sy_committed s)"
  defines "a \<equiv> fst (commit p (sy_auth s))"
  shows "\<not> is_current (ps_device_id p) (ps_generation q) a \<and>
    snd (revoke (ps_device_id p) (Some (ps_generation q)) a) = False \<and>
    session_generation (fst (revoke (ps_device_id p) (Some (ps_generation q)) a)) =
      session_generation a \<and>
    authenticate (ps_device_id p) (ps_token p) a =
      Some \<lparr>as_device_id = ps_device_id p, as_generation = ps_generation p\<rparr>"
proof -
  note inv = reachable_generation_inv [OF assms(1)]
  have ne: "ps_generation q \<noteq> ps_generation p"
    using inv assms(2, 3) by (fastforce simp: generation_inv_def Let_def)
  then have stale: "session_generation a (ps_device_id p) \<noteq> Some (ps_generation q)"
    by (simp add: a_def session_generation_commit)
  have "authorizer_ok (sy_auth s)" using inv by (simp add: generation_inv_def)
  from issued.late_cleanup [OF this ne, of "ps_device_id p" "ps_token p"] stale show ?thesis
    by (auto simp: is_current_def a_def authenticate_def commit_def fun_eq_iff)
qed

theorem reconnect_supersedes_witness:
  "\<exists>(s :: auth_system) (p :: pending_session). p \<in> set (sy_prepared s) \<and> ps_device_id p = ''phone'' \<and> ps_generation p = 2 \<and>
     \<not> is_current ''phone'' 1 (fst (commit p (sy_auth s)))"
proof -
  let ?p = "\<lparr>ps_device_id = ''phone'', ps_token = ''t2'', ps_generation = 2\<rparr>"
  let ?q = "\<lparr>ps_device_id = ''phone'', ps_token = ''t1'', ps_generation = 1\<rparr>"
  let ?a = "(sy_auth sample_system)\<lparr>au_next_generation := 2\<rparr>"
  let ?s = "sample_system\<lparr>sy_auth := ?a, sy_prepared := [?p]\<rparr>"
  have "prepare (\<lambda>_. ''t2'') (Inr []) ''phone'' (sy_auth sample_system) = (?a, Inr ?p)"
    by (simp add: prepare_def sample_system_eq default_authorizer_def gen_next_def Let_def)
  from step_prepare [OF this] have "sys_step sample_system ?s"
    by (simp add: sample_system_eq)
  then have r: "reachable_sys ?s"
    by (rule reach_step [OF sample_reachable]) (simp add: sample_system_eq)
  have "?p \<in> set (sy_prepared ?s)" "?q \<in> set (sy_committed ?s)"
    by (simp_all add: sample_system_eq)
  from reconnect_supersedes [OF r this] this(1) show ?thesis
    by (intro exI [of _ ?s] exI [of _ ?p]) simp
qed

section \<open>Approvals\<close>

lemma lookup_after_resolve:
  "authorizer_ok a \<Longrightarrow> snd (resolve_pending now i ok a) \<Longrightarrow>
   \<exists>r. hm_get (au_pending a) i = Some r \<and> since now (pa_created_at r) \<le> au_pending_ttl a \<and>
     pa_status r = ApprovalPending \<and>
     hm_get (au_pending (fst (resolve_pending now i ok a))) i =
       Some (r\<lparr>pa_status := (if ok then Approved else Rejected)\<rparr>) \<and>
     au_pending_ttl (fst (resolve_pending now i ok a)) = au_pending_ttl a"
  using approvals.pruned_is_live [of a now i]
  by (auto simp: resolve_pending_def Let_def split: option.splits if_splits)

text \<open>
  The user's answer to a pairing request is final and short-lived: an answer is accepted only
  for a live unanswered request; afterwards no second answer is accepted, the request's device
  is told exactly that answer until the request is 65 seconds old and nothing after, and no
  other device is ever told anything about it.
\<close>

theorem approval_is_final:
  assumes "authorizer_ok a" and "snd (resolve_pending now i ok a)"
  defines "b \<equiv> fst (resolve_pending now i ok a)"
  shows "\<exists>r. hm_get (au_pending a) i = Some r \<and> pa_status r = ApprovalPending \<and>
    since now (pa_created_at r) \<le> au_pending_ttl a \<and>
    (\<forall>later ok'. \<not> snd (resolve_pending later i ok' b)) \<and>
    (\<forall>later. snd (pending_status later i (pa_device_id r) b) =
       (if since later (pa_created_at r) \<le> au_pending_ttl a
        then Some (if ok then Approved else Rejected) else None)) \<and>
    (\<forall>later d. d \<noteq> pa_device_id r \<longrightarrow> snd (pending_status later i d b) = None)"
proof -
  obtain r where r: "hm_get (au_pending a) i = Some r" "since now (pa_created_at r) \<le> au_pending_ttl a"
    "pa_status r = ApprovalPending"
    "hm_get (au_pending b) i = Some (r\<lparr>pa_status := (if ok then Approved else Rejected)\<rparr>)"
    "au_pending_ttl b = au_pending_ttl a"
    using lookup_after_resolve [OF assms(1, 2)] unfolding b_def by blast
  have "authorizer_ok b" using assms(1) by (simp add: b_def)
  note P = approvals.lookup_prune [OF this, of _ i, unfolded r(4, 5) option.case]
  have "\<not> snd (resolve_pending later i ok' b)" for later ok'
    using P [of later] by (auto simp: resolve_pending_def Let_def split: option.splits if_splits)
  moreover have "snd (pending_status later i d b) =
      (if d = pa_device_id r \<and> since later (pa_created_at r) \<le> au_pending_ttl a
       then Some (if ok then Approved else Rejected) else None)" for later d
    using P [of later] by (auto simp: pending_status_def Let_def)
  ultimately show ?thesis using r by auto
qed

lemma sample_pending:
  "fst (create_pending (\<lambda>_. ''r1'') (Inr []) 0 ''phone'' default_authorizer) =
     default_authorizer\<lparr>au_pending := hm_insert ''r1''
       \<lparr>pa_device_id = ''phone'', pa_status = ApprovalPending, pa_created_at = 0\<rparr> []\<rparr>"
  by (simp add: create_pending_def pending_request_id_def prune_pending_def default_authorizer_def
      hm_retain_def Let_def)

theorem approval_is_final_witness:
  "let a = fst (create_pending (\<lambda>_. ''r1'') (Inr []) 0 ''phone'' default_authorizer);
       b = fst (resolve_pending (secs 3) ''r1'' True a) in
   snd (pending_status (secs 65) ''r1'' ''phone'' b) = Some Approved \<and>
   snd (pending_status (secs 66) ''r1'' ''phone'' b) = None"
proof -
  let ?a = "fst (create_pending (\<lambda>_. ''r1'') (Inr []) 0 ''phone'' default_authorizer)"
  have ok: "authorizer_ok ?a" by simp
  have got: "hm_get (au_pending ?a) ''r1'' = Some \<lparr>pa_device_id = ''phone'',
      pa_status = ApprovalPending, pa_created_at = 0\<rparr>" and ttl: "au_pending_ttl ?a = secs 65"
    by (simp_all add: sample_pending)
      (simp add: default_authorizer_def PENDING_APPROVAL_TTL_def)
  have "snd (resolve_pending (secs 3) ''r1'' True ?a)"
    using approvals.live_kept [OF ok got, of "secs 3"] ttl
    by (simp add: resolve_pending_def Let_def since_def secs_def)
  from approval_is_final [OF ok this] got ttl show ?thesis
    by (fastforce simp: Let_def since_def secs_def)
qed

text \<open>
  A device never has two pairing requests: a new request replaces the device's earlier ones
  and leaves the live requests of the other devices alone.
\<close>

theorem one_request_per_device:
  assumes "authorizer_ok a" and "create_pending hex (Inr bs) now d a = (b, Inr i)"
  shows "hm_get (au_pending b) j =
    (if j = i then Some \<lparr>pa_device_id = d, pa_status = ApprovalPending, pa_created_at = now\<rparr>
     else case hm_get (au_pending a) j of None \<Rightarrow> None
       | Some r \<Rightarrow> if since now (pa_created_at r) \<le> au_pending_ttl a \<and> pa_device_id r \<noteq> d
                 then Some r else None)"
proof -
  have "hm_wf (au_pending a)" "hm_wf (au_pending (prune_pending now a))"
    using assms(1) authorizer_ok_steps(1) [OF assms(1), of now] by (simp_all add: authorizer_ok_def)
  with assms(2) approvals.lookup_prune [OF assms(1), of now j] show ?thesis
    by (auto simp: create_pending_def pending_request_id_def Let_def hm_get_retain split: option.splits)
qed

theorem one_request_per_device_witness:
  "let a = fst (create_pending (\<lambda>_. ''r1'') (Inr []) 0 ''phone'' default_authorizer);
       b = fst (create_pending (\<lambda>_. ''r2'') (Inr []) 5 ''phone'' a) in
   hm_get (au_pending b) ''r1'' = None \<and> hm_get (au_pending b) ''r2'' \<noteq> None"
proof -
  let ?a = "fst (create_pending (\<lambda>_. ''r1'') (Inr []) 0 ''phone'' default_authorizer)"
  let ?r = "create_pending (\<lambda>_. ''r2'') (Inr []) 5 ''phone'' ?a"
  have ok: "authorizer_ok ?a" by simp
  have "?r = (fst ?r, Inr ''r2'')"
    by (simp add: create_pending_def pending_request_id_def Let_def)
  from one_request_per_device [OF ok this, of "''r1''"] one_request_per_device [OF ok this, of "''r2''"]
  show ?thesis by (simp add: sample_pending Let_def)
qed

end
