(* ===== verification/Capture_Pool.thy ===== *)
theory Capture_Pool
  imports Wire Session_Auth
begin

text \<open>
  The captures of the streamer and the encoder tasks on them (\<open>stream/streamer/capture_pool.rs\<close>,
  \<open>capture_instance.rs\<close>, \<open>failure.rs\<close>): one capture per audio source, one encoder per target.

  A task is what the code keeps of it: its bitrate and generation, and for a TCP encoder the
  broadcast channel it publishes on. A channel is named by a number; \<open>cp_next_channel\<close> is the
  name of the next one. Whether a capture can be opened and whether Opus accepts a bitrate is
  decided outside: the argument \<open>env\<close> of the operations that ask.
\<close>

section \<open>State\<close>

record capture_env =
  ce_desktop :: "audio_error + unit"
  ce_process :: "u32 \<Rightarrow> audio_error + unit"
  ce_opus :: "i32 \<Rightarrow> string + opus_encoder"

record per_target_encoder =
  pe_bitrate :: audio_bitrate
  pe_generation :: u64

record tcp_encoder =
  te_bitrate :: audio_bitrate
  te_generation :: u64
  te_channel :: nat

record capture_instance =
  ci_generation :: u64
  ci_next_encoder_generation :: u64
  ci_udp :: "(socket_addr, per_target_encoder) hash_map"
  ci_tcp :: "(device_id, tcp_encoder) hash_map"

record capture_pool =
  cp_instances :: "(audio_source, capture_instance) hash_map"
  cp_max_instances :: nat
  cp_supports_process_capture :: bool
  cp_next_generation :: u64
  cp_next_channel :: nat

datatype stream_failure =
    CaptureFailed audio_source u64 string
  | UdpEncoderFailed audio_source u64 u64 socket_addr string
  | TcpEncoderFailed audio_source u64 u64 device_id string

definition new_pool :: "bool \<Rightarrow> capture_pool" where
  "new_pool process = \<lparr>cp_instances = [], cp_max_instances = 8,
     cp_supports_process_capture = process, cp_next_generation = 0, cp_next_channel = 0\<rparr>"

definition new_instance :: "u64 \<Rightarrow> capture_instance" where
  "new_instance g = \<lparr>ci_generation = g, ci_next_encoder_generation = 0, ci_udp = [], ci_tcp = []\<rparr>"

section \<open>Encoders of one capture\<close>

definition remove_target_encoder :: "socket_addr \<Rightarrow> capture_instance \<Rightarrow> capture_instance" where
  "remove_target_encoder addr ci = ci\<lparr>ci_udp := hm_remove addr (ci_udp ci)\<rparr>"

definition remove_tcp_encoder :: "device_id \<Rightarrow> capture_instance \<Rightarrow> capture_instance" where
  "remove_tcp_encoder d ci = ci\<lparr>ci_tcp := hm_remove d (ci_tcp ci)\<rparr>"

definition spawn_target_encoder ::
  "capture_env \<Rightarrow> socket_addr \<Rightarrow> i32 option \<Rightarrow> capture_instance \<Rightarrow>
   capture_instance \<times> (audio_error + unit)" where
  "spawn_target_encoder env addr bitrate ci = (case from_wire bitrate of
       Inl e \<Rightarrow> (ci, Inl e)
     | Inr b \<Rightarrow>
         if (case hm_get (ci_udp ci) addr of None \<Rightarrow> False | Some e \<Rightarrow> pe_bitrate e = b)
         then (ci, Inr ())
         else case create_codec (ce_opus env) b of
             Inl e \<Rightarrow> (ci, Inl e)
           | Inr _ \<Rightarrow>
               let ci1 = remove_target_encoder addr ci;
                   g = gen_next (ci_next_encoder_generation ci1) in
               (ci1\<lparr>ci_next_encoder_generation := g,
                    ci_udp := hm_insert addr \<lparr>pe_bitrate = b, pe_generation = g\<rparr> (ci_udp ci1)\<rparr>,
                Inr ()))"

definition spawn_tcp_encoder ::
  "capture_env \<Rightarrow> nat \<Rightarrow> device_id \<Rightarrow> i32 option \<Rightarrow> nat option \<Rightarrow> capture_instance \<Rightarrow>
   capture_instance \<times> (audio_error + nat)" where
  "spawn_tcp_encoder env fresh d bitrate reusable ci = (case from_wire bitrate of
       Inl e \<Rightarrow> (ci, Inl e)
     | Inr b \<Rightarrow>
         let existing = hm_get (ci_tcp ci) d in
         if (case existing of None \<Rightarrow> False | Some e \<Rightarrow> te_bitrate e = b)
         then (ci, Inr (te_channel (the existing)))
         else case create_codec (ce_opus env) b of
             Inl e \<Rightarrow> (ci, Inl e)
           | Inr _ \<Rightarrow>
               let channel = (case reusable of Some c \<Rightarrow> c
                     | None \<Rightarrow> (case existing of Some e \<Rightarrow> te_channel e | None \<Rightarrow> fresh));
                   ci1 = remove_tcp_encoder d ci;
                   g = gen_next (ci_next_encoder_generation ci1) in
               (ci1\<lparr>ci_next_encoder_generation := g,
                    ci_tcp := hm_insert d \<lparr>te_bitrate = b, te_generation = g, te_channel = channel\<rparr>
                      (ci_tcp ci1)\<rparr>,
                Inr channel))"

definition instance_tcp_broadcaster :: "device_id \<Rightarrow> capture_instance \<Rightarrow> nat option" where
  "instance_tcp_broadcaster d ci = map_option te_channel (hm_get (ci_tcp ci) d)"

section \<open>The pool\<close>

text \<open>The capture of a source, opened if there is none yet.\<close>

definition ensure_instance ::
  "capture_env \<Rightarrow> audio_source \<Rightarrow> capture_pool \<Rightarrow> audio_error + capture_pool" where
  "ensure_instance env source p =
     (if hm_get (cp_instances p) source \<noteq> None then Inr p
      else if cp_max_instances p \<le> length (cp_instances p)
      then Inl (CapturePoolExhausted (cp_max_instances p))
      else case (case source of
            Desktop \<Rightarrow> ce_desktop env
          | Process pid name \<Rightarrow>
              if cp_supports_process_capture p then ce_process env pid
              else Inl ProcessCaptureUnavailable) of
          Inl e \<Rightarrow> Inl e
        | Inr _ \<Rightarrow>
            let g = gen_next (cp_next_generation p) in
            Inr (p\<lparr>cp_next_generation := g,
                   cp_instances := hm_insert source (new_instance g) (cp_instances p)\<rparr>))"

definition set_instance :: "audio_source \<Rightarrow> capture_instance \<Rightarrow> capture_pool \<Rightarrow> capture_pool" where
  "set_instance source ci p = p\<lparr>cp_instances := hm_insert source ci (cp_instances p)\<rparr>"

text \<open>Starting an encoder on an open capture; \<open>Inr None\<close> for a UDP target.\<close>

definition spawn_encoder ::
  "capture_env \<Rightarrow> audio_source \<Rightarrow> target_id \<Rightarrow> i32 option \<Rightarrow> nat option \<Rightarrow> capture_instance \<Rightarrow>
   capture_pool \<Rightarrow> capture_pool \<times> (audio_error + nat option)" where
  "spawn_encoder env source target bitrate reusable ci p = (case target of
       Udp addr \<Rightarrow> (case spawn_target_encoder env addr bitrate ci of
           (ci1, Inl e) \<Rightarrow> (set_instance source ci1 p, Inl e)
         | (ci1, Inr _) \<Rightarrow> (set_instance source ci1 p, Inr None))
     | Tcp d \<Rightarrow> (case spawn_tcp_encoder env (cp_next_channel p) d bitrate reusable ci of
           (ci1, Inl e) \<Rightarrow> (set_instance source ci1 p, Inl e)
         | (ci1, Inr channel) \<Rightarrow>
             (set_instance source ci1 (p\<lparr>cp_next_channel := cp_next_channel p + 1\<rparr>),
              Inr (Some channel))))"

definition subscribe_with_channel ::
  "capture_env \<Rightarrow> audio_source \<Rightarrow> target_id \<Rightarrow> i32 option \<Rightarrow> nat option \<Rightarrow> capture_pool \<Rightarrow>
   capture_pool \<times> (audio_error + nat option)" where
  "subscribe_with_channel env source target bitrate reusable p =
     (case ensure_instance env source p of
        Inl e \<Rightarrow> (p, Inl e)
      | Inr p1 \<Rightarrow> spawn_encoder env source target bitrate reusable
          (the (hm_get (cp_instances p1) source)) p1)"

definition pool_subscribe ::
  "capture_env \<Rightarrow> audio_source \<Rightarrow> target_id \<Rightarrow> i32 option \<Rightarrow> capture_pool \<Rightarrow>
   capture_pool \<times> (audio_error + nat option)" where
  "pool_subscribe env source target bitrate p =
     subscribe_with_channel env source target bitrate None p"

definition remove_encoder :: "target_id \<Rightarrow> capture_instance \<Rightarrow> capture_instance" where
  "remove_encoder target ci = (case target of
       Udp addr \<Rightarrow> remove_target_encoder addr ci
     | Tcp d \<Rightarrow> remove_tcp_encoder d ci)"

definition pool_unsubscribe :: "audio_source \<Rightarrow> target_id \<Rightarrow> capture_pool \<Rightarrow> capture_pool" where
  "pool_unsubscribe source target p = (case hm_get (cp_instances p) source of
       None \<Rightarrow> p
     | Some ci \<Rightarrow>
         let ci1 = remove_encoder target ci in
         if ci_udp ci1 = [] \<and> ci_tcp ci1 = []
         then p\<lparr>cp_instances := hm_remove source (cp_instances p)\<rparr>
         else set_instance source ci1 p)"

definition pool_tcp_broadcaster :: "audio_source \<Rightarrow> device_id \<Rightarrow> capture_pool \<Rightarrow> nat option" where
  "pool_tcp_broadcaster source d p = (case hm_get (cp_instances p) source of
       None \<Rightarrow> None | Some ci \<Rightarrow> instance_tcp_broadcaster d ci)"

definition pool_change_source ::
  "capture_env \<Rightarrow> audio_source \<Rightarrow> audio_source \<Rightarrow> target_id \<Rightarrow> i32 option \<Rightarrow> capture_pool \<Rightarrow>
   capture_pool \<times> (audio_error + nat option)" where
  "pool_change_source env old_source new_source target bitrate p =
     (if old_source = new_source then pool_subscribe env new_source target bitrate p
      else
        let reusable = (case target of Tcp d \<Rightarrow> pool_tcp_broadcaster old_source d p | Udp _ \<Rightarrow> None) in
        case subscribe_with_channel env new_source target bitrate reusable p of
          (p1, Inl e) \<Rightarrow> (p1, Inl e)
        | (p1, Inr tx) \<Rightarrow> (pool_unsubscribe old_source target p1, Inr tx))"

definition pool_change_bitrate ::
  "capture_env \<Rightarrow> audio_source \<Rightarrow> target_id \<Rightarrow> i32 option \<Rightarrow> capture_pool \<Rightarrow>
   capture_pool \<times> (audio_error + nat option)" where
  "pool_change_bitrate env source target bitrate p = (case hm_get (cp_instances p) source of
       None \<Rightarrow> (p, Inl SourceNotSubscribed)
     | Some ci \<Rightarrow> spawn_encoder env source target bitrate None ci p)"

definition pool_shutdown_all :: "capture_pool \<Rightarrow> capture_pool" where
  "pool_shutdown_all p = p\<lparr>cp_instances := []\<rparr>"

definition capture_generation :: "capture_pool \<Rightarrow> audio_source \<Rightarrow> u64 option" where
  "capture_generation p source = map_option ci_generation (hm_get (cp_instances p) source)"

definition evict_failed_source :: "audio_source \<Rightarrow> u64 \<Rightarrow> capture_pool \<Rightarrow> capture_pool \<times> bool" where
  "evict_failed_source source g p =
     (if capture_generation p source \<noteq> Some g then (p, False)
      else (p\<lparr>cp_instances := hm_remove source (cp_instances p)\<rparr>, True))"

fun remove_failed_target :: "stream_failure \<Rightarrow> capture_pool \<Rightarrow> capture_pool \<times> bool" where
  "remove_failed_target (UdpEncoderFailed source g eg target m) p =
     (case hm_get (cp_instances p) source of
        None \<Rightarrow> (p, False)
      | Some ci \<Rightarrow>
          if ci_generation ci \<noteq> g then (p, False)
          else if (case hm_get (ci_udp ci) target of None \<Rightarrow> True | Some e \<Rightarrow> pe_generation e \<noteq> eg)
          then (p, False)
          else (set_instance source (remove_target_encoder target ci) p, True))"
| "remove_failed_target (TcpEncoderFailed source g eg d m) p =
     (case hm_get (cp_instances p) source of
        None \<Rightarrow> (p, False)
      | Some ci \<Rightarrow>
          if ci_generation ci \<noteq> g then (p, False)
          else if (case hm_get (ci_tcp ci) d of None \<Rightarrow> True | Some e \<Rightarrow> te_generation e \<noteq> eg)
          then (p, False)
          else (set_instance source (remove_tcp_encoder d ci) p, True))"
| "remove_failed_target (CaptureFailed source g m) p = (p, False)"

section \<open>What is encoded: the abstract view\<close>

text \<open>\<open>stream_of p source target\<close> is the bitrate at which \<open>source\<close> is encoded for \<open>target\<close>.\<close>

definition encoder_of :: "capture_instance \<Rightarrow> target_id \<Rightarrow> audio_bitrate option" where
  "encoder_of ci target = (case target of
       Udp addr \<Rightarrow> map_option pe_bitrate (hm_get (ci_udp ci) addr)
     | Tcp d \<Rightarrow> map_option te_bitrate (hm_get (ci_tcp ci) d))"

definition stream_of :: "capture_pool \<Rightarrow> audio_source \<Rightarrow> target_id \<Rightarrow> audio_bitrate option" where
  "stream_of p source target = (case hm_get (cp_instances p) source of
       None \<Rightarrow> None | Some ci \<Rightarrow> encoder_of ci target)"

definition pool_ok :: "capture_pool \<Rightarrow> bool" where
  "pool_ok p \<longleftrightarrow> hm_wf (cp_instances p) \<and> length (cp_instances p) \<le> cp_max_instances p \<and>
     cp_max_instances p = 8 \<and>
     (\<forall>source ci. hm_get (cp_instances p) source = Some ci \<longrightarrow> hm_wf (ci_udp ci) \<and> hm_wf (ci_tcp ci))"

lemma pool_ok_new [simp]: "pool_ok (new_pool b)"
  by (simp add: pool_ok_def new_pool_def)

lemma length_remove: "length (hm_remove k m) \<le> length m"
  by (simp add: hm_remove_def length_delete_le)

lemma pool_ok_set:
  "pool_ok p \<Longrightarrow> hm_get (cp_instances p) source \<noteq> None \<Longrightarrow> hm_wf (ci_udp ci) \<Longrightarrow> hm_wf (ci_tcp ci) \<Longrightarrow>
   pool_ok (set_instance source ci p)"
  by (auto simp: pool_ok_def set_instance_def length_hm_insert)

lemma pool_ok_drop:
  "pool_ok p \<Longrightarrow> pool_ok (p\<lparr>cp_instances := hm_remove source (cp_instances p)\<rparr>)"
  using length_remove [of source "cp_instances p"] by (auto simp: pool_ok_def split: if_splits)

lemma stream_of_set [simp]:
  "stream_of (set_instance source ci p) s t = (if s = source then encoder_of ci t else stream_of p s t)"
  by (simp add: stream_of_def set_instance_def)

lemma encoder_of_remove [simp]:
  "encoder_of (remove_encoder target ci) t = (if t = target then None else encoder_of ci t)"
  by (auto simp: encoder_of_def remove_encoder_def remove_target_encoder_def remove_tcp_encoder_def
      split: target_id.splits)

lemma encoder_of_new [simp]: "encoder_of (new_instance g) t = None"
  by (simp add: encoder_of_def new_instance_def split: target_id.split)

lemma remove_encoder_wf:
  "hm_wf (ci_udp ci) \<Longrightarrow> hm_wf (ci_tcp ci) \<Longrightarrow>
   hm_wf (ci_udp (remove_encoder t ci)) \<and> hm_wf (ci_tcp (remove_encoder t ci))"
  by (auto simp: remove_encoder_def remove_target_encoder_def remove_tcp_encoder_def
      split: target_id.splits)

section \<open>The operations on the abstract view\<close>

definition set_stream ::
  "audio_source \<Rightarrow> target_id \<Rightarrow> audio_bitrate option \<Rightarrow>
   (audio_source \<Rightarrow> target_id \<Rightarrow> audio_bitrate option) \<Rightarrow>
   audio_source \<Rightarrow> target_id \<Rightarrow> audio_bitrate option" where
  "set_stream source target b f = (\<lambda>s t. if s = source \<and> t = target then b else f s t)"

lemma set_stream_apply [simp]:
  "set_stream source target b f s t = (if s = source \<and> t = target then b else f s t)"
  by (simp add: set_stream_def)

lemma spawn_encoder_effect:
  assumes ok: "pool_ok p" and ci: "hm_get (cp_instances p) source = Some ci"
    and sp: "spawn_encoder env source target bitrate reusable ci p = (p', r)"
  shows "pool_ok p' \<and> (case r of
      Inl _ \<Rightarrow> stream_of p' = stream_of p
    | Inr _ \<Rightarrow> \<exists>b. from_wire bitrate = Inr b \<and>
        stream_of p' = set_stream source target (Some b) (stream_of p))"
proof -
  have wf: "hm_wf (ci_udp ci)" "hm_wf (ci_tcp ci)" using ok ci by (auto simp: pool_ok_def)
  have here: "stream_of p source t = encoder_of ci t" for t
    using ci by (simp add: stream_of_def)
  have ok': "pool_ok (set_instance source ci' p) \<and> pool_ok (set_instance source ci' (p\<lparr>cp_next_channel := n\<rparr>))"
    if "hm_wf (ci_udp ci')" "hm_wf (ci_tcp ci')" for ci' n
    using pool_ok_set [OF ok _ that, of source] ci by (auto simp: pool_ok_def set_instance_def)
  have chan: "stream_of (set_instance source ci' (p\<lparr>cp_next_channel := n\<rparr>)) =
      stream_of (set_instance source ci' p)" for ci' n
    by (simp add: stream_of_def set_instance_def fun_eq_iff)
  show ?thesis
  proof (cases target)
    case (Udp addr)
    show ?thesis
      using sp wf ok'
      by (auto simp: Udp spawn_encoder_def spawn_target_encoder_def remove_target_encoder_def Let_def
          fun_eq_iff here encoder_of_def split: sum.splits option.splits if_splits target_id.splits)
  next
    case (Tcp d)
    show ?thesis
      using sp wf ok'
      by (auto simp: Tcp spawn_encoder_def spawn_tcp_encoder_def remove_tcp_encoder_def Let_def
          chan fun_eq_iff here encoder_of_def split: sum.splits option.splits if_splits target_id.splits)
  qed
qed

lemma ensure_instance_effect:
  assumes "pool_ok p" "ensure_instance env source p = Inr p1"
  shows "pool_ok p1 \<and> hm_get (cp_instances p1) source \<noteq> None \<and> stream_of p1 = stream_of p"
  using assms
  by (auto simp: ensure_instance_def Let_def pool_ok_def new_instance_def length_hm_insert
      stream_of_def encoder_of_def fun_eq_iff
      split: if_splits sum.splits audio_source.splits option.splits target_id.splits)

lemma subscribe_effect:
  assumes ok: "pool_ok p"
    and sub: "subscribe_with_channel env source target bitrate reusable p = (p', r)"
  shows "pool_ok p' \<and> (case r of
      Inl _ \<Rightarrow> stream_of p' = stream_of p
    | Inr _ \<Rightarrow> \<exists>b. from_wire bitrate = Inr b \<and>
        stream_of p' = set_stream source target (Some b) (stream_of p))"
proof (cases "ensure_instance env source p")
  case (Inl e)
  with sub ok show ?thesis by (auto simp: subscribe_with_channel_def)
next
  case (Inr p1)
  note E = ensure_instance_effect [OF ok Inr]
  then obtain ci where ci: "hm_get (cp_instances p1) source = Some ci" by auto
  have "spawn_encoder env source target bitrate reusable ci p1 = (p', r)"
    using sub Inr ci by (simp add: subscribe_with_channel_def)
  from spawn_encoder_effect [OF _ ci this] E show ?thesis by (auto split: sum.splits)
qed

lemma unsubscribe_effect:
  assumes ok: "pool_ok p"
  shows "pool_ok (pool_unsubscribe source target p) \<and>
    stream_of (pool_unsubscribe source target p) = set_stream source target None (stream_of p)"
proof (cases "hm_get (cp_instances p) source")
  case None
  with ok show ?thesis by (auto simp: pool_unsubscribe_def stream_of_def fun_eq_iff)
next
  case (Some ci)
  let ?ci = "remove_encoder target ci"
  have wf: "hm_wf (ci_udp ?ci)" "hm_wf (ci_tcp ?ci)"
    using ok Some remove_encoder_wf [of ci target] by (auto simp: pool_ok_def)
  have here: "stream_of p source t = encoder_of ci t" for t
    using Some by (simp add: stream_of_def)
  show ?thesis
  proof (cases "ci_udp ?ci = [] \<and> ci_tcp ?ci = []")
    case True
    have "encoder_of ci t = None" if "t \<noteq> target" for t
    proof -
      have "encoder_of ?ci t = None" using True by (simp add: encoder_of_def split: target_id.split)
      with that show ?thesis by simp
    qed
    with True Some pool_ok_drop [OF ok, of source] here show ?thesis
      by (auto simp: pool_unsubscribe_def Let_def fun_eq_iff stream_of_def)
  next
    case False
    with Some pool_ok_set [OF ok _ wf, of source] here show ?thesis
      by (auto simp: pool_unsubscribe_def Let_def fun_eq_iff)
  qed
qed

lemma change_source_effect:
  assumes ok: "pool_ok p"
    and ch: "pool_change_source env old new target bitrate p = (p', r)"
  shows "pool_ok p' \<and> (case r of
      Inl _ \<Rightarrow> stream_of p' = stream_of p
    | Inr _ \<Rightarrow> \<exists>b. from_wire bitrate = Inr b \<and>
        stream_of p' = set_stream new target (Some b) (set_stream old target None (stream_of p)))"
proof (cases "old = new")
  case True
  with subscribe_effect [OF ok, of env new target bitrate None p' r] ch show ?thesis
    by (auto simp: pool_change_source_def pool_subscribe_def fun_eq_iff split: sum.splits)
next
  case False
  let ?re = "case target of Tcp d \<Rightarrow> pool_tcp_broadcaster old d p | Udp _ \<Rightarrow> None"
  obtain p1 r1 where s: "subscribe_with_channel env new target bitrate ?re p = (p1, r1)" by fastforce
  note S = subscribe_effect [OF ok s]
  with ch False s unsubscribe_effect [of p1 old target] show ?thesis
    by (auto simp: pool_change_source_def Let_def fun_eq_iff split: sum.splits)
qed

lemma change_bitrate_effect:
  assumes ok: "pool_ok p"
    and ch: "pool_change_bitrate env source target bitrate p = (p', r)"
  shows "pool_ok p' \<and> (case r of
      Inl _ \<Rightarrow> stream_of p' = stream_of p
    | Inr _ \<Rightarrow> \<exists>b. from_wire bitrate = Inr b \<and>
        stream_of p' = set_stream source target (Some b) (stream_of p))"
  using ch ok spawn_encoder_effect [OF ok]
  by (auto simp: pool_change_bitrate_def split: option.splits)

lemma evict_effect:
  assumes "pool_ok p"
  shows "pool_ok (fst (evict_failed_source source g p))"
    and "stream_of (fst (evict_failed_source source g p)) =
      (\<lambda>s t. if snd (evict_failed_source source g p) \<and> s = source then None else stream_of p s t)"
  using assms pool_ok_drop [OF assms, of source]
  by (auto simp: evict_failed_source_def stream_of_def fun_eq_iff)

text \<open>A failed encoder is removed only while its capture and its own generation are current.\<close>

definition failed_target :: "stream_failure \<Rightarrow> (audio_source \<times> target_id) option" where
  "failed_target f = (case f of
       CaptureFailed source g m \<Rightarrow> None
     | UdpEncoderFailed source g eg addr m \<Rightarrow> Some (source, Udp addr)
     | TcpEncoderFailed source g eg d m \<Rightarrow> Some (source, Tcp d))"

lemma remove_failed_udp:
  "remove_failed_target (UdpEncoderFailed source g eg addr m) p = (p, False) \<or>
   (\<exists>ci. hm_get (cp_instances p) source = Some ci \<and> encoder_of ci (Udp addr) \<noteq> None \<and>
      remove_failed_target (UdpEncoderFailed source g eg addr m) p =
        (set_instance source (remove_encoder (Udp addr) ci) p, True))"
  by (simp add: remove_encoder_def encoder_of_def split: option.split)

lemma remove_failed_tcp:
  "remove_failed_target (TcpEncoderFailed source g eg d m) p = (p, False) \<or>
   (\<exists>ci. hm_get (cp_instances p) source = Some ci \<and> encoder_of ci (Tcp d) \<noteq> None \<and>
      remove_failed_target (TcpEncoderFailed source g eg d m) p =
        (set_instance source (remove_encoder (Tcp d) ci) p, True))"
  by (simp add: remove_encoder_def encoder_of_def split: option.split)

lemma remove_failed_cases:
  assumes "remove_failed_target f p = (p', b)"
  obtains (stale) "\<not> b" "p' = p"
  | (current) source target ci where "b" "failed_target f = Some (source, target)"
      "hm_get (cp_instances p) source = Some ci" "encoder_of ci target \<noteq> None"
      "p' = set_instance source (remove_encoder target ci) p"
proof (cases f)
  case (CaptureFailed source g m)
  with assms stale show thesis by simp
next
  case (UdpEncoderFailed source g eg addr m)
  then have "failed_target f = Some (source, Udp addr)" by (simp add: failed_target_def)
  with remove_failed_udp [of source g eg addr m p] assms [unfolded UdpEncoderFailed] stale current
  show thesis by (metis prod.inject)
next
  case (TcpEncoderFailed source g eg d m)
  then have "failed_target f = Some (source, Tcp d)" by (simp add: failed_target_def)
  with remove_failed_tcp [of source g eg d m p] assms [unfolded TcpEncoderFailed] stale current
  show thesis by (metis prod.inject)
qed

lemma remove_failed_effect:
  assumes ok: "pool_ok p" and r: "remove_failed_target f p = (p', b)"
  shows "pool_ok p'" and "\<not> b \<Longrightarrow> p' = p"
    and "b \<Longrightarrow> \<exists>source target. failed_target f = Some (source, target) \<and>
      stream_of p source target \<noteq> None \<and>
      stream_of p' = set_stream source target None (stream_of p)"
proof -
  have "pool_ok p' \<and> (\<not> b \<longrightarrow> p' = p) \<and> (b \<longrightarrow> (\<exists>source target.
      failed_target f = Some (source, target) \<and> stream_of p source target \<noteq> None \<and>
      stream_of p' = set_stream source target None (stream_of p)))"
    using r
  proof (cases rule: remove_failed_cases)
    case stale
    with ok show ?thesis by simp
  next
    case (current source target ci)
    have here: "stream_of p source t = encoder_of ci t" for t
      using current(3) by (simp add: stream_of_def)
    have "hm_wf (ci_udp ci)" "hm_wf (ci_tcp ci)"
      using ok current(3) by (auto simp: pool_ok_def)
    with pool_ok_set [OF ok, of source "remove_encoder target ci"] current(3) remove_encoder_wf
    have "pool_ok p'" by (simp add: current(5))
    moreover have "stream_of p' = set_stream source target None (stream_of p)"
      using here by (auto simp: current(5) fun_eq_iff)
    moreover have "stream_of p source target \<noteq> None" using current(4) here by simp
    ultimately show ?thesis using current(1, 2) by simp
  qed
  then show "pool_ok p'" "\<not> b \<Longrightarrow> p' = p"
    "b \<Longrightarrow> \<exists>source target. failed_target f = Some (source, target) \<and>
      stream_of p source target \<noteq> None \<and>
      stream_of p' = set_stream source target None (stream_of p)" by blast+
qed

lemma shutdown_effect:
  "pool_ok p \<Longrightarrow> pool_ok (pool_shutdown_all p)" "stream_of (pool_shutdown_all p) s t = None"
  by (simp_all add: pool_ok_def pool_shutdown_all_def stream_of_def)

interpretation captures: generation_table pool_ok capture_generation evict_failed_source
  by unfold_locales
    (auto simp: evict_effect(1), auto simp: evict_failed_source_def capture_generation_def split: if_splits)

end
