(* ===== verification/Stream_Engine.thy ===== *)
theory Stream_Engine
  imports Capture_Pool
begin

text \<open>
  \<open>AudioStreamEngine\<close> (\<open>stream/streamer/engine.rs\<close>, \<open>stream_session.rs\<close>, \<open>command.rs\<close>): the
  sessions of the players and the handling of every command and of every failed task. What the
  engine tells its error notifier and its failure channel is kept as lists. The main property
  is the refinement at the end: the engine encodes exactly what its sessions ask for.
\<close>

section \<open>State\<close>

record stream_session =
  ss_target_addr :: "socket_addr option"
  ss_source :: audio_source
  ss_bitrate :: "i32 option"

definition session_target :: "device_id \<Rightarrow> stream_session \<Rightarrow> target_id" where
  "session_target d s = (case ss_target_addr s of Some addr \<Rightarrow> Udp addr | None \<Rightarrow> Tcp d)"

record engine =
  en_pool :: capture_pool
  en_sessions :: "(device_id, stream_session) hash_map"
  en_generations :: "(device_id, u64) hash_map"
  en_notified :: "(device_id \<times> string) list"
  en_failures :: "(device_id \<times> u64) list"

record tcp_lease =
  tl_broadcaster :: nat
  tl_session_generation :: u64

datatype engine_command =
    EngSubscribe device_id u64 "socket_addr option" "audio_source option" "i32 option"
  | EngUnsubscribe device_id
  | EngChangeSource device_id audio_source
  | EngChangeBitrate device_id "i32 option"
  | EngGetTcpBroadcaster device_id
  | EngTransportClosed device_id u64
  | EngShutdown

datatype engine_reply = EngDone "string + unit" | EngLease "tcp_lease option" | EngNoReply

definition new_engine :: "bool \<Rightarrow> engine" where
  "new_engine process = \<lparr>en_pool = new_pool process, en_sessions = [], en_generations = [],
     en_notified = [], en_failures = []\<rparr>"

definition notify_error :: "device_id \<Rightarrow> string \<Rightarrow> engine \<Rightarrow> engine" where
  "notify_error d message e = e\<lparr>en_notified := en_notified e @ [(d, message)]\<rparr>"

definition report_session_failure :: "device_id \<Rightarrow> u64 \<Rightarrow> engine \<Rightarrow> engine" where
  "report_session_failure d g e = e\<lparr>en_failures := en_failures e @ [(d, g)]\<rparr>"

section \<open>Commands\<close>

definition engine_subscribe ::
  "capture_env \<Rightarrow> device_id \<Rightarrow> u64 \<Rightarrow> socket_addr option \<Rightarrow> audio_source option \<Rightarrow> i32 option \<Rightarrow>
   engine \<Rightarrow> engine \<times> (string + unit)" where
  "engine_subscribe env d g target_addr source bitrate e =
     (let old_session = hm_get (en_sessions e) d;
          final_source = (case old_session of
              Some session \<Rightarrow> ss_source session
            | None \<Rightarrow> (case source of Some s \<Rightarrow> s | None \<Rightarrow> Desktop));
          target = (case target_addr of Some addr \<Rightarrow> Udp addr | None \<Rightarrow> Tcp d) in
      case pool_subscribe env final_source target bitrate (en_pool e) of
        (p, Inr _) \<Rightarrow>
          (let p1 = (case old_session of
                None \<Rightarrow> p
              | Some session \<Rightarrow>
                  if ss_source session \<noteq> final_source \<or> session_target d session \<noteq> target
                  then pool_unsubscribe (ss_source session) (session_target d session) p else p) in
           (e\<lparr>en_pool := p1,
              en_sessions := hm_insert d \<lparr>ss_target_addr = target_addr, ss_source = final_source,
                ss_bitrate = bitrate\<rparr> (en_sessions e),
              en_generations := hm_insert d g (en_generations e)\<rparr>, Inr ()))
      | (p, Inl error) \<Rightarrow>
          (notify_error d (''Audio capture failed: '' @ display_audio_error error) (e\<lparr>en_pool := p\<rparr>),
           Inl (display_audio_error error)))"

definition engine_unsubscribe :: "device_id \<Rightarrow> engine \<Rightarrow> engine \<times> (string + unit)" where
  "engine_unsubscribe d e = (case hm_get (en_sessions e) d of
       None \<Rightarrow> (e, Inr ())
     | Some session \<Rightarrow>
         (e\<lparr>en_sessions := hm_remove d (en_sessions e), en_generations := hm_remove d (en_generations e),
            en_pool := pool_unsubscribe (ss_source session) (session_target d session) (en_pool e)\<rparr>,
          Inr ()))"

definition no_active_session :: "device_id \<Rightarrow> string" where
  "no_active_session d = ''device '' @ d @ '' has no active session''"

definition engine_change_source ::
  "capture_env \<Rightarrow> device_id \<Rightarrow> audio_source \<Rightarrow> engine \<Rightarrow> engine \<times> (string + unit)" where
  "engine_change_source env d source e = (case hm_get (en_sessions e) d of
       None \<Rightarrow> (e, Inl (no_active_session d))
     | Some session \<Rightarrow>
       (case pool_change_source env (ss_source session) source (session_target d session)
               (ss_bitrate session) (en_pool e) of
          (p, Inr _) \<Rightarrow>
            (e\<lparr>en_pool := p, en_sessions := hm_insert d \<lparr>ss_target_addr = ss_target_addr session,
                ss_source = source, ss_bitrate = ss_bitrate session\<rparr> (en_sessions e)\<rparr>, Inr ())
        | (p, Inl error) \<Rightarrow>
            (notify_error d (''Failed to change audio source: '' @ display_audio_error error)
               (e\<lparr>en_pool := p\<rparr>), Inl (display_audio_error error))))"

definition engine_change_bitrate ::
  "capture_env \<Rightarrow> device_id \<Rightarrow> i32 option \<Rightarrow> engine \<Rightarrow> engine \<times> (string + unit)" where
  "engine_change_bitrate env d bitrate e = (case hm_get (en_sessions e) d of
       None \<Rightarrow> (e, Inl (no_active_session d))
     | Some session \<Rightarrow>
         if ss_bitrate session = bitrate then (e, Inr ())
         else case pool_change_bitrate env (ss_source session) (session_target d session) bitrate
                     (en_pool e) of
          (p, Inr _) \<Rightarrow>
            (e\<lparr>en_pool := p, en_sessions := hm_insert d \<lparr>ss_target_addr = ss_target_addr session,
                ss_source = ss_source session, ss_bitrate = bitrate\<rparr> (en_sessions e)\<rparr>, Inr ())
        | (p, Inl error) \<Rightarrow>
            (notify_error d (''Failed to change bitrate: '' @ display_audio_error error)
               (e\<lparr>en_pool := p\<rparr>), Inl (display_audio_error error)))"

definition engine_tcp_broadcaster :: "device_id \<Rightarrow> engine \<Rightarrow> tcp_lease option" where
  "engine_tcp_broadcaster d e = (case hm_get (en_sessions e) d of
       None \<Rightarrow> None
     | Some session \<Rightarrow>
         if ss_target_addr session \<noteq> None then None
         else case pool_tcp_broadcaster (ss_source session) d (en_pool e) of
             None \<Rightarrow> None
           | Some channel \<Rightarrow> Some \<lparr>tl_broadcaster = channel, tl_session_generation =
               (case hm_get (en_generations e) d of Some g \<Rightarrow> g | None \<Rightarrow> 0)\<rparr>)"

definition engine_transport_closed :: "device_id \<Rightarrow> u64 \<Rightarrow> engine \<Rightarrow> engine" where
  "engine_transport_closed d g e =
     (if hm_get (en_generations e) d \<noteq> Some g then e
      else case hm_get (en_sessions e) d of
          None \<Rightarrow> e
        | Some session \<Rightarrow> report_session_failure d g
            (e\<lparr>en_sessions := hm_remove d (en_sessions e),
               en_generations := hm_remove d (en_generations e),
               en_pool := pool_unsubscribe (ss_source session) (session_target d session) (en_pool e)\<rparr>))"

definition engine_shutdown :: "engine \<Rightarrow> engine" where
  "engine_shutdown e = e\<lparr>en_pool := pool_shutdown_all (en_pool e), en_sessions := [], en_generations := []\<rparr>"

fun engine_handle :: "capture_env \<Rightarrow> engine_command \<Rightarrow> engine \<Rightarrow> engine \<times> engine_reply" where
  "engine_handle env (EngSubscribe d g addr source bitrate) e =
     (case engine_subscribe env d g addr source bitrate e of (e1, r) \<Rightarrow> (e1, EngDone r))"
| "engine_handle env (EngUnsubscribe d) e =
     (case engine_unsubscribe d e of (e1, r) \<Rightarrow> (e1, EngDone r))"
| "engine_handle env (EngChangeSource d source) e =
     (case engine_change_source env d source e of (e1, r) \<Rightarrow> (e1, EngDone r))"
| "engine_handle env (EngChangeBitrate d bitrate) e =
     (case engine_change_bitrate env d bitrate e of (e1, r) \<Rightarrow> (e1, EngDone r))"
| "engine_handle env (EngGetTcpBroadcaster d) e = (e, EngLease (engine_tcp_broadcaster d e))"
| "engine_handle env (EngTransportClosed d g) e = (engine_transport_closed d g e, EngNoReply)"
| "engine_handle env EngShutdown e = (engine_shutdown e, EngDone (Inr ()))"

section \<open>Failed tasks\<close>

text \<open>Dropping the session of one device and telling it why.\<close>

definition fail_session :: "string \<Rightarrow> device_id \<Rightarrow> engine \<Rightarrow> engine" where
  "fail_session message d e =
     (let generation = hm_get (en_generations e) d;
          e1 = notify_error d message
            (e\<lparr>en_generations := hm_remove d (en_generations e),
               en_sessions := hm_remove d (en_sessions e)\<rparr>) in
      case generation of None \<Rightarrow> e1 | Some g \<Rightarrow> report_session_failure d g e1)"

fun handle_stream_failure :: "stream_failure \<Rightarrow> engine \<Rightarrow> engine" where
  "handle_stream_failure (CaptureFailed source g message) e =
     (case evict_failed_source source g (en_pool e) of
        (p, False) \<Rightarrow> e\<lparr>en_pool := p\<rparr>
      | (p, True) \<Rightarrow>
          fold (fail_session (''Audio source failed: '' @ message))
            (map fst (filter (\<lambda>(d, session). ss_source session = source) (en_sessions e)))
            (e\<lparr>en_pool := p\<rparr>))"
| "handle_stream_failure (UdpEncoderFailed source g eg target message) e =
     (case remove_failed_target (UdpEncoderFailed source g eg target message) (en_pool e) of
        (p, False) \<Rightarrow> e\<lparr>en_pool := p\<rparr>
      | (p, True) \<Rightarrow>
          (case filter (\<lambda>(d, session). ss_target_addr session = Some target) (en_sessions e) of
             [] \<Rightarrow> e\<lparr>en_pool := p\<rparr>
           | (d, _) # _ \<Rightarrow> fail_session (''Audio encoder failed: '' @ message) d (e\<lparr>en_pool := p\<rparr>)))"
| "handle_stream_failure (TcpEncoderFailed source g eg d message) e =
     (case remove_failed_target (TcpEncoderFailed source g eg d message) (en_pool e) of
        (p, False) \<Rightarrow> e\<lparr>en_pool := p\<rparr>
      | (p, True) \<Rightarrow> fail_session (''Audio encoder failed: '' @ message) d (e\<lparr>en_pool := p\<rparr>))"

text \<open>The select loop: commands and failures in any order, until a shutdown.\<close>

datatype engine_event = EngCommand capture_env engine_command | EngFailure stream_failure

fun engine_loop :: "engine_event list \<Rightarrow> engine \<Rightarrow> engine" where
  "engine_loop [] e = e"
| "engine_loop (EngCommand env c # es) e =
     (let e1 = fst (engine_handle env c e) in if c = EngShutdown then e1 else engine_loop es e1)"
| "engine_loop (EngFailure f # es) e = engine_loop es (handle_stream_failure f e)"

section \<open>The engine encodes what its sessions ask for\<close>

text \<open>
  The abstract view: for each device, the source, target and bitrate of its session. \<open>wanted\<close> is
  what should be encoded for a target: the bitrate some session asks for.
\<close>

definition wants :: "engine \<Rightarrow> device_id \<Rightarrow> audio_source \<Rightarrow> target_id \<Rightarrow> audio_bitrate \<Rightarrow> bool" where
  "wants e d source target b \<longleftrightarrow> (\<exists>session. hm_get (en_sessions e) d = Some session \<and>
     ss_source session = source \<and> session_target d session = target \<and>
     from_wire (ss_bitrate session) = Inr b)"

definition unshared :: "engine \<Rightarrow> bool" where
  "unshared e \<longleftrightarrow> (\<forall>d d' s s' a. hm_get (en_sessions e) d = Some s \<and> hm_get (en_sessions e) d' = Some s' \<and>
     ss_target_addr s = Some a \<and> ss_target_addr s' = Some a \<longrightarrow> d = d')"

definition engine_inv :: "engine \<Rightarrow> bool" where
  "engine_inv e \<longleftrightarrow> pool_ok (en_pool e) \<and> hm_wf (en_sessions e) \<and> hm_wf (en_generations e) \<and>
     (\<forall>d. hm_get (en_sessions e) d = None \<longleftrightarrow> hm_get (en_generations e) d = None) \<and>
     unshared e \<and>
     (\<forall>d s. hm_get (en_sessions e) d = Some s \<longrightarrow> (\<exists>b. from_wire (ss_bitrate s) = Inr b)) \<and>
     (\<forall>source target b. stream_of (en_pool e) source target = Some b \<longleftrightarrow>
        (\<exists>d. wants e d source target b))"

lemma engine_invD:
  assumes "engine_inv e"
  shows "pool_ok (en_pool e)" "hm_wf (en_sessions e)" "hm_wf (en_generations e)" "unshared e"
    "hm_get (en_sessions e) d = None \<longleftrightarrow> hm_get (en_generations e) d = None"
    "hm_get (en_sessions e) d = Some s \<Longrightarrow> \<exists>b. from_wire (ss_bitrate s) = Inr b"
    "stream_of (en_pool e) source target = Some b \<longleftrightarrow> (\<exists>d. wants e d source target b)"
  using assms unfolding engine_inv_def by blast+

lemma targets_differ:
  "unshared e \<Longrightarrow> hm_get (en_sessions e) d = Some s \<Longrightarrow> hm_get (en_sessions e) d' = Some s' \<Longrightarrow> d \<noteq> d' \<Longrightarrow>
   session_target d s \<noteq> session_target d' s'"
  by (auto simp: session_target_def unshared_def split: option.splits)

lemma wants_target:
  "unshared e \<Longrightarrow> hm_get (en_sessions e) d = Some s \<Longrightarrow> wants e d' source target b \<Longrightarrow> d' \<noteq> d \<Longrightarrow>
   target \<noteq> session_target d s"
  by (auto simp: wants_def dest: targets_differ)

text \<open>Taking one device's stream away leaves what the others want, when no other shares its target.\<close>

lemma stream_without:
  assumes iff: "f source target = Some c \<longleftrightarrow> (\<exists>x. W x)"
    and own: "W d \<Longrightarrow> source = source0 \<and> target = target0"
    and others: "\<And>x. x \<noteq> d \<Longrightarrow> W x \<Longrightarrow> target \<noteq> target0"
  shows "set_stream source0 target0 None f source target = Some c \<longleftrightarrow> (\<exists>x. x \<noteq> d \<and> W x)"
proof (cases "source = source0 \<and> target = target0")
  case True
  with others show ?thesis by auto
next
  case False
  with own have "\<not> W d" by blast
  then have "(\<exists>x. x \<noteq> d \<and> W x) \<longleftrightarrow> (\<exists>x. W x)" by metis
  moreover have "set_stream source0 target0 None f source target = f source target"
    using False by auto
  ultimately show ?thesis using iff by simp
qed

lemma stream_without_session:
  assumes inv: "engine_inv e" and s: "hm_get (en_sessions e) d = Some s"
  shows "set_stream (ss_source s) (session_target d s) None (stream_of (en_pool e)) source target = Some c \<longleftrightarrow>
    (\<exists>x. x \<noteq> d \<and> wants e x source target c)"
proof (rule stream_without)
  show "wants e d source target c \<Longrightarrow> source = ss_source s \<and> target = session_target d s"
    using s by (simp add: wants_def)
  show "x \<noteq> d \<Longrightarrow> wants e x source target c \<Longrightarrow> target \<noteq> session_target d s" for x
    using wants_target [OF engine_invD(4) [OF inv] s] by blast
qed (rule engine_invD(7) [OF inv])

text \<open>The two ways the sessions change: one session set, with its stream, or one dropped.\<close>

lemma engine_inv_set:
  assumes inv: "engine_inv e" and pool: "pool_ok (en_pool e')"
    and sess: "en_sessions e' = hm_insert d s' (en_sessions e)"
    and gen: "en_generations e' = hm_insert d g (en_generations e) \<or>
      en_generations e' = en_generations e \<and> hm_get (en_generations e) d \<noteq> None"
    and un: "unshared e'" and b: "from_wire (ss_bitrate s') = Inr b"
    and str: "stream_of (en_pool e') = set_stream (ss_source s') (session_target d s') (Some b)
      (case hm_get (en_sessions e) d of None \<Rightarrow> stream_of (en_pool e)
       | Some s \<Rightarrow> set_stream (ss_source s) (session_target d s) None (stream_of (en_pool e)))"
  shows "engine_inv e'"
proof -
  note I = engine_invD [OF inv]
  have new: "hm_get (en_sessions e') d = Some s'" by (simp add: sess)
  have other: "wants e' x source target c \<longleftrightarrow> wants e x source target c" if "x \<noteq> d" for x source target c
    using that by (simp add: wants_def sess)
  have own: "wants e' d source target c \<longleftrightarrow>
      source = ss_source s' \<and> target = session_target d s' \<and> c = b" for source target c
    using b new by (auto simp: wants_def)
  have "stream_of (en_pool e') source target = Some c \<longleftrightarrow> (\<exists>x. wants e' x source target c)"
    for source target c
  proof (cases "source = ss_source s' \<and> target = session_target d s'")
    case True
    have "\<not> wants e' x source target c" if "x \<noteq> d" for x
      using wants_target [OF un new _ that] True by blast
    with True own have "(\<exists>x. wants e' x source target c) \<longleftrightarrow> c = b" by metis
    with True show ?thesis by (auto simp: str)
  next
    case False
    then have "(\<exists>x. wants e' x source target c) \<longleftrightarrow> (\<exists>x. x \<noteq> d \<and> wants e x source target c)"
      using own other by metis
    moreover have "stream_of (en_pool e') source target = Some c \<longleftrightarrow>
        (\<exists>x. x \<noteq> d \<and> wants e x source target c)"
    proof (cases "hm_get (en_sessions e) d")
      case None
      then have "\<not> wants e d source target c" by (simp add: wants_def)
      then have "(\<exists>x. x \<noteq> d \<and> wants e x source target c) \<longleftrightarrow> (\<exists>x. wants e x source target c)" by metis
      with None False I(7) [of source target c] show ?thesis unfolding str by simp blast
    next
      case (Some s)
      with stream_without_session [OF inv Some] False show ?thesis
        unfolding str set_stream_apply [of "ss_source s'"] by simp blast
    qed
    ultimately show ?thesis by simp
  qed
  moreover have "hm_get (en_sessions e') x = None \<longleftrightarrow> hm_get (en_generations e') x = None" for x
    using gen I(5) by (auto simp: sess)
  moreover have "hm_wf (en_generations e')" using gen I(3) by auto
  moreover have "\<exists>b. from_wire (ss_bitrate t) = Inr b" if "hm_get (en_sessions e') x = Some t" for x t
    using that I(6) [of x t] b by (auto simp: sess split: if_splits)
  ultimately show ?thesis
    using pool un I(2) by (simp add: engine_inv_def sess)
qed

lemma unshared_fewer:
  "unshared e \<Longrightarrow> (\<And>d s. hm_get (en_sessions e') d = Some s \<Longrightarrow> hm_get (en_sessions e) d = Some s) \<Longrightarrow>
   unshared e'"
  unfolding unshared_def by blast

lemma engine_inv_drop:
  assumes inv: "engine_inv e" and s: "hm_get (en_sessions e) d = Some s" and pool: "pool_ok (en_pool e')"
    and sess: "en_sessions e' = hm_remove d (en_sessions e)"
    and gen: "en_generations e' = hm_remove d (en_generations e)"
    and str: "stream_of (en_pool e') = set_stream (ss_source s) (session_target d s) None
      (stream_of (en_pool e))"
  shows "engine_inv e'"
proof -
  note I = engine_invD [OF inv]
  have "stream_of (en_pool e') source target = Some c \<longleftrightarrow> (\<exists>x. wants e' x source target c)"
    for source target c
  proof -
    have "wants e' x source target c \<longleftrightarrow> x \<noteq> d \<and> wants e x source target c" for x
      by (simp add: wants_def sess)
    with stream_without_session [OF inv s] show ?thesis by (simp add: str)
  qed
  moreover have "unshared e'" by (rule unshared_fewer [OF I(4)]) (simp add: sess split: if_splits)
  ultimately show ?thesis
    using pool I(2, 3, 5, 6) by (simp add: engine_inv_def sess gen)
qed

lemma engine_inv_cong:
  "engine_inv e \<Longrightarrow> pool_ok (en_pool e') \<Longrightarrow> stream_of (en_pool e') = stream_of (en_pool e) \<Longrightarrow>
   en_sessions e' = en_sessions e \<Longrightarrow> en_generations e' = en_generations e \<Longrightarrow> engine_inv e'"
  by (simp add: engine_inv_def unshared_def wants_def)

section \<open>Every command and every failure keeps the invariant\<close>

text \<open>
  A subscribe over UDP names an address that no other session uses; every other command and every
  failure is allowed at any time.
\<close>

fun address_free :: "engine_command \<Rightarrow> engine \<Rightarrow> bool" where
  "address_free (EngSubscribe d g (Some addr) source bitrate) e \<longleftrightarrow>
     (\<forall>(d', s) \<in> set (en_sessions e). ss_target_addr s = Some addr \<longrightarrow> d' = d)"
| "address_free _ e \<longleftrightarrow> True"

lemma frame_notices [simp]:
  "en_pool (notify_error d m e) = en_pool e" "en_sessions (notify_error d m e) = en_sessions e"
  "en_generations (notify_error d m e) = en_generations e"
  "en_pool (report_session_failure d g e) = en_pool e"
  "en_sessions (report_session_failure d g e) = en_sessions e"
  "en_generations (report_session_failure d g e) = en_generations e"
  by (simp_all add: notify_error_def report_session_failure_def)

lemma engine_inv_subscribe:
  assumes inv: "engine_inv e" and free: "address_free (EngSubscribe d g addr source bitrate) e"
  shows "engine_inv (fst (engine_subscribe env d g addr source bitrate e))"
proof -
  note I = engine_invD [OF inv]
  define src where "src = (case hm_get (en_sessions e) d of Some session \<Rightarrow> ss_source session
      | None \<Rightarrow> (case source of Some s \<Rightarrow> s | None \<Rightarrow> Desktop))"
  define t where "t = (case addr of Some a \<Rightarrow> Udp a | None \<Rightarrow> Tcp d)"
  let ?s' = "\<lparr>ss_target_addr = addr, ss_source = src, ss_bitrate = bitrate\<rparr>"
  have t: "session_target d ?s' = t" by (simp add: session_target_def t_def)
  obtain p r where sub: "pool_subscribe env src t bitrate (en_pool e) = (p, r)" by fastforce
  note S = subscribe_effect [OF I(1) sub [unfolded pool_subscribe_def]]
  show ?thesis
  proof (cases r)
    case (Inl error)
    with S sub show ?thesis
      by (auto simp: engine_subscribe_def Let_def src_def [symmetric] t_def [symmetric]
          intro!: engine_inv_cong [OF inv])
  next
    case (Inr x)
    with S obtain b where b: "pool_ok p" "from_wire bitrate = Inr b"
      "stream_of p = set_stream src t (Some b) (stream_of (en_pool e))" by auto
    define p1 where "p1 = (case hm_get (en_sessions e) d of None \<Rightarrow> p
      | Some session \<Rightarrow> if ss_source session \<noteq> src \<or> session_target d session \<noteq> t
          then pool_unsubscribe (ss_source session) (session_target d session) p else p)"
    let ?e' = "e\<lparr>en_pool := p1, en_sessions := hm_insert d ?s' (en_sessions e),
      en_generations := hm_insert d g (en_generations e)\<rparr>"
    have e': "fst (engine_subscribe env d g addr source bitrate e) = ?e'"
      using sub Inr
      by (cases "hm_get (en_sessions e) d")
        (simp_all add: engine_subscribe_def Let_def src_def t_def p1_def)
    have "unshared ?e'"
      using free I(2, 4)
      by (cases addr) (auto simp: unshared_def hm_get_in_set split: if_splits)
    moreover have "pool_ok p1"
      using b(1) unsubscribe_effect [OF b(1)] by (simp add: p1_def split: option.split)
    moreover have "stream_of p1 = set_stream src t (Some b)
      (case hm_get (en_sessions e) d of None \<Rightarrow> stream_of (en_pool e)
       | Some s \<Rightarrow> set_stream (ss_source s) (session_target d s) None (stream_of (en_pool e)))"
      using b(3) unsubscribe_effect [OF b(1)]
      by (auto simp: p1_def fun_eq_iff split: option.split)
    ultimately show ?thesis
      unfolding e' by (intro engine_inv_set [OF inv, of ?e' d ?s' g b]) (simp_all add: b(2) t)
  qed
qed

lemma engine_inv_end_session:
  assumes inv: "engine_inv e" and s: "hm_get (en_sessions e) d = Some s"
  shows "engine_inv (e\<lparr>en_sessions := hm_remove d (en_sessions e),
    en_generations := hm_remove d (en_generations e),
    en_pool := pool_unsubscribe (ss_source s) (session_target d s) (en_pool e)\<rparr>)"
  using unsubscribe_effect [OF engine_invD(1) [OF inv], of "ss_source s" "session_target d s"]
  by (intro engine_inv_drop [OF inv s]) simp_all

lemma engine_inv_unsubscribe: "engine_inv e \<Longrightarrow> engine_inv (fst (engine_unsubscribe d e))"
  by (cases "hm_get (en_sessions e) d") (simp_all add: engine_unsubscribe_def engine_inv_end_session)

lemma engine_inv_reported: "engine_inv (report_session_failure d g e) \<longleftrightarrow> engine_inv e"
  "engine_inv (notify_error d m e) \<longleftrightarrow> engine_inv e"
  by (simp_all add: engine_inv_def unshared_def wants_def)

lemma engine_inv_transport_closed: "engine_inv e \<Longrightarrow> engine_inv (engine_transport_closed d g e)"
  by (cases "hm_get (en_sessions e) d")
    (simp_all add: engine_transport_closed_def engine_inv_end_session engine_inv_reported)

text \<open>A session replaced by one with the same target keeps the addresses unshared.\<close>

lemma unshared_replace:
  assumes "unshared e" "hm_get (en_sessions e) d = Some s" "ss_target_addr s' = ss_target_addr s"
    and "en_sessions e' = hm_insert d s' (en_sessions e)"
  shows "unshared e'"
  using assms by (auto simp: unshared_def split: if_splits)

lemma engine_inv_replace:
  assumes inv: "engine_inv e" and s: "hm_get (en_sessions e) d = Some s" and pool: "pool_ok p"
    and s': "ss_target_addr s' = ss_target_addr s" "from_wire (ss_bitrate s') = Inr b"
    and str: "stream_of p = set_stream (ss_source s') (session_target d s) (Some b)
      (set_stream (ss_source s) (session_target d s) None (stream_of (en_pool e)))"
  shows "engine_inv (e\<lparr>en_pool := p, en_sessions := hm_insert d s' (en_sessions e)\<rparr>)"
proof (rule engine_inv_set [OF inv, of _ d s' 0 b])
  have "session_target d s' = session_target d s" using s'(1) by (simp add: session_target_def)
  with s str show "stream_of (en_pool (e\<lparr>en_pool := p, en_sessions := hm_insert d s' (en_sessions e)\<rparr>)) =
      set_stream (ss_source s') (session_target d s') (Some b)
      (case hm_get (en_sessions e) d of None \<Rightarrow> stream_of (en_pool e)
       | Some s \<Rightarrow> set_stream (ss_source s) (session_target d s) None (stream_of (en_pool e)))" by simp
  have "hm_get (en_generations e) d \<noteq> None" using engine_invD(5) [OF inv, of d] s by simp
  then show "en_generations (e\<lparr>en_pool := p, en_sessions := hm_insert d s' (en_sessions e)\<rparr>) =
      hm_insert d 0 (en_generations e) \<or>
    en_generations (e\<lparr>en_pool := p, en_sessions := hm_insert d s' (en_sessions e)\<rparr>) =
      en_generations e \<and> hm_get (en_generations e) d \<noteq> None" by simp
qed (use unshared_replace [OF engine_invD(4) [OF inv] s s'(1)] pool s s' in simp_all)

lemma engine_inv_change_source:
  assumes inv: "engine_inv e"
  shows "engine_inv (fst (engine_change_source env d source e))"
proof (cases "hm_get (en_sessions e) d")
  case (Some s)
  obtain p r where c: "pool_change_source env (ss_source s) source (session_target d s) (ss_bitrate s)
      (en_pool e) = (p, r)" by fastforce
  note C = change_source_effect [OF engine_invD(1) [OF inv] c]
  show ?thesis
  proof (cases r)
    case (Inl x)
    with C c Some show ?thesis
      by (auto simp: engine_change_source_def intro!: engine_inv_cong [OF inv])
  next
    case (Inr x)
    with C obtain b where b: "from_wire (ss_bitrate s) = Inr b" "pool_ok p"
      "stream_of p = set_stream source (session_target d s) (Some b)
        (set_stream (ss_source s) (session_target d s) None (stream_of (en_pool e)))" by auto
    from engine_inv_replace [OF inv Some b(2), of "\<lparr>ss_target_addr = ss_target_addr s,
        ss_source = source, ss_bitrate = ss_bitrate s\<rparr>" b] b Inr c Some
    show ?thesis by (simp add: engine_change_source_def)
  qed
qed (use inv in \<open>simp add: engine_change_source_def\<close>)

lemma engine_inv_change_bitrate:
  assumes inv: "engine_inv e"
  shows "engine_inv (fst (engine_change_bitrate env d bitrate e))"
proof (cases "hm_get (en_sessions e) d")
  case (Some s)
  obtain p r where c: "pool_change_bitrate env (ss_source s) (session_target d s) bitrate (en_pool e) =
      (p, r)" by fastforce
  note C = change_bitrate_effect [OF engine_invD(1) [OF inv] c]
  show ?thesis
  proof (cases r)
    case (Inl x)
    with C c Some inv show ?thesis
      by (auto simp: engine_change_bitrate_def intro!: engine_inv_cong [OF inv])
  next
    case (Inr x)
    with C obtain b where b: "from_wire bitrate = Inr b" "pool_ok p"
      "stream_of p = set_stream (ss_source s) (session_target d s) (Some b) (stream_of (en_pool e))" by auto
    have "stream_of p = set_stream (ss_source s) (session_target d s) (Some b)
        (set_stream (ss_source s) (session_target d s) None (stream_of (en_pool e)))"
      unfolding b(3) by (simp add: fun_eq_iff)
    from engine_inv_replace [OF inv Some b(2), of "\<lparr>ss_target_addr = ss_target_addr s,
        ss_source = ss_source s, ss_bitrate = bitrate\<rparr>" b] this b Inr c Some inv
    show ?thesis by (simp add: engine_change_bitrate_def)
  qed
qed (use inv in \<open>simp add: engine_change_bitrate_def\<close>)

lemma engine_inv_shutdown: "engine_inv e \<Longrightarrow> engine_inv (engine_shutdown e)"
  using shutdown_effect(1) [OF engine_invD(1), of e]
  by (simp add: engine_inv_def engine_shutdown_def unshared_def wants_def shutdown_effect(2))

lemma engine_inv_handle:
  assumes "engine_inv e" "address_free c e"
  shows "engine_inv (fst (engine_handle env c e))"
  using assms
  by (cases c)
    (auto simp: engine_inv_transport_closed engine_inv_shutdown case_prod_beta engine_inv_subscribe
      engine_inv_unsubscribe engine_inv_change_source engine_inv_change_bitrate simp del: address_free.simps)

lemma fail_session_fields [simp]:
  "en_pool (fail_session m d e) = en_pool e"
  "en_sessions (fail_session m d e) = hm_remove d (en_sessions e)"
  "en_generations (fail_session m d e) = hm_remove d (en_generations e)"
  by (simp_all add: fail_session_def Let_def split: option.split)

lemma fail_sessions:
  "en_pool (fold (fail_session m) ds e) = en_pool e"
  "hm_get (en_sessions (fold (fail_session m) ds e)) d =
     (if d \<in> set ds then None else hm_get (en_sessions e) d)"
  "hm_get (en_generations (fold (fail_session m) ds e)) d =
     (if d \<in> set ds then None else hm_get (en_generations e) d)"
  "hm_wf (en_sessions e) \<Longrightarrow> hm_wf (en_sessions (fold (fail_session m) ds e))"
  "hm_wf (en_generations e) \<Longrightarrow> hm_wf (en_generations (fold (fail_session m) ds e))"
  by (induction ds arbitrary: e) auto

lemma engine_inv_fail_one:
  assumes inv: "engine_inv e" and s: "hm_get (en_sessions e) d = Some s" and p: "pool_ok p"
    and str: "stream_of p = set_stream (ss_source s) (session_target d s) None (stream_of (en_pool e))"
  shows "engine_inv (fail_session m d (e\<lparr>en_pool := p\<rparr>))"
  by (rule engine_inv_drop [OF inv s]) (simp_all add: p str)

lemma engine_inv_capture_failed:
  assumes inv: "engine_inv e"
  shows "engine_inv (handle_stream_failure (CaptureFailed source g m) e)"
proof -
  note I = engine_invD [OF inv]
  obtain p b where ev: "evict_failed_source source g (en_pool e) = (p, b)" by fastforce
  have P: "pool_ok p" "stream_of p = (\<lambda>s t. if b \<and> s = source then None else stream_of (en_pool e) s t)"
    using evict_effect [OF I(1), of source g] ev by simp_all
  show ?thesis
  proof (cases b)
    case False
    with P ev show ?thesis by (auto intro!: engine_inv_cong [OF inv])
  next
    case True
    let ?ds = "map fst (filter (\<lambda>(d, session). ss_source session = source) (en_sessions e))"
    define msg where "msg = ''Audio source failed: '' @ m"
    let ?e' = "fold (fail_session msg) ?ds (e\<lparr>en_pool := p\<rparr>)"
    have ds: "d \<in> set ?ds \<longleftrightarrow> (\<exists>s. hm_get (en_sessions e) d = Some s \<and> ss_source s = source)" for d
      using I(2) by (force simp: hm_get_in_set)
    have sess: "hm_get (en_sessions ?e') d = Some s \<longleftrightarrow>
        hm_get (en_sessions e) d = Some s \<and> ss_source s \<noteq> source" for d s
      using ds [of d] by (auto simp: fail_sessions)
    then have wants: "wants ?e' d src t c \<longleftrightarrow> wants e d src t c \<and> src \<noteq> source" for d src t c
      unfolding wants_def sess by blast
    have "stream_of (en_pool ?e') src t = Some c \<longleftrightarrow> (\<exists>d. wants ?e' d src t c)" for src t c
      using I(7) [of src t c] True by (simp add: wants fail_sessions P(2))
    moreover have "hm_get (en_sessions ?e') d = None \<longleftrightarrow> hm_get (en_generations ?e') d = None" for d
      using I(5) by (simp add: fail_sessions)
    moreover have "unshared ?e'" by (rule unshared_fewer [OF I(4)]) (simp add: sess)
    moreover have "\<exists>b. from_wire (ss_bitrate s) = Inr b" if "hm_get (en_sessions ?e') d = Some s" for d s
      using that I(6) [of d s] by (simp add: sess)
    moreover have "pool_ok (en_pool ?e')" "hm_wf (en_sessions ?e')" "hm_wf (en_generations ?e')"
      using P(1) I(2, 3) by (simp_all add: fail_sessions)
    ultimately have "engine_inv ?e'" unfolding engine_inv_def by blast
    with ev True show ?thesis by (simp add: msg_def)
  qed
qed

lemma engine_inv_udp_failed:
  assumes inv: "engine_inv e"
  shows "engine_inv (handle_stream_failure (UdpEncoderFailed source g eg addr m) e)"
proof -
  note I = engine_invD [OF inv]
  let ?f = "UdpEncoderFailed source g eg addr m"
  obtain p b where r: "remove_failed_target ?f (en_pool e) = (p, b)" by fastforce
  note R = remove_failed_effect [OF I(1) r]
  show ?thesis
  proof (cases b)
    case False
    with R r show ?thesis by (auto intro!: engine_inv_cong [OF inv])
  next
    case True
    with R(3) have str: "stream_of (en_pool e) source (Udp addr) \<noteq> None"
      "stream_of p = set_stream source (Udp addr) None (stream_of (en_pool e))"
      by (simp_all add: failed_target_def)
    then obtain c d0 where "wants e d0 source (Udp addr) c" using I(7) by fastforce
    then obtain s0 where s0: "hm_get (en_sessions e) d0 = Some s0" "ss_source s0 = source"
      "ss_target_addr s0 = Some addr" "session_target d0 s0 = Udp addr"
      by (auto simp: wants_def session_target_def split: option.splits)
    let ?l = "filter (\<lambda>(d, session). ss_target_addr session = Some addr) (en_sessions e)"
    have mem: "(d, s) \<in> set ?l \<longleftrightarrow> hm_get (en_sessions e) d = Some s \<and> ss_target_addr s = Some addr" for d s
      using I(2) by (auto simp: hm_get_in_set)
    then have "(d0, s0) \<in> set ?l" using s0(1, 3) by blast
    then obtain d s l where l: "?l = (d, s) # l" by (cases ?l) auto
    then have "hm_get (en_sessions e) d = Some s \<and> ss_target_addr s = Some addr"
      using mem [of d s] by simp
    then have "d = d0" using I(4) s0 unfolding unshared_def by blast
    moreover have "engine_inv (fail_session (''Audio encoder failed: '' @ m) d0 (e\<lparr>en_pool := p\<rparr>))"
      using str(2) s0 by (intro engine_inv_fail_one [OF inv s0(1) R(1)]) simp
    ultimately show ?thesis using r True l by simp
  qed
qed

lemma engine_inv_tcp_failed:
  assumes inv: "engine_inv e"
  shows "engine_inv (handle_stream_failure (TcpEncoderFailed source g eg d m) e)"
proof -
  note I = engine_invD [OF inv]
  let ?f = "TcpEncoderFailed source g eg d m"
  obtain p b where r: "remove_failed_target ?f (en_pool e) = (p, b)" by fastforce
  note R = remove_failed_effect [OF I(1) r]
  show ?thesis
  proof (cases b)
    case False
    with R r show ?thesis by (auto intro!: engine_inv_cong [OF inv])
  next
    case True
    with R(3) have str: "stream_of (en_pool e) source (Tcp d) \<noteq> None"
      "stream_of p = set_stream source (Tcp d) None (stream_of (en_pool e))"
      by (simp_all add: failed_target_def)
    then obtain c d0 where "wants e d0 source (Tcp d) c" using I(7) by fastforce
    then obtain s0 where s0: "hm_get (en_sessions e) d = Some s0" "ss_source s0 = source"
      "session_target d s0 = Tcp d"
      by (auto simp: wants_def session_target_def split: option.splits)
    have "engine_inv (fail_session (''Audio encoder failed: '' @ m) d (e\<lparr>en_pool := p\<rparr>))"
      using str(2) s0 by (intro engine_inv_fail_one [OF inv s0(1) R(1)]) simp
    then show ?thesis using r True by simp
  qed
qed

lemma engine_inv_failure: "engine_inv e \<Longrightarrow> engine_inv (handle_stream_failure f e)"
  by (cases f) (simp_all only: engine_inv_capture_failed engine_inv_udp_failed engine_inv_tcp_failed)

lemma engine_inv_new [simp]: "engine_inv (new_engine process)"
  by (simp add: engine_inv_def new_engine_def unshared_def wants_def)
    (simp add: stream_of_def new_pool_def)

section \<open>Properties\<close>

inductive engine_step :: "engine \<Rightarrow> engine \<Rightarrow> bool" where
  engine_command: "address_free c e \<Longrightarrow> engine_step e (fst (engine_handle env c e))"
| engine_failure: "engine_step e (handle_stream_failure f e)"

inductive_cases engine_stepE: "engine_step e e'"

lemma engine_inv_reachable: "engine_step\<^sup>*\<^sup>* (new_engine process) e \<Longrightarrow> engine_inv e"
  by (induction rule: rtranclp_induct)
    (auto elim!: engine_stepE simp del: handle_stream_failure.simps
      intro: engine_inv_handle engine_inv_failure)


definition willing_env :: capture_env where
  "willing_env = \<lparr>ce_desktop = Inr (), ce_process = (\<lambda>_. Inr ()), ce_opus = (\<lambda>_. Inr (\<lambda>_. Inr []))\<rparr>"

definition sample_engine :: engine where
  "sample_engine = fst (engine_handle willing_env
     (EngSubscribe ''phone'' 1 None None (Some 128000)) (new_engine True))"

lemma sample_engine_reachable: "engine_step\<^sup>*\<^sup>* (new_engine True) sample_engine"
  unfolding sample_engine_def by (intro r_into_rtranclp engine_command) simp

lemma sample_engine_session:
  "hm_get (en_sessions sample_engine) ''phone'' =
     Some \<lparr>ss_target_addr = None, ss_source = Desktop, ss_bitrate = Some 128000\<rparr>"
  by (simp add: sample_engine_def new_engine_def new_pool_def engine_subscribe_def pool_subscribe_def
      subscribe_with_channel_def ensure_instance_def spawn_encoder_def spawn_tcp_encoder_def
      new_instance_def willing_env_def from_wire_def MIN_OPUS_BITRATE_BPS_def MAX_OPUS_BITRATE_BPS_def
      create_codec_def Let_def)


text \<open>A closed transport is a cleanup under the generation of the session it belonged to.\<close>

interpretation streams: generation_table engine_inv "\<lambda>e. hm_get (en_generations e)"
  "\<lambda>d g e. (engine_transport_closed d g e, hm_get (en_generations e) d = Some g)"
proof unfold_locales
  fix s k g and l
  assume inv: "engine_inv s"
  show "hm_get (en_generations (fst (engine_transport_closed k g s, hm_get (en_generations s) k = Some g))) l =
      (if l = k \<and> hm_get (en_generations s) k = Some g then None else hm_get (en_generations s) l)"
    using engine_invD(5) [OF inv, of k]
    by (auto simp: engine_transport_closed_def split: option.splits)
qed (simp_all add: engine_inv_transport_closed)

text \<open>
  Two devices that name the same UDP address silence each other: when the second one, using
  the source of the first, is subscribed, and the first is then unsubscribed (as the watchdog
  does when a phone comes back under a new identity), the engine still has the second session
  but encodes nothing for it.
\<close>

theorem shared_address_silences:
  assumes "engine_inv e" and "hm_get (en_sessions e) old = Some s" and "ss_target_addr s = Some addr"
    and "hm_get (en_sessions e) new = None"
    and "engine_subscribe env new g (Some addr) (Some (ss_source s)) bitrate e = (e1, Inr ())"
    and e2_def: "e2 = fst (engine_unsubscribe old e1)"
  shows "hm_get (en_generations e2) new = Some g \<and>
    hm_get (en_sessions e2) new =
      Some \<lparr>ss_target_addr = Some addr, ss_source = ss_source s, ss_bitrate = bitrate\<rparr> \<and>
    stream_of (en_pool e2) (ss_source s) (Udp addr) = None"
proof -
  have ne: "old \<noteq> new" using assms(2, 4) by auto
  obtain p r where p: "pool_subscribe env (ss_source s) (Udp addr) bitrate (en_pool e) = (p, r)"
    by fastforce
  with assms(4, 5) have e1: "e1 = e\<lparr>en_pool := p, en_sessions := hm_insert new \<lparr>ss_target_addr = Some addr,
      ss_source = ss_source s, ss_bitrate = bitrate\<rparr> (en_sessions e),
      en_generations := hm_insert new g (en_generations e)\<rparr>" "\<exists>x. r = Inr x"
    by (auto simp: engine_subscribe_def Let_def split: sum.splits)
  have ok: "pool_ok p"
    using subscribe_effect [OF engine_invD(1) [OF assms(1)] p [unfolded pool_subscribe_def]] by simp
  have "session_target old s = Udp addr" using assms(3) by (simp add: session_target_def)
  then have "e2 = e1\<lparr>en_sessions := hm_remove old (en_sessions e1),
      en_generations := hm_remove old (en_generations e1),
      en_pool := pool_unsubscribe (ss_source s) (Udp addr) p\<rparr>"
    using ne assms(2) by (simp add: e2_def engine_unsubscribe_def e1(1))
  with ne unsubscribe_effect [OF ok, of "ss_source s" "Udp addr"] show ?thesis
    by (simp add: e1(1))
qed

text \<open>
  A subscribe with a bitrate outside Opus' limits is refused, but the capture it opened stays
  open with no encoder and no session: it takes one of the pool's 8 places until its source
  fails or the engine shuts down.
\<close>

theorem refused_bitrate_leaks_capture:
  assumes "engine_inv e" and "hm_get (en_sessions e) d = None"
    and "hm_get (cp_instances (en_pool e)) (Process pid name) = None"
    and "length (cp_instances (en_pool e)) < 8" and "cp_supports_process_capture (en_pool e)"
    and "ce_process env pid = Inr ()" and "from_wire bitrate = Inl err"
    and e'_def: "e' = fst (engine_subscribe env d g addr (Some (Process pid name)) bitrate e)"
  shows "snd (engine_subscribe env d g addr (Some (Process pid name)) bitrate e) =
      Inl (display_audio_error err) \<and>
    length (cp_instances (en_pool e')) = length (cp_instances (en_pool e)) + 1 \<and>
    (\<forall>target. stream_of (en_pool e') (Process pid name) target = None) \<and>
    en_sessions e' = en_sessions e"
proof -
  have "cp_max_instances (en_pool e) = 8"
    using engine_invD(1) [OF assms(1)] by (simp add: pool_ok_def)
  then obtain ci p where "ensure_instance env (Process pid name) (en_pool e) = Inr p"
    "p = (en_pool e)\<lparr>cp_next_generation := ci_generation ci,
       cp_instances := hm_insert (Process pid name) ci (cp_instances (en_pool e))\<rparr>"
    "ci = new_instance (gen_next (cp_next_generation (en_pool e)))"
    using assms(3-6) by (auto simp: ensure_instance_def Let_def new_instance_def)
  note E = this
  have sp: "spawn_encoder env source target bitrate None ci p = (set_instance source ci p, Inl err)"
    for source target
    using assms(7) by (simp add: spawn_encoder_def spawn_target_encoder_def spawn_tcp_encoder_def
        split: target_id.split)
  have "pool_subscribe env (Process pid name) target bitrate (en_pool e) =
      (set_instance (Process pid name) ci p, Inl err)" for target
    using E(1, 2) sp by (simp add: pool_subscribe_def subscribe_with_channel_def)
  then have "engine_subscribe env d g addr (Some (Process pid name)) bitrate e =
      (notify_error d (''Audio capture failed: '' @ display_audio_error err)
         (e\<lparr>en_pool := set_instance (Process pid name) ci p\<rparr>), Inl (display_audio_error err))"
    using assms(2) by (simp add: engine_subscribe_def Let_def)
  moreover have "length (cp_instances (set_instance (Process pid name) ci p)) =
      length (cp_instances (en_pool e)) + 1"
    using assms(3) by (simp add: set_instance_def E(2) length_hm_insert)
  ultimately show ?thesis by (simp add: e'_def E(3))
qed

theorem shared_address_silences_witness:
  "\<exists>e :: engine. hm_get (en_sessions e) ''new'' \<noteq> None \<and>
     stream_of (en_pool e) Desktop (Udp (SocketAddr (IpV4 10 0 0 2) 23556)) = None"
proof -
  let ?a = "SocketAddr (IpV4 10 0 0 2) 23556"
  let ?c = "EngSubscribe ''old'' 1 (Some ?a) None (Some 128000)"
  let ?e = "fst (engine_handle willing_env ?c (new_engine True))"
  have "address_free ?c (new_engine True)" by (simp add: new_engine_def)
  then have inv: "engine_inv ?e" by (intro engine_inv_handle) simp_all
  have s: "hm_get (en_sessions ?e) ''old'' =
      Some \<lparr>ss_target_addr = Some ?a, ss_source = Desktop, ss_bitrate = Some 128000\<rparr>"
    "hm_get (en_sessions ?e) ''new'' = None"
    "snd (engine_subscribe willing_env ''new'' 2 (Some ?a) (Some Desktop) (Some 128000) ?e) = Inr ()"
    by (simp_all add: new_engine_def new_pool_def engine_subscribe_def pool_subscribe_def
      subscribe_with_channel_def ensure_instance_def spawn_encoder_def spawn_target_encoder_def
      new_instance_def willing_env_def from_wire_def MIN_OPUS_BITRATE_BPS_def MAX_OPUS_BITRATE_BPS_def
      create_codec_def remove_target_encoder_def set_instance_def Let_def)
  then obtain e1 where "engine_subscribe willing_env ''new'' 2 (Some ?a) (Some Desktop) (Some 128000) ?e =
      (e1, Inr ())" by (metis prod.collapse)
  from shared_address_silences [OF inv s(1) _ s(2), of ?a willing_env 2 "Some 128000" e1, OF _ _ refl] this
  show ?thesis by (intro exI [of _ "fst (engine_unsubscribe ''old'' e1)"]) simp
qed

theorem refused_bitrate_leaks_capture_witness:
  "length (cp_instances (en_pool (fst (engine_subscribe willing_env ''phone'' 1 None
     (Some (Process 7 ''app'')) (Some 1) (new_engine True))))) = 1"
proof -
  have "from_wire (Some 1) = Inl (InvalidBitrate 1 6000 512000)"
    by (simp add: from_wire_def MIN_OPUS_BITRATE_BPS_def MAX_OPUS_BITRATE_BPS_def)
  from refused_bitrate_leaks_capture [OF engine_inv_new, of True "''phone''" 7 "''app''" willing_env "Some 1"
      "InvalidBitrate 1 6000 512000" _ 1 None, OF _ _ _ _ _ _ refl] this
  show ?thesis by (simp add: new_engine_def new_pool_def willing_env_def)
qed

end
