(* ===== verification/Device_Auth.thy ===== *)
theory Device_Auth
  imports Session_Auth
begin

text \<open>
  Proof of possession of a device key: the signed transcript and the pairing code
  (\<open>control/device_auth.rs\<close> of the core crate) and the challenges and pairings the PC keeps in
  memory (\<open>device_auth.rs\<close> of the PC crate).

  Base64, SHA-256, hexadecimal encoding and ECDSA verification are external: a record of
  functions. Random values are arguments of the operations that draw them.
\<close>

record crypto =
  b64_decode :: "string \<Rightarrow> string + bytes"
  b64_encode :: "bytes \<Rightarrow> string"
  sha256 :: "bytes \<Rightarrow> bytes"
  hex_encode :: "bytes \<Rightarrow> string"
  p256_verify :: "bytes \<Rightarrow> bytes \<Rightarrow> bytes \<Rightarrow> bool"

section \<open>Transcript\<close>

definition DEVICE_AUTH_DOMAIN :: bytes where
  "DEVICE_AUTH_DOMAIN = as_bytes ''gemacast-device-auth-v1''"

definition PAIRING_CODE_DOMAIN :: bytes where
  "PAIRING_CODE_DOMAIN = as_bytes ''gemacast-pairing-code-v1''"

text \<open>The loop over the fields; \<open>None\<close> is the panic on a field of 4 GiB or more.\<close>

fun put_fields :: "bytes list \<Rightarrow> bytes option" where
  "put_fields [] = Some []"
| "put_fields (f # fs) =
     (if 2 ^ 32 \<le> length f then None
      else case put_fields fs of None \<Rightarrow> None
        | Some rest \<Rightarrow> Some (u32_to_be_bytes (of_nat (length f)) @ f @ rest))"

definition build_device_auth_transcript ::
  "device_id \<Rightarrow> device_id \<Rightarrow> string \<Rightarrow> string \<Rightarrow> string \<Rightarrow> string \<Rightarrow> string \<Rightarrow> bytes option" where
  "build_device_auth_transcript device pcid fingerprint public_key phone_nonce challenge_id challenge =
     put_fields [DEVICE_AUTH_DOMAIN, as_bytes device, as_bytes pcid, as_bytes fingerprint,
       as_bytes public_key, as_bytes phone_nonce, as_bytes challenge_id, as_bytes challenge]"

text \<open>\<open>format!("{value:06}")\<close>\<close>

definition show_nat6 :: "nat \<Rightarrow> string" where
  "show_nat6 n = (let s = show_nat n in replicate (6 - length s) (CHR ''0'') @ s)"

definition pairing_code :: "crypto \<Rightarrow> bytes \<Rightarrow> string" where
  "pairing_code c transcript =
     (let digest = sha256 c (PAIRING_CODE_DOMAIN @ transcript) in
      show_nat6 (nat_of_be (take 4 digest) mod 1000000))"

section \<open>Keys and signatures\<close>

definition decode_device_public_key :: "crypto \<Rightarrow> string \<Rightarrow> string + bytes" where
  "decode_device_public_key c public_key = (case b64_decode c public_key of
       Inl e \<Rightarrow> Inl (''device public key is not valid Base64: '' @ e)
     | Inr key \<Rightarrow>
         if length key \<noteq> 65 \<or> hd key \<noteq> 4
         then Inl ''device public key must be an uncompressed P-256 point'' else Inr key)"

definition validate_device_public_key :: "crypto \<Rightarrow> string \<Rightarrow> string + unit" where
  "validate_device_public_key c public_key = (case decode_device_public_key c public_key of
       Inl e \<Rightarrow> Inl e | Inr _ \<Rightarrow> Inr ())"

definition sha256_fingerprint :: "crypto \<Rightarrow> bytes \<Rightarrow> string" where
  "sha256_fingerprint c bs = hex_encode c (sha256 c bs)"

definition device_public_key_fingerprint :: "crypto \<Rightarrow> string \<Rightarrow> string + string" where
  "device_public_key_fingerprint c public_key = (case decode_device_public_key c public_key of
       Inl e \<Rightarrow> Inl e | Inr key \<Rightarrow> Inr (sha256_fingerprint c key))"

definition verify_device_auth_signature :: "crypto \<Rightarrow> string \<Rightarrow> string \<Rightarrow> bytes \<Rightarrow> string + unit" where
  "verify_device_auth_signature c public_key signature transcript =
     (case decode_device_public_key c public_key of
        Inl e \<Rightarrow> Inl e
      | Inr key \<Rightarrow> (case b64_decode c signature of
            Inl e \<Rightarrow> Inl (''device signature is not valid Base64: '' @ e)
          | Inr sig \<Rightarrow>
              if p256_verify c key transcript sig then Inr ()
              else Inl ''device signature verification failed''))"

definition random_auth_value :: "crypto \<Rightarrow> string + bytes \<Rightarrow> string + string" where
  "random_auth_value c random = (case random of
       Inl e \<Rightarrow> Inl (''failed to generate authentication randomness: '' @ e)
     | Inr bs \<Rightarrow> Inr (b64_encode c bs))"

section \<open>Challenges and pairings\<close>

definition CHALLENGE_TTL :: nat where "CHALLENGE_TTL = secs 90"
definition PENDING_PAIRING_TTL :: nat where "PENDING_PAIRING_TTL = secs 65"
definition MAX_PENDING_CHALLENGES :: nat where "MAX_PENDING_CHALLENGES = 256"

record device_auth_request =
  ar_public_key :: string
  ar_phone_nonce :: string
  ar_challenge_id :: "string option"
  ar_signature :: "string option"
  ar_phone_confirmation :: "bool option"

record device_auth_challenge =
  dc_challenge_id :: string
  dc_challenge :: string
  dc_pc_certificate_fingerprint :: string
  dc_pairing_code :: string
  dc_requires_approval :: bool
  dc_expires_in_seconds :: nat

record verified_identity =
  vi_public_key :: string
  vi_fingerprint :: string
  vi_pairing_code :: string

record pending_challenge =
  pc_device_id :: device_id
  pc_pc_id :: device_id
  pc_fingerprint :: string
  pc_public_key :: string
  pc_phone_nonce :: string
  pc_challenge :: string
  pc_created_at :: nat

record pending_pairing =
  pp_device_id :: device_id
  pp_identity :: verified_identity
  pp_created_at :: nat

record device_auth =
  da_challenges :: "(string, pending_challenge) hash_map"
  da_pairings :: "(string, pending_pairing) hash_map"
  da_challenge_ttl :: nat

definition default_device_auth :: device_auth where
  "default_device_auth = \<lparr>da_challenges = [], da_pairings = [], da_challenge_ttl = CHALLENGE_TTL\<rparr>"

definition prune_expired :: "nat \<Rightarrow> device_auth \<Rightarrow> device_auth" where
  "prune_expired now m =
     m\<lparr>da_challenges := hm_retain (\<lambda>_ p. since now (pc_created_at p) \<le> da_challenge_ttl m) (da_challenges m),
       da_pairings := hm_retain (\<lambda>_ p. since now (pp_created_at p) \<le> PENDING_PAIRING_TTL) (da_pairings m)\<rparr>"

text \<open>
  \<open>begin\<close>. \<open>None\<close> is the panic of the transcript on an oversized field. \<open>random16\<close> and \<open>random32\<close>
  are the two draws, \<open>now\<close> the instant of the lock.
\<close>

definition begin_challenge ::
  "crypto \<Rightarrow> string + bytes \<Rightarrow> string + bytes \<Rightarrow> nat \<Rightarrow> device_id \<Rightarrow> device_id \<Rightarrow> string \<Rightarrow> bool \<Rightarrow>
   string \<Rightarrow> string \<Rightarrow> device_auth \<Rightarrow> (device_auth \<times> (string + device_auth_challenge)) option" where
  "begin_challenge c random16 random32 now device pcid fingerprint requires_approval public_key phone_nonce m =
     (case validate_device_public_key c public_key of
        Inl e \<Rightarrow> Some (m, Inl e)
      | Inr _ \<Rightarrow> (case b64_decode c phone_nonce of
          Inl e \<Rightarrow> Some (m, Inl (''device nonce is not valid Base64: '' @ e))
        | Inr nonce \<Rightarrow>
            if length nonce \<noteq> 32 then Some (m, Inl ''device nonce must contain exactly 32 bytes'')
            else case random_auth_value c random16 of
              Inl e \<Rightarrow> Some (m, Inl e)
            | Inr challenge_id \<Rightarrow> (case random_auth_value c random32 of
                Inl e \<Rightarrow> Some (m, Inl e)
              | Inr challenge \<Rightarrow>
                (case build_device_auth_transcript device pcid fingerprint public_key phone_nonce
                        challenge_id challenge of
                   None \<Rightarrow> None
                 | Some transcript \<Rightarrow>
                   (let m1 = prune_expired now m in
                    if MAX_PENDING_CHALLENGES \<le> length (da_challenges m1)
                    then Some (m1, Inl ''too many pending device-authentication requests'')
                    else Some (m1\<lparr>da_challenges := hm_insert challenge_id
                        \<lparr>pc_device_id = device, pc_pc_id = pcid, pc_fingerprint = fingerprint,
                         pc_public_key = public_key, pc_phone_nonce = phone_nonce,
                         pc_challenge = challenge, pc_created_at = now\<rparr> (da_challenges m1)\<rparr>,
                      Inr \<lparr>dc_challenge_id = challenge_id, dc_challenge = challenge,
                        dc_pc_certificate_fingerprint = fingerprint,
                        dc_pairing_code = pairing_code c transcript,
                        dc_requires_approval = requires_approval,
                        dc_expires_in_seconds = da_challenge_ttl m div secs 1\<rparr>))))))"

text \<open>\<open>verify\<close> at the instant \<open>now\<close>; the challenge is taken out before anything is compared.\<close>

definition verify_challenge ::
  "crypto \<Rightarrow> nat \<Rightarrow> device_id \<Rightarrow> device_id \<Rightarrow> string \<Rightarrow> device_auth_request \<Rightarrow> device_auth \<Rightarrow>
   (device_auth \<times> (string + verified_identity)) option" where
  "verify_challenge c now device pcid fingerprint auth m =
     (case ar_challenge_id auth of
        None \<Rightarrow> Some (m, Inl ''device authentication challenge is missing'')
      | Some challenge_id \<Rightarrow> (case ar_signature auth of
          None \<Rightarrow> Some (m, Inl ''device authentication signature is missing'')
        | Some signature \<Rightarrow>
          (let m1 = prune_expired now m;
               m2 = m1\<lparr>da_challenges := hm_remove challenge_id (da_challenges m1)\<rparr> in
           case hm_get (da_challenges m1) challenge_id of
             None \<Rightarrow> Some (m2, Inl ''device authentication challenge is invalid or already used'')
           | Some p \<Rightarrow>
             if da_challenge_ttl m < since now (pc_created_at p)
             then Some (m2, Inl ''device authentication challenge expired'')
             else if pc_device_id p \<noteq> device \<or> pc_pc_id p \<noteq> pcid \<or> pc_fingerprint p \<noteq> fingerprint \<or>
                  pc_public_key p \<noteq> ar_public_key auth \<or> pc_phone_nonce p \<noteq> ar_phone_nonce auth
             then Some (m2, Inl ''device authentication challenge does not match this device'')
             else case build_device_auth_transcript device pcid fingerprint (ar_public_key auth)
                     (ar_phone_nonce auth) challenge_id (pc_challenge p) of
                 None \<Rightarrow> None
               | Some transcript \<Rightarrow>
                 (case verify_device_auth_signature c (ar_public_key auth) signature transcript of
                    Inl e \<Rightarrow> Some (m2, Inl e)
                  | Inr _ \<Rightarrow> (case device_public_key_fingerprint c (ar_public_key auth) of
                      Inl e \<Rightarrow> Some (m2, Inl e)
                    | Inr fp \<Rightarrow> Some (m2, Inr \<lparr>vi_public_key = ar_public_key auth,
                        vi_fingerprint = fp, vi_pairing_code = pairing_code c transcript\<rparr>))))))"

definition hold_pending_pairing ::
  "nat \<Rightarrow> string \<Rightarrow> device_id \<Rightarrow> verified_identity \<Rightarrow> device_auth \<Rightarrow> device_auth" where
  "hold_pending_pairing now request_id device identity m =
     (let m1 = prune_expired now m in
      m1\<lparr>da_pairings := hm_insert request_id
        \<lparr>pp_device_id = device, pp_identity = identity, pp_created_at = now\<rparr> (da_pairings m1)\<rparr>)"

definition pending_pairing_for ::
  "nat \<Rightarrow> string \<Rightarrow> device_id \<Rightarrow> string \<Rightarrow> device_auth \<Rightarrow> device_auth \<times> verified_identity option" where
  "pending_pairing_for now request_id device public_key m =
     (let m1 = prune_expired now m in
      (m1, case hm_get (da_pairings m1) request_id of
             None \<Rightarrow> None
           | Some p \<Rightarrow> if pp_device_id p = device \<and> vi_public_key (pp_identity p) = public_key
                     then Some (pp_identity p) else None))"

definition remove_pending_pairing :: "string \<Rightarrow> device_auth \<Rightarrow> device_auth" where
  "remove_pending_pairing request_id m = m\<lparr>da_pairings := hm_remove request_id (da_pairings m)\<rparr>"

definition cancel_auth_for_device :: "nat \<Rightarrow> device_id \<Rightarrow> device_auth \<Rightarrow> device_auth \<times> nat" where
  "cancel_auth_for_device now device m =
     (let m1 = prune_expired now m;
          before = length (da_pairings m1) + length (da_challenges m1);
          pairings = hm_retain (\<lambda>_ p. pp_device_id p \<noteq> device) (da_pairings m1);
          challenges = hm_retain (\<lambda>_ p. pc_device_id p \<noteq> device) (da_challenges m1) in
      (m1\<lparr>da_pairings := pairings, da_challenges := challenges\<rparr>,
       before - length pairings - length challenges))"

definition clear_pending :: "device_auth \<Rightarrow> device_auth" where
  "clear_pending m = m\<lparr>da_challenges := [], da_pairings := []\<rparr>"

section \<open>The transcript is unambiguous\<close>

lemma put_fields_inj:
  "put_fields fs = Some t \<Longrightarrow> put_fields gs = Some t \<Longrightarrow> length fs = length gs \<Longrightarrow> fs = gs"
proof (induction fs arbitrary: gs t)
  case (Cons f fs)
  obtain g hs where gs: "gs = g # hs" "length fs = length hs"
    using Cons.prems(3) by (cases gs) auto
  obtain r1 where f: "length f < 2 ^ 32" "put_fields fs = Some r1"
    "t = u32_to_be_bytes (of_nat (length f)) @ f @ r1"
    using Cons.prems(1) by (auto split: if_splits option.splits)
  obtain r2 where g: "length g < 2 ^ 32" "put_fields hs = Some r2"
    "t = u32_to_be_bytes (of_nat (length g)) @ g @ r2"
    using Cons.prems(2) gs by (auto split: if_splits option.splits)
  have "(of_nat (length f) :: u32) = of_nat (length g)"
    using f(3) g(3) by simp
  then have "unat (of_nat (length f) :: u32) = unat (of_nat (length g) :: u32)" by (rule arg_cong)
  then have len: "length f = length g"
    using f(1) g(1) unfolding unat_of_nat take_bit_eq_mod by simp
  moreover have "u32_to_be_bytes (of_nat (length f)) @ f @ r1 = u32_to_be_bytes (of_nat (length g)) @ g @ r2"
    unfolding f(3) [symmetric] by (rule g(3))
  ultimately have "f @ r1 = g @ r2" by simp
  with len have "f = g" "r1 = r2" by simp_all
  moreover have "fs = hs"
    using Cons.IH [of r1 hs] f(2) g(2) gs(2) \<open>r1 = r2\<close> by simp
  ultimately show ?case using gs(1) by simp
qed simp

text \<open>
  The signed transcript determines everything it was built from: two challenges that differ
  in the device, the PC, the certificate, the key, the nonce or the challenge are never signed
  by the same bytes.
\<close>

theorem transcript_unambiguous:
  assumes "build_device_auth_transcript d pcid fp k n i ch = Some t"
    and "build_device_auth_transcript d' pcid' fp' k' n' i' ch' = Some t"
  shows "d = d' \<and> pcid = pcid' \<and> fp = fp' \<and> k = k' \<and> n = n' \<and> i = i' \<and> ch = ch'"
  using put_fields_inj [OF assms [unfolded build_device_auth_transcript_def]] by simp

theorem transcript_unambiguous_witness:
  "build_device_auth_transcript ''ab'' ''c'' [] [] [] [] [] \<noteq> None \<and>
   build_device_auth_transcript ''ab'' ''c'' [] [] [] [] [] \<noteq>
   build_device_auth_transcript ''a'' ''bc'' [] [] [] [] []"
proof -
  obtain t where t: "build_device_auth_transcript ''ab'' ''c'' [] [] [] [] [] = Some t"
    by (auto simp: build_device_auth_transcript_def DEVICE_AUTH_DOMAIN_def)
  have "build_device_auth_transcript ''a'' ''bc'' [] [] [] [] [] \<noteq> Some t"
    using transcript_unambiguous [OF t, of "''a''" "''bc''"] by auto
  with t show ?thesis by simp
qed

section \<open>Invariant and contracts\<close>

definition device_auth_ok :: "device_auth \<Rightarrow> bool" where
  "device_auth_ok m \<longleftrightarrow> hm_wf (da_challenges m) \<and> hm_wf (da_pairings m) \<and>
     length (da_challenges m) \<le> MAX_PENDING_CHALLENGES"

lemma prune_expired_ok [simp]: "device_auth_ok m \<Longrightarrow> device_auth_ok (prune_expired now m)"
  by (auto simp: device_auth_ok_def prune_expired_def intro: le_trans [OF length_hm_retain])

lemma prune_expired_ttl [simp]: "da_challenge_ttl (prune_expired now m) = da_challenge_ttl m"
  by (simp add: prune_expired_def)

interpretation challenges: expiring_table device_auth_ok "\<lambda>m. hm_get (da_challenges m)" pc_created_at
  da_challenge_ttl prune_expired
  by unfold_locales (simp_all, auto simp: prune_expired_def device_auth_ok_def hm_get_retain)

interpretation pairings: expiring_table device_auth_ok "\<lambda>m. hm_get (da_pairings m)" pp_created_at
  "\<lambda>_. PENDING_PAIRING_TTL" prune_expired
  by unfold_locales (simp_all, auto simp: prune_expired_def device_auth_ok_def hm_get_retain)

lemma length_hm_remove_le: "length (hm_remove k m) \<le> length m"
  by (simp add: hm_remove_def length_delete_le)

lemma remove_challenge_ok:
  "device_auth_ok m \<Longrightarrow> device_auth_ok (m\<lparr>da_challenges := hm_remove k (da_challenges m)\<rparr>)"
  using length_hm_remove_le [of k "da_challenges m"]
  by (auto simp: device_auth_ok_def intro: le_trans)

lemma verify_challenge_state:
  assumes "verify_challenge c now d p fp auth m = Some (m', r)"
  shows "m' = m \<or> (\<exists>cid. ar_challenge_id auth = Some cid \<and>
    m' = (prune_expired now m)\<lparr>da_challenges :=
      hm_remove cid (da_challenges (prune_expired now m))\<rparr>)"
  using assms
  by (auto simp: verify_challenge_def Let_def split: option.splits if_splits sum.splits)

lemma verify_challenge_ok:
  "device_auth_ok m \<Longrightarrow> verify_challenge c now d p fp auth m = Some (m', r) \<Longrightarrow> device_auth_ok m'"
  using verify_challenge_state [of c now d p fp auth m m' r]
    remove_challenge_ok [OF prune_expired_ok [of m now]] by auto

lemma begin_challenge_ok:
  "device_auth_ok m \<Longrightarrow>
   begin_challenge c r16 r32 now d p fp app k n m = Some (m', r) \<Longrightarrow> device_auth_ok m'"
  using prune_expired_ok [of m now]
  by (auto simp: begin_challenge_def Let_def device_auth_ok_def length_hm_insert
      split: option.splits if_splits sum.splits)

lemma hold_pending_pairing_ok: "device_auth_ok m \<Longrightarrow> device_auth_ok (hold_pending_pairing now i d v m)"
  using prune_expired_ok [of m now] by (simp add: hold_pending_pairing_def device_auth_ok_def Let_def)

lemma cancel_auth_ok: "device_auth_ok m \<Longrightarrow> device_auth_ok (fst (cancel_auth_for_device now d m))"
  using prune_expired_ok [of m now]
  by (auto simp: cancel_auth_for_device_def device_auth_ok_def Let_def
      intro: le_trans [OF length_hm_retain])

text \<open>One step of the manager, for the bound on its memory.\<close>

inductive device_auth_step :: "device_auth \<Rightarrow> device_auth \<Rightarrow> bool" where
  da_begin: "begin_challenge c r16 r32 now d p fp app k n m = Some (m', r) \<Longrightarrow> device_auth_step m m'"
| da_verify: "verify_challenge c now d p fp auth m = Some (m', r) \<Longrightarrow> device_auth_step m m'"
| da_hold: "device_auth_step m (hold_pending_pairing now i d v m)"
| da_status: "device_auth_step m (fst (pending_pairing_for now i d k m))"
| da_remove: "device_auth_step m (remove_pending_pairing i m)"
| da_cancel: "device_auth_step m (fst (cancel_auth_for_device now d m))"
| da_clear: "device_auth_step m (clear_pending m)"

lemma device_auth_step_ok: "device_auth_step m m' \<Longrightarrow> device_auth_ok m \<Longrightarrow> device_auth_ok m'"
proof (induction rule: device_auth_step.induct)
  case (da_status m now i d k)
  then show ?case by (simp add: pending_pairing_for_def Let_def)
next
  case (da_remove m i)
  then show ?case by (simp add: remove_pending_pairing_def device_auth_ok_def)
next
  case (da_clear m)
  then show ?case by (simp add: clear_pending_def device_auth_ok_def)
qed (auto intro: begin_challenge_ok verify_challenge_ok hold_pending_pairing_ok cancel_auth_ok)

section \<open>Properties\<close>

text \<open>
  However many devices ask, the PC never holds more than 256 authentication challenges.
\<close>

theorem challenges_bounded:
  assumes "device_auth_step\<^sup>*\<^sup>* default_device_auth m"
  shows "length (da_challenges m) \<le> 256 \<and> hm_wf (da_challenges m)"
proof -
  have "device_auth_ok default_device_auth" by (simp add: device_auth_ok_def default_device_auth_def)
  with assms have "device_auth_ok m"
    by (induction rule: rtranclp_induct) (auto dest: device_auth_step_ok)
  then show ?thesis by (simp add: device_auth_ok_def MAX_PENDING_CHALLENGES_def)
qed

theorem challenges_bounded_witness:
  "length (da_challenges (clear_pending default_device_auth)) \<le> 256"
proof -
  have "device_auth_step default_device_auth (clear_pending default_device_auth)" by (rule da_clear)
  then have "device_auth_step\<^sup>*\<^sup>* default_device_auth (clear_pending default_device_auth)" by blast
  from challenges_bounded [OF this] show ?thesis ..
qed

text \<open>
  Verification accepts only a fresh challenge that this PC issued to exactly this device: the
  challenge is in the table, no older than its lifetime, bound to the same device, PC,
  certificate, key and nonce, and the signature verifies under that key over the transcript of
  that challenge; the identity returned is that key, with the code of the same transcript.
\<close>

theorem verify_accepts_only_issued:
  assumes "device_auth_ok m" and "verify_challenge c now d pcid fp auth m = Some (m', Inr ident)"
  shows "\<exists>cid sig p key sigb t. ar_challenge_id auth = Some cid \<and> ar_signature auth = Some sig \<and>
    hm_get (da_challenges m) cid = Some p \<and> since now (pc_created_at p) \<le> da_challenge_ttl m \<and>
    pc_device_id p = d \<and> pc_pc_id p = pcid \<and> pc_fingerprint p = fp \<and>
    pc_public_key p = ar_public_key auth \<and> pc_phone_nonce p = ar_phone_nonce auth \<and>
    b64_decode c (ar_public_key auth) = Inr key \<and> length key = 65 \<and>
    b64_decode c sig = Inr sigb \<and>
    build_device_auth_transcript d pcid fp (ar_public_key auth) (ar_phone_nonce auth) cid
      (pc_challenge p) = Some t \<and>
    p256_verify c key t sigb \<and>
    vi_public_key ident = ar_public_key auth \<and> vi_pairing_code ident = pairing_code c t"
proof -
  obtain cid sig where ids: "ar_challenge_id auth = Some cid" "ar_signature auth = Some sig"
    using assms(2) by (auto simp: verify_challenge_def split: option.splits)
  let ?m1 = "prune_expired now m"
  obtain p t where p: "hm_get (da_challenges ?m1) cid = Some p"
    "pc_device_id p = d" "pc_pc_id p = pcid" "pc_fingerprint p = fp"
    "pc_public_key p = ar_public_key auth" "pc_phone_nonce p = ar_phone_nonce auth"
    and t: "build_device_auth_transcript d pcid fp (ar_public_key auth) (ar_phone_nonce auth) cid
      (pc_challenge p) = Some t"
    and v: "verify_device_auth_signature c (ar_public_key auth) sig t = Inr ()"
    and i: "vi_public_key ident = ar_public_key auth" "vi_pairing_code ident = pairing_code c t"
    using assms(2) ids
    by (auto simp: verify_challenge_def Let_def split: option.splits if_splits sum.splits)
  from challenges.pruned_is_live [OF assms(1) p(1)]
  have live: "hm_get (da_challenges m) cid = Some p" "since now (pc_created_at p) \<le> da_challenge_ttl m"
    by simp_all
  obtain key sigb where "b64_decode c (ar_public_key auth) = Inr key" "length key = 65"
    "b64_decode c sig = Inr sigb" "p256_verify c key t sigb"
    using v by (auto simp: verify_device_auth_signature_def decode_device_public_key_def
        split: sum.splits if_splits)
  with ids p t i live show ?thesis by blast
qed

text \<open>
  A challenge is spent by the first attempt to answer it, right or wrong: after any
  verification that names it and carries a signature, every later answer to it is refused.
\<close>

theorem challenge_single_use:
  assumes "device_auth_ok m" and "ar_challenge_id auth = Some cid" "ar_signature auth \<noteq> None"
    and "verify_challenge c now d pcid fp auth m = Some (m', r)"
    and "ar_challenge_id auth' = Some cid" "ar_signature auth' \<noteq> None"
  shows "\<exists>m''. verify_challenge c later d' pcid' fp' auth' m' =
    Some (m'', Inl ''device authentication challenge is invalid or already used'')"
proof -
  let ?m1 = "prune_expired now m"
  have "m' = ?m1\<lparr>da_challenges := hm_remove cid (da_challenges ?m1)\<rparr>"
    using assms(2-4)
    by (auto simp: verify_challenge_def Let_def split: option.splits if_splits sum.splits)
  then have "hm_get (da_challenges m') cid = None" by simp
  moreover have "device_auth_ok m'" by (rule verify_challenge_ok [OF assms(1, 4)])
  ultimately have "hm_get (da_challenges (prune_expired later m')) cid = None"
    by (simp add: challenges.lookup_prune)
  with assms(5, 6) show ?thesis by (auto simp: verify_challenge_def Let_def)
qed

text \<open>
  An honest device gets in: a challenge begun on a table with room, and answered within its
  90 seconds with a signature that verifies over its transcript, is accepted, and the code the
  PC shows is the code it sent to the phone.
\<close>

theorem honest_device_verifies:
  assumes "device_auth_ok m"
    and "begin_challenge c r16 r32 t0 d pcid fp app k n m = Some (m', Inr ch)"
    and "build_device_auth_transcript d pcid fp k n (dc_challenge_id ch) (dc_challenge ch) = Some t"
    and "verify_device_auth_signature c k sig t = Inr ()"
    and "since now t0 \<le> da_challenge_ttl m"
    and "ar_challenge_id auth = Some (dc_challenge_id ch)" "ar_signature auth = Some sig"
      "ar_public_key auth = k" "ar_phone_nonce auth = n"
  shows "\<exists>m'' ident. verify_challenge c now d pcid fp auth m' = Some (m'', Inr ident) \<and>
    vi_public_key ident = k \<and> vi_pairing_code ident = dc_pairing_code ch"
proof -
  have stored: "hm_get (da_challenges m') (dc_challenge_id ch) = Some \<lparr>pc_device_id = d,
      pc_pc_id = pcid, pc_fingerprint = fp, pc_public_key = k, pc_phone_nonce = n,
      pc_challenge = dc_challenge ch, pc_created_at = t0\<rparr>" (is "_ = Some ?p")
    and code: "dc_pairing_code ch = pairing_code c t" and ttl: "da_challenge_ttl m' = da_challenge_ttl m"
    using assms(2, 3)
    by (auto simp: begin_challenge_def Let_def split: option.splits if_splits sum.splits)
  have "device_auth_ok m'" by (rule begin_challenge_ok [OF assms(1, 2)])
  from challenges.live_kept [OF this stored, of now] assms(5) ttl
  have live: "hm_get (da_challenges (prune_expired now m')) (dc_challenge_id ch) = Some ?p" by simp
  have "\<exists>fpr. device_public_key_fingerprint c k = Inr fpr"
    using assms(4) by (auto simp: device_public_key_fingerprint_def verify_device_auth_signature_def
        split: sum.splits)
  with live assms(3-9) ttl code show ?thesis
    by (auto simp: verify_challenge_def Let_def)
qed

text \<open>A concrete exchange: a toy cryptography and a phone that answers after ten seconds.\<close>

definition toy_crypto :: crypto where
  "toy_crypto = \<lparr>b64_decode = (\<lambda>s. Inr (as_bytes s)), b64_encode = of_bytes,
     sha256 = (\<lambda>_. replicate 32 0), hex_encode = (\<lambda>_. ''00''),
     p256_verify = (\<lambda>key t sig. sig = [7])\<rparr>"

definition toy_key :: string where
  "toy_key = CHR 0x04 # replicate 64 (CHR ''k'')"

definition toy_nonce :: string where
  "toy_nonce = replicate 32 (CHR ''n'')"

definition toy_answer :: "string \<Rightarrow> device_auth_request" where
  "toy_answer sig = \<lparr>ar_public_key = toy_key, ar_phone_nonce = toy_nonce,
     ar_challenge_id = Some ''i'', ar_signature = Some sig, ar_phone_confirmation = Some True\<rparr>"

definition toy_challenge :: device_auth_challenge where
  "toy_challenge = \<lparr>dc_challenge_id = ''i'', dc_challenge = ''c'',
     dc_pc_certificate_fingerprint = ''fp'',
     dc_pairing_code = pairing_code toy_crypto
       (the (build_device_auth_transcript ''phone'' ''desk'' ''fp'' toy_key toy_nonce ''i'' ''c'')),
     dc_requires_approval = True, dc_expires_in_seconds = 90\<rparr>"

definition toy_state :: device_auth where
  "toy_state = default_device_auth\<lparr>da_challenges := [(''i'', \<lparr>pc_device_id = ''phone'',
     pc_pc_id = ''desk'', pc_fingerprint = ''fp'', pc_public_key = toy_key, pc_phone_nonce = toy_nonce,
     pc_challenge = ''c'', pc_created_at = 0\<rparr>)]\<rparr>"

lemma toy_transcript:
  "\<exists>t. build_device_auth_transcript ''phone'' ''desk'' ''fp'' toy_key toy_nonce ''i'' ''c'' = Some t"
  by (simp add: build_device_auth_transcript_def DEVICE_AUTH_DOMAIN_def toy_key_def toy_nonce_def)

lemma toy_key_bytes: "as_bytes toy_key = 4 # replicate 64 0x6B" "as_bytes toy_nonce = replicate 32 0x6E"
  by (simp_all add: toy_key_def toy_nonce_def as_bytes_def)

lemma toy_begin:
  "begin_challenge toy_crypto (Inr (as_bytes ''i'')) (Inr (as_bytes ''c'')) 0 ''phone'' ''desk'' ''fp''
     True toy_key toy_nonce default_device_auth = Some (toy_state, Inr toy_challenge)"
proof -
  obtain t where t: "build_device_auth_transcript ''phone'' ''desk'' ''fp'' toy_key toy_nonce ''i'' ''c''
      = Some t"
    using toy_transcript by blast
  have "validate_device_public_key toy_crypto toy_key = Inr ()"
    by (simp add: validate_device_public_key_def decode_device_public_key_def toy_crypto_def toy_key_bytes)
  then show ?thesis
    using t
    by (simp add: begin_challenge_def random_auth_value_def toy_crypto_def toy_key_bytes toy_state_def
        toy_challenge_def default_device_auth_def prune_expired_def hm_retain_def hm_insert_def
        MAX_PENDING_CHALLENGES_def CHALLENGE_TTL_def secs_def Let_def)
qed

lemma toy_default_ok: "device_auth_ok default_device_auth"
  by (simp add: device_auth_ok_def default_device_auth_def)

lemma toy_signature:
  "verify_device_auth_signature toy_crypto toy_key [CHR 0x07] t = Inr ()"
  by (simp add: verify_device_auth_signature_def decode_device_public_key_def toy_crypto_def
      toy_key_bytes) (simp add: as_bytes_def)

lemma toy_lifetime: "since (secs 10) 0 \<le> da_challenge_ttl default_device_auth"
  by (simp add: since_def default_device_auth_def CHALLENGE_TTL_def secs_def)

lemma toy_fields [simp]:
  "dc_challenge_id toy_challenge = ''i''" "dc_challenge toy_challenge = ''c''"
  "ar_challenge_id (toy_answer s) = Some ''i''" "ar_signature (toy_answer s) = Some s"
  "ar_public_key (toy_answer s) = toy_key" "ar_phone_nonce (toy_answer s) = toy_nonce"
  by (simp_all add: toy_challenge_def toy_answer_def)

theorem honest_device_verifies_witness:
  "\<exists>m'' ident. verify_challenge toy_crypto (secs 10) ''phone'' ''desk'' ''fp''
     (toy_answer [CHR 0x07]) toy_state = Some (m'', Inr ident) \<and> vi_public_key ident = toy_key"
proof -
  obtain t where "build_device_auth_transcript ''phone'' ''desk'' ''fp'' toy_key toy_nonce
      (dc_challenge_id toy_challenge) (dc_challenge toy_challenge) = Some t"
    using toy_transcript by auto
  from honest_device_verifies [OF toy_default_ok toy_begin this toy_signature toy_lifetime,
      of "toy_answer [CHR 0x07]"]
  show ?thesis by auto
qed

lemma toy_verified:
  "\<exists>m'' ident. verify_challenge toy_crypto (secs 10) ''phone'' ''desk'' ''fp''
     (toy_answer [CHR 0x07]) toy_state = Some (m'', Inr ident)"
proof -
  obtain t where t: "build_device_auth_transcript ''phone'' ''desk'' ''fp'' toy_key toy_nonce ''i'' ''c''
      = Some t"
    using toy_transcript by blast
  have "hm_get (da_challenges (prune_expired (secs 10) toy_state)) ''i'' = Some \<lparr>pc_device_id = ''phone'',
     pc_pc_id = ''desk'', pc_fingerprint = ''fp'', pc_public_key = toy_key, pc_phone_nonce = toy_nonce,
     pc_challenge = ''c'', pc_created_at = 0\<rparr>"
    by (simp add: toy_state_def prune_expired_def hm_retain_def hm_get_def since_def secs_def
        default_device_auth_def CHALLENGE_TTL_def)
  moreover have "device_public_key_fingerprint toy_crypto toy_key = Inr ''00''"
    by (simp add: device_public_key_fingerprint_def decode_device_public_key_def toy_crypto_def
        toy_key_bytes sha256_fingerprint_def)
  moreover have "da_challenge_ttl toy_state = secs 90"
    by (simp add: toy_state_def default_device_auth_def CHALLENGE_TTL_def)
  ultimately show ?thesis
    using t toy_signature by (simp add: verify_challenge_def Let_def since_def secs_def)
qed

lemma toy_state_ok: "device_auth_ok toy_state"
  by (simp add: device_auth_ok_def toy_state_def default_device_auth_def hm_wf_def
      MAX_PENDING_CHALLENGES_def)

theorem verify_accepts_only_issued_witness:
  "\<exists>p. hm_get (da_challenges toy_state) ''i'' = Some p \<and> pc_device_id p = ''phone'' \<and>
     pc_public_key p = toy_key"
proof -
  obtain m'' ident where "verify_challenge toy_crypto (secs 10) ''phone'' ''desk'' ''fp''
     (toy_answer [CHR 0x07]) toy_state = Some (m'', Inr ident)"
    using toy_verified by blast
  from verify_accepts_only_issued [OF toy_state_ok this] show ?thesis by auto
qed

theorem challenge_single_use_witness:
  "\<exists>m'. (\<exists>r. verify_challenge toy_crypto (secs 10) ''phone'' ''desk'' ''fp'' (toy_answer [CHR 0x07])
       toy_state = Some (m', r)) \<and>
     (\<exists>m''. verify_challenge toy_crypto (secs 11) ''phone'' ''desk'' ''fp'' (toy_answer [CHR 0x07]) m'
       = Some (m'', Inl ''device authentication challenge is invalid or already used''))"
proof -
  obtain m' ident where v: "verify_challenge toy_crypto (secs 10) ''phone'' ''desk'' ''fp''
     (toy_answer [CHR 0x07]) toy_state = Some (m', Inr ident)"
    using toy_verified by blast
  from challenge_single_use [OF toy_state_ok _ _ v, of "''i''" "toy_answer [CHR 0x07]" "secs 11"
      "''phone''" "''desk''" "''fp''"] v
  show ?thesis by auto
qed

end
