(* ===== verification/Control_Types.thy ===== *)
theory Control_Types
  imports Device_Auth
begin

text \<open>
  The requests and replies of the control interface (\<open>control/types.rs\<close>), the commands it sends
  to the dispatcher (\<open>control/commands.rs\<close>), and the events and commands the PC application
  exchanges with its tray (\<open>events.rs\<close> and the traits of the PC crate). The reply channel of a
  command is the value its handler returns.
\<close>

datatype connection_mode = ModeWifi | ModeUsb | ModeAdb

record connect_req =
  cr_device_id :: device_id
  cr_device_name :: string
  cr_mode :: connection_mode
  cr_jitter_config :: jitter_config
  cr_bitrate :: "i32 option"
  cr_source :: "audio_source option"
  cr_network_link :: "network_link option"
  cr_pending_request_id :: "string option"
  cr_device_auth :: "device_auth_request option"

definition default_bitrate :: "i32 option" where "default_bitrate = Some 128000"

record streamer_capabilities =
  supports_process_capture :: bool
  supports_volume_sync :: bool

record sources_response =
  sr_sources :: "audio_source list"
  sr_capabilities :: streamer_capabilities

record presence_response =
  pr_device_id :: device_id
  pr_streamer_name :: string
  pr_is_offline :: bool
  pr_pc_network_link :: "network_link option"
  pr_device_registered :: "bool option"
  pr_session_token :: "string option"
  pr_session_generation :: "generation option"
  pr_pending_request_id :: "string option"
  pr_device_auth_challenge :: "device_auth_challenge option"
  pr_pc_certificate_fingerprint :: "string option"
  pr_pc_output_volume :: "f32 option"

record control_error_response =
  ce_code :: string
  ce_message :: string

datatype ws_event = WsHeartbeatAcknowledged | WsDisconnectEvent | WsError string | WsVolumeChanged f32

datatype ws_command = WsHeartbeat | WsDisconnect

record connect_command =
  cc_device_id :: device_id
  cc_device_name :: string
  cc_source :: "audio_source option"
  cc_remote_addr :: socket_addr
  cc_bitrate :: "i32 option"
  cc_authorized :: bool
  cc_pending_request_id :: "string option"
  cc_device_auth :: "device_auth_request option"

datatype control_command =
    CmdConnect connect_command
  | CmdDisconnect device_id socket_addr "generation option"
  | CmdGetSources
  | CmdChangeSource device_id audio_source
  | CmdChangeBitrate device_id "i32 option"
  | CmdSessionHeartbeat device_id generation
  | CmdProbe "device_id option"

datatype control_reply =
    ReplyPresence "string + presence_response"
  | ReplyUnit "string + unit"
  | ReplySources sources_response
  | NoReply

section \<open>The tray\<close>

record approval_request =
  cq_request_id :: string
  cq_device_id :: device_id
  cq_name :: string
  cq_addr :: socket_addr
  cq_key_fingerprint :: string
  cq_pairing_code :: string
  cq_replaces_existing_identity :: bool

datatype tray_event =
    ConnectionApproval approval_request
  | ConnectionApprovalResult bool
  | UpdateReady string string
  | UpdateFailed string
  | UpdateChecking
  | UpdateUpToDate
  | ClearUpdateStatus
  | TrayDiscovered device_id string socket_addr "transport_type option"
  | TrayDeviceLost device_id socket_addr
  | TrayFatalError string
  | FirewallWarning string
  | ShutdownRequested
  | ShutdownComplete

datatype app_command =
    KickDevice device_id
  | StopAllStreams
  | StartBroadcasting
  | StopBroadcasting
  | ExitApp
  | CheckForUpdates

end
