(* ===== verification/Device_Registry.thy ===== *)
theory Device_Registry
  imports Control_Types
begin

text \<open>
  \<open>SharedMapDeviceRegistry\<close> (\<open>state.rs\<close> of the PC crate): the connected devices, with the
  instant each was last heard of. A table of this kind promises that a heartbeat refreshes an
  entry but never creates one, and that a sweep removes exactly the entries that have been
  silent for longer than the timeout; the locale \<open>liveness_table\<close> draws the consequences for
  whole runs of heartbeats and sweeps.
\<close>

section \<open>Liveness tables\<close>

datatype 'k liveness_event = Beat nat 'k | Sweep nat

text \<open>What a run does to one entry: the instant it was last heard of, while it is there.\<close>

fun alive :: "nat \<Rightarrow> 'k \<Rightarrow> nat option \<Rightarrow> 'k liveness_event list \<Rightarrow> nat option" where
  "alive timeout k None es = None"
| "alive timeout k (Some t) [] = Some t"
| "alive timeout k (Some t) (Beat now j # es) = alive timeout k (Some (if j = k then now else t)) es"
| "alive timeout k (Some t) (Sweep now # es) =
     (if timeout < since now t then None else alive timeout k (Some t) es)"

locale liveness_table =
  fixes good :: "'s \<Rightarrow> bool"
    and last_seen :: "'s \<Rightarrow> 'k \<Rightarrow> nat option"
    and touch :: "nat \<Rightarrow> 'k \<Rightarrow> 's \<Rightarrow> 's \<times> bool"
    and sweep :: "nat \<Rightarrow> nat \<Rightarrow> 's \<Rightarrow> 's"
  assumes good_touch: "good s \<Longrightarrow> good (fst (touch now k s))"
    and good_sweep: "good s \<Longrightarrow> good (sweep now timeout s)"
    and touch_found: "good s \<Longrightarrow> snd (touch now k s) \<longleftrightarrow> last_seen s k \<noteq> None"
    and last_seen_touch: "good s \<Longrightarrow> last_seen (fst (touch now k s)) l =
      (if l = k \<and> last_seen s k \<noteq> None then Some now else last_seen s l)"
    and last_seen_sweep: "good s \<Longrightarrow> last_seen (sweep now timeout s) l =
      (case last_seen s l of None \<Rightarrow> None
       | Some t \<Rightarrow> if timeout < since now t then None else Some t)"
begin

fun run :: "nat \<Rightarrow> 'k liveness_event list \<Rightarrow> 's \<Rightarrow> 's" where
  "run timeout [] s = s"
| "run timeout (Beat now k # es) s = run timeout es (fst (touch now k s))"
| "run timeout (Sweep now # es) s = run timeout es (sweep now timeout s)"

lemma good_run: "good s \<Longrightarrow> good (run timeout es s)"
  by (induction timeout es s rule: run.induct) (simp_all add: good_touch good_sweep)

lemma run_alive: "good s \<Longrightarrow> last_seen (run timeout es s) k = alive timeout k (last_seen s k) es"
proof (induction timeout es s rule: run.induct)
  case (1 timeout s)
  then show ?case by (cases "last_seen s k") simp_all
next
  case (2 timeout now j es s)
  then show ?case
    by (cases "last_seen s k") (auto simp: good_touch last_seen_touch)
next
  case (3 timeout now es s)
  then show ?case
    by (cases "last_seen s k") (simp_all add: good_sweep last_seen_sweep)
qed

lemma no_resurrection:
  "good s \<Longrightarrow> last_seen s k = None \<Longrightarrow>
   \<not> snd (touch now k s) \<and> last_seen (run timeout es s) k = None"
  by (simp add: touch_found run_alive)

end

section \<open>The registry\<close>

type_synonym registry = "(device_id, discovered_device) hash_map"

datatype registration_outcome = NewDevice | AddressChanged socket_addr | AlreadyRegistered

definition new_registry :: registry where "new_registry = []"

definition register :: "discovered_device \<Rightarrow> registry \<Rightarrow> registry \<times> registration_outcome" where
  "register device r =
     (hm_insert (dev_id device) device r,
      case hm_get r (dev_id device) of
        Some existing \<Rightarrow>
          if dev_addr existing \<noteq> dev_addr device then AddressChanged (dev_addr existing)
          else AlreadyRegistered
      | None \<Rightarrow> NewDevice)"

definition unregister :: "device_id \<Rightarrow> registry \<Rightarrow> registry \<times> discovered_device option" where
  "unregister d r = (hm_remove d r, hm_get r d)"

definition update_last_seen :: "nat \<Rightarrow> device_id \<Rightarrow> registry \<Rightarrow> registry \<times> bool" where
  "update_last_seen now d r = (case hm_get r d of
       Some device \<Rightarrow> (hm_insert d (device\<lparr>dev_last_seen := now\<rparr>) r, True)
     | None \<Rightarrow> (r, False))"

definition get_addr :: "device_id \<Rightarrow> registry \<Rightarrow> socket_addr option" where
  "get_addr d r = map_option dev_addr (hm_get r d)"

definition all_devices :: "registry \<Rightarrow> (device_id \<times> discovered_device) list" where
  "all_devices r = r"

definition drain_all :: "registry \<Rightarrow> registry \<times> (device_id \<times> discovered_device) list" where
  "drain_all r = ([], r)"

definition is_stale :: "nat \<Rightarrow> nat \<Rightarrow> discovered_device \<Rightarrow> bool" where
  "is_stale now timeout device \<longleftrightarrow> timeout < since now (dev_last_seen device)"

definition evict_stale :: "nat \<Rightarrow> nat \<Rightarrow> registry \<Rightarrow> registry \<times> (device_id \<times> socket_addr) list" where
  "evict_stale now timeout r =
     (hm_retain (\<lambda>_ device. \<not> is_stale now timeout device) r,
      map (\<lambda>(d, device). (d, dev_addr device)) (filter (\<lambda>(_, device). is_stale now timeout device) r))"

definition STALE_TIMEOUT :: nat where "STALE_TIMEOUT = secs 15"
definition CHECK_INTERVAL :: nat where "CHECK_INTERVAL = secs 2"

section \<open>Invariant and contract\<close>

definition registry_ok :: "registry \<Rightarrow> bool" where
  "registry_ok r \<longleftrightarrow> hm_wf r \<and> (\<forall>d device. hm_get r d = Some device \<longrightarrow> dev_id device = d)"

definition heard :: "registry \<Rightarrow> device_id \<Rightarrow> nat option" where
  "heard r d = map_option dev_last_seen (hm_get r d)"

lemma registry_ok_new [simp]: "registry_ok new_registry"
  by (simp add: registry_ok_def new_registry_def)

lemma registry_ok_Nil [simp]: "registry_ok []"
  by (simp add: registry_ok_def)

lemma registry_ok_register [simp]: "registry_ok r \<Longrightarrow> registry_ok (fst (register device r))"
  by (auto simp: registry_ok_def register_def)

lemma registry_ok_unregister [simp]: "registry_ok r \<Longrightarrow> registry_ok (fst (unregister d r))"
  by (auto simp: registry_ok_def unregister_def)

lemma registry_ok_update_last_seen [simp]:
  "registry_ok r \<Longrightarrow> registry_ok (fst (update_last_seen now d r))"
  by (auto simp: registry_ok_def update_last_seen_def split: option.splits)

lemma registry_ok_evict_stale [simp]: "registry_ok r \<Longrightarrow> registry_ok (fst (evict_stale now timeout r))"
  by (auto simp: registry_ok_def evict_stale_def hm_get_retain split: option.splits if_splits)

lemma heard_register:
  "heard (fst (register device r)) d = (if d = dev_id device then Some (dev_last_seen device) else heard r d)"
  by (simp add: heard_def register_def)

lemma heard_unregister: "heard (fst (unregister d r)) e = (if e = d then None else heard r e)"
  by (simp add: heard_def unregister_def)

interpretation liveness: liveness_table registry_ok heard update_last_seen
  "\<lambda>now timeout r. fst (evict_stale now timeout r)"
  by unfold_locales
    (simp_all add: heard_def update_last_seen_def evict_stale_def is_stale_def hm_get_retain
      registry_ok_def split: option.splits)

lemma evicted_exactly:
  assumes "registry_ok r"
  shows "(d, a) \<in> set (snd (evict_stale now timeout r)) \<longleftrightarrow>
    (\<exists>device. hm_get r d = Some device \<and> dev_addr device = a \<and> is_stale now timeout device)"
  using assms by (auto simp: evict_stale_def registry_ok_def hm_get_in_set image_iff)

text \<open>
  C6: through any run of probes and watchdog sweeps, a registered device is dropped at the first
  sweep that finds it silent for longer than the timeout, and at no other moment; a probe of a
  device that is not registered reports so and never brings it back.
\<close>

theorem watchdog_exact:
  assumes "registry_ok r"
  shows "heard (liveness.run timeout es r) d = alive timeout d (heard r d) es \<and>
    registry_ok (liveness.run timeout es r) \<and>
    (heard r d = None \<longrightarrow>
       snd (update_last_seen now d r) = False \<and> heard (liveness.run timeout es r) d = None)"
  using liveness.run_alive [OF assms] liveness.good_run [OF assms] liveness.no_resurrection [OF assms]
  by auto

definition sample_device :: discovered_device where
  "sample_device = from_presence ''phone'' ''Pixel'' False (SocketAddr (IpV4 10 0 0 2) 50000) None 0"

theorem watchdog_exact_witness:
  "heard (liveness.run STALE_TIMEOUT [Beat (secs 5) ''phone'', Sweep (secs 20), Sweep (secs 21)]
      (fst (register sample_device new_registry))) ''phone'' = None"
  using watchdog_exact [of "fst (register sample_device new_registry)" STALE_TIMEOUT
      "[Beat (secs 5) ''phone'', Sweep (secs 20), Sweep (secs 21)]" "''phone''"]
  by (simp add: heard_register sample_device_def from_presence_def since_def secs_def
      STALE_TIMEOUT_def)

end
