(* ===== verification/Trusted_Devices.thy ===== *)
theory Trusted_Devices
  imports Session_Auth "HOL-Library.List_Lexorder" "HOL-Library.Char_ord"
begin

text \<open>
  \<open>TrustedDeviceStore\<close> (\<open>trusted_devices.rs\<close>): the devices the PC trusts, bound to the PC's
  certificate, kept in memory and in a file.

  The file is part of the state: \<open>ts_file\<close> is what a reload would read. JSON encoding and the file
  system are external: a save either replaces the file (write to a temporary file and rename) or
  fails and leaves it, as its argument \<open>save_ok\<close> says. A store without a path (tests) is not
  modelled separately: its saves never happen and never fail.
\<close>

record trusted_device =
  td_device_id :: device_id
  td_device_name :: string
  td_public_key :: string

record trusted_file =
  tf_fingerprint :: "string option"
  tf_devices :: "trusted_device list"

record trusted_store =
  ts_fingerprint :: "string option"
  ts_devices :: "(device_id, trusted_device) hash_map"
  ts_revoked :: "device_id list"
  ts_file :: trusted_file

text \<open>\<open>TrustedDeviceStore::load\<close>: an unreadable file counts as the empty one.\<close>

definition devices_of :: "trusted_device list \<Rightarrow> (device_id, trusted_device) hash_map" where
  "devices_of ds = foldl (\<lambda>m d. hm_insert (td_device_id d) d m) [] ds"

definition load_store :: "trusted_file \<Rightarrow> trusted_store" where
  "load_store file = \<lparr>ts_fingerprint = tf_fingerprint file, ts_devices = devices_of (tf_devices file),
     ts_revoked = [], ts_file = file\<rparr>"

text \<open>\<open>save_state\<close>: the devices sorted by id; the result and the store with the new file.\<close>

definition save_state :: "bool \<Rightarrow> trusted_store \<Rightarrow> trusted_store \<times> bool" where
  "save_state save_ok s =
     (if save_ok
      then (s\<lparr>ts_file := \<lparr>tf_fingerprint = ts_fingerprint s,
                tf_devices = sort_key td_device_id (map snd (ts_devices s))\<rparr>\<rparr>, True)
      else (s, False))"

definition revoke_mark :: "device_id \<Rightarrow> device_id list \<Rightarrow> device_id list" where
  "revoke_mark d r = (if d \<in> set r then r else d # r)"

definition bind_pc_identity :: "bool \<Rightarrow> string \<Rightarrow> trusted_store \<Rightarrow> trusted_store \<times> bool" where
  "bind_pc_identity save_ok fingerprint s =
     (if ts_fingerprint s = Some fingerprint then (s, True)
      else let s1 = s\<lparr>ts_fingerprint := Some fingerprint, ts_devices := [], ts_revoked := []\<rparr> in
        case save_state save_ok s1 of
          (s2, True) \<Rightarrow> (s2, True)
        | (s2, False) \<Rightarrow> (s2\<lparr>ts_fingerprint := ts_fingerprint s, ts_devices := ts_devices s,
                            ts_revoked := ts_revoked s\<rparr>, False))"

definition is_trusted :: "device_id \<Rightarrow> string \<Rightarrow> trusted_store \<Rightarrow> bool" where
  "is_trusted d public_key s \<longleftrightarrow> d \<notin> set (ts_revoked s) \<and>
     (case hm_get (ts_devices s) d of None \<Rightarrow> False
      | Some t \<Rightarrow> constant_time_eq (as_bytes (td_public_key t)) (as_bytes public_key))"

definition stored_public_key :: "device_id \<Rightarrow> trusted_store \<Rightarrow> string option" where
  "stored_public_key d s =
     (if d \<in> set (ts_revoked s) then None
      else map_option td_public_key (hm_get (ts_devices s) d))"

datatype store_error = NotBound | NotSaved

definition trust_device ::
  "bool \<Rightarrow> device_id \<Rightarrow> string \<Rightarrow> string \<Rightarrow> trusted_store \<Rightarrow> trusted_store \<times> (store_error + unit)" where
  "trust_device save_ok d name key s =
     (if ts_fingerprint s = None then (s, Inl NotBound)
      else
        let was_revoked = d \<in> set (ts_revoked s);
            previous = hm_get (ts_devices s) d;
            s1 = s\<lparr>ts_revoked := removeAll d (ts_revoked s),
                   ts_devices := hm_insert d \<lparr>td_device_id = d, td_device_name = name,
                                              td_public_key = key\<rparr> (ts_devices s)\<rparr> in
        case save_state save_ok s1 of
          (s2, True) \<Rightarrow> (s2, Inr ())
        | (s2, False) \<Rightarrow>
            (s2\<lparr>ts_revoked := (if was_revoked then revoke_mark d (ts_revoked s2) else ts_revoked s2),
                ts_devices := (case previous of
                    Some t \<Rightarrow> hm_insert d t (ts_devices s2)
                  | None \<Rightarrow> hm_remove d (ts_devices s2))\<rparr>, Inl NotSaved))"

definition forget_device ::
  "bool \<Rightarrow> device_id \<Rightarrow> trusted_store \<Rightarrow> trusted_store \<times> (store_error + bool)" where
  "forget_device save_ok d s =
     (let removed = hm_get (ts_devices s) d;
          already_revoked = d \<in> set (ts_revoked s);
          s1 = s\<lparr>ts_devices := hm_remove d (ts_devices s), ts_revoked := revoke_mark d (ts_revoked s)\<rparr> in
      if removed = None \<and> \<not> already_revoked
      then (s1\<lparr>ts_revoked := removeAll d (ts_revoked s1)\<rparr>, Inr False)
      else case save_state save_ok s1 of
          (s2, True) \<Rightarrow> (s2\<lparr>ts_revoked := removeAll d (ts_revoked s2)\<rparr>, Inr True)
        | (s2, False) \<Rightarrow> (s2, Inl NotSaved))"

section \<open>What a reload reads\<close>

definition ids_match :: "(device_id, trusted_device) hash_map \<Rightarrow> bool" where
  "ids_match m \<longleftrightarrow> hm_wf m \<and> (\<forall>d t. hm_get m d = Some t \<longrightarrow> td_device_id t = d)"

lemma devices_of_get:
  "hm_get (devices_of ds) k = map_of (rev (map (\<lambda>d. (td_device_id d, d)) ds)) k"
  by (induction ds rule: rev_induct) (simp_all add: devices_of_def)

lemma devices_of_ids: "ids_match (devices_of ds)"
proof (induction ds rule: rev_induct)
  case (snoc d ds)
  then show ?case by (simp add: ids_match_def devices_of_def)
qed (simp add: ids_match_def devices_of_def)

lemma devices_of_distinct:
  assumes "distinct (map td_device_id ds)"
  shows "hm_get (devices_of ds) k = Some t \<longleftrightarrow> t \<in> set ds \<and> td_device_id t = k"
proof -
  have "distinct (map fst (rev (map (\<lambda>d. (td_device_id d, d)) ds)))"
    using assms by (simp add: comp_def flip: rev_map)
  then show ?thesis by (auto simp: devices_of_get)
qed

lemma saved_devices:
  assumes "ids_match m"
  shows "hm_get (devices_of (sort_key td_device_id (map snd m))) k = hm_get m k"
proof -
  have wf: "hm_wf m" using assms by (simp add: ids_match_def)
  have ids: "td_device_id t = d" if "(d, t) \<in> set m" for d t
    using that assms hm_get_in_set [OF wf] by (auto simp: ids_match_def)
  then have "map td_device_id (map snd m) = map fst m" by (auto simp: comp_def)
  then have "distinct (map td_device_id (map snd m))" using wf by (simp only: hm_wf_def)
  moreover have "mset (map td_device_id (sort_key td_device_id (map snd m))) =
      mset (map td_device_id (map snd m))"
    by (simp only: mset_map mset_sort)
  ultimately have "distinct (map td_device_id (sort_key td_device_id (map snd m)))"
    using mset_eq_imp_distinct_iff by blast
  note D = devices_of_distinct [OF this, of k]
  have "hm_get m k = Some t \<longleftrightarrow> t \<in> snd ` set m \<and> td_device_id t = k" for t
    using ids by (force simp: hm_get_in_set [OF wf])
  with D show ?thesis by (cases "hm_get m k") (auto, metis not_None_eq)
qed

text \<open>
  Memory and file agree, except on devices whose removal could not be saved: those are marked
  revoked in memory and have no entry there.
\<close>

definition store_inv :: "trusted_store \<Rightarrow> bool" where
  "store_inv s \<longleftrightarrow> ids_match (ts_devices s) \<and> tf_fingerprint (ts_file s) = ts_fingerprint s \<and>
     (\<forall>d. hm_get (ts_devices s) d =
        (if d \<in> set (ts_revoked s) then None else hm_get (devices_of (tf_devices (ts_file s))) d))"

lemmas store_invI = store_inv_def [THEN iffD2]
lemmas store_invE = store_inv_def [THEN iffD1, elim_format]

lemma ids_match_insert: "ids_match m \<Longrightarrow> td_device_id t = d \<Longrightarrow> ids_match (hm_insert d t m)"
  by (auto simp: ids_match_def)

lemma ids_match_remove: "ids_match m \<Longrightarrow> ids_match (hm_remove d m)"
  by (auto simp: ids_match_def)

lemma ids_match_Nil [simp]: "ids_match []"
  by (simp add: ids_match_def)

lemma save_state_fields [simp]:
  "ts_fingerprint (fst (save_state ok s)) = ts_fingerprint s"
  "ts_devices (fst (save_state ok s)) = ts_devices s"
  "ts_revoked (fst (save_state ok s)) = ts_revoked s"
  "snd (save_state ok s) = ok"
  by (simp_all add: save_state_def)

lemma store_inv_load: "store_inv (load_store file)"
  by (simp add: store_inv_def load_store_def devices_of_ids)

text \<open>A successful save makes the file the memory.\<close>

lemma store_inv_saved:
  "ids_match (ts_devices s) \<Longrightarrow> (\<And>d. d \<in> set (ts_revoked s) \<Longrightarrow> hm_get (ts_devices s) d = None) \<Longrightarrow>
   store_inv (fst (save_state True s))"
  by (simp add: store_inv_def save_state_def saved_devices)

lemma store_inv_fewer_revoked:
  "store_inv s \<Longrightarrow> hm_get (devices_of (tf_devices (ts_file s))) d = None \<Longrightarrow>
   store_inv (s\<lparr>ts_revoked := removeAll d (ts_revoked s)\<rparr>)"
  by (auto simp: store_inv_def)

lemma store_inv_bind: "store_inv s \<Longrightarrow> store_inv (fst (bind_pc_identity ok fp s))"
  using store_inv_saved [of "s\<lparr>ts_fingerprint := Some fp, ts_devices := [], ts_revoked := []\<rparr>"]
  by (auto simp: bind_pc_identity_def Let_def save_state_def store_inv_def)

text \<open>What \<open>trust\<close> does, as equations.\<close>

lemma trust_device_ok:
  assumes "ts_fingerprint s \<noteq> None"
  shows "trust_device True d name key s =
    (fst (save_state True (s\<lparr>ts_revoked := removeAll d (ts_revoked s), ts_devices := hm_insert d
       \<lparr>td_device_id = d, td_device_name = name, td_public_key = key\<rparr> (ts_devices s)\<rparr>)), Inr ())"
  using assms by (simp add: trust_device_def Let_def save_state_def)

lemma trust_device_failed:
  fixes s :: trusted_store and d name key e :: string and ok :: bool
  assumes "\<not> (ok \<and> ts_fingerprint s \<noteq> None)"
  defines "s' \<equiv> fst (trust_device ok d name key s)"
  shows "\<exists>err. snd (trust_device ok d name key s) = Inl err"
    and "set (ts_revoked s') = set (ts_revoked s)" "ts_file s' = ts_file s"
    "ts_fingerprint s' = ts_fingerprint s"
    "hm_get (ts_devices s') e = hm_get (ts_devices s) e"
    "ids_match (ts_devices s) \<Longrightarrow> ids_match (ts_devices s')"
  using assms
  by (auto simp: trust_device_def Let_def save_state_def revoke_mark_def ids_match_def
      split: option.splits)

lemma store_inv_trust: "store_inv s \<Longrightarrow> store_inv (fst (trust_device ok d name key s))"
proof (cases "ok \<and> ts_fingerprint s \<noteq> None")
  case True
  assume inv: "store_inv s"
  let ?t = "\<lparr>td_device_id = d, td_device_name = name, td_public_key = key\<rparr>"
  let ?s1 = "s\<lparr>ts_revoked := removeAll d (ts_revoked s), ts_devices := hm_insert d ?t (ts_devices s)\<rparr>"
  have "ids_match (ts_devices ?s1)"
    using inv by (simp add: store_inv_def ids_match_insert)
  moreover have "e \<in> set (ts_revoked ?s1) \<Longrightarrow> hm_get (ts_devices ?s1) e = None" for e
    using inv by (auto simp: store_inv_def)
  ultimately have "store_inv (fst (save_state True ?s1))" by (rule store_inv_saved)
  with True show ?thesis by (simp add: trust_device_ok)
next
  case False
  assume inv: "store_inv s"
  note F = trust_device_failed [OF False, of d name key]
  from inv F show ?thesis unfolding store_inv_def by simp
qed

lemma forget_device_cases:
  obtains (unknown) "hm_get (ts_devices s) d = None" "d \<notin> set (ts_revoked s)"
      "forget_device ok d s = (s\<lparr>ts_devices := hm_remove d (ts_devices s),
         ts_revoked := removeAll d (d # ts_revoked s)\<rparr>, Inr False)"
  | (saved) "forget_device ok d s =
      ((fst (save_state True (s\<lparr>ts_devices := hm_remove d (ts_devices s),
          ts_revoked := revoke_mark d (ts_revoked s)\<rparr>)))
        \<lparr>ts_revoked := removeAll d (revoke_mark d (ts_revoked s))\<rparr>, Inr True)" "ok"
      "hm_get (ts_devices s) d \<noteq> None \<or> d \<in> set (ts_revoked s)"
  | (unsaved) "forget_device ok d s = (s\<lparr>ts_devices := hm_remove d (ts_devices s),
         ts_revoked := revoke_mark d (ts_revoked s)\<rparr>, Inl NotSaved)" "\<not> ok"
      "hm_get (ts_devices s) d \<noteq> None \<or> d \<in> set (ts_revoked s)"
  by (cases "hm_get (ts_devices s) d = None \<and> d \<notin> set (ts_revoked s)"; cases ok)
    (auto simp: forget_device_def Let_def save_state_def revoke_mark_def)

lemma store_inv_forget: "store_inv s \<Longrightarrow> store_inv (fst (forget_device ok d s))"
proof (rule forget_device_cases [of s d ok])
  let ?s1 = "s\<lparr>ts_devices := hm_remove d (ts_devices s), ts_revoked := revoke_mark d (ts_revoked s)\<rparr>"
  assume inv: "store_inv s"
  then have ids: "ids_match (ts_devices ?s1)" by (simp add: store_inv_def ids_match_remove)
  have gone: "e \<in> set (ts_revoked ?s1) \<Longrightarrow> hm_get (ts_devices ?s1) e = None" for e
    using inv by (auto simp: store_inv_def revoke_mark_def split: if_splits)
  {
    assume eq: "forget_device ok d s =
      ((fst (save_state True ?s1))\<lparr>ts_revoked := removeAll d (revoke_mark d (ts_revoked s))\<rparr>, Inr True)"
    have "hm_get (devices_of (tf_devices (ts_file (fst (save_state True ?s1))))) d = None"
      using saved_devices [OF ids, of d] by (simp add: save_state_def)
    from store_inv_fewer_revoked [OF store_inv_saved [OF ids gone] this] eq
    show ?thesis by simp
  }
qed (auto simp: store_inv_def ids_match_remove hm_remove_absent revoke_mark_def)

inductive store_step :: "trusted_store \<Rightarrow> trusted_store \<Rightarrow> bool" where
  step_bind: "store_step s (fst (bind_pc_identity ok fp s))"
| step_trust: "store_step s (fst (trust_device ok d name key s))"
| step_forget: "store_step s (fst (forget_device ok d s))"

inductive_cases store_stepE: "store_step s t"

lemma store_inv_reachable:
  "store_step\<^sup>*\<^sup>* (load_store file) s \<Longrightarrow> store_inv s"
  by (induction rule: rtranclp_induct)
    (auto intro: store_inv_load store_inv_bind store_inv_trust store_inv_forget elim!: store_stepE)

section \<open>Properties\<close>

text \<open>
  Forgetting a device always takes its trust away at once, whatever the key and whether or not
  the removal reaches the file; other devices keep theirs; and the answer "not known" is given
  only for a device no key of which was trusted.
\<close>

theorem forget_always_untrusts:
  "\<not> is_trusted d key (fst (forget_device ok d s)) \<and>
   stored_public_key d (fst (forget_device ok d s)) = None \<and>
   (e = d \<or> is_trusted e key (fst (forget_device ok d s)) = is_trusted e key s) \<and>
   (snd (forget_device ok d s) = Inr False \<longleftrightarrow>
      hm_get (ts_devices s) d = None \<and> d \<notin> set (ts_revoked s))"
  by (rule forget_device_cases [of s d ok])
    (auto simp: is_trusted_def stored_public_key_def revoke_mark_def)

text \<open>
  Trusting a device is all or nothing: on success exactly the given key is trusted for it, and
  on any failure (no PC identity bound, or the file cannot be written) every device is trusted
  exactly as before and the file is untouched.
\<close>

theorem trust_all_or_nothing:
  "(case snd (trust_device ok d name key s) of
      Inr _ \<Rightarrow> (\<forall>e k. is_trusted e k (fst (trust_device ok d name key s)) \<longleftrightarrow>
                 (if e = d then k = key else is_trusted e k s))
    | Inl _ \<Rightarrow> (\<forall>e k. is_trusted e k (fst (trust_device ok d name key s)) = is_trusted e k s) \<and>
        ts_file (fst (trust_device ok d name key s)) = ts_file s)"
proof (cases "ok \<and> ts_fingerprint s \<noteq> None")
  case True
  then show ?thesis by (auto simp: trust_device_ok is_trusted_def)
next
  case False
  from trust_device_failed [OF False, of d name key] show ?thesis
    by (auto simp: is_trusted_def)
qed

text \<open>
  After any history, restarting the PC program trusts the same devices with the same keys,
  with one exception: a device whose removal could not be written to the file, which the running
  program refuses, is trusted again after the restart.
\<close>

theorem reload_agrees:
  assumes "store_step\<^sup>*\<^sup>* (load_store file) s"
  shows "is_trusted d key s \<longleftrightarrow>
    is_trusted d key (load_store (ts_file s)) \<and> d \<notin> set (ts_revoked s)"
  using store_inv_reachable [OF assms]
  by (auto simp: store_inv_def is_trusted_def load_store_def)

definition sample_file :: trusted_file where
  "sample_file = \<lparr>tf_fingerprint = Some ''fp'', tf_devices =
     [\<lparr>td_device_id = ''phone'', td_device_name = ''Phone'', td_public_key = ''k''\<rparr>]\<rparr>"

theorem reload_agrees_witness:
  "let s = fst (forget_device False ''phone'' (load_store sample_file)) in
   is_trusted ''phone'' ''k'' (load_store sample_file) \<and> \<not> is_trusted ''phone'' ''k'' s \<and>
   is_trusted ''phone'' ''k'' (load_store (ts_file s))"
proof -
  let ?s = "fst (forget_device False ''phone'' (load_store sample_file))"
  have eval: "is_trusted ''phone'' ''k'' (load_store sample_file)"
    "ts_file ?s = sample_file" "''phone'' \<in> set (ts_revoked ?s)"
    by (simp_all add: is_trusted_def load_store_def devices_of_def sample_file_def
        forget_device_def save_state_def revoke_mark_def Let_def)
  have "store_step\<^sup>*\<^sup>* (load_store sample_file) ?s" by (rule r_into_rtranclp) (rule step_forget)
  from reload_agrees [OF this, of "''phone''" "''k''"] eval show ?thesis by (simp add: Let_def)
qed

text \<open>
  A new PC identity clears the whole allowlist, and only if that can be written down: bound to
  another certificate successfully, no device is trusted by the running program or after a
  restart; if the file cannot be written, the binding and the trust are as before.
\<close>

theorem new_identity_clears_trust:
  assumes "ts_fingerprint s \<noteq> Some fp"
  shows "if ok
    then (\<forall>d k. \<not> is_trusted d k (fst (bind_pc_identity ok fp s)) \<and>
            \<not> is_trusted d k (load_store (ts_file (fst (bind_pc_identity ok fp s))))) \<and>
         ts_fingerprint (fst (bind_pc_identity ok fp s)) = Some fp
    else fst (bind_pc_identity ok fp s) = s \<and> \<not> snd (bind_pc_identity ok fp s)"
  using assms
  by (auto simp: bind_pc_identity_def save_state_def Let_def is_trusted_def load_store_def
      devices_of_def)

theorem new_identity_clears_trust_witness:
  "\<not> is_trusted ''phone'' ''k'' (fst (bind_pc_identity True ''fp2'' (load_store sample_file)))"
proof -
  have "ts_fingerprint (load_store sample_file) \<noteq> Some ''fp2''"
    by (simp add: load_store_def sample_file_def)
  from new_identity_clears_trust [OF this, of True] show ?thesis by simp
qed

end
