(* ===== verification/Control_Dispatcher.thy ===== *)
theory Control_Dispatcher
  imports Device_Registry Trusted_Devices
begin

text \<open>
  \<open>ControlDispatcher\<close> (\<open>tasks/control_dispatcher.rs\<close> of the PC crate): the handler of every
  command of the control interface, over the state the PC application shares between its tasks.

  The audio engine is reached through the trait \<open>AudioController\<close>: a record of operations on a
  state of its own, of any type. The tray and the device notifier are the lists of what they
  were told. Random values, the clock, the volume and the outcome of saving a file are the
  \<open>inputs\<close> of a step; one step reads one instant. A handler is one step: what other tasks do
  while it awaits the audio engine comes before or after it.
\<close>

section \<open>State\<close>

record 'a audio_ops =
  ao_subscribe :: "device_id \<Rightarrow> u64 \<Rightarrow> socket_addr option \<Rightarrow> audio_source option \<Rightarrow> i32 option \<Rightarrow>
    'a \<Rightarrow> 'a \<times> (string + unit)"
  ao_unsubscribe :: "device_id \<Rightarrow> 'a \<Rightarrow> 'a \<times> (string + unit)"
  ao_change_source :: "device_id \<Rightarrow> audio_source \<Rightarrow> 'a \<Rightarrow> 'a \<times> (string + unit)"
  ao_change_bitrate :: "device_id \<Rightarrow> i32 option \<Rightarrow> 'a \<Rightarrow> 'a \<times> (string + unit)"
  ao_shutdown :: "'a \<Rightarrow> 'a \<times> (string + unit)"

record desk_config =
  cf_streamer_id :: device_id
  cf_streamer_name :: string
  cf_fingerprint :: string
  cf_crypto :: crypto
  cf_capabilities :: streamer_capabilities

record step_inputs =
  in_now :: nat
  in_volume :: "f32 option"
  in_random16 :: "string + bytes"
  in_random32 :: "string + bytes"
  in_random_request :: "string + bytes"
  in_random_token :: "string + bytes"
  in_save_ok :: bool
  in_save_error :: string

record 'a desk =
  dk_registry :: registry
  dk_audio :: 'a
  dk_authorizer :: authorizer
  dk_device_auth :: device_auth
  dk_trusted :: trusted_store
  dk_is_broadcasting :: bool
  dk_tray :: "tray_event list"
  dk_disconnects :: "(device_id \<times> socket_addr option) list"
  dk_adb_shutdowns :: nat

definition tray :: "tray_event \<Rightarrow> 'a desk \<Rightarrow> 'a desk" where
  "tray e s = s\<lparr>dk_tray := dk_tray s @ [e]\<rparr>"

definition notify_device_lost :: "device_id \<Rightarrow> socket_addr \<Rightarrow> 'a desk \<Rightarrow> 'a desk" where
  "notify_device_lost d a = tray (TrayDeviceLost d a)"

definition notify_device_discovered ::
  "device_id \<Rightarrow> string \<Rightarrow> socket_addr \<Rightarrow> transport_type option \<Rightarrow> 'a desk \<Rightarrow> 'a desk" where
  "notify_device_discovered d name a transport = tray (TrayDiscovered d name a transport)"

definition notify_fatal_error :: "string \<Rightarrow> 'a desk \<Rightarrow> 'a desk" where
  "notify_fatal_error message = tray (TrayFatalError message)"

definition disconnect_notice :: "device_id \<Rightarrow> socket_addr option \<Rightarrow> 'a desk \<Rightarrow> 'a desk" where
  "disconnect_notice d a s = s\<lparr>dk_disconnects := dk_disconnects s @ [(d, a)]\<rparr>"

definition audio_call ::
  "('a \<Rightarrow> 'a \<times> (string + unit)) \<Rightarrow> 'a desk \<Rightarrow> 'a desk \<times> (string + unit)" where
  "audio_call f s = (case f (dk_audio s) of (a, r) \<Rightarrow> (s\<lparr>dk_audio := a\<rparr>, r))"

section \<open>Registering and unregistering a device\<close>

definition AUDIO_UDP :: u16 where "AUDIO_UDP = 23556"

definition register_device ::
  "'a audio_ops \<Rightarrow> nat \<Rightarrow> device_id \<Rightarrow> u64 \<Rightarrow> string \<Rightarrow> socket_addr \<Rightarrow> socket_addr \<Rightarrow> transport_type option \<Rightarrow>
   audio_source option \<Rightarrow> i32 option \<Rightarrow> 'a desk \<Rightarrow> 'a desk \<times> (string + unit)" where
  "register_device ops now d generation name audio_addr remote_addr transport source bitrate s =
     (let effective_addr = (if is_loopback (addr_ip remote_addr) then None else Some audio_addr) in
      case audio_call (ao_subscribe ops d generation effective_addr source bitrate) s of
        (s1, Inl e) \<Rightarrow> (s1, Inl e)
      | (s1, Inr _) \<Rightarrow>
          (case register (from_presence d name False audio_addr transport now) (dk_registry s1) of
             (r, outcome) \<Rightarrow>
               (let s2 = s1\<lparr>dk_registry := r\<rparr> in
                (case outcome of
                   AddressChanged old_addr \<Rightarrow>
                     notify_device_discovered d name audio_addr transport
                       (notify_device_lost d old_addr s2)
                 | NewDevice \<Rightarrow> notify_device_discovered d name audio_addr transport s2
                 | AlreadyRegistered \<Rightarrow> s2, Inr ()))))"

definition unregister_device ::
  "'a audio_ops \<Rightarrow> device_id \<Rightarrow> 'a desk \<Rightarrow> 'a desk \<times> (string + unit)" where
  "unregister_device ops d s =
     (let s1 = (case unregister d (dk_registry s) of
          (r, Some removed) \<Rightarrow>
            disconnect_notice d (Some (dev_addr removed))
              (notify_device_lost d (dev_addr removed) (s\<lparr>dk_registry := r\<rparr>))
        | (r, None) \<Rightarrow> s\<lparr>dk_registry := r\<rparr>) in
      audio_call (ao_unsubscribe ops d) s1)"

section \<open>Connect: who may have a session\<close>

datatype gate_result =
    GateReply "string + presence_response"
  | GateProceed "string option" "verified_identity option"

definition presence :: "desk_config \<Rightarrow> step_inputs \<Rightarrow> bool option \<Rightarrow> presence_response" where
  "presence cfg inp registered =
     \<lparr>pr_device_id = cf_streamer_id cfg, pr_streamer_name = cf_streamer_name cfg,
      pr_is_offline = False, pr_pc_network_link = None, pr_device_registered = registered,
      pr_session_token = None, pr_session_generation = None, pr_pending_request_id = None,
      pr_device_auth_challenge = None, pr_pc_certificate_fingerprint = Some (cf_fingerprint cfg),
      pr_pc_output_volume = in_volume inp\<rparr>"

text \<open>A connect that names a pairing request.\<close>

definition gate_pending ::
  "desk_config \<Rightarrow> step_inputs \<Rightarrow> connect_command \<Rightarrow> string \<Rightarrow> 'a desk \<Rightarrow> 'a desk \<times> gate_result" where
  "gate_pending cfg inp c request_id s = (case cc_device_auth c of
       None \<Rightarrow> (s, GateReply (Inl ''LAN device authentication proof is missing''))
     | Some auth \<Rightarrow>
       (case pending_pairing_for (in_now inp) request_id (cc_device_id c) (ar_public_key auth)
               (dk_device_auth s) of
          (m, None) \<Rightarrow> (s\<lparr>dk_device_auth := m\<rparr>, GateReply (Inl (''connection request '' @ request_id @
              '' does not match this device key'')))
        | (m, Some identity) \<Rightarrow>
          (case pending_status (in_now inp) request_id (cc_device_id c) (dk_authorizer s) of
             (a, status) \<Rightarrow>
               (let s1 = s\<lparr>dk_device_auth := m, dk_authorizer := a\<rparr> in
                case status of
                  Some ApprovalPending \<Rightarrow>
                    (s1, GateReply (Inr ((presence cfg inp (Some False))
                       \<lparr>pr_pending_request_id := Some request_id\<rparr>)))
                | Some Approved \<Rightarrow> (s1, GateProceed (Some request_id) (Some identity))
                | Some Rejected \<Rightarrow>
                    (s1\<lparr>dk_authorizer := remove_pending request_id a,
                        dk_device_auth := remove_pending_pairing request_id m\<rparr>,
                     GateReply (Inl (''connection request '' @ request_id @ '' was rejected on the PC'')))
                | None \<Rightarrow> (s1, GateReply (Inl (''connection request '' @ request_id @
                    '' is invalid or expired'')))))))"

text \<open>The first message of a challenge: neither a challenge nor a signature yet.\<close>

definition gate_begin ::
  "desk_config \<Rightarrow> step_inputs \<Rightarrow> connect_command \<Rightarrow> device_auth_request \<Rightarrow> 'a desk \<Rightarrow>
   ('a desk \<times> gate_result) option" where
  "gate_begin cfg inp c auth s =
     (let requires_approval = (\<not> is_trusted (cc_device_id c) (ar_public_key auth) (dk_trusted s)) in
      case begin_challenge (cf_crypto cfg) (in_random16 inp) (in_random32 inp) (in_now inp)
             (cc_device_id c) (cf_streamer_id cfg) (cf_fingerprint cfg) requires_approval
             (ar_public_key auth) (ar_phone_nonce auth) (dk_device_auth s) of
        None \<Rightarrow> None
      | Some (m, Inl e) \<Rightarrow> Some (s\<lparr>dk_device_auth := m\<rparr>, GateReply (Inl e))
      | Some (m, Inr challenge) \<Rightarrow> Some (s\<lparr>dk_device_auth := m\<rparr>,
          GateReply (Inr ((presence cfg inp (Some False))
            \<lparr>pr_device_auth_challenge := Some challenge\<rparr>))))"

text \<open>A verified device that is not trusted yet: a pairing request is created and shown.\<close>

definition gate_pair ::
  "desk_config \<Rightarrow> step_inputs \<Rightarrow> connect_command \<Rightarrow> verified_identity \<Rightarrow> 'a desk \<Rightarrow> 'a desk \<times> gate_result" where
  "gate_pair cfg inp c identity s =
     (let replaces = (case stored_public_key (cc_device_id c) (dk_trusted s) of
          None \<Rightarrow> False | Some trusted_key \<Rightarrow> trusted_key \<noteq> vi_public_key identity) in
      case create_pending (hex_encode (cf_crypto cfg)) (in_random_request inp) (in_now inp)
             (cc_device_id c) (dk_authorizer s) of
        (a, Inl e) \<Rightarrow> (s\<lparr>dk_authorizer := a\<rparr>, GateReply (Inl e))
      | (a, Inr request_id) \<Rightarrow>
          (tray (ConnectionApproval \<lparr>cq_request_id = request_id, cq_device_id = cc_device_id c,
               cq_name = cc_device_name c, cq_addr = cc_remote_addr c,
               cq_key_fingerprint = vi_fingerprint identity,
               cq_pairing_code = vi_pairing_code identity, cq_replaces_existing_identity = replaces\<rparr>)
             (s\<lparr>dk_authorizer := a, dk_device_auth := hold_pending_pairing (in_now inp) request_id
                 (cc_device_id c) identity (dk_device_auth s)\<rparr>),
           GateReply (Inr ((presence cfg inp (Some False))\<lparr>pr_pending_request_id := Some request_id\<rparr>))))"

definition gate_verify ::
  "desk_config \<Rightarrow> step_inputs \<Rightarrow> connect_command \<Rightarrow> device_auth_request \<Rightarrow> 'a desk \<Rightarrow>
   ('a desk \<times> gate_result) option" where
  "gate_verify cfg inp c auth s =
     (case verify_challenge (cf_crypto cfg) (in_now inp) (cc_device_id c) (cf_streamer_id cfg)
             (cf_fingerprint cfg) auth (dk_device_auth s) of
        None \<Rightarrow> None
      | Some (m, Inl e) \<Rightarrow> Some (s\<lparr>dk_device_auth := m\<rparr>, GateReply (Inl e))
      | Some (m, Inr identity) \<Rightarrow>
          (let s1 = s\<lparr>dk_device_auth := m\<rparr>;
               already_trusted = is_trusted (cc_device_id c) (vi_public_key identity) (dk_trusted s1) in
           Some (if already_trusted \<and> ar_phone_confirmation auth = None then (s1, GateProceed None None)
             else case ar_phone_confirmation auth of
               Some False \<Rightarrow> (s1, GateReply (Inl ''pairing was cancelled on the phone''))
             | None \<Rightarrow> (s1, GateReply (Inl ''phone confirmation is required for pairing''))
             | Some True \<Rightarrow> gate_pair cfg inp c identity s1)))"

definition connect_gate ::
  "desk_config \<Rightarrow> step_inputs \<Rightarrow> connect_command \<Rightarrow> 'a desk \<Rightarrow> ('a desk \<times> gate_result) option" where
  "connect_gate cfg inp c s =
     (if cc_authorized c then Some (s, GateProceed None None)
      else case cc_pending_request_id c of
        Some request_id \<Rightarrow> Some (gate_pending cfg inp c request_id s)
      | None \<Rightarrow> (case cc_device_auth c of
          None \<Rightarrow> Some (s, GateReply (Inl ''LAN device authentication identity is missing''))
        | Some auth \<Rightarrow>
            if ar_challenge_id auth = None \<and> ar_signature auth = None
            then gate_begin cfg inp c auth s else gate_verify cfg inp c auth s))"

section \<open>Connect: starting the session\<close>

definition display_store_error :: "step_inputs \<Rightarrow> store_error \<Rightarrow> string" where
  "display_store_error inp e = (case e of
       NotBound \<Rightarrow> ''trusted-device store is not bound to a PC identity''
     | NotSaved \<Rightarrow> in_save_error inp)"

text \<open>Remembering an approved identity; nothing to do for a device that needed no approval.\<close>

definition remember_identity ::
  "step_inputs \<Rightarrow> connect_command \<Rightarrow> verified_identity option \<Rightarrow> 'a desk \<Rightarrow> 'a desk \<times> string option" where
  "remember_identity inp c ident s = (case ident of
       None \<Rightarrow> (s, None)
     | Some identity \<Rightarrow>
       (case trust_device (in_save_ok inp) (cc_device_id c) (cc_device_name c) (vi_public_key identity)
               (dk_trusted s) of
          (t, Inr _) \<Rightarrow> (s\<lparr>dk_trusted := t\<rparr>, None)
        | (t, Inl e) \<Rightarrow> (s\<lparr>dk_trusted := t\<rparr>, Some (display_store_error inp e))))"

definition forget_request :: "string option \<Rightarrow> 'a desk \<Rightarrow> 'a desk" where
  "forget_request approved s = (case approved of
       None \<Rightarrow> s
     | Some request_id \<Rightarrow>
         s\<lparr>dk_authorizer := remove_pending request_id (dk_authorizer s),
           dk_device_auth := remove_pending_pairing request_id (dk_device_auth s)\<rparr>)"

definition connect_start ::
  "'a audio_ops \<Rightarrow> desk_config \<Rightarrow> step_inputs \<Rightarrow> connect_command \<Rightarrow> string option \<Rightarrow>
   verified_identity option \<Rightarrow> 'a desk \<Rightarrow> 'a desk \<times> (string + presence_response)" where
  "connect_start ops cfg inp c approved ident s =
     (case prepare (hex_encode (cf_crypto cfg)) (in_random_token inp) (cc_device_id c)
             (dk_authorizer s) of
        (a, Inl e) \<Rightarrow> (s\<lparr>dk_authorizer := a\<rparr>, Inl e)
      | (a, Inr p) \<Rightarrow>
        (let s1 = s\<lparr>dk_authorizer := a\<rparr>;
             (s5, result) =
              (case register_device ops (in_now inp) (cc_device_id c) (ps_generation p)
                      (cc_device_name c) (set_port AUDIO_UDP (cc_remote_addr c)) (cc_remote_addr c)
                      None (cc_source c) (cc_bitrate c) s1 of
                 (s2, Inl e) \<Rightarrow> (s2, Inl e)
               | (s2, Inr _) \<Rightarrow>
                 (case remember_identity inp c ident s2 of
                    (s3, Some e) \<Rightarrow>
                      (fst (unregister_device ops (cc_device_id c) s3),
                       Inl (''failed to remember the approved device: '' @ e))
                  | (s3, None) \<Rightarrow>
                    (case commit p (dk_authorizer s3) of (a', (token, generation)) \<Rightarrow>
                      (s3\<lparr>dk_authorizer := a'\<rparr>,
                       Inr ((presence cfg inp (Some True))\<lparr>pr_session_token := Some token,
                         pr_session_generation := Some generation,
                         pr_pending_request_id := approved\<rparr>))))) in
         (forget_request approved s5, result)))"

definition handle_connect ::
  "'a audio_ops \<Rightarrow> desk_config \<Rightarrow> step_inputs \<Rightarrow> connect_command \<Rightarrow> 'a desk \<Rightarrow>
   ('a desk \<times> (string + presence_response)) option" where
  "handle_connect ops cfg inp c s = (case connect_gate cfg inp c s of
       None \<Rightarrow> None
     | Some (s1, GateReply r) \<Rightarrow> Some (s1, r)
     | Some (s1, GateProceed approved ident) \<Rightarrow> Some (connect_start ops cfg inp c approved ident s1))"

section \<open>The other commands\<close>

definition handle_disconnect ::
  "'a audio_ops \<Rightarrow> device_id \<Rightarrow> generation option \<Rightarrow> 'a desk \<Rightarrow> 'a desk \<times> (string + unit)" where
  "handle_disconnect ops d gen s =
     (if (case gen of None \<Rightarrow> False | Some g \<Rightarrow> \<not> is_current d g (dk_authorizer s))
      then (s, Inr ())
      else case unregister_device ops d s of
        (s1, Inr _) \<Rightarrow> (s1\<lparr>dk_authorizer := fst (revoke d gen (dk_authorizer s1))\<rparr>, Inr ())
      | (s1, Inl e) \<Rightarrow> (s1, Inl e))"

definition get_platform_sources :: "desk_config \<Rightarrow> sources_response" where
  "get_platform_sources cfg = \<lparr>sr_sources = [Desktop], sr_capabilities = cf_capabilities cfg\<rparr>"

definition refresh :: "nat \<Rightarrow> device_id \<Rightarrow> 'a desk \<Rightarrow> 'a desk \<times> bool" where
  "refresh now d s = (case update_last_seen now d (dk_registry s) of
       (r, found) \<Rightarrow> (s\<lparr>dk_registry := r\<rparr>, found))"

definition handle_probe ::
  "desk_config \<Rightarrow> step_inputs \<Rightarrow> device_id option \<Rightarrow> 'a desk \<Rightarrow> 'a desk \<times> presence_response" where
  "handle_probe cfg inp device s =
     (let (s1, registered) = (case device of
          None \<Rightarrow> (s, None)
        | Some d \<Rightarrow> (case refresh (in_now inp) d s of (s1, found) \<Rightarrow> (s1, Some found))) in
      (s1, (presence cfg inp registered)\<lparr>pr_is_offline := \<not> dk_is_broadcasting s1\<rparr>))"

fun handle_command ::
  "'a audio_ops \<Rightarrow> desk_config \<Rightarrow> step_inputs \<Rightarrow> control_command \<Rightarrow> 'a desk \<Rightarrow>
   ('a desk \<times> control_reply) option" where
  "handle_command ops cfg inp (CmdConnect c) s =
     map_option (\<lambda>(s1, r). (s1, ReplyPresence r)) (handle_connect ops cfg inp c s)"
| "handle_command ops cfg inp (CmdDisconnect d remote gen) s =
     (case handle_disconnect ops d gen s of (s1, r) \<Rightarrow> Some (s1, ReplyUnit r))"
| "handle_command ops cfg inp CmdGetSources s = Some (s, ReplySources (get_platform_sources cfg))"
| "handle_command ops cfg inp (CmdChangeSource d source) s =
     (case audio_call (ao_change_source ops d source) s of (s1, r) \<Rightarrow> Some (s1, ReplyUnit r))"
| "handle_command ops cfg inp (CmdChangeBitrate d bitrate) s =
     (case audio_call (ao_change_bitrate ops d bitrate) s of (s1, r) \<Rightarrow> Some (s1, ReplyUnit r))"
| "handle_command ops cfg inp (CmdSessionHeartbeat d g) s =
     Some (if is_current d g (dk_authorizer s) then fst (refresh (in_now inp) d s) else s, NoReply)"
| "handle_command ops cfg inp (CmdProbe device) s =
     (case handle_probe cfg inp device s of (s1, r) \<Rightarrow> Some (s1, ReplyPresence (Inr r)))"

text \<open>The task spawned for a pairing request, once the user has answered or the dialog timed out.\<close>

definition approval_answered :: "nat \<Rightarrow> string \<Rightarrow> bool \<Rightarrow> 'a desk \<Rightarrow> 'a desk" where
  "approval_answered now request_id approved s =
     s\<lparr>dk_authorizer := fst (resolve_pending now request_id approved (dk_authorizer s))\<rparr>"

text \<open>A discovery probe that arrives on the UDP control port.\<close>

definition inbound_probe :: "nat \<Rightarrow> device_id option \<Rightarrow> 'a desk \<Rightarrow> 'a desk" where
  "inbound_probe now device s = (case device of None \<Rightarrow> s | Some d \<Rightarrow> fst (refresh now d s))"

end
