(* ===== verification/Desk_Tasks.thy ===== *)
theory Desk_Tasks
  imports Control_Dispatcher
begin

text \<open>
  The other tasks of the PC application that act on the shared state: the commands of the tray
  menu (\<open>tasks/command_handler.rs\<close>), the watchdog (\<open>tasks/device_watchdog.rs\<close>), the reaction to a
  failed audio session and the start-up (\<open>background.rs\<close>); then the application as the steps of
  all its tasks in any order.
\<close>

section \<open>Tray commands\<close>

record broadcaster_state =
  bs_running :: bool

definition default_broadcaster :: broadcaster_state where
  "default_broadcaster = \<lparr>bs_running = False\<rparr>"

definition DISCOVERY :: u16 where "DISCOVERY = 23555"

text \<open>The addresses the presence broadcast is sent to besides the broadcast address.\<close>

definition broadcast_targets :: "registry \<Rightarrow> socket_addr list" where
  "broadcast_targets r = List.map_filter (\<lambda>(_, device). case addr_ip (dev_addr device) of
       IpV4 a b c d \<Rightarrow> Some (SocketAddr (IpV4 a b c d) DISCOVERY)
     | IpV6 _ \<Rightarrow> None) (all_devices r)"

text \<open>\<open>created\<close> tells whether \<open>PresenceBroadcaster::new\<close> succeeded.\<close>

definition handle_start_broadcasting ::
  "bool \<Rightarrow> broadcaster_state \<times> 'a desk \<Rightarrow> broadcaster_state \<times> 'a desk" where
  "handle_start_broadcasting created = (\<lambda>(b, s).
     if bs_running b then (b, s)
     else if \<not> created then (b, s)
     else (b\<lparr>bs_running := True\<rparr>, s\<lparr>dk_is_broadcasting := True\<rparr>))"

text \<open>The loop bodies: what is done for every device that was registered.\<close>

definition drop_device :: "'a audio_ops \<Rightarrow> device_id \<Rightarrow> discovered_device \<Rightarrow> 'a desk \<Rightarrow> 'a desk" where
  "drop_device ops d device s =
     notify_device_lost d (dev_addr device)
       (fst (audio_call (ao_unsubscribe ops d) (disconnect_notice d (Some (dev_addr device)) s)))"

definition farewell_device :: "device_id \<Rightarrow> discovered_device \<Rightarrow> 'a desk \<Rightarrow> 'a desk" where
  "farewell_device d device s =
     disconnect_notice d (Some (dev_addr device)) (notify_device_lost d (dev_addr device) s)"

definition handle_stop_broadcasting ::
  "'a audio_ops \<Rightarrow> broadcaster_state \<times> 'a desk \<Rightarrow> broadcaster_state \<times> 'a desk" where
  "handle_stop_broadcasting ops = (\<lambda>(b, s).
     case drain_all (dk_registry s) of (r, devices) \<Rightarrow>
       (b\<lparr>bs_running := False\<rparr>,
        fold (\<lambda>(d, device). drop_device ops d device) devices
          (s\<lparr>dk_is_broadcasting := False, dk_registry := r,
             dk_authorizer := revoke_all (dk_authorizer s),
             dk_device_auth := clear_pending (dk_device_auth s)\<rparr>)))"

definition handle_kick_device :: "'a audio_ops \<Rightarrow> step_inputs \<Rightarrow> device_id \<Rightarrow> 'a desk \<Rightarrow> 'a desk" where
  "handle_kick_device ops inp d s =
     (let addr = get_addr d (dk_registry s);
          s1 = s\<lparr>dk_registry := fst (unregister d (dk_registry s)),
                 dk_authorizer := fst (cancel_pending_for_device (in_now inp) d
                    (fst (revoke d None (dk_authorizer s)))),
                 dk_device_auth := fst (cancel_auth_for_device (in_now inp) d (dk_device_auth s))\<rparr>;
          s2 = (case forget_device (in_save_ok inp) d (dk_trusted s1) of
              (t, Inr _) \<Rightarrow> s1\<lparr>dk_trusted := t\<rparr>
            | (t, Inl e) \<Rightarrow> notify_fatal_error (''Could not persist the removal of '' @ d @
                  ''. It remains revoked until restart; retry the kick before restarting: '' @
                  display_store_error inp e) (s1\<lparr>dk_trusted := t\<rparr>)) in
      disconnect_notice d addr (fst (audio_call (ao_unsubscribe ops d) s2)))"

definition handle_stop_all_streams ::
  "'a audio_ops \<Rightarrow> broadcaster_state \<times> 'a desk \<Rightarrow> broadcaster_state \<times> 'a desk" where
  "handle_stop_all_streams ops = (\<lambda>(b, s).
     case drain_all (dk_registry s) of (r, devices) \<Rightarrow>
       (b\<lparr>bs_running := False\<rparr>,
        fst (audio_call (ao_shutdown ops)
          (fold (\<lambda>(d, device). farewell_device d device) devices
            (s\<lparr>dk_adb_shutdowns := dk_adb_shutdowns s + 1, dk_registry := r,
               dk_authorizer := revoke_all (dk_authorizer s),
               dk_device_auth := clear_pending (dk_device_auth s)\<rparr>)))))"

text \<open>\<open>handle\<close>; the check for updates works on none of this state.\<close>

fun handle_app ::
  "'a audio_ops \<Rightarrow> step_inputs \<Rightarrow> bool \<Rightarrow> app_command \<Rightarrow> broadcaster_state \<times> 'a desk \<Rightarrow>
   broadcaster_state \<times> 'a desk" where
  "handle_app ops inp created StartBroadcasting bs = handle_start_broadcasting created bs"
| "handle_app ops inp created StopBroadcasting bs = handle_stop_broadcasting ops bs"
| "handle_app ops inp created (KickDevice d) bs = (fst bs, handle_kick_device ops inp d (snd bs))"
| "handle_app ops inp created StopAllStreams bs = handle_stop_all_streams ops bs"
| "handle_app ops inp created ExitApp bs = handle_stop_all_streams ops bs"
| "handle_app ops inp created CheckForUpdates bs = bs"

text \<open>
  The receive loop: commands are handled in order and nothing after \<open>ExitApp\<close>. The inputs of the
  n-th command are \<open>inps ! n\<close>.
\<close>

fun app_loop ::
  "'a audio_ops \<Rightarrow> (step_inputs \<times> bool \<times> app_command) list \<Rightarrow> broadcaster_state \<times> 'a desk \<Rightarrow>
   broadcaster_state \<times> 'a desk" where
  "app_loop ops [] bs = bs"
| "app_loop ops ((inp, created, c) # cs) bs =
     (let bs1 = handle_app ops inp created c bs in
      if c = ExitApp then bs1 else app_loop ops cs bs1)"

section \<open>Watchdog and failed sessions\<close>

definition evict_device :: "'a audio_ops \<Rightarrow> device_id \<Rightarrow> socket_addr \<Rightarrow> 'a desk \<Rightarrow> 'a desk" where
  "evict_device ops d addr s =
     (let s1 = fst (audio_call (ao_unsubscribe ops d) (notify_device_lost d addr s)) in
      s1\<lparr>dk_authorizer := fst (revoke d None (dk_authorizer s1))\<rparr>)"

definition evict_stale_devices :: "'a audio_ops \<Rightarrow> nat \<Rightarrow> nat \<Rightarrow> 'a desk \<Rightarrow> 'a desk" where
  "evict_stale_devices ops now timeout s =
     (case evict_stale now timeout (dk_registry s) of (r, stale) \<Rightarrow>
        fold (\<lambda>(d, addr). evict_device ops d addr) stale (s\<lparr>dk_registry := r\<rparr>))"

definition session_failed :: "device_id \<Rightarrow> generation \<Rightarrow> 'a desk \<Rightarrow> 'a desk" where
  "session_failed d g s =
     (if \<not> is_current d g (dk_authorizer s) then s
      else
        let s1 = (case unregister d (dk_registry s) of
              (r, Some device) \<Rightarrow> disconnect_notice d (Some (dev_addr device))
                  (notify_device_lost d (dev_addr device) (s\<lparr>dk_registry := r\<rparr>))
            | (r, None) \<Rightarrow> s\<lparr>dk_registry := r\<rparr>) in
        s1\<lparr>dk_authorizer := fst (revoke d (Some g) (dk_authorizer s1))\<rparr>)"

section \<open>Start-up\<close>

definition new_desk :: "trusted_file \<Rightarrow> 'a \<Rightarrow> 'a desk" where
  "new_desk file audio =
     \<lparr>dk_registry = new_registry, dk_audio = audio, dk_authorizer = default_authorizer,
      dk_device_auth = default_device_auth, dk_trusted = load_store file,
      dk_is_broadcasting = True, dk_tray = [], dk_disconnects = [], dk_adb_shutdowns = 0\<rparr>"

text \<open>Binding the trusted devices to the PC's identity; nothing starts when it cannot be saved.\<close>

definition start_desk :: "bool \<Rightarrow> desk_config \<Rightarrow> trusted_file \<Rightarrow> 'a \<Rightarrow> 'a desk option" where
  "start_desk save_ok cfg file audio =
     (case bind_pc_identity save_ok (cf_fingerprint cfg) (load_store file) of
        (t, True) \<Rightarrow> Some ((new_desk file audio)\<lparr>dk_trusted := t\<rparr>)
      | (t, False) \<Rightarrow> None)"

section \<open>The application\<close>

text \<open>
  A state of the application with the pairing requests the user has said yes to so far. The steps
  are those of all the tasks, in any order; \<open>audio_moves\<close> lets the audio engine act on its own.
\<close>

inductive desk_step ::
  "'a audio_ops \<Rightarrow> desk_config \<Rightarrow> 'a desk \<times> string list \<Rightarrow> 'a desk \<times> string list \<Rightarrow> bool"
  for ops :: "'a audio_ops" and cfg :: desk_config where
  does_command: "handle_command ops cfg inp c s = Some (t, r) \<Longrightarrow> desk_step ops cfg (s, yes) (t, yes)"
| does_answer: "desk_step ops cfg (s, yes)
     (approval_answered now i approved s, if approved then i # yes else yes)"
| does_inbound: "desk_step ops cfg (s, yes) (inbound_probe now d s, yes)"
| does_app: "handle_app ops inp created c (b, s) = (b', t) \<Longrightarrow> desk_step ops cfg (s, yes) (t, yes)"
| does_watchdog: "desk_step ops cfg (s, yes) (evict_stale_devices ops now STALE_TIMEOUT s, yes)"
| does_session_failed: "desk_step ops cfg (s, yes) (session_failed d g s, yes)"
| audio_moves: "desk_step ops cfg (s, yes) (s\<lparr>dk_audio := a\<rparr>, yes)"

inductive_cases desk_stepE: "desk_step ops cfg s t"

end
