(* ===== verification/Desk_Safety.thy ===== *)
theory Desk_Safety
  imports Desk_Tasks
begin

text \<open>
  What the tasks of the PC application guarantee together: the well-formedness of the shared
  state, who gets a session, that trust needs the user's consent, and what a kick leaves.
\<close>

section \<open>Frames: what each helper leaves alone\<close>

lemma frame_tray [simp]:
  "dk_registry (tray e s) = dk_registry s" "dk_authorizer (tray e s) = dk_authorizer s"
  "dk_device_auth (tray e s) = dk_device_auth s" "dk_trusted (tray e s) = dk_trusted s"
  "dk_tray (tray e s) = dk_tray s @ [e]"
  by (simp_all add: tray_def)

lemma frame_notify_lost [simp]:
  "dk_registry (notify_device_lost d a s) = dk_registry s"
  "dk_authorizer (notify_device_lost d a s) = dk_authorizer s"
  "dk_device_auth (notify_device_lost d a s) = dk_device_auth s"
  "dk_trusted (notify_device_lost d a s) = dk_trusted s"
  "ConnectionApproval q \<in> set (dk_tray (notify_device_lost d a s)) \<longleftrightarrow>
     ConnectionApproval q \<in> set (dk_tray s)"
  by (simp_all add: notify_device_lost_def)

lemma frame_notify_discovered [simp]:
  "dk_registry (notify_device_discovered d n a tr s) = dk_registry s"
  "dk_authorizer (notify_device_discovered d n a tr s) = dk_authorizer s"
  "dk_device_auth (notify_device_discovered d n a tr s) = dk_device_auth s"
  "dk_trusted (notify_device_discovered d n a tr s) = dk_trusted s"
  "ConnectionApproval q \<in> set (dk_tray (notify_device_discovered d n a tr s)) \<longleftrightarrow>
     ConnectionApproval q \<in> set (dk_tray s)"
  by (simp_all add: notify_device_discovered_def)

lemma frame_fatal [simp]:
  "dk_registry (notify_fatal_error m s) = dk_registry s"
  "dk_authorizer (notify_fatal_error m s) = dk_authorizer s"
  "dk_device_auth (notify_fatal_error m s) = dk_device_auth s"
  "dk_trusted (notify_fatal_error m s) = dk_trusted s"
  "ConnectionApproval q \<in> set (dk_tray (notify_fatal_error m s)) \<longleftrightarrow>
     ConnectionApproval q \<in> set (dk_tray s)"
  by (simp_all add: notify_fatal_error_def)

lemma frame_disconnect_notice [simp]:
  "dk_registry (disconnect_notice d a s) = dk_registry s"
  "dk_authorizer (disconnect_notice d a s) = dk_authorizer s"
  "dk_device_auth (disconnect_notice d a s) = dk_device_auth s"
  "dk_trusted (disconnect_notice d a s) = dk_trusted s"
  "dk_tray (disconnect_notice d a s) = dk_tray s"
  by (simp_all add: disconnect_notice_def)

lemma frame_audio [simp]:
  "dk_registry (fst (audio_call f s)) = dk_registry s"
  "dk_authorizer (fst (audio_call f s)) = dk_authorizer s"
  "dk_device_auth (fst (audio_call f s)) = dk_device_auth s"
  "dk_trusted (fst (audio_call f s)) = dk_trusted s"
  "dk_tray (fst (audio_call f s)) = dk_tray s"
  by (simp_all add: audio_call_def split: prod.splits)

lemma frame_refresh [simp]:
  "dk_registry (fst (refresh now d s)) = fst (update_last_seen now d (dk_registry s))"
  "dk_authorizer (fst (refresh now d s)) = dk_authorizer s"
  "dk_device_auth (fst (refresh now d s)) = dk_device_auth s"
  "dk_trusted (fst (refresh now d s)) = dk_trusted s"
  "dk_tray (fst (refresh now d s)) = dk_tray s"
  by (simp_all add: refresh_def split: prod.splits)

definition shown :: "'a desk \<Rightarrow> string \<Rightarrow> device_id \<Rightarrow> string \<Rightarrow> bool" where
  "shown s i d fp \<longleftrightarrow> (\<exists>q. ConnectionApproval q \<in> set (dk_tray s) \<and> cq_request_id q = i \<and>
     cq_device_id q = d \<and> cq_key_fingerprint q = fp)"

lemma frame_unregister_device [simp]:
  "dk_registry (fst (unregister_device ops d s)) = fst (unregister d (dk_registry s))"
  "dk_authorizer (fst (unregister_device ops d s)) = dk_authorizer s"
  "dk_device_auth (fst (unregister_device ops d s)) = dk_device_auth s"
  "dk_trusted (fst (unregister_device ops d s)) = dk_trusted s"
  "shown (fst (unregister_device ops d s)) i e fp \<longleftrightarrow> shown s i e fp"
  by (auto simp: unregister_device_def Let_def shown_def split: prod.splits option.splits)

lemma register_device_frame:
  assumes "register_device ops now d g name aa ra tr src br s = (t, r)"
  shows "dk_authorizer t = dk_authorizer s" "dk_device_auth t = dk_device_auth s"
    "dk_trusted t = dk_trusted s" "shown t i e fp \<longleftrightarrow> shown s i e fp"
    "dk_registry t = (case r of Inl _ \<Rightarrow> dk_registry s
       | Inr _ \<Rightarrow> fst (register (from_presence d name False aa tr now) (dk_registry s)))"
  using assms
  by (auto simp: register_device_def audio_call_def Let_def shown_def
      split: prod.splits sum.splits registration_outcome.splits if_splits)

section \<open>Requests and pairings\<close>

definition approved_at :: "authorizer \<Rightarrow> string \<Rightarrow> device_id \<Rightarrow> bool" where
  "approved_at a i d \<longleftrightarrow> (\<exists>r. hm_get (au_pending a) i = Some r \<and> pa_device_id r = d \<and>
     pa_status r = Approved)"

definition held_at :: "device_auth \<Rightarrow> string \<Rightarrow> device_id \<Rightarrow> verified_identity \<Rightarrow> bool" where
  "held_at m i d ident \<longleftrightarrow> (\<exists>p. hm_get (da_pairings m) i = Some p \<and> pp_device_id p = d \<and>
     pp_identity p = ident)"

lemma approved_prune: "authorizer_ok a \<Longrightarrow> approved_at (prune_pending now a) i d \<Longrightarrow> approved_at a i d"
  by (auto simp: approved_at_def dest: approvals.pruned_is_live)

lemma approved_fewer:
  "authorizer_ok a \<Longrightarrow> approved_at (a\<lparr>au_pending := hm_retain P (au_pending a)\<rparr>) i d \<Longrightarrow> approved_at a i d"
  by (auto simp: approved_at_def authorizer_ok_def hm_get_retain split: option.splits if_splits)

lemma approved_create:
  assumes "authorizer_ok a" "approved_at (fst (create_pending hex random now e a)) i d"
  shows "approved_at a i d"
proof (cases "pending_request_id hex random")
  case (Inr rid)
  let ?a1 = "prune_pending now a"
  from assms(2) Inr have "approved_at (?a1\<lparr>au_pending := hm_retain (\<lambda>_ r. pa_device_id r \<noteq> e) (au_pending ?a1)\<rparr>) i d"
    by (auto simp: create_pending_def Let_def approved_at_def split: if_splits)
  with assms(1) show ?thesis
    by (blast intro: approved_prune approved_fewer authorizer_ok_steps)
qed (use assms in \<open>simp add: create_pending_def\<close>)

lemma approved_status:
  "authorizer_ok a \<Longrightarrow> approved_at (fst (pending_status now j e a)) i d \<Longrightarrow> approved_at a i d"
  by (simp add: pending_status_def Let_def approved_prune)

lemma approved_remove: "approved_at (remove_pending j a) i d \<Longrightarrow> approved_at a i d"
  by (auto simp: approved_at_def remove_pending_def split: if_splits)

lemma approved_cancel:
  "authorizer_ok a \<Longrightarrow> approved_at (fst (cancel_pending_for_device now e a)) i d \<Longrightarrow> approved_at a i d"
  by (auto simp: cancel_pending_for_device_def Let_def
      intro: approved_prune approved_fewer authorizer_ok_steps)

lemma approved_resolve:
  assumes "authorizer_ok a" "approved_at (fst (resolve_pending now j ok a)) i d"
  shows "approved_at a i d \<or> (j = i \<and> ok)"
  using assms approved_prune [OF assms(1), of now i d]
  by (auto simp: resolve_pending_def approved_at_def Let_def split: option.splits if_splits)

lemma approved_sessions [simp]:
  "approved_at (fst (revoke d g a)) i e \<longleftrightarrow> approved_at a i e"
  "approved_at (fst (commit p a)) i e \<longleftrightarrow> approved_at a i e"
  "approved_at (fst (prepare hex random d a)) i e \<longleftrightarrow> approved_at a i e"
  "\<not> approved_at (revoke_all a) i e"
  by (auto simp: approved_at_def revoke_def commit_def prepare_def revoke_all_def Let_def
      split: sum.splits)

lemma status_approved:
  "authorizer_ok a \<Longrightarrow> snd (pending_status now i d a) = Some Approved \<Longrightarrow> approved_at a i d"
  by (auto simp: pending_status_def Let_def approved_at_def split: option.splits if_splits
      dest: approvals.pruned_is_live)

lemma held_prune: "device_auth_ok m \<Longrightarrow> held_at (prune_expired now m) i d v \<Longrightarrow> held_at m i d v"
  by (auto simp: held_at_def dest: pairings.pruned_is_live)

lemma held_begin:
  assumes "device_auth_ok m" "begin_challenge c r16 r32 now e p fp ra key nonce m = Some (m', r)"
    and "held_at m' i d v"
  shows "held_at m i d v"
  using assms held_prune [OF assms(1), of now i d v]
  by (auto simp: begin_challenge_def Let_def held_at_def split: sum.splits option.splits if_splits)

lemma held_verify:
  assumes "device_auth_ok m" "verify_challenge c now e p fp auth m = Some (m', r)" "held_at m' i d v"
  shows "held_at m i d v"
  using verify_challenge_state [OF assms(2)] assms(3) held_prune [OF assms(1), of now i d v]
  by (auto simp: held_at_def)

lemma held_pairing_for:
  assumes "device_auth_ok m" "pending_pairing_for now j e key m = (m', r)"
  shows "(held_at m' i d v \<longrightarrow> held_at m i d v) \<and>
    (r = Some ident \<longrightarrow> held_at m j e ident \<and> vi_public_key ident = key)"
  using assms held_prune [OF assms(1), of now]
  by (auto simp: pending_pairing_for_def Let_def held_at_def split: option.splits if_splits)

lemma held_hold:
  assumes "device_auth_ok m" "held_at (hold_pending_pairing now j e ident m) i d v"
  shows "held_at m i d v \<or> (i = j \<and> d = e \<and> v = ident)"
  using assms held_prune [OF assms(1), of now i d v]
  by (auto simp: hold_pending_pairing_def Let_def held_at_def split: if_splits)

lemma held_remove: "held_at (remove_pending_pairing j m) i d v \<Longrightarrow> held_at m i d v"
  by (auto simp: held_at_def remove_pending_pairing_def split: if_splits)

lemma held_cancel:
  assumes "device_auth_ok m" "held_at (fst (cancel_auth_for_device now e m)) i d v"
  shows "held_at m i d v"
proof -
  have "hm_wf (da_pairings (prune_expired now m))"
    using prune_expired_ok [OF assms(1), of now] by (simp add: device_auth_ok_def)
  with assms(2) have "held_at (prune_expired now m) i d v"
    by (auto simp: cancel_auth_for_device_def Let_def held_at_def hm_get_retain
        split: option.splits if_splits)
  with assms(1) show ?thesis by (rule held_prune)
qed

lemma held_clear [simp]: "\<not> held_at (clear_pending m) i d v"
  by (simp add: held_at_def clear_pending_def)

lemma verified_fingerprint:
  "verify_challenge c now d p fp auth m = Some (m', Inr ident) \<Longrightarrow>
   device_public_key_fingerprint c (vi_public_key ident) = Inr (vi_fingerprint ident)"
  by (auto simp: verify_challenge_def Let_def split: option.splits sum.splits if_splits)

section \<open>Invariants of the shared state\<close>

definition desk_ok :: "'a desk \<Rightarrow> bool" where
  "desk_ok s \<longleftrightarrow> authorizer_ok (dk_authorizer s) \<and> device_auth_ok (dk_device_auth s) \<and>
     registry_ok (dk_registry s) \<and> store_inv (dk_trusted s)"

text \<open>Every pairing that waits for the user was shown to the user under its own key.\<close>

definition pairings_shown :: "desk_config \<Rightarrow> 'a desk \<Rightarrow> bool" where
  "pairings_shown cfg s \<longleftrightarrow> (\<forall>i d v. held_at (dk_device_auth s) i d v \<longrightarrow>
     shown s i d (vi_fingerprint v) \<and>
     device_public_key_fingerprint (cf_crypto cfg) (vi_public_key v) = Inr (vi_fingerprint v))"

text \<open>What the gate of a connect may do to the state.\<close>

definition gate_keeps :: "desk_config \<Rightarrow> 'a desk \<Rightarrow> 'a desk \<Rightarrow> bool" where
  "gate_keeps cfg s t \<longleftrightarrow> desk_ok t \<and> dk_registry t = dk_registry s \<and> dk_trusted t = dk_trusted s \<and>
     au_sessions (dk_authorizer t) = au_sessions (dk_authorizer s) \<and>
     (\<forall>i d. approved_at (dk_authorizer t) i d \<longrightarrow> approved_at (dk_authorizer s) i d) \<and>
     (\<forall>i d fp. shown s i d fp \<longrightarrow> shown t i d fp) \<and>
     (pairings_shown cfg s \<longrightarrow> pairings_shown cfg t)"

lemma gate_keeps_refl: "desk_ok s \<Longrightarrow> gate_keeps cfg s s"
  by (simp add: gate_keeps_def)

lemma remove_pairing_ok [simp]: "device_auth_ok m \<Longrightarrow> device_auth_ok (remove_pending_pairing i m)"
  by (rule device_auth_step_ok [OF da_remove])

lemma pairing_for_ok:
  "device_auth_ok m \<Longrightarrow> pending_pairing_for now i d k m = (m', r) \<Longrightarrow> device_auth_ok m'"
  using device_auth_step_ok [OF da_status, of m now i d k] by simp

lemma sessions_status [simp]:
  "au_sessions (fst (pending_status now i d a)) = au_sessions a"
  "au_sessions (remove_pending i a) = au_sessions a"
  "au_sessions (fst (cancel_pending_for_device now d a)) = au_sessions a"
  "au_sessions (fst (resolve_pending now i ok a)) = au_sessions a"
  by (simp_all add: pending_status_def remove_pending_def cancel_pending_for_device_def
      resolve_pending_def Let_def split: option.splits)

text \<open>A gate that only replaces the challenges and requests, and shows nothing.\<close>

lemma gate_keeps_swap:
  assumes "desk_ok s" "device_auth_ok m" "authorizer_ok a"
    and "au_sessions a = au_sessions (dk_authorizer s)"
    and "\<And>i d. approved_at a i d \<Longrightarrow> approved_at (dk_authorizer s) i d"
    and "\<And>i d v. held_at m i d v \<Longrightarrow> held_at (dk_device_auth s) i d v"
  shows "gate_keeps cfg s (s\<lparr>dk_device_auth := m, dk_authorizer := a\<rparr>)"
  using assms unfolding gate_keeps_def desk_ok_def pairings_shown_def shown_def by simp blast

lemma gate_keeps_device_auth:
  assumes "desk_ok s" "device_auth_ok m"
    and "\<And>i d v. held_at m i d v \<Longrightarrow> held_at (dk_device_auth s) i d v"
  shows "gate_keeps cfg s (s\<lparr>dk_device_auth := m\<rparr>)"
  using assms unfolding gate_keeps_def desk_ok_def pairings_shown_def shown_def by simp blast

lemma desk_update_swap:
  "s\<lparr>dk_authorizer := a, dk_device_auth := m\<rparr> = s\<lparr>dk_device_auth := m, dk_authorizer := a\<rparr>"
  by simp

lemma gate_pending_keeps:
  assumes ok: "desk_ok s" and g: "gate_pending cfg inp c i s = (t, gr)"
  shows "gate_keeps cfg s t"
proof (cases "cc_device_auth c")
  case None
  with g ok show ?thesis by (simp add: gate_pending_def gate_keeps_refl)
next
  case (Some auth)
  obtain m r where p: "pending_pairing_for (in_now inp) i (cc_device_id c) (ar_public_key auth)
      (dk_device_auth s) = (m, r)" by fastforce
  obtain a st where q: "pending_status (in_now inp) i (cc_device_id c) (dk_authorizer s) = (a, st)"
    by fastforce
  have oks: "device_auth_ok (dk_device_auth s)" "authorizer_ok (dk_authorizer s)"
    using ok by (simp_all add: desk_ok_def)
  have m: "device_auth_ok m" "\<And>i d v. held_at m i d v \<Longrightarrow> held_at (dk_device_auth s) i d v"
    using pairing_for_ok [OF oks(1) p] held_pairing_for [OF oks(1) p] by auto
  have a: "authorizer_ok a" "au_sessions a = au_sessions (dk_authorizer s)"
    "\<And>i d. approved_at a i d \<Longrightarrow> approved_at (dk_authorizer s) i d"
    using q oks(2) authorizer_ok_steps(3) [OF oks(2), of "in_now inp" i "cc_device_id c"]
      sessions_status(1) [of "in_now inp" i "cc_device_id c" "dk_authorizer s"]
      approved_status [OF oks(2), of "in_now inp" i "cc_device_id c"] by simp_all
  have K: "gate_keeps cfg s (s\<lparr>dk_device_auth := m, dk_authorizer := a\<rparr>)"
    using ok m(1) a(1, 2) by (rule gate_keeps_swap) (use m a in blast)+
  have R: "gate_keeps cfg s (s\<lparr>dk_device_auth := remove_pending_pairing i m,
      dk_authorizer := remove_pending i a\<rparr>)"
    using ok by (rule gate_keeps_swap)
      (use m a in \<open>auto dest: approved_remove held_remove\<close>)
  have D: "gate_keeps cfg s (s\<lparr>dk_device_auth := m\<rparr>)"
    using ok m by (rule gate_keeps_device_auth)
  show ?thesis
    using g K R D
    by (auto simp: gate_pending_def Some p q Let_def desk_update_swap
        split: option.splits approval_status.splits)
qed

lemma gate_begin_keeps:
  assumes ok: "desk_ok s" and g: "gate_begin cfg inp c auth s = Some (t, gr)"
  shows "gate_keeps cfg s t"
proof -
  have "device_auth_ok (dk_device_auth s)" using ok by (simp add: desk_ok_def)
  with g show ?thesis
    by (auto simp: gate_begin_def Let_def split: option.splits prod.splits sum.splits
        intro!: gate_keeps_device_auth [OF ok] elim: begin_challenge_ok held_begin)
qed

lemma gate_pair_keeps:
  assumes ok: "desk_ok s" and g: "gate_pair cfg inp c ident s = (t, gr)"
    and fp: "device_public_key_fingerprint (cf_crypto cfg) (vi_public_key ident) = Inr (vi_fingerprint ident)"
  shows "gate_keeps cfg s t"
proof -
  let ?r = "create_pending (hex_encode (cf_crypto cfg)) (in_random_request inp) (in_now inp)
    (cc_device_id c) (dk_authorizer s)"
  have oks: "device_auth_ok (dk_device_auth s)" "authorizer_ok (dk_authorizer s)"
    using ok by (simp_all add: desk_ok_def)
  have a: "authorizer_ok (fst ?r)" "au_sessions (fst ?r) = au_sessions (dk_authorizer s)"
    "\<And>i d. approved_at (fst ?r) i d \<Longrightarrow> approved_at (dk_authorizer s) i d"
    using oks(2) approved_create [OF oks(2)] by simp_all
  note h = hold_pending_pairing_ok [OF oks(1)] held_hold [OF oks(1)]
  show ?thesis
  proof (cases "snd ?r")
    case (Inl e)
    then have "?r = (fst ?r, Inl e)" by (metis prod.collapse)
    with g have "t = s\<lparr>dk_authorizer := fst ?r\<rparr>" by (auto simp: gate_pair_def Let_def split: prod.splits)
    with ok a show ?thesis
      unfolding gate_keeps_def desk_ok_def pairings_shown_def shown_def by simp
  next
    case (Inr i)
    then have r: "?r = (fst ?r, Inr i)" by (metis prod.collapse)
    obtain q where t: "t = tray (ConnectionApproval q) (s\<lparr>dk_authorizer := fst ?r, dk_device_auth :=
        hold_pending_pairing (in_now inp) i (cc_device_id c) ident (dk_device_auth s)\<rparr>)"
      "cq_request_id q = i" "cq_device_id q = cc_device_id c" "cq_key_fingerprint q = vi_fingerprint ident"
      using g by (subst (asm) gate_pair_def, subst (asm) r) (auto simp: Let_def)
    have "shown t i (cc_device_id c) (vi_fingerprint ident)"
      using t by (auto simp: shown_def)
    moreover have mono: "shown s j d fp \<Longrightarrow> shown t j d fp" for j d fp
      by (auto simp: t(1) shown_def)
    ultimately have "pairings_shown cfg s \<Longrightarrow> pairings_shown cfg t"
      using h(2) [of "in_now inp" i "cc_device_id c" ident] fp
      by (fastforce simp: pairings_shown_def t(1))
    with ok a h(1) mono show ?thesis
      unfolding gate_keeps_def desk_ok_def by (simp add: t(1))
  qed
qed

lemma gate_keeps_trans: "gate_keeps cfg s t \<Longrightarrow> gate_keeps cfg t u \<Longrightarrow> gate_keeps cfg s u"
  by (simp add: gate_keeps_def)

lemma gate_verify_keeps:
  assumes ok: "desk_ok s" and g: "gate_verify cfg inp c auth s = Some (t, gr)"
  shows "gate_keeps cfg s t"
proof -
  have da: "device_auth_ok (dk_device_auth s)" using ok by (simp add: desk_ok_def)
  obtain m r where v: "verify_challenge (cf_crypto cfg) (in_now inp) (cc_device_id c) (cf_streamer_id cfg)
      (cf_fingerprint cfg) auth (dk_device_auth s) = Some (m, r)"
    using g by (auto simp: gate_verify_def split: option.splits)
  have K: "gate_keeps cfg s (s\<lparr>dk_device_auth := m\<rparr>)"
    using ok verify_challenge_ok [OF da v] held_verify [OF da v] by (rule gate_keeps_device_auth)
  then have ok1: "desk_ok (s\<lparr>dk_device_auth := m\<rparr>)" by (simp add: gate_keeps_def)
  show ?thesis
  proof (cases r)
    case (Inr ident)
    note P = gate_pair_keeps [OF ok1 _ verified_fingerprint [OF v [unfolded Inr]], of inp c]
    show ?thesis
      using g K gate_keeps_trans [OF K P]
      by (auto simp: gate_verify_def v Inr Let_def split: if_splits option.splits bool.splits)
  qed (use g K v in \<open>auto simp: gate_verify_def\<close>)
qed

lemma connect_gate_keeps:
  assumes "desk_ok s" "connect_gate cfg inp c s = Some (t, gr)"
  shows "gate_keeps cfg s t"
  using assms
  by (auto simp: connect_gate_def split: if_splits option.splits
      intro: gate_keeps_refl gate_pending_keeps gate_begin_keeps gate_verify_keeps)

end
