(* ===== verification/Desk_Connect.thy ===== *)
theory Desk_Connect
  imports Desk_Safety
begin

text \<open>
  What a connect does: who passes its gate, what the start of a session changes, and the
  properties of sessions, consent, kicks and late cleanups over all the tasks of the application.
\<close>

section \<open>Who passes the gate\<close>

text \<open>
  A connect may start a session when the transport has already authorised it (a session token or
  an ADB link), when it names a pairing request of this device that the user approved and that
  was opened with the key it presents, or when it answers a challenge with a key that is trusted
  for this device.
\<close>

definition permitted :: "desk_config \<Rightarrow> step_inputs \<Rightarrow> connect_command \<Rightarrow> 'a desk \<Rightarrow> bool" where
  "permitted cfg inp c s \<longleftrightarrow> cc_authorized c \<or>
     (\<exists>i auth v. cc_pending_request_id c = Some i \<and> cc_device_auth c = Some auth \<and>
        approved_at (dk_authorizer s) i (cc_device_id c) \<and>
        held_at (dk_device_auth s) i (cc_device_id c) v \<and> vi_public_key v = ar_public_key auth) \<or>
     (\<exists>auth m v. cc_pending_request_id c = None \<and> cc_device_auth c = Some auth \<and>
        ar_phone_confirmation auth = None \<and>
        verify_challenge (cf_crypto cfg) (in_now inp) (cc_device_id c) (cf_streamer_id cfg)
          (cf_fingerprint cfg) auth (dk_device_auth s) = Some (m, Inr v) \<and>
        is_trusted (cc_device_id c) (vi_public_key v) (dk_trusted s))"

lemma gate_pending_proceeds:
  assumes ok: "desk_ok s" and g: "gate_pending cfg inp c i s = (t, GateProceed appr ident)"
  shows "\<exists>auth v. cc_device_auth c = Some auth \<and> appr = Some i \<and> ident = Some v \<and>
    approved_at (dk_authorizer s) i (cc_device_id c) \<and>
    held_at (dk_device_auth s) i (cc_device_id c) v \<and> vi_public_key v = ar_public_key auth"
proof -
  have oks: "device_auth_ok (dk_device_auth s)" "authorizer_ok (dk_authorizer s)"
    using ok by (simp_all add: desk_ok_def)
  from g obtain auth m v a where
    A: "cc_device_auth c = Some auth" "appr = Some i" "ident = Some v"
    "pending_pairing_for (in_now inp) i (cc_device_id c) (ar_public_key auth) (dk_device_auth s) = (m, Some v)"
    "pending_status (in_now inp) i (cc_device_id c) (dk_authorizer s) = (a, Some Approved)"
    by (auto simp: gate_pending_def Let_def split: option.splits prod.splits approval_status.splits)
  from held_pairing_for [OF oks(1) A(4)] status_approved [OF oks(2), of "in_now inp" i "cc_device_id c"] A
  show ?thesis by simp
qed

lemma gate_verify_proceeds:
  "gate_verify cfg inp c auth s = Some (t, GateProceed appr ident) \<Longrightarrow>
   appr = None \<and> ident = None \<and> ar_phone_confirmation auth = None \<and>
   (\<exists>m v. verify_challenge (cf_crypto cfg) (in_now inp) (cc_device_id c) (cf_streamer_id cfg)
      (cf_fingerprint cfg) auth (dk_device_auth s) = Some (m, Inr v) \<and>
      is_trusted (cc_device_id c) (vi_public_key v) (dk_trusted s))"
  by (auto simp: gate_verify_def gate_pair_def Let_def
      split: option.splits sum.splits if_splits bool.splits prod.splits)

lemma gate_begin_replies: "gate_begin cfg inp c auth s \<noteq> Some (t, GateProceed appr ident)"
  by (auto simp: gate_begin_def Let_def split: option.splits prod.splits sum.splits)

lemma connect_gate_cases:
  assumes "connect_gate cfg inp c s = Some (t, GateProceed appr ident)"
  obtains (authorized) "cc_authorized c" "appr = None" "ident = None" "t = s"
  | (request) i where "cc_pending_request_id c = Some i"
      "gate_pending cfg inp c i s = (t, GateProceed appr ident)"
  | (challenge) auth where "cc_pending_request_id c = None" "cc_device_auth c = Some auth"
      "gate_verify cfg inp c auth s = Some (t, GateProceed appr ident)"
  using assms
  by (auto simp: connect_gate_def gate_begin_replies split: if_splits option.splits)

lemma connect_gate_proceeds:
  assumes ok: "desk_ok s" and g: "connect_gate cfg inp c s = Some (t, GateProceed appr ident)"
  shows "permitted cfg inp c s \<and> (\<forall>v. ident = Some v \<longrightarrow> (\<exists>i. appr = Some i \<and>
      approved_at (dk_authorizer s) i (cc_device_id c) \<and>
      held_at (dk_device_auth s) i (cc_device_id c) v))"
  using g
proof (cases rule: connect_gate_cases)
  case authorized
  then show ?thesis by (simp add: permitted_def)
next
  case (request i)
  from gate_pending_proceeds [OF ok request(2)] request(1) show ?thesis
    unfolding permitted_def by auto
next
  case (challenge auth)
  from gate_verify_proceeds [OF challenge(3)] challenge(1, 2) show ?thesis
    unfolding permitted_def by auto
qed

section \<open>Starting a session\<close>

definition trusted_entry :: "trusted_store \<Rightarrow> device_id \<Rightarrow> string \<Rightarrow> bool" where
  "trusted_entry s d k \<longleftrightarrow> (\<exists>x. hm_get (ts_devices s) d = Some x \<and> td_public_key x = k)"

lemma trusted_is_entry: "is_trusted d k s \<Longrightarrow> trusted_entry s d k"
  by (auto simp: is_trusted_def trusted_entry_def split: option.splits)

lemma trust_entries:
  assumes "trusted_entry (fst (trust_device ok d n key s)) e k"
  shows "trusted_entry s e k \<or> (e = d \<and> k = key)"
proof (cases "ok \<and> ts_fingerprint s \<noteq> None")
  case True
  with assms show ?thesis
    by (auto simp: trusted_entry_def trust_device_ok split: if_splits)
next
  case False
  from trust_device_failed(5) [OF this, of d n key e] assms show ?thesis
    by (simp add: trusted_entry_def)
qed

lemma forget_entries:
  "trusted_entry (fst (forget_device ok d s)) e k \<Longrightarrow> trusted_entry s e k \<and> e \<noteq> d"
  by (rule forget_device_cases [of s d ok]) (auto simp: trusted_entry_def split: if_splits)

lemma bind_entries:
  "trusted_entry (fst (bind_pc_identity ok fp s)) e k \<Longrightarrow> trusted_entry s e k"
  by (auto simp: trusted_entry_def bind_pc_identity_def Let_def save_state_def split: if_splits)

text \<open>The sessions and the registry after a start, by the reply.\<close>

lemma remember_frame:
  assumes "remember_identity inp c ident s = (t, r)"
  shows "dk_registry t = dk_registry s" "dk_authorizer t = dk_authorizer s"
    "dk_device_auth t = dk_device_auth s" "shown t i d fp \<longleftrightarrow> shown s i d fp"
    "store_inv (dk_trusted s) \<Longrightarrow> store_inv (dk_trusted t)"
    "trusted_entry (dk_trusted t) e k \<Longrightarrow> trusted_entry (dk_trusted s) e k \<or>
       (\<exists>v. ident = Some v \<and> e = cc_device_id c \<and> k = vi_public_key v)"
proof -
  have "t = (case ident of None \<Rightarrow> s | Some v \<Rightarrow> s\<lparr>dk_trusted := fst (trust_device (in_save_ok inp)
      (cc_device_id c) (cc_device_name c) (vi_public_key v) (dk_trusted s))\<rparr>)"
    using assms by (auto simp: remember_identity_def split: option.splits prod.splits sum.splits)
  then show "dk_registry t = dk_registry s" "dk_authorizer t = dk_authorizer s"
    "dk_device_auth t = dk_device_auth s" "shown t i d fp \<longleftrightarrow> shown s i d fp"
    "store_inv (dk_trusted s) \<Longrightarrow> store_inv (dk_trusted t)"
    "trusted_entry (dk_trusted t) e k \<Longrightarrow> trusted_entry (dk_trusted s) e k \<or>
       (\<exists>v. ident = Some v \<and> e = cc_device_id c \<and> k = vi_public_key v)"
    by (auto simp: store_inv_trust shown_def split: option.splits dest: trust_entries)
qed

lemma forget_request_frame [simp]:
  "dk_registry (forget_request appr s) = dk_registry s" "dk_trusted (forget_request appr s) = dk_trusted s"
  "dk_tray (forget_request appr s) = dk_tray s" "dk_audio (forget_request appr s) = dk_audio s"
  "au_sessions (dk_authorizer (forget_request appr s)) = au_sessions (dk_authorizer s)"
  "shown (forget_request appr s) i d fp \<longleftrightarrow> shown s i d fp"
  by (auto simp: forget_request_def shown_def split: option.splits)

lemma forget_request_keeps:
  "approved_at (dk_authorizer (forget_request appr s)) i d \<Longrightarrow> approved_at (dk_authorizer s) i d"
  "held_at (dk_device_auth (forget_request appr s)) i d v \<Longrightarrow> held_at (dk_device_auth s) i d v"
  by (auto simp: forget_request_def split: option.splits dest: approved_remove held_remove)

lemma forget_request_ok:
  "authorizer_ok (dk_authorizer s) \<Longrightarrow> authorizer_ok (dk_authorizer (forget_request appr s))"
  "device_auth_ok (dk_device_auth s) \<Longrightarrow> device_auth_ok (dk_device_auth (forget_request appr s))"
  by (auto simp: forget_request_def split: option.splits)

lemma shown_updates [simp]:
  "shown (s\<lparr>dk_authorizer := a\<rparr>) i d fp \<longleftrightarrow> shown s i d fp"
  "shown (s\<lparr>dk_device_auth := m\<rparr>) i d fp \<longleftrightarrow> shown s i d fp"
  "shown (s\<lparr>dk_registry := r\<rparr>) i d fp \<longleftrightarrow> shown s i d fp"
  "shown (s\<lparr>dk_trusted := u\<rparr>) i d fp \<longleftrightarrow> shown s i d fp"
  "shown (s\<lparr>dk_audio := w\<rparr>) i d fp \<longleftrightarrow> shown s i d fp"
  by (simp_all add: shown_def)

text \<open>A start either gives the new session or none, and then leaves the sessions as they were.\<close>

definition started ::
  "connect_command \<Rightarrow> 'a desk \<Rightarrow> 'a desk \<Rightarrow> string + presence_response \<Rightarrow> bool" where
  "started c s t res \<longleftrightarrow> (case res of
     Inl _ \<Rightarrow> au_sessions (dk_authorizer t) = au_sessions (dk_authorizer s) \<and>
       (\<forall>e. hm_get (dk_registry t) e = hm_get (dk_registry s) e \<or>
            e = cc_device_id c \<and> hm_get (dk_registry t) e = None)
   | Inr p \<Rightarrow> (\<exists>tok g. pr_session_token p = Some tok \<and> pr_session_generation p = Some g \<and>
       au_sessions (dk_authorizer t) = hm_insert (cc_device_id c)
         \<lparr>sr_token = tok, sr_generation = g\<rparr> (au_sessions (dk_authorizer s)) \<and>
       (\<forall>e. e \<noteq> cc_device_id c \<longrightarrow> hm_get (dk_registry t) e = hm_get (dk_registry s) e) \<and>
       hm_get (dk_registry t) (cc_device_id c) \<noteq> None))"

definition start_keeps :: "connect_command \<Rightarrow> verified_identity option \<Rightarrow> 'a desk \<Rightarrow> 'a desk \<Rightarrow> bool" where
  "start_keeps c ident s t \<longleftrightarrow> (desk_ok s \<longrightarrow> desk_ok t) \<and>
     (\<forall>i d. approved_at (dk_authorizer t) i d \<longrightarrow> approved_at (dk_authorizer s) i d) \<and>
     (\<forall>i d v. held_at (dk_device_auth t) i d v \<longrightarrow> held_at (dk_device_auth s) i d v) \<and>
     (\<forall>i d fp. shown t i d fp \<longleftrightarrow> shown s i d fp) \<and>
     (\<forall>e k. trusted_entry (dk_trusted t) e k \<longrightarrow> trusted_entry (dk_trusted s) e k \<or>
        (\<exists>v. ident = Some v \<and> e = cc_device_id c \<and> k = vi_public_key v))"

lemma from_presence_id [simp]: "dev_id (from_presence d n off a tr now) = d"
  by (simp add: from_presence_def)

lemma prepare_sessions [simp]: "au_sessions (fst (prepare hex random d a)) = au_sessions a"
  by (simp add: prepare_def Let_def split: sum.splits)

lemma commit_sessions [simp]: "au_sessions (fst (commit p a)) =
  hm_insert (ps_device_id p) \<lparr>sr_token = ps_token p, sr_generation = ps_generation p\<rparr> (au_sessions a)"
  by (simp add: commit_def)

lemma connect_start_effect:
  assumes st: "connect_start ops cfg inp c appr ident s = (t, res)"
  shows "started c s t res \<and> start_keeps c ident s t"
proof -
  let ?d = "cc_device_id c"
  let ?P = "prepare (hex_encode (cf_crypto cfg)) (in_random_token inp) ?d (dk_authorizer s)"
  have P_ok: "authorizer_ok (dk_authorizer s) \<Longrightarrow> authorizer_ok (fst ?P)" by simp
  show ?thesis
  proof (cases "snd ?P")
    case (Inl e)
    then have "?P = (fst ?P, Inl e)" by (metis prod.collapse)
    with st have "t = s\<lparr>dk_authorizer := fst ?P\<rparr>" "res = Inl e"
      by (auto simp: connect_start_def split: prod.splits)
    then show ?thesis
      by (simp add: started_def start_keeps_def desk_ok_def shown_def)
  next
    case (Inr p)
    then have P: "?P = (fst ?P, Inr p)" by (metis prod.collapse)
    have pd: "ps_device_id p = ?d"
      using Inr by (auto simp: prepare_def Let_def split: sum.splits)
    let ?s1 = "s\<lparr>dk_authorizer := fst ?P\<rparr>"
    obtain s2 r where R: "register_device ops (in_now inp) ?d (ps_generation p) (cc_device_name c)
      (set_port AUDIO_UDP (cc_remote_addr c)) (cc_remote_addr c) None (cc_source c) (cc_bitrate c) ?s1
      = (s2, r)" by fastforce
    note F2 = register_device_frame [OF R]
    show ?thesis
    proof (cases r)
      case (Inl e)
      have t: "t = forget_request appr s2" "res = Inl e"
        using st by (subst (asm) connect_start_def, subst (asm) P, simp add: R Inl Let_def)+
      have "desk_ok s \<Longrightarrow> desk_ok t"
        using F2 P_ok by (simp add: desk_ok_def t Inl forget_request_ok)
      then show ?thesis
        using F2 forget_request_keeps [of appr s2]
        by (auto simp: started_def start_keeps_def t Inl shown_def)
    next
      case (Inr u)
      obtain s3 f where M: "remember_identity inp c ident s2 = (s3, f)" by fastforce
      note F3 = remember_frame [OF M]
      show ?thesis
      proof (cases f)
        case (Some e)
        have t: "t = forget_request appr (fst (unregister_device ops ?d s3))"
          and res: "res = Inl (''failed to remember the approved device: '' @ e)"
          using st by (subst (asm) connect_start_def, subst (asm) P, simp add: R Inr M Some Let_def)+
        have "desk_ok s \<Longrightarrow> desk_ok t"
          using F2 F3(1-5) P_ok by (simp add: desk_ok_def t Inr forget_request_ok)
        moreover have "shown t i d fp \<longleftrightarrow> shown s i d fp" for i d fp
          using F2(4) F3(4) by (simp add: t)
        ultimately show ?thesis
          using F2 F3 forget_request_keeps [of appr "fst (unregister_device ops ?d s3)"]
          by (auto simp: started_def start_keeps_def t res Inr unregister_def register_def)
      next
        case None
        have t: "t = forget_request appr (s3\<lparr>dk_authorizer := fst (commit p (dk_authorizer s3))\<rparr>)"
          and res: "res = Inr ((presence cfg inp (Some True))\<lparr>pr_session_token := Some (ps_token p),
             pr_session_generation := Some (ps_generation p), pr_pending_request_id := appr\<rparr>)"
          using st by (subst (asm) connect_start_def, subst (asm) P, simp add: R Inr M None commit_def Let_def)+
        have "desk_ok s \<Longrightarrow> desk_ok t"
          using F2 F3(1-5) P_ok by (simp add: desk_ok_def t Inr forget_request_ok)
        moreover have "shown t i d fp \<longleftrightarrow> shown s i d fp" for i d fp
          using F2(4) F3(4) by (simp add: t)
        ultimately show ?thesis
          using F2 F3 pd forget_request_keeps [of appr "s3\<lparr>dk_authorizer := fst (commit p (dk_authorizer s3))\<rparr>"]
          by (auto simp: started_def start_keeps_def t res Inr register_def)
      qed
    qed
  qed
qed

end
