(* ===== verification/Desk_Properties.thy ===== *)
theory Desk_Properties
  imports Desk_Connect
begin

text \<open>
  The properties of the PC application as a whole, over the steps of all its tasks in any order:
  who gets a session, that a key is trusted only with the user's consent, that every registered
  device has a session, and what a kick and a late cleanup do.
\<close>

section \<open>Steps that add no trust\<close>

definition quiet :: "'a desk \<Rightarrow> 'a desk \<Rightarrow> bool" where
  "quiet s t \<longleftrightarrow> (desk_ok s \<longrightarrow> desk_ok t \<and>
     (\<forall>i d. approved_at (dk_authorizer t) i d \<longrightarrow> approved_at (dk_authorizer s) i d) \<and>
     (\<forall>i d v. held_at (dk_device_auth t) i d v \<longrightarrow> held_at (dk_device_auth s) i d v) \<and>
     (\<forall>i d fp. shown t i d fp \<longleftrightarrow> shown s i d fp) \<and>
     (\<forall>d k. trusted_entry (dk_trusted t) d k \<longrightarrow> trusted_entry (dk_trusted s) d k))"

lemma quiet_refl [simp, intro!]: "quiet s s"
  by (simp add: quiet_def)

lemma quiet_trans: "quiet s t \<Longrightarrow> quiet t u \<Longrightarrow> quiet s u"
  by (simp add: quiet_def)

lemma quiet_fold: "(\<And>x s. quiet s (f x s)) \<Longrightarrow> quiet s (fold f xs s)"
  by (induction xs arbitrary: s) (auto intro: quiet_trans)

lemma quiet_notices [simp, intro]:
  "quiet s (notify_device_lost d a s)" "quiet s (disconnect_notice d b s)"
  "quiet s (notify_fatal_error m s)" "quiet s (fst (audio_call f s))"
  "quiet s (fst (refresh now d s))" "quiet s (fst (unregister_device ops d s))"
  "quiet s (s\<lparr>dk_registry := fst (unregister d (dk_registry s))\<rparr>)"
  "quiet s (s\<lparr>dk_is_broadcasting := w\<rparr>)" "quiet s (s\<lparr>dk_audio := x\<rparr>)"
  by (simp_all add: quiet_def desk_ok_def shown_def)
    (simp add: shown_def [symmetric])

lemma quiet_revoke [simp, intro]:
  "quiet s (s\<lparr>dk_authorizer := fst (revoke d g (dk_authorizer s))\<rparr>)"
  by (simp add: quiet_def desk_ok_def shown_def)

lemma clear_pending_ok [simp]: "device_auth_ok m \<Longrightarrow> device_auth_ok (clear_pending m)"
  by (rule device_auth_step_ok [OF da_clear])

lemma quiet_stop [simp, intro]:
  "quiet s (s\<lparr>dk_is_broadcasting := False, dk_registry := [],
     dk_authorizer := revoke_all (dk_authorizer s), dk_device_auth := clear_pending (dk_device_auth s)\<rparr>)"
  "quiet s (s\<lparr>dk_adb_shutdowns := n, dk_registry := [],
     dk_authorizer := revoke_all (dk_authorizer s), dk_device_auth := clear_pending (dk_device_auth s)\<rparr>)"
  by (simp_all add: quiet_def desk_ok_def shown_def)

lemma quiet_then_revoke:
  "quiet s t \<Longrightarrow> quiet s (t\<lparr>dk_authorizer := fst (revoke d g (dk_authorizer t))\<rparr>)"
  by (rule quiet_trans [OF _ quiet_revoke])

lemma handle_disconnect_state:
  "fst (handle_disconnect ops d gen s) \<in> {s, fst (unregister_device ops d s),
     (fst (unregister_device ops d s))\<lparr>dk_authorizer := fst (revoke d gen
        (dk_authorizer (fst (unregister_device ops d s))))\<rparr>}"
  unfolding handle_disconnect_def
  by (cases "unregister_device ops d s"; cases "snd (unregister_device ops d s)")
    (simp_all split: option.splits)

lemma quiet_disconnect: "quiet s (fst (handle_disconnect ops d g s))"
proof -
  have "quiet s (fst (unregister_device ops d s))" by (rule quiet_notices)
  from this quiet_then_revoke [OF this] handle_disconnect_state [of ops d g s] quiet_refl [of s]
  show ?thesis by auto
qed

lemma quiet_session_failed: "quiet s (session_failed d g s)"
proof -
  define u where "u = (case unregister d (dk_registry s) of
      (r, Some device) \<Rightarrow> disconnect_notice d (Some (dev_addr device))
          (notify_device_lost d (dev_addr device) (s\<lparr>dk_registry := r\<rparr>))
    | (r, None) \<Rightarrow> s\<lparr>dk_registry := r\<rparr>)"
  have "quiet s u"
    using quiet_notices(7) [of s d]
    by (auto simp: u_def unregister_def split: option.split
        intro: quiet_trans [OF quiet_trans [OF _ quiet_notices(1)] quiet_notices(2)])
  moreover have "session_failed d g s = (if is_current d g (dk_authorizer s)
      then u\<lparr>dk_authorizer := fst (revoke d (Some g) (dk_authorizer u))\<rparr> else s)"
    by (simp only: session_failed_def u_def Let_def if_not_P if_P) simp
  ultimately show ?thesis by (simp add: quiet_then_revoke)
qed

lemma quiet_bodies:
  "quiet s (drop_device ops d device s)" "quiet s (farewell_device d device s)"
  "quiet s (evict_device ops d addr s)"
  unfolding drop_device_def farewell_device_def evict_device_def Let_def
  by (rule quiet_trans [OF quiet_trans [OF quiet_notices(2) quiet_notices(4)] quiet_notices(1)]
      quiet_trans [OF quiet_notices(1) quiet_notices(2)]
      quiet_trans [OF quiet_trans [OF quiet_notices(1) quiet_notices(4)] quiet_revoke])+

lemma quiet_watchdog: "quiet s (evict_stale_devices ops now timeout s)"
proof -
  have start: "quiet s (s\<lparr>dk_registry := fst (evict_stale now timeout (dk_registry s))\<rparr>)"
    by (simp add: quiet_def desk_ok_def shown_def)
  have "quiet u ((case x of (d, addr) \<Rightarrow> evict_device ops d addr) u)" for x u
    by (cases x) (simp add: quiet_bodies)
  from quiet_trans [OF start quiet_fold [of "\<lambda>(d, addr). evict_device ops d addr", OF this]]
  show ?thesis by (simp add: evict_stale_devices_def case_prod_beta)
qed

lemma quiet_kick: "quiet s (handle_kick_device ops inp d s)"
proof -
  let ?s1 = "s\<lparr>dk_registry := fst (unregister d (dk_registry s)),
     dk_authorizer := fst (cancel_pending_for_device (in_now inp) d (fst (revoke d None (dk_authorizer s)))),
     dk_device_auth := fst (cancel_auth_for_device (in_now inp) d (dk_device_auth s))\<rparr>"
  let ?f = "forget_device (in_save_ok inp) d (dk_trusted s)"
  let ?s2 = "?s1\<lparr>dk_trusted := fst ?f\<rparr>"
  have "quiet s ?s2"
    using approved_cancel [of "fst (revoke d None (dk_authorizer s))" "in_now inp" d]
      held_cancel [of "dk_device_auth s" "in_now inp" d] store_inv_forget [of "dk_trusted s"]
    by (auto simp: quiet_def desk_ok_def shown_def cancel_auth_ok dest: forget_entries)
  moreover obtain t r where f: "?f = (t, r)" by fastforce
  moreover have "quiet ?s2 u \<Longrightarrow> quiet s (disconnect_notice d a (fst (audio_call h u)))" for u a h
    by (rule quiet_trans [OF quiet_trans [OF quiet_trans [OF \<open>quiet s ?s2\<close>] quiet_notices(4)] quiet_notices(2)])
  ultimately show ?thesis
    by (cases r) (simp_all add: handle_kick_device_def Let_def)
qed

lemma quiet_stop_broadcasting: "quiet s (snd (handle_stop_broadcasting ops (b, s)))"
proof -
  have "quiet u ((case x of (d, device) \<Rightarrow> drop_device ops d device) u)" for x u
    by (cases x) (simp add: quiet_bodies)
  from quiet_trans [OF quiet_stop(1) quiet_fold [of "\<lambda>(d, device). drop_device ops d device", OF this]]
  show ?thesis by (simp add: handle_stop_broadcasting_def drain_all_def)
qed

lemma quiet_stop_all: "quiet s (snd (handle_stop_all_streams ops (b, s)))"
proof -
  have "quiet u ((case x of (d, device) \<Rightarrow> farewell_device d device) u)" for x u
    by (cases x) (simp add: quiet_bodies)
  from quiet_trans [OF quiet_trans [OF quiet_stop(2)
      quiet_fold [of "\<lambda>(d, device). farewell_device d device", OF this]] quiet_notices(4)]
  show ?thesis by (simp add: handle_stop_all_streams_def drain_all_def)
qed

lemma quiet_app: "quiet s (snd (handle_app ops inp created c (b, s)))"
  by (cases c)
    (simp_all add: quiet_kick quiet_stop_broadcasting quiet_stop_all handle_start_broadcasting_def)

section \<open>Trust needs consent\<close>

definition consented ::
  "desk_config \<Rightarrow> trusted_file \<Rightarrow> 'a desk \<times> string list \<Rightarrow> bool" where
  "consented cfg file = (\<lambda>(s, yes). desk_ok s \<and> pairings_shown cfg s \<and>
     (\<forall>i d. approved_at (dk_authorizer s) i d \<longrightarrow> i \<in> set yes) \<and>
     (\<forall>d k. trusted_entry (dk_trusted s) d k \<longrightarrow> trusted_entry (load_store file) d k \<or>
        (\<exists>i fp. i \<in> set yes \<and> shown s i d fp \<and>
           device_public_key_fingerprint (cf_crypto cfg) k = Inr fp)))"

lemma consented_quiet:
  "consented cfg file (s, yes) \<Longrightarrow> quiet s t \<Longrightarrow> consented cfg file (t, yes)"
  by (simp add: consented_def quiet_def pairings_shown_def) blast

lemma consented_gate:
  "consented cfg file (s, yes) \<Longrightarrow> gate_keeps cfg s t \<Longrightarrow> consented cfg file (t, yes)"
  by (simp add: consented_def gate_keeps_def) blast

lemma start_keepsD:
  assumes "start_keeps c ident s t"
  shows "desk_ok s \<Longrightarrow> desk_ok t"
    and "approved_at (dk_authorizer t) i d \<Longrightarrow> approved_at (dk_authorizer s) i d"
    and "held_at (dk_device_auth t) i d v \<Longrightarrow> held_at (dk_device_auth s) i d v"
    and "shown t i d fp \<longleftrightarrow> shown s i d fp"
    and "trusted_entry (dk_trusted t) e k \<Longrightarrow> trusted_entry (dk_trusted s) e k \<or>
      (\<exists>v. ident = Some v \<and> e = cc_device_id c \<and> k = vi_public_key v)"
  using assms unfolding start_keeps_def by blast+

lemma consentedD:
  assumes "consented cfg file (s, yes)"
  shows "desk_ok s" and "pairings_shown cfg s"
    and "approved_at (dk_authorizer s) i d \<Longrightarrow> i \<in> set yes"
    and "trusted_entry (dk_trusted s) d k \<Longrightarrow> trusted_entry (load_store file) d k \<or>
      (\<exists>i fp. i \<in> set yes \<and> shown s i d fp \<and>
         device_public_key_fingerprint (cf_crypto cfg) k = Inr fp)"
  using assms unfolding consented_def prod.case by blast+

lemma pairings_shownD:
  assumes "pairings_shown cfg s" "held_at (dk_device_auth s) i d v"
  shows "shown s i d (vi_fingerprint v)"
    and "device_public_key_fingerprint (cf_crypto cfg) (vi_public_key v) = Inr (vi_fingerprint v)"
  using assms unfolding pairings_shown_def by blast+

lemma gate_keeps_shown: "gate_keeps cfg s t \<Longrightarrow> shown s i d fp \<Longrightarrow> shown t i d fp"
  unfolding gate_keeps_def by blast

lemma consented_start:
  assumes U: "consented cfg file (u, yes)" and S: "start_keeps c ident u t"
    and new: "\<And>v. ident = Some v \<Longrightarrow> \<exists>i fp. i \<in> set yes \<and> shown u i (cc_device_id c) fp \<and>
      device_public_key_fingerprint (cf_crypto cfg) (vi_public_key v) = Inr fp"
  shows "consented cfg file (t, yes)"
proof -
  note S = start_keepsD [OF S] and U = consentedD [OF U]
  have "pairings_shown cfg t"
    using pairings_shownD [OF U(2) S(3)] by (auto simp: pairings_shown_def S(4))
  moreover have "trusted_entry (load_store file) d k \<or> (\<exists>i fp. i \<in> set yes \<and> shown u i d fp \<and>
      device_public_key_fingerprint (cf_crypto cfg) k = Inr fp)"
    if e: "trusted_entry (dk_trusted t) d k" for d k
    using S(5) [OF e]
  proof
    assume "trusted_entry (dk_trusted u) d k"
    then show ?thesis by (rule U(4))
  qed (use new in blast)
  ultimately show ?thesis
    using S(1) [OF U(1)] U(3) [OF S(2)] by (auto simp: consented_def S(4))
qed

lemma approved_identity:
  assumes "desk_ok s" "connect_gate cfg inp c s = Some (t, GateProceed appr (Some v))"
  obtains i where "approved_at (dk_authorizer s) i (cc_device_id c)"
    "held_at (dk_device_auth s) i (cc_device_id c) v"
  using connect_gate_proceeds [OF assms] by auto

lemma consented_connect:
  assumes inv: "consented cfg file (s, yes)" and h: "handle_connect ops cfg inp c s = Some (t, r)"
  shows "consented cfg file (t, yes)"
proof -
  note I = consentedD [OF inv]
  obtain u gr where G: "connect_gate cfg inp c s = Some (u, gr)"
    using h by (auto simp: handle_connect_def split: option.splits)
  note K = connect_gate_keeps [OF I(1) G]
  note U = consented_gate [OF inv K]
  show ?thesis
  proof (cases gr)
    case (GateReply x)
    with U h G show ?thesis by (simp add: handle_connect_def)
  next
    case (GateProceed appr ident)
    have st: "connect_start ops cfg inp c appr ident u = (t, r)"
      using h G GateProceed by (simp add: handle_connect_def)
    show ?thesis
    proof (rule consented_start [OF U connect_start_effect [OF st, THEN conjunct2]])
      fix v assume v: "ident = Some v"
      obtain i where i: "approved_at (dk_authorizer s) i (cc_device_id c)"
        "held_at (dk_device_auth s) i (cc_device_id c) v"
        by (rule approved_identity [OF I(1) G [unfolded GateProceed v]])
      from I(3) [OF i(1)] gate_keeps_shown [OF K pairings_shownD(1) [OF I(2) i(2)]]
        pairings_shownD(2) [OF I(2) i(2)]
      show "\<exists>i fp. i \<in> set yes \<and> shown u i (cc_device_id c) fp \<and>
        device_public_key_fingerprint (cf_crypto cfg) (vi_public_key v) = Inr fp" by blast
    qed
  qed
qed

lemma consented_command:
  assumes inv: "consented cfg file (s, yes)" and h: "handle_command ops cfg inp c s = Some (t, r)"
  shows "consented cfg file (t, yes)"
proof (cases c)
  case (CmdConnect x)
  with h obtain r' where "handle_connect ops cfg inp x s = Some (t, r')" by auto
  from consented_connect [OF inv this] show ?thesis .
next
  case (CmdDisconnect d a g)
  with h have "t = fst (handle_disconnect ops d g s)" by (auto split: prod.splits)
  with consented_quiet [OF inv quiet_disconnect] show ?thesis by simp
next
  case (CmdProbe d)
  with h have "t = s \<or> (\<exists>d. t = fst (refresh (in_now inp) d s))"
    by (auto simp: handle_probe_def Let_def case_prod_beta split: option.splits)
  with consented_quiet [OF inv quiet_notices(5)] inv show ?thesis by auto
next
  case (CmdSessionHeartbeat d g)
  with h inv consented_quiet [OF inv quiet_notices(5)] show ?thesis by (auto split: if_splits)
next
  case (CmdChangeSource d x)
  with h have "t = fst (audio_call (ao_change_source ops d x) s)" by (auto split: prod.splits)
  with consented_quiet [OF inv quiet_notices(4)] show ?thesis by simp
next
  case (CmdChangeBitrate d x)
  with h have "t = fst (audio_call (ao_change_bitrate ops d x) s)" by (auto split: prod.splits)
  with consented_quiet [OF inv quiet_notices(4)] show ?thesis by simp
qed (use h inv in auto)

lemma consented_answer:
  assumes inv: "consented cfg file (s, yes)"
  shows "consented cfg file (approval_answered now i ok s, if ok then i # yes else yes)"
proof -
  have a: "authorizer_ok (dk_authorizer s)" using inv by (simp add: consented_def desk_ok_def)
  let ?t = "approval_answered now i ok s"
  have same: "dk_device_auth ?t = dk_device_auth s" "dk_registry ?t = dk_registry s"
    "dk_trusted ?t = dk_trusted s" "authorizer_ok (dk_authorizer ?t)" "shown ?t j d fp \<longleftrightarrow> shown s j d fp"
    for j d fp
    using a by (simp_all add: approval_answered_def)
  have "approved_at (dk_authorizer ?t) j d \<Longrightarrow> j \<in> set (if ok then i # yes else yes)" for j d
    using approved_resolve [OF a, of now i ok j d] inv by (auto simp: approval_answered_def consented_def)
  moreover have "trusted_entry (load_store file) d k \<or> (\<exists>j fp. j \<in> set (if ok then i # yes else yes) \<and>
      shown s j d fp \<and> device_public_key_fingerprint (cf_crypto cfg) k = Inr fp)"
    if "trusted_entry (dk_trusted s) d k" for d k
  proof -
    have "set yes \<subseteq> set (if ok then i # yes else yes)" by auto
    with inv that show ?thesis unfolding consented_def prod.case by blast
  qed
  ultimately show ?thesis
    using inv by (simp only: consented_def prod.case desk_ok_def pairings_shown_def same) blast
qed

lemma consented_step:
  assumes "desk_step ops cfg x y" "consented cfg file x"
  shows "consented cfg file y"
  using assms
proof (induction rule: desk_step.induct)
  case (does_inbound s yes now d)
  then show ?case
    using consented_quiet [OF _ quiet_notices(5)] by (auto simp: inbound_probe_def split: option.splits)
next
  case (does_app inp created c b s b' t yes)
  then show ?case using consented_quiet [OF _ quiet_app [of s ops inp created c b]] by simp
next
  case (does_answer s yes now i approved)
  then show ?case by (rule consented_answer)
qed (auto intro: consented_command consented_quiet quiet_watchdog quiet_session_failed)

lemma start_desk_consented:
  assumes "start_desk ok cfg file a = Some s"
  shows "consented cfg file (s, [])"
proof -
  have "store_inv (fst (bind_pc_identity ok (cf_fingerprint cfg) (load_store file)))"
    by (rule store_inv_bind [OF store_inv_load])
  moreover have "dk_trusted s = fst (bind_pc_identity ok (cf_fingerprint cfg) (load_store file))"
    "dk_registry s = []" "dk_authorizer s = default_authorizer" "dk_device_auth s = default_device_auth"
    using assms by (auto simp: start_desk_def new_desk_def new_registry_def split: prod.splits bool.splits)
  moreover note toy_default_ok bind_entries [of ok "cf_fingerprint cfg" "load_store file"]
  ultimately show ?thesis
    by (simp add: consented_def desk_ok_def pairings_shown_def held_at_def approved_at_def)
      (simp add: default_device_auth_def default_authorizer_def)
qed

lemma consented_reachable:
  assumes "start_desk ok cfg file a = Some s" "(desk_step ops cfg)\<^sup>*\<^sup>* (s, []) x"
  shows "consented cfg file x"
  using assms(2) by (induction rule: rtranclp_induct)
    (auto intro: start_desk_consented [OF assms(1)] consented_step)

text \<open>
  C1: whatever the devices send and in whatever order the tasks run, a device key is trusted only
  if the file of trusted devices already held it when the application started, or the user said
  yes to a pairing request that was shown for this device with the fingerprint of this key.
\<close>

theorem trust_needs_consent:
  assumes "start_desk ok cfg file a = Some s0" and "(desk_step ops cfg)\<^sup>*\<^sup>* (s0, []) (s, yes)"
    and "is_trusted d k (dk_trusted s)"
  shows "is_trusted d k (load_store file) \<or>
    (\<exists>q fp. ConnectionApproval q \<in> set (dk_tray s) \<and> cq_request_id q \<in> set yes \<and>
       cq_device_id q = d \<and> cq_key_fingerprint q = fp \<and>
       device_public_key_fingerprint (cf_crypto cfg) k = Inr fp)"
proof -
  have "trusted_entry (load_store file) d k \<Longrightarrow> is_trusted d k (load_store file)"
    by (auto simp: trusted_entry_def is_trusted_def load_store_def)
  moreover have "trusted_entry (load_store file) d k \<or> (\<exists>i fp. i \<in> set yes \<and> shown s i d fp \<and>
      device_public_key_fingerprint (cf_crypto cfg) k = Inr fp)"
    using consented_reachable [OF assms(1, 2)] trusted_is_entry [OF assms(3)]
    by (simp add: consented_def)
  ultimately show ?thesis by (auto simp: shown_def)
qed

section \<open>Sessions\<close>

lemma connect_sessions:
  assumes ok: "desk_ok s" and h: "handle_connect ops cfg inp c s = Some (t, r)"
  shows "(case r of Inl _ \<Rightarrow> None | Inr p \<Rightarrow> pr_session_token p) = None \<and>
      au_sessions (dk_authorizer t) = au_sessions (dk_authorizer s) \<and>
      (\<forall>e. hm_get (dk_registry t) e = hm_get (dk_registry s) e \<or>
           e = cc_device_id c \<and> hm_get (dk_registry t) e = None)
    \<or> permitted cfg inp c s \<and> (\<exists>p tok g. r = Inr p \<and> pr_session_token p = Some tok \<and>
        pr_session_generation p = Some g \<and>
        au_sessions (dk_authorizer t) = hm_insert (cc_device_id c)
          \<lparr>sr_token = tok, sr_generation = g\<rparr> (au_sessions (dk_authorizer s)) \<and>
        (\<forall>e. e \<noteq> cc_device_id c \<longrightarrow> hm_get (dk_registry t) e = hm_get (dk_registry s) e) \<and>
        hm_get (dk_registry t) (cc_device_id c) \<noteq> None)"
proof -
  obtain u gr where G: "connect_gate cfg inp c s = Some (u, gr)"
    using h by (auto simp: handle_connect_def split: option.splits)
  have same: "dk_registry u = dk_registry s"
    "au_sessions (dk_authorizer u) = au_sessions (dk_authorizer s)"
    using connect_gate_keeps [OF ok G] by (simp_all add: gate_keeps_def)
  show ?thesis
  proof (cases gr)
    case (GateReply x)
    have "(case x of Inl _ \<Rightarrow> None | Inr p \<Rightarrow> pr_session_token p) = None"
      using G GateReply
      by (auto simp: connect_gate_def gate_pending_def gate_begin_def gate_verify_def gate_pair_def
          presence_def Let_def split: if_splits option.splits prod.splits sum.splits bool.splits
          approval_status.splits)
    with h G GateReply same show ?thesis by (simp add: handle_connect_def)
  next
    case (GateProceed appr ident)
    have "connect_start ops cfg inp c appr ident u = (t, r)"
      using h G GateProceed by (simp add: handle_connect_def)
    from connect_start_effect [OF this, THEN conjunct1, unfolded started_def same]
      connect_gate_proceeds [OF ok G [unfolded GateProceed], THEN conjunct1]
    show ?thesis by (cases r) simp_all
  qed
qed

text \<open>
  C2: a connect hands out a session token only when it is permitted: the transport has authorised
  it, or the user has approved this very request for this device and key, or the device has
  answered a live challenge with a key that is trusted for it and asked for no new pairing. The
  token then authenticates this device, and no other device's session changes; any other reply
  leaves every session as it was.
\<close>

theorem session_needs_permission:
  assumes "desk_ok s" and "handle_connect ops cfg inp c s = Some (t, r)"
  shows "case (case r of Inl _ \<Rightarrow> None | Inr p \<Rightarrow> pr_session_token p) of
      None \<Rightarrow> au_sessions (dk_authorizer t) = au_sessions (dk_authorizer s)
    | Some tok \<Rightarrow> permitted cfg inp c s \<and>
        (\<exists>g. authenticate (cc_device_id c) tok (dk_authorizer t) =
           Some \<lparr>as_device_id = cc_device_id c, as_generation = g\<rparr>) \<and>
        get_addr (cc_device_id c) (dk_registry t) \<noteq> None \<and>
        (\<forall>e. e \<noteq> cc_device_id c \<longrightarrow>
           session_generation (dk_authorizer t) e = session_generation (dk_authorizer s) e)"
  using connect_sessions [OF assms]
proof (elim disjE conjE exE)
  fix p tok g
  assume "permitted cfg inp c s" "r = Inr p" "pr_session_token p = Some tok"
    "au_sessions (dk_authorizer t) = hm_insert (cc_device_id c)
       \<lparr>sr_token = tok, sr_generation = g\<rparr> (au_sessions (dk_authorizer s))"
    "hm_get (dk_registry t) (cc_device_id c) \<noteq> None"
  then show ?thesis by (simp add: authenticate_def session_generation_def get_addr_def)
qed simp

section \<open>Registered devices have a session\<close>

definition covered :: "'a desk \<Rightarrow> bool" where
  "covered s \<longleftrightarrow> (\<forall>d. hm_get (dk_registry s) d \<noteq> None \<longrightarrow>
     hm_get (au_sessions (dk_authorizer s)) d \<noteq> None)"

lemma covered_cong:
  "covered s \<Longrightarrow> dk_registry t = dk_registry s \<Longrightarrow>
   au_sessions (dk_authorizer t) = au_sessions (dk_authorizer s) \<Longrightarrow> covered t"
  by (simp add: covered_def)

lemma covered_refresh: "covered s \<Longrightarrow> covered (fst (refresh now d s))"
  by (auto simp: covered_def update_last_seen_def split: option.splits if_splits)

lemma covered_fewer:
  "covered s \<Longrightarrow> dk_registry t = fst (unregister d (dk_registry s)) \<Longrightarrow>
   (\<And>e. e \<noteq> d \<Longrightarrow> hm_get (au_sessions (dk_authorizer t)) e = hm_get (au_sessions (dk_authorizer s)) e) \<Longrightarrow>
   covered t"
  by (auto simp: covered_def unregister_def split: if_splits)

lemma revoke_sessions: "e \<noteq> d \<Longrightarrow> hm_get (au_sessions (fst (revoke d g a))) e = hm_get (au_sessions a) e"
  by (simp add: revoke_def)

lemma covered_disconnect: "covered s \<Longrightarrow> covered (fst (handle_disconnect ops d g s))"
  using handle_disconnect_state [of ops d g s]
  by (auto intro: covered_fewer [of s _ d] simp: revoke_sessions)

lemma covered_session_failed: "covered s \<Longrightarrow> covered (session_failed d g s)"
  by (auto simp: session_failed_def Let_def intro!: covered_fewer [of s _ d] split: prod.splits option.splits)
    (auto simp: unregister_def revoke_sessions)

lemma covered_kick: "covered s \<Longrightarrow> covered (handle_kick_device ops inp d s)"
  by (rule covered_fewer [of s _ d])
    (auto simp: handle_kick_device_def Let_def revoke_sessions split: prod.splits sum.splits)

lemma frame_bodies [simp]:
  "dk_registry (drop_device ops d x s) = dk_registry s"
  "dk_registry (farewell_device d x s) = dk_registry s"
  "dk_registry (evict_device ops d a s) = dk_registry s"
  "dk_authorizer (drop_device ops d x s) = dk_authorizer s"
  "dk_authorizer (farewell_device d x s) = dk_authorizer s"
  "dk_authorizer (evict_device ops d a s) = fst (revoke d None (dk_authorizer s))"
  by (simp_all add: drop_device_def farewell_device_def evict_device_def Let_def)

lemma frame_folds [simp]:
  "dk_registry (fold (\<lambda>(d, x). drop_device ops d x) xs s) = dk_registry s"
  "dk_registry (fold (\<lambda>(d, x). farewell_device d x) xs s) = dk_registry s"
  "dk_registry (fold (\<lambda>(d, a). evict_device ops d a) ys s) = dk_registry s"
  "dk_authorizer (fold (\<lambda>(d, x). drop_device ops d x) xs s) = dk_authorizer s"
  "dk_authorizer (fold (\<lambda>(d, x). farewell_device d x) xs s) = dk_authorizer s"
  by (induction xs arbitrary: s; induction ys arbitrary: s; auto)+

lemma evicted_sessions:
  "hm_get (au_sessions (dk_authorizer (fold (\<lambda>(d, a). evict_device ops d a) ys s))) e =
     (if e \<in> fst ` set ys then None else hm_get (au_sessions (dk_authorizer s)) e)"
  by (induction ys arbitrary: s) (auto simp: revoke_def)

lemma covered_watchdog:
  assumes "covered s" "registry_ok (dk_registry s)"
  shows "covered (evict_stale_devices ops now timeout s)"
proof -
  let ?r = "dk_registry s"
  have "hm_get ?r d \<noteq> None \<and> d \<notin> fst ` set (snd (evict_stale now timeout ?r))"
    if "hm_get (fst (evict_stale now timeout ?r)) d \<noteq> None" for d
  proof -
    from that obtain x where x: "hm_get ?r d = Some x" "\<not> is_stale now timeout x"
      using assms(2) by (auto simp: evict_stale_def registry_ok_def hm_get_retain split: option.splits if_splits)
    then have "(d, a) \<notin> set (snd (evict_stale now timeout ?r))" for a
      using evicted_exactly [OF assms(2), of d a now timeout] by simp
    with x(1) show ?thesis by auto
  qed
  with assms(1) show ?thesis
    by (auto simp: covered_def evict_stale_devices_def evicted_sessions case_prod_beta)
qed

lemma covered_app: "covered s \<Longrightarrow> covered (snd (handle_app ops inp created c (b, s)))"
  by (cases c)
    (auto simp: covered_kick handle_stop_broadcasting_def handle_stop_all_streams_def drain_all_def
      handle_start_broadcasting_def, auto simp: covered_def)

lemma covered_command:
  assumes cov: "covered s" and ok: "desk_ok s" and h: "handle_command ops cfg inp c s = Some (t, r)"
  shows "covered t"
proof (cases c)
  case (CmdConnect x)
  with h obtain r' where "handle_connect ops cfg inp x s = Some (t, r')" by auto
  from connect_sessions [OF ok this] show ?thesis
  proof (elim disjE conjE exE)
    fix p tok g
    assume "au_sessions (dk_authorizer t) = hm_insert (cc_device_id x)
       \<lparr>sr_token = tok, sr_generation = g\<rparr> (au_sessions (dk_authorizer s))"
      "\<forall>e. e \<noteq> cc_device_id x \<longrightarrow> hm_get (dk_registry t) e = hm_get (dk_registry s) e"
    with cov show ?thesis by (simp add: covered_def)
  next
    assume "au_sessions (dk_authorizer t) = au_sessions (dk_authorizer s)"
      "\<forall>e. hm_get (dk_registry t) e = hm_get (dk_registry s) e \<or>
         e = cc_device_id x \<and> hm_get (dk_registry t) e = None"
    with cov show ?thesis unfolding covered_def by metis
  qed
next
  case (CmdDisconnect d a g)
  with h have "t = fst (handle_disconnect ops d g s)" by (auto split: prod.splits)
  with covered_disconnect [OF cov] show ?thesis by simp
next
  case (CmdProbe d)
  with h have "t = s \<or> (\<exists>d. t = fst (refresh (in_now inp) d s))"
    by (auto simp: handle_probe_def Let_def case_prod_beta split: option.splits)
  with covered_refresh [OF cov] cov show ?thesis by auto
next
  case (CmdSessionHeartbeat d g)
  with h cov covered_refresh [OF cov] show ?thesis by (auto split: if_splits)
next
  case (CmdChangeSource d x)
  with h have "t = fst (audio_call (ao_change_source ops d x) s)" by (auto split: prod.splits)
  with cov show ?thesis by (simp add: covered_def)
next
  case (CmdChangeBitrate d x)
  with h have "t = fst (audio_call (ao_change_bitrate ops d x) s)" by (auto split: prod.splits)
  with cov show ?thesis by (simp add: covered_def)
qed (use h cov in auto)

lemma covered_step:
  assumes "desk_step ops cfg x y" "covered (fst x)" "desk_ok (fst x)"
  shows "covered (fst y)"
  using assms
proof (induction rule: desk_step.induct)
  case (does_inbound s yes now d)
  then show ?case by (auto simp: inbound_probe_def covered_refresh split: option.splits)
next
  case (does_app inp created c b s b' t yes)
  then show ?case using covered_app [of s ops inp created c b] by simp
next
  case (does_watchdog s yes now)
  then show ?case by (simp add: covered_watchdog desk_ok_def)
next
  case (does_answer s yes now i ok)
  then show ?case by (simp add: approval_answered_def covered_def)
qed (auto simp: covered_session_failed intro: covered_command, auto simp: covered_def)

lemma covered_reachable:
  assumes "start_desk ok cfg file a = Some s" "(desk_step ops cfg)\<^sup>*\<^sup>* (s, []) x"
  shows "covered (fst x)"
  using assms(2)
proof (induction rule: rtranclp_induct)
  case base
  then show ?case
    using assms(1) by (auto simp: covered_def start_desk_def new_desk_def new_registry_def
        split: prod.splits bool.splits)
next
  case (step y z)
  have "consented cfg file y" by (rule consented_reachable [OF assms(1) step(1)])
  then have "desk_ok (fst y)" by (simp add: consented_def case_prod_beta)
  with step show ?case by (blast intro: covered_step)
qed


section \<open>Kick\<close>

lemma forget_trust:
  "is_trusted e k (fst (forget_device ok d s)) \<longleftrightarrow> e \<noteq> d \<and> is_trusted e k s"
  by (rule forget_device_cases [of s d ok])
    (auto simp: is_trusted_def revoke_mark_def save_state_def)

lemma kick_state:
  "dk_registry (handle_kick_device ops inp d s) = fst (unregister d (dk_registry s))"
  "dk_authorizer (handle_kick_device ops inp d s) =
     fst (cancel_pending_for_device (in_now inp) d (fst (revoke d None (dk_authorizer s))))"
  "dk_device_auth (handle_kick_device ops inp d s) =
     fst (cancel_auth_for_device (in_now inp) d (dk_device_auth s))"
  "dk_trusted (handle_kick_device ops inp d s) = fst (forget_device (in_save_ok inp) d (dk_trusted s))"
  by (auto simp: handle_kick_device_def Let_def split: prod.splits sum.splits)

lemma cancelled_requests:
  assumes "authorizer_ok a"
  shows "\<not> approved_at (fst (cancel_pending_for_device now d a)) i d"
proof -
  have "hm_wf (au_pending (prune_pending now a))"
    using authorizer_ok_steps(1) [OF assms] by (simp add: authorizer_ok_def)
  then show ?thesis
    by (auto simp: approved_at_def cancel_pending_for_device_def Let_def hm_get_retain
        split: option.splits if_splits)
qed


section \<open>Late cleanups\<close>

text \<open>
  C5: after a connect has given a device the generation \<open>g\<close>, everything that still arrives for
  another generation of this device (a disconnect, a failed audio stream, a heartbeat) leaves
  the whole state exactly as it is, while the failure of generation \<open>g\<close> itself ends the session
  and the registration.
\<close>

theorem late_cleanup_misses:
  assumes "desk_ok s" and "handle_connect ops cfg inp c s = Some (t, Inr p)"
    and "pr_session_generation p = Some g" and "pr_session_token p = Some tok" and "g' \<noteq> g"
  shows "handle_disconnect ops (cc_device_id c) (Some g') t = (t, Inr ()) \<and>
    session_failed (cc_device_id c) g' t = t \<and>
    handle_command ops cfg inp' (CmdSessionHeartbeat (cc_device_id c) g') t = Some (t, NoReply) \<and>
    \<not> has_session (cc_device_id c) (dk_authorizer (session_failed (cc_device_id c) g t)) \<and>
    get_addr (cc_device_id c) (dk_registry (session_failed (cc_device_id c) g t)) = None"
proof -
  have "session_generation (dk_authorizer t) (cc_device_id c) = Some g"
    using connect_sessions [OF assms(1, 2)] assms(3, 4)
    by (elim disjE conjE exE) (simp_all add: session_generation_def)
  then have cur: "is_current (cc_device_id c) x (dk_authorizer t) \<longleftrightarrow> x = g" for x
    by (auto simp: is_current_def)
  have "dk_registry (session_failed (cc_device_id c) g t) = fst (unregister (cc_device_id c) (dk_registry t))"
    "dk_authorizer (session_failed (cc_device_id c) g t) =
       fst (revoke (cc_device_id c) (Some g) (dk_authorizer t))"
    using cur by (auto simp: session_failed_def Let_def split: prod.splits option.splits)
  with assms(5) cur show ?thesis
    by (simp add: handle_disconnect_def session_failed_def get_addr_def unregister_def
        has_session_def revoke_def is_current_def)
qed

section \<open>A run\<close>

definition quiet_audio :: "unit audio_ops" where
  "quiet_audio = \<lparr>ao_subscribe = \<lambda>_ _ _ _ _ a. (a, Inr ()), ao_unsubscribe = \<lambda>_ a. (a, Inr ()),
     ao_change_source = \<lambda>_ _ a. (a, Inr ()), ao_change_bitrate = \<lambda>_ _ a. (a, Inr ()),
     ao_shutdown = \<lambda>a. (a, Inr ())\<rparr>"

definition sample_cfg :: desk_config where
  "sample_cfg = \<lparr>cf_streamer_id = ''desk'', cf_streamer_name = ''Desk'', cf_fingerprint = ''fp'',
     cf_crypto = toy_crypto, cf_capabilities = \<lparr>supports_process_capture = True,
       supports_volume_sync = True\<rparr>\<rparr>"

definition sample_inputs :: step_inputs where
  "sample_inputs = \<lparr>in_now = secs 10, in_volume = None, in_random16 = Inr (as_bytes ''i''),
     in_random32 = Inr (as_bytes ''c''), in_random_request = Inr (as_bytes ''r''),
     in_random_token = Inr (as_bytes ''t''), in_save_ok = True, in_save_error = ''disk''\<rparr>"

definition sample_connect :: connect_command where
  "sample_connect = \<lparr>cc_device_id = ''phone'', cc_device_name = ''Pixel'', cc_source = None,
     cc_remote_addr = SocketAddr (IpV4 10 0 0 2) 40000, cc_bitrate = default_bitrate,
     cc_authorized = True, cc_pending_request_id = None, cc_device_auth = None\<rparr>"

definition sample_desk :: "unit desk" where
  "sample_desk = new_desk sample_file ()"

lemma sample_start: "start_desk True sample_cfg sample_file () = Some sample_desk"
  by (simp add: start_desk_def sample_desk_def new_desk_def sample_cfg_def bind_pc_identity_def
      load_store_def sample_file_def)

lemma sample_desk_ok: "desk_ok sample_desk"
  using start_desk_consented [OF sample_start] by (simp add: consented_def)

lemma sample_connects:
  "\<exists>t p. handle_connect quiet_audio sample_cfg sample_inputs sample_connect sample_desk = Some (t, Inr p) \<and>
     pr_session_token p = Some (hex_encode toy_crypto (as_bytes ''t'')) \<and>
     pr_session_generation p = Some 1 \<and> get_addr ''phone'' (dk_registry t) \<noteq> None"
  by (simp add: handle_connect_def connect_gate_def connect_start_def prepare_def register_device_def
      audio_call_def quiet_audio_def sample_cfg_def sample_inputs_def sample_connect_def sample_desk_def
      new_desk_def default_authorizer_def gen_next_def register_def new_registry_def
      remember_identity_def commit_def forget_request_def presence_def get_addr_def
      notify_device_discovered_def tray_def Let_def)

theorem trust_needs_consent_witness:
  "is_trusted ''phone'' ''k'' (load_store sample_file)"
proof -
  have "is_trusted ''phone'' ''k'' (dk_trusted sample_desk)"
    by (simp add: sample_desk_def new_desk_def sample_file_def load_store_def is_trusted_def
        devices_of_def)
  from trust_needs_consent [OF sample_start rtranclp.rtrancl_refl [of "desk_step quiet_audio sample_cfg"] this]
  show ?thesis by (simp add: sample_desk_def new_desk_def)
qed

theorem session_needs_permission_witness:
  "permitted sample_cfg sample_inputs sample_connect sample_desk"
proof -
  obtain t p where h: "handle_connect quiet_audio sample_cfg sample_inputs sample_connect sample_desk =
      Some (t, Inr p)" "pr_session_token p = Some (hex_encode toy_crypto (as_bytes ''t''))"
    using sample_connects by blast
  from session_needs_permission [OF sample_desk_ok h(1)] h(2) show ?thesis by simp
qed



theorem late_cleanup_misses_witness:
  "\<exists>t :: unit desk. get_addr ''phone'' (dk_registry t) \<noteq> None \<and>
     handle_disconnect quiet_audio ''phone'' (Some 7) t = (t, Inr ())"
proof -
  obtain t p where h: "handle_connect quiet_audio sample_cfg sample_inputs sample_connect sample_desk =
      Some (t, Inr p)" "pr_session_token p = Some (hex_encode toy_crypto (as_bytes ''t''))"
    "pr_session_generation p = Some 1" "get_addr ''phone'' (dk_registry t) \<noteq> None"
    using sample_connects by blast
  have "(7 :: generation) \<noteq> 1" by simp
  from late_cleanup_misses [OF sample_desk_ok h(1, 3, 2) this] h(4)
  show ?thesis by (auto simp: sample_connect_def)
qed

end
