(* ===== verification/Desk_Audio.thy ===== *)
theory Desk_Audio
  imports Stream_Engine Desk_Properties
begin

text \<open>
  The PC application with its audio engine: \<open>ChannelAudioController\<close> (\<open>adapters/audio.rs\<close>) turns
  the operations the tasks call into commands of the engine and waits for their replies. The
  channel is modelled as delivering every command; a closed channel is not.
\<close>

definition engine_audio_ops :: "capture_env \<Rightarrow> engine audio_ops" where
  "engine_audio_ops env =
     \<lparr>ao_subscribe = (\<lambda>d g addr source bitrate e.
          (case engine_handle env (EngSubscribe d g addr source bitrate) e of
             (e1, EngDone r) \<Rightarrow> (e1, r)
           | (e1, _) \<Rightarrow> (e1, Inl ''audio engine dropped the subscribe acknowledgement''))),
      ao_unsubscribe = (\<lambda>d e.
          (case engine_handle env (EngUnsubscribe d) e of
             (e1, EngDone r) \<Rightarrow> (e1, r)
           | (e1, _) \<Rightarrow> (e1, Inl ''audio engine dropped the unsubscribe acknowledgement''))),
      ao_change_source = (\<lambda>d source e.
          (case engine_handle env (EngChangeSource d source) e of
             (e1, EngDone r) \<Rightarrow> (e1, r)
           | (e1, _) \<Rightarrow> (e1, Inl ''audio engine dropped the source acknowledgement''))),
      ao_change_bitrate = (\<lambda>d bitrate e.
          (case engine_handle env (EngChangeBitrate d bitrate) e of
             (e1, EngDone r) \<Rightarrow> (e1, r)
           | (e1, _) \<Rightarrow> (e1, Inl ''audio engine dropped the bitrate acknowledgement''))),
      ao_shutdown = (\<lambda>e.
          (case engine_handle env EngShutdown e of
             (e1, EngDone r) \<Rightarrow> (e1, r)
           | (e1, _) \<Rightarrow> (e1, Inl ''audio engine dropped the shutdown acknowledgement'')))\<rparr>"

lemma engine_audio_ops_simps [simp]:
  "ao_subscribe (engine_audio_ops env) d g addr source bitrate e =
     engine_subscribe env d g addr source bitrate e"
  "ao_unsubscribe (engine_audio_ops env) d e = engine_unsubscribe d e"
  "ao_change_source (engine_audio_ops env) d src e = engine_change_source env d src e"
  "ao_change_bitrate (engine_audio_ops env) d bitrate e = engine_change_bitrate env d bitrate e"
  "ao_shutdown (engine_audio_ops env) e = (engine_shutdown e, Inr ())"
  by (simp_all add: engine_audio_ops_def split: prod.split)

section \<open>What reaches the engine\<close>

lemma audio_updates [simp]:
  "dk_audio (tray ev s) = dk_audio s" "dk_audio (notify_device_lost d a s) = dk_audio s"
  "dk_audio (notify_device_discovered d n a tr s) = dk_audio s"
  "dk_audio (disconnect_notice d b s) = dk_audio s" "dk_audio (notify_fatal_error m s) = dk_audio s"
  by (simp_all add: tray_def notify_device_lost_def notify_device_discovered_def disconnect_notice_def
      notify_fatal_error_def)

lemma audio_call_state [simp]: "dk_audio (fst (audio_call f s)) = fst (f (dk_audio s))"
  by (simp add: audio_call_def split: prod.split)

lemma gate_audio:
  assumes "connect_gate cfg inp c s = Some (u, gr)"
  shows "dk_audio u = dk_audio s"
  using assms
  by (auto simp: connect_gate_def gate_pending_def gate_begin_def gate_verify_def gate_pair_def Let_def
      split: if_splits option.splits prod.splits sum.splits bool.splits approval_status.splits)

lemma register_device_audio:
  assumes "register_device ops now d g name aa ra tr src br s = (t, Inr u)"
  shows "ao_subscribe ops d g (if is_loopback (addr_ip ra) then None else Some aa) src br (dk_audio s) =
    (dk_audio t, Inr u)"
  using assms
  by (auto simp: register_device_def audio_call_def Let_def
      split: prod.splits sum.splits registration_outcome.splits)

lemma connect_start_audio:
  assumes "connect_start ops cfg inp c appr ident s = (t, Inr p)"
  shows "\<exists>g. pr_session_generation p = Some g \<and>
    ao_subscribe ops (cc_device_id c) g
      (if is_loopback (addr_ip (cc_remote_addr c)) then None
       else Some (set_port AUDIO_UDP (cc_remote_addr c)))
      (cc_source c) (cc_bitrate c) (dk_audio s) = (dk_audio t, Inr ())"
proof -
  let ?d = "cc_device_id c"
  let ?P = "prepare (hex_encode (cf_crypto cfg)) (in_random_token inp) ?d (dk_authorizer s)"
  obtain q where P: "?P = (fst ?P, Inr q)"
  proof (cases "snd ?P")
    case (Inl e)
    then have "?P = (fst ?P, Inl e)" by (metis prod.collapse)
    with assms show ?thesis by (auto simp: connect_start_def split: prod.splits)
  qed (metis prod.collapse)
  let ?s1 = "s\<lparr>dk_authorizer := fst ?P\<rparr>"
  obtain s2 r where R: "register_device ops (in_now inp) ?d (ps_generation q) (cc_device_name c)
      (set_port AUDIO_UDP (cc_remote_addr c)) (cc_remote_addr c) None (cc_source c) (cc_bitrate c) ?s1
      = (s2, r)" by fastforce
  show ?thesis
  proof (cases r)
    case (Inl e)
    with assms R show ?thesis
      by (subst (asm) connect_start_def, subst (asm) P) (simp add: Let_def)
  next
    case (Inr u)
    obtain s3 f where M: "remember_identity inp c ident s2 = (s3, f)" by fastforce
    then have "dk_audio s3 = dk_audio s2"
      by (auto simp: remember_identity_def split: option.splits prod.splits sum.splits)
    moreover have "f = None \<and> p = (presence cfg inp (Some True))\<lparr>pr_session_token := Some (ps_token q),
        pr_session_generation := Some (ps_generation q), pr_pending_request_id := appr\<rparr> \<and>
        dk_audio t = dk_audio s3"
      using assms R Inr M
      by (subst (asm) connect_start_def, subst (asm) P)
        (auto simp: Let_def commit_def split: option.splits)
    moreover note register_device_audio [OF R [unfolded Inr]]
    ultimately show ?thesis by simp
  qed
qed

lemma engine_subscribed:
  assumes "engine_subscribe env d g addr source bitrate e = (e', Inr ())"
  shows "hm_get (en_generations e') d = Some g \<and>
    (\<exists>session. hm_get (en_sessions e') d = Some session \<and> ss_target_addr session = addr \<and>
       ss_bitrate session = bitrate)"
  using assms by (auto simp: engine_subscribe_def Let_def split: prod.splits sum.splits)

section \<open>Properties across the application and its engine\<close>



lemma farewells:
  "dk_disconnects (fold (\<lambda>(d, x). farewell_device d x) xs s) =
     dk_disconnects s @ map (\<lambda>(d, x). (d, Some (dev_addr x))) xs"
  "dk_audio (fold (\<lambda>(d, x). farewell_device d x) xs s) = dk_audio s"
  "dk_device_auth (fold (\<lambda>(d, x). farewell_device d x) xs s) = dk_device_auth s"
  by (induction xs arbitrary: s)
    (auto simp: farewell_device_def, auto simp: disconnect_notice_def notify_device_lost_def tray_def)

text \<open>
  Leaving the application stops everything: nobody is registered or has a session, no request
  or challenge is pending, nothing is captured or encoded, and every device that was registered
  has been told, once each, to disconnect.
\<close>

theorem exit_stops_everything:
  "(case handle_app (engine_audio_ops env) inp created ExitApp (b, s) of (b', t) \<Rightarrow>
     dk_registry t = [] \<and> au_sessions (dk_authorizer t) = [] \<and> au_pending (dk_authorizer t) = [] \<and>
     da_challenges (dk_device_auth t) = [] \<and> da_pairings (dk_device_auth t) = [] \<and>
     en_sessions (dk_audio t) = [] \<and> cp_instances (en_pool (dk_audio t)) = [] \<and> \<not> bs_running b' \<and>
     dk_disconnects t = dk_disconnects s @ map (\<lambda>(d, x). (d, Some (dev_addr x))) (dk_registry s) \<and>
     app_loop (engine_audio_ops env) ((inp, created, ExitApp) # cs) (b, s) = (b', t))"
proof -
  have "dk_disconnects (fst (audio_call f x)) = dk_disconnects x" for f and x :: "engine desk"
    by (simp add: audio_call_def split: prod.split)
  then show ?thesis
    by (simp add: handle_stop_all_streams_def drain_all_def farewells revoke_all_def clear_pending_def
        engine_shutdown_def pool_shutdown_all_def Let_def)
qed

section \<open>A run\<close>

definition sample_engine_desk :: "engine desk" where
  "sample_engine_desk = new_desk sample_file (new_engine True)"

lemma sample_engine_start:
  "start_desk True sample_cfg sample_file (new_engine True) = Some sample_engine_desk"
  by (simp add: start_desk_def sample_engine_desk_def new_desk_def sample_cfg_def bind_pc_identity_def
      load_store_def sample_file_def)

lemma sample_engine_desk_ok: "desk_ok sample_engine_desk" "engine_inv (dk_audio sample_engine_desk)"
  using start_desk_consented [OF sample_engine_start]
  by (simp_all add: consented_def) (simp add: sample_engine_desk_def new_desk_def)

lemma sample_engine_subscribes:
  "\<exists>e. engine_subscribe willing_env ''phone'' 1 (Some (SocketAddr (IpV4 10 0 0 2) 23556)) None
     (Some 128000) (new_engine True) = (e, Inr ())"
  by (simp add: new_engine_def new_pool_def engine_subscribe_def pool_subscribe_def
      subscribe_with_channel_def ensure_instance_def spawn_encoder_def spawn_target_encoder_def
      new_instance_def willing_env_def from_wire_def MIN_OPUS_BITRATE_BPS_def MAX_OPUS_BITRATE_BPS_def
      create_codec_def Let_def)

lemma sample_engine_connects:
  "\<exists>t p. handle_connect (engine_audio_ops willing_env) sample_cfg sample_inputs sample_connect
       sample_engine_desk = Some (t, Inr p) \<and>
     pr_session_token p = Some (hex_encode toy_crypto (as_bytes ''t''))"
proof -
  obtain e where "engine_subscribe willing_env ''phone'' 1 (Some (SocketAddr (IpV4 10 0 0 2) 23556)) None
     (Some 128000) (new_engine True) = (e, Inr ())" using sample_engine_subscribes by blast
  then show ?thesis
    by (simp add: handle_connect_def connect_gate_def connect_start_def prepare_def register_device_def
      audio_call_def sample_cfg_def sample_inputs_def sample_connect_def sample_engine_desk_def
      new_desk_def default_authorizer_def gen_next_def register_def new_registry_def default_bitrate_def
      remember_identity_def commit_def forget_request_def presence_def AUDIO_UDP_def set_port_def
      notify_device_discovered_def tray_def Let_def)
qed



end
