(* ===== verification/Streamer_Send.thy ===== *)
theory Streamer_Send
  imports Wire Session_Auth "HOL-Library.Sublist"
begin

text \<open>
  From captured samples to the network: the capture loop that cuts them into frames and the TCP
  encoder loop (\<open>capture_instance.rs\<close>), captured frames and their expiry (\<open>captured_frame.rs\<close>),
  the pacer (\<open>packet_pacer.rs\<close>) and the UDP sender (\<open>udp_audio_sender.rs\<close>).

  Each \<open>select!\<close> loop is a function of the event that its selection delivers. What an external
  part answers is part of the event: the samples the ring held, what Opus makes of a frame, what
  the socket did with a datagram. The samples are IEEE bit patterns.
\<close>

section \<open>Captured frames and the pacer\<close>

record captured_frame =
  fr_samples :: "f32 list"
  fr_position :: u64
  fr_ready_at :: nat

definition FRAME_DURATION :: nat where "FRAME_DURATION = millis 10"
definition MAX_SEND_AGE :: nat where "MAX_SEND_AGE = millis 40"

definition expired :: "nat \<Rightarrow> captured_frame \<Rightarrow> bool" where
  "expired now f \<longleftrightarrow> MAX_SEND_AGE \<le> since now (fr_ready_at f)"

text \<open>The deadline of the next packet.\<close>

type_synonym packet_pacer = nat

definition new_pacer :: "nat \<Rightarrow> packet_pacer" where "new_pacer now = now"

definition pacer_sent :: "nat \<Rightarrow> nat \<Rightarrow> packet_pacer \<Rightarrow> packet_pacer" where
  "pacer_sent now period deadline = max (deadline + period) (now + period div 2)"

section \<open>The capture loop\<close>

record capture_state =
  cs_buf :: "f32 list"
  cs_position :: u64
  cs_broadcast :: "captured_frame list"
  cs_odd_reads :: nat

datatype capture_event =
    RingReady nat "f32 list" bool
  | SilenceTick nat bool

definition new_capture :: capture_state where
  "new_capture = \<lparr>cs_buf = [], cs_position = 0, cs_broadcast = [], cs_odd_reads = 0\<rparr>"

text \<open>
  The time the samples left in the buffer stand for: \<open>n / 96000\<close> seconds rounded to the nearest
  nanosecond, as \<open>Duration::from_secs_f64\<close> does (a multiple of a third of a nanosecond, so the
  rounding has no ties).
\<close>

definition buffered_time :: "nat \<Rightarrow> nat" where
  "buffered_time n = (n * 31250 + 1) div 3"

text \<open>The loop that cuts whole frames off the buffer; each is due when its last sample was.\<close>

function cut_frames :: "nat \<Rightarrow> capture_state \<Rightarrow> capture_state" where
  "cut_frames read_at s =
     (if OPUS_FRAME_SAMPLES \<le> length (cs_buf s)
      then
        let remaining = length (cs_buf s) - OPUS_FRAME_SAMPLES;
            frame = \<lparr>fr_samples = take OPUS_FRAME_SAMPLES (cs_buf s), fr_position = cs_position s,
                     fr_ready_at = read_at - buffered_time remaining\<rparr> in
        cut_frames read_at (s\<lparr>cs_position := cs_position s + 1,
          cs_buf := drop OPUS_FRAME_SAMPLES (cs_buf s),
          cs_broadcast := cs_broadcast s @ [frame]\<rparr>)
      else s)"
  by pat_completeness auto

termination
  by (relation "measure (\<lambda>(_, s). length (cs_buf s))") (simp_all add: wire_consts)

declare cut_frames.simps [simp del]

definition note_ring_read_parity :: "nat \<Rightarrow> capture_state \<Rightarrow> capture_state" where
  "note_ring_read_parity read s = (if even read then s else s\<lparr>cs_odd_reads := cs_odd_reads s + 1\<rparr>)"

fun capture_handle :: "capture_event \<Rightarrow> capture_state \<Rightarrow> capture_state" where
  "capture_handle (RingReady now samples listeners) s =
     (if samples = [] then s
      else if \<not> listeners then s\<lparr>cs_buf := []\<rparr>
      else cut_frames now (note_ring_read_parity (length samples) (s\<lparr>cs_buf := cs_buf s @ samples\<rparr>)))"
| "capture_handle (SilenceTick now listeners) s =
     (if listeners
      then s\<lparr>cs_position := cs_position s + 1, cs_broadcast := cs_broadcast s @
             [\<lparr>fr_samples = replicate OPUS_FRAME_SAMPLES 0, fr_position = cs_position s,
               fr_ready_at = now\<rparr>]\<rparr>
      else s)"

definition capture_run :: "capture_event list \<Rightarrow> capture_state \<Rightarrow> capture_state" where
  "capture_run es s = fold capture_handle es s"

section \<open>The TCP encoder loop\<close>

datatype tcp_event =
    TcpFrame captured_frame "opus_encoder option"
  | TcpLagged u64
  | TcpClosed
  | TcpShutdown

fun tcp_encoder_run ::
  "audio_bitrate \<Rightarrow> u64 \<Rightarrow> tcp_event list \<Rightarrow> bytes list \<Rightarrow> bytes list \<times> (audio_error + unit)" where
  "tcp_encoder_run bitrate base [] out = (out, Inr ())"
| "tcp_encoder_run bitrate base (TcpFrame f enc # es) out =
     (case encode_frame (fr_samples f) enc bitrate (base + fr_position f) of
        Inl e \<Rightarrow> (out, Inl e)
      | Inr packet \<Rightarrow> tcp_encoder_run bitrate base es (out @ [packet]))"
| "tcp_encoder_run bitrate base (TcpLagged n # es) out = tcp_encoder_run bitrate base es out"
| "tcp_encoder_run bitrate base (TcpClosed # es) out = (out, Inr ())"
| "tcp_encoder_run bitrate base (TcpShutdown # es) out = (out, Inr ())"

section \<open>The UDP sender\<close>

record send_counters =
  sc_packets :: u64
  sc_bytes :: u64
  sc_pcm_frames :: u64
  sc_incomplete_pcm_frames :: u64
  sc_expired_frames :: u64
  sc_lagged_frames :: u64
  sc_would_block :: u64
  sc_send_errors :: u64
  sc_max_age_us :: u64

definition default_counters :: send_counters where
  "default_counters = \<lparr>sc_packets = 0, sc_bytes = 0, sc_pcm_frames = 0, sc_incomplete_pcm_frames = 0,
     sc_expired_frames = 0, sc_lagged_frames = 0, sc_would_block = 0, sc_send_errors = 0,
     sc_max_age_us = 0\<rparr>"

text \<open>
  \<open>us_wire\<close> is what the socket has taken, \<open>us_dispatched\<close> the frames the pacer let through, with
  the instant of each.
\<close>

record udp_sender =
  us_target :: socket_addr
  us_generation :: u64
  us_sequence_base :: u64
  us_counters :: send_counters
  us_pending :: "captured_frame option"
  us_packet :: bytes
  us_chunked :: bool
  us_pacer :: packet_pacer
  us_wire :: "bytes list"
  us_dispatched :: "(nat \<times> captured_frame) list"

text \<open>
  The generation of a new sender and the new value of \<open>LAST_GENERATION\<close>. The stored value and the
  value used are the same expression of the previous one.
\<close>

definition next_sender_generation :: "u64 \<Rightarrow> u64 \<Rightarrow> u64 \<times> u64" where
  "next_sender_generation previous epoch_us =
     (max (previous + 1) epoch_us, max (previous + 1) epoch_us)"

definition new_sender :: "socket_addr \<Rightarrow> nat \<Rightarrow> u64 \<Rightarrow> u64 \<Rightarrow> udp_sender" where
  "new_sender target now generation epoch_ms =
     \<lparr>us_target = target, us_generation = generation, us_sequence_base = epoch_ms,
      us_counters = default_counters, us_pending = None, us_packet = [], us_chunked = False,
      us_pacer = new_pacer now, us_wire = [], us_dispatched = []\<rparr>"

datatype send_result = Sent nat | WouldBlock | SendFailed

definition udp_send :: "bytes \<Rightarrow> send_result \<Rightarrow> udp_sender \<Rightarrow> udp_sender \<times> bool" where
  "udp_send bs result s = (let c = us_counters s in case result of
       Sent n \<Rightarrow>
         if n = length bs
         then (s\<lparr>us_counters := c\<lparr>sc_packets := sc_packets c + 1, sc_bytes := sc_bytes c + of_nat n\<rparr>,
                 us_wire := us_wire s @ [bs]\<rparr>, True)
         else (s\<lparr>us_counters := c\<lparr>sc_send_errors := sc_send_errors c + 1\<rparr>\<rparr>, False)
     | WouldBlock \<Rightarrow> (s\<lparr>us_counters := c\<lparr>sc_would_block := sc_would_block c + 1\<rparr>\<rparr>, False)
     | SendFailed \<Rightarrow> (s\<lparr>us_counters := c\<lparr>sc_send_errors := sc_send_errors c + 1\<rparr>\<rparr>, False))"

text \<open>
  The four chunks, up to the first the socket does not take; \<open>None\<close> is the panic of
  \<open>PcmDatagram::encode\<close>. The socket answers with the head of \<open>results\<close>.
\<close>

fun send_chunks :: "nat list \<Rightarrow> send_result list \<Rightarrow> udp_sender \<Rightarrow> (udp_sender \<times> bool) option" where
  "send_chunks [] results s = Some (s, True)"
| "send_chunks (i # is) results s = (case pcm_encode (us_packet s) (us_generation s) i of
       None \<Rightarrow> None
     | Some chunk \<Rightarrow>
       (case udp_send chunk (case results of [] \<Rightarrow> WouldBlock | r # _ \<Rightarrow> r) s of
          (s1, True) \<Rightarrow> send_chunks is (tl results) s1
        | (s1, False) \<Rightarrow> Some (s1, False)))"

datatype udp_event =
    UdpFrame nat captured_frame "opus_encoder option"
  | UdpLagged u64
  | UdpTimer nat "send_result list"
  | UdpEcho bytes nat socket_addr bool
  | UdpReport
  | UdpReceiveFailed
  | UdpFramesClosed
  | UdpShutdown

text \<open>How the task ends: an orderly stop, an error it returns, or the panic of \<open>PcmDatagram::encode\<close>.\<close>

datatype udp_exit =
    UdpStopped
  | UdpEncodeError audio_error
  | UdpNetworkError
  | UdpPanic

definition udp_report :: "udp_sender \<Rightarrow> udp_sender" where
  "udp_report s = s\<lparr>us_counters := default_counters\<rparr>"

definition udp_frame ::
  "audio_bitrate \<Rightarrow> nat \<Rightarrow> captured_frame \<Rightarrow> opus_encoder option \<Rightarrow> udp_sender \<Rightarrow>
   audio_error + udp_sender" where
  "udp_frame bitrate now f enc s =
     (if expired now f
      then Inr (s\<lparr>us_counters := (us_counters s)\<lparr>sc_expired_frames :=
             sc_expired_frames (us_counters s) + 1\<rparr>\<rparr>)
      else case encode_frame (fr_samples f) enc bitrate (us_sequence_base s + fr_position f) of
          Inl e \<Rightarrow> Inl e
        | Inr packet \<Rightarrow> Inr (s\<lparr>us_packet := packet, us_chunked := (packet ! 8 = FORMAT_UNCOMPRESSED),
            us_pending := Some f\<rparr>))"

definition udp_timer ::
  "nat \<Rightarrow> send_result list \<Rightarrow> captured_frame \<Rightarrow> udp_sender \<Rightarrow> udp_sender option" where
  "udp_timer now results f s =
     (let c = us_counters s;
          age = of_nat (since now (fr_ready_at f) div 1000);
          s1 = s\<lparr>us_counters := c\<lparr>sc_max_age_us := max (sc_max_age_us c) age\<rparr>\<rparr> in
      if expired now f
      then Some (s1\<lparr>us_counters := (us_counters s1)\<lparr>sc_expired_frames :=
              sc_expired_frames (us_counters s1) + 1\<rparr>, us_pending := None\<rparr>)
      else
        let sent = (if us_chunked s1
          then (case send_chunks [0..<PCM_CHUNKS] results s1 of
              None \<Rightarrow> None
            | Some (s2, whole) \<Rightarrow>
              (let c2 = us_counters s2 in
               Some (s2\<lparr>us_counters := c2\<lparr>sc_pcm_frames := sc_pcm_frames c2 + 1,
                 sc_incomplete_pcm_frames := sc_incomplete_pcm_frames c2 + (if whole then 0 else 1)\<rparr>\<rparr>)))
          else Some (fst (udp_send (us_packet s1) (case results of [] \<Rightarrow> WouldBlock | r # _ \<Rightarrow> r) s1))) in
        map_option (\<lambda>s3. s3\<lparr>us_pending := None, us_pacer := pacer_sent now FRAME_DURATION (us_pacer s3),
          us_dispatched := us_dispatched s3 @ [(now, f)]\<rparr>) sent)"

text \<open>
  One iteration of the loop: the sender it leaves, or how the task ends. A frame is received only
  while none is pending, and the timer fires only while one is, at or after the deadline; an event
  at another moment cannot be selected and changes nothing. The flag of an echo is whether the
  socket took the answer.
\<close>

fun udp_handle :: "audio_bitrate \<Rightarrow> udp_event \<Rightarrow> udp_sender \<Rightarrow> udp_exit + udp_sender" where
  "udp_handle bitrate (UdpFrame now f enc) s =
     (if us_pending s = None
      then (case udp_frame bitrate now f enc s of Inl e \<Rightarrow> Inl (UdpEncodeError e) | Inr s1 \<Rightarrow> Inr s1)
      else Inr s)"
| "udp_handle bitrate (UdpLagged n) s = Inr
     (if us_pending s = None
      then s\<lparr>us_counters := (us_counters s)\<lparr>sc_lagged_frames := sc_lagged_frames (us_counters s) + n\<rparr>\<rparr>
      else s)"
| "udp_handle bitrate (UdpTimer now results) s =
     (case us_pending s of
        None \<Rightarrow> Inr s
      | Some f \<Rightarrow>
          if us_pacer s \<le> now
          then (case udp_timer now results f s of None \<Rightarrow> Inl UdpPanic | Some s1 \<Rightarrow> Inr s1)
          else Inr s)"
| "udp_handle bitrate (UdpEcho buf len source taken) s = Inr
     (if source = us_target s \<and> echo_matches buf len \<and> taken
      then s\<lparr>us_wire := us_wire s @ [take len buf]\<rparr> else s)"
| "udp_handle bitrate UdpReport s = Inr (udp_report s)"
| "udp_handle bitrate UdpReceiveFailed s = Inl UdpNetworkError"
| "udp_handle bitrate UdpFramesClosed s = (if us_pending s = None then Inl UdpStopped else Inr s)"
| "udp_handle bitrate UdpShutdown s = Inl UdpStopped"

fun udp_run :: "audio_bitrate \<Rightarrow> udp_event list \<Rightarrow> udp_sender \<Rightarrow> udp_exit + udp_sender" where
  "udp_run bitrate [] s = Inr s"
| "udp_run bitrate (e # es) s = (case udp_handle bitrate e s of
       Inl ending \<Rightarrow> Inl ending
     | Inr s1 \<Rightarrow> udp_run bitrate es s1)"

section \<open>The capture loop keeps every sample\<close>

fun ring_samples :: "capture_event \<Rightarrow> f32 list" where
  "ring_samples (RingReady now samples listeners) = samples"
| "ring_samples (SilenceTick now listeners) = []"

fun listened_read :: "capture_event \<Rightarrow> bool" where
  "listened_read (RingReady now samples listeners) = listeners"
| "listened_read (SilenceTick now listeners) = False"

definition numbered :: "capture_state \<Rightarrow> bool" where
  "numbered s \<longleftrightarrow>
     map fr_position (cs_broadcast s) = map of_nat [0..<length (cs_broadcast s)] \<and>
     cs_position s = of_nat (length (cs_broadcast s)) \<and>
     (\<forall>f \<in> set (cs_broadcast s). length (fr_samples f) = OPUS_FRAME_SAMPLES)"

abbreviation captured_samples :: "capture_state \<Rightarrow> f32 list" where
  "captured_samples s \<equiv> concat (map fr_samples (cs_broadcast s)) @ cs_buf s"

lemma cut_frames_numbered: "numbered s \<Longrightarrow> numbered (cut_frames read_at s)"
proof (induction read_at s rule: cut_frames.induct)
  case (1 read_at s)
  then show ?case
    by (subst cut_frames.simps) (auto simp: Let_def numbered_def add.commute)
qed

lemma cut_frames_samples: "captured_samples (cut_frames read_at s) = captured_samples s"
proof (induction read_at s rule: cut_frames.induct)
  case (1 read_at s)
  then show ?case
    by (subst (1 2) cut_frames.simps) (simp add: Let_def)
qed

lemma cut_frames_short: "length (cs_buf (cut_frames read_at s)) < OPUS_FRAME_SAMPLES"
proof (induction read_at s rule: cut_frames.induct)
  case (1 read_at s)
  then show ?case
    by (subst cut_frames.simps) (simp add: Let_def)
qed

lemma note_parity_fields [simp]:
  "cs_buf (note_ring_read_parity n s) = cs_buf s"
  "cs_broadcast (note_ring_read_parity n s) = cs_broadcast s"
  "cs_position (note_ring_read_parity n s) = cs_position s"
  by (simp_all add: note_ring_read_parity_def)

lemma capture_handle_numbered: "numbered s \<Longrightarrow> numbered (capture_handle e s)"
  by (cases e) (auto simp: numbered_def add.commute intro!: cut_frames_numbered [unfolded numbered_def])

lemma capture_handle_short:
  "length (cs_buf s) < OPUS_FRAME_SAMPLES \<Longrightarrow> length (cs_buf (capture_handle e s)) < OPUS_FRAME_SAMPLES"
  by (cases e) (auto simp: cut_frames_short intro: le_less_trans [OF le0])

lemma capture_handle_samples:
  "listened_read e \<Longrightarrow> captured_samples (capture_handle e s) = captured_samples s @ ring_samples e"
  by (cases e) (simp_all add: cut_frames_samples)

lemma capture_run_samples:
  "list_all listened_read es \<Longrightarrow>
   captured_samples (capture_run es s) = captured_samples s @ concat (map ring_samples es)"
  by (induction es arbitrary: s) (simp_all add: capture_run_def capture_handle_samples del: append_assoc)

lemma capture_run_inv:
  "numbered s \<Longrightarrow> length (cs_buf s) < OPUS_FRAME_SAMPLES \<Longrightarrow>
   numbered (capture_run es s) \<and> length (cs_buf (capture_run es s)) < OPUS_FRAME_SAMPLES"
  by (induction es arbitrary: s)
    (simp_all add: capture_run_def capture_handle_numbered capture_handle_short)

section \<open>The pacer keeps the media clock\<close>

fun fired_on_time :: "nat \<Rightarrow> packet_pacer \<Rightarrow> nat list \<Rightarrow> bool" where
  "fired_on_time period d [] \<longleftrightarrow> True"
| "fired_on_time period d (t # ts) \<longleftrightarrow>
     d \<le> t \<and> t \<le> d + period div 2 \<and> fired_on_time period (pacer_sent t period d) ts"

section \<open>The UDP sender\<close>

fun offered_frames :: "udp_event \<Rightarrow> captured_frame list" where
  "offered_frames (UdpFrame now f enc) = [f]"
| "offered_frames _ = []"

definition paced :: "nat list \<Rightarrow> bool" where
  "paced ts \<longleftrightarrow> sorted_wrt (\<lambda>a b. a + FRAME_DURATION div 2 \<le> b) ts"

definition sender_inv :: "captured_frame list \<Rightarrow> udp_sender \<Rightarrow> bool" where
  "sender_inv offered s \<longleftrightarrow>
     (us_pending s \<noteq> None \<and> us_chunked s \<longrightarrow> pcm_frame_ok (us_packet s)) \<and>
     subseq (map snd (us_dispatched s) @ (case us_pending s of None \<Rightarrow> [] | Some f \<Rightarrow> [f])) offered \<and>
     (\<forall>(t, f) \<in> set (us_dispatched s). since t (fr_ready_at f) < MAX_SEND_AGE) \<and>
     paced (map fst (us_dispatched s)) \<and>
     (\<forall>t \<in> set (map fst (us_dispatched s)). t + FRAME_DURATION div 2 \<le> us_pacer s)"

text \<open>The part of the sender that the socket's answers leave alone.\<close>

definition same_schedule :: "udp_sender \<Rightarrow> udp_sender \<Rightarrow> bool" where
  "same_schedule s t \<longleftrightarrow>
     us_pending t = us_pending s \<and> us_chunked t = us_chunked s \<and> us_packet t = us_packet s \<and>
     us_dispatched t = us_dispatched s \<and> us_pacer t = us_pacer s \<and>
     us_generation t = us_generation s \<and> us_sequence_base t = us_sequence_base s"

lemma same_schedule_refl [simp]: "same_schedule s s"
  by (simp add: same_schedule_def)

lemma same_schedule_counters [simp]: "same_schedule s (t\<lparr>us_counters := c\<rparr>) = same_schedule s t"
  by (simp add: same_schedule_def)

lemma udp_send_schedule: "same_schedule s (fst (udp_send bs r s))"
  by (auto simp: same_schedule_def udp_send_def Let_def split: send_result.splits)

lemma send_chunks_schedule: "send_chunks is rs s = Some (t, c) \<Longrightarrow> same_schedule s t"
proof (induction "is" arbitrary: rs s)
  case (Cons i "is")
  obtain s1 ok chunk where
    s1: "udp_send chunk (case rs of [] \<Rightarrow> WouldBlock | r # _ \<Rightarrow> r) s = (s1, ok)"
    and rest: "if ok then send_chunks is (tl rs) s1 = Some (t, c) else t = s1"
    using Cons.prems by (auto split: option.splits prod.splits bool.splits)
  from s1 have "same_schedule s s1"
    using udp_send_schedule [of s chunk] by (metis fst_conv)
  moreover from rest have "same_schedule s1 t"
    by (auto split: if_splits intro: Cons.IH)
  ultimately show ?case
    by (simp add: same_schedule_def)
qed simp

lemma send_chunks_total:
  "pcm_frame_ok (us_packet s) \<Longrightarrow> set is \<subseteq> {0..<PCM_CHUNKS} \<Longrightarrow> \<exists>r. send_chunks is rs s = Some r"
proof (induction "is" arbitrary: rs s)
  case (Cons i "is")
  then obtain chunk where chunk: "pcm_encode (us_packet s) (us_generation s) i = Some chunk"
    using pcm_encode_Some_iff [of "us_packet s" "us_generation s" i] by auto
  obtain s1 ok where s1: "udp_send chunk (case rs of [] \<Rightarrow> WouldBlock | r # _ \<Rightarrow> r) s = (s1, ok)"
    by fastforce
  then have "us_packet s1 = us_packet s"
    using udp_send_schedule [of s chunk] by (metis fst_conv same_schedule_def)
  then have "\<exists>r. send_chunks is (tl rs) s1 = Some r"
    using Cons by simp
  then show ?case
    using chunk s1 by (cases ok) auto
qed auto

lemma encoded_frame_ok:
  assumes "encode_frame frame encoder bitrate seq = Inr packet"
    and "packet ! 8 = FORMAT_UNCOMPRESSED"
  shows "pcm_frame_ok packet"
proof -
  from encode_frame_cases [OF assms(1)] obtain flag where
    len: "length frame = OPUS_FRAME_SAMPLES"
    and packet: "packet = u64_to_be_bytes seq @ [flag] @ expected_payload frame encoder bitrate"
    and unc: "flag = FORMAT_UNCOMPRESSED \<longleftrightarrow>
      bitrate = Uncompressed \<and> \<not> f32_lt (frame_rms frame) SILENCE_RMS_THRESHOLD"
    by blast
  have "flag = FORMAT_UNCOMPRESSED"
    using assms(2) by (simp add: packet nth_append)
  with unc have "length (expected_payload frame encoder bitrate) = 4 * OPUS_FRAME_SAMPLES"
    using len by (simp add: expected_payload_def)
  then show ?thesis
    using assms(2) by (simp add: pcm_frame_ok_def packet wire_consts)
qed

lemma sender_inv_new: "sender_inv [] (new_sender target now generation base)"
  by (simp add: sender_inv_def new_sender_def paced_def)

lemma sender_inv_schedule: "sender_inv fs s \<Longrightarrow> same_schedule s t \<Longrightarrow> sender_inv fs t"
  by (simp add: sender_inv_def same_schedule_def)

lemma sender_inv_more: "sender_inv fs s \<Longrightarrow> sender_inv (fs @ gs) s"
  by (auto simp: sender_inv_def intro: subseq_order.order_trans [OF _ list_emb_append_mono [of _ fs fs "[]" gs, simplified]])

lemma sender_inv_frame:
  assumes inv: "sender_inv fs s" and idle: "us_pending s = None"
    and step: "udp_frame bitrate now f enc s = Inr t"
  shows "sender_inv (fs @ [f]) t"
proof (cases "expired now f")
  case True
  with step have "same_schedule s t"
    by (auto simp: udp_frame_def)
  then show ?thesis
    using sender_inv_more [OF inv] sender_inv_schedule by blast
next
  case False
  with step obtain packet where
    enc: "encode_frame (fr_samples f) enc bitrate (us_sequence_base s + fr_position f) = Inr packet"
    and t: "t = s\<lparr>us_packet := packet, us_chunked := (packet ! 8 = FORMAT_UNCOMPRESSED),
      us_pending := Some f\<rparr>"
    by (auto simp: udp_frame_def split: sum.splits)
  have "subseq (map snd (us_dispatched s) @ [f]) (fs @ [f])"
    using inv idle by (auto simp: sender_inv_def intro: list_emb_append_mono)
  then show ?thesis
    using inv encoded_frame_ok [OF enc] by (simp add: t sender_inv_def)
qed

lemma subseq_appendD1: "subseq (xs @ ys) zs \<Longrightarrow> subseq xs zs"
  by (rule subseq_order.order_trans [OF prefix_imp_subseq]) simp_all

lemma sender_inv_dropped:
  "sender_inv fs s \<Longrightarrow> sender_inv fs (s\<lparr>us_counters := c, us_pending := None\<rparr>)"
  by (cases "us_pending s") (auto simp: sender_inv_def dest: subseq_appendD1)

lemma sender_inv_dispatch:
  assumes inv: "sender_inv fs s" and f: "us_pending s = Some f" and due: "us_pacer s \<le> now"
    and young: "\<not> expired now f"
  shows "sender_inv fs (s\<lparr>us_pending := None, us_pacer := pacer_sent now FRAME_DURATION (us_pacer s),
    us_dispatched := us_dispatched s @ [(now, f)]\<rparr>)"
proof -
  have past: "t + FRAME_DURATION div 2 \<le> now" if "t \<in> set (map fst (us_dispatched s))" for t
    using inv that due unfolding sender_inv_def by (metis order_trans)
  have "paced (map fst (us_dispatched s) @ [now])"
    using inv past by (simp add: sender_inv_def paced_def sorted_wrt_append)
  moreover have "t + FRAME_DURATION div 2 \<le> pacer_sent now FRAME_DURATION (us_pacer s)"
    if "t \<in> set (map fst (us_dispatched s) @ [now])" for t
    using past that by (force simp: pacer_sent_def)
  ultimately show ?thesis
    using inv f young by (simp add: sender_inv_def expired_def)
qed

lemma udp_timer_inv:
  assumes inv: "sender_inv fs s" and f: "us_pending s = Some f" and due: "us_pacer s \<le> now"
  shows "\<exists>t. udp_timer now results f s = Some t \<and> sender_inv fs t"
proof (cases "expired now f")
  case True
  then show ?thesis
    using sender_inv_dropped [OF inv] by (simp add: udp_timer_def Let_def)
next
  case False
  define c where "c = us_counters s"
  define s1 where "s1 = s\<lparr>us_counters := c\<lparr>sc_max_age_us :=
    max (sc_max_age_us c) (of_nat (since now (fr_ready_at f) div 1000))\<rparr>\<rparr>"
  define finish where "finish s3 = s3\<lparr>us_pending := None,
    us_pacer := pacer_sent now FRAME_DURATION (us_pacer s3),
    us_dispatched := us_dispatched s3 @ [(now, f)]\<rparr>" for s3 :: udp_sender
  have same: "same_schedule s s1"
    by (simp add: s1_def)
  have finish: "sender_inv fs (finish t)" if "same_schedule s t" for t
    using sender_inv_dispatch [of fs t f now] sender_inv_schedule [OF inv that] that f due False
    by (simp add: same_schedule_def finish_def)
  show ?thesis
  proof (cases "us_chunked s")
    case True
    then have "pcm_frame_ok (us_packet s1)"
      using inv f by (simp add: s1_def sender_inv_def)
    then obtain s2 whole where chunks: "send_chunks [0..<PCM_CHUNKS] results s1 = Some (s2, whole)"
      using send_chunks_total [of s1 "[0..<PCM_CHUNKS]" results] by auto
    have "same_schedule s s2"
      using send_chunks_schedule [OF chunks] same by (simp add: same_schedule_def)
    moreover obtain c' where
      "udp_timer now results f s = Some (finish (s2\<lparr>us_counters := c'\<rparr>))"
      using True False chunks unfolding udp_timer_def s1_def c_def finish_def
      by (auto simp: Let_def)
    ultimately show ?thesis
      using finish by auto
  next
    case unchunked: False
    have "same_schedule s (fst (udp_send bs r s1))" for bs r
      using udp_send_schedule [of s1 bs r] same by (simp add: same_schedule_def)
    moreover have "udp_timer now results f s = Some (finish (fst (udp_send (us_packet s1)
      (case results of [] \<Rightarrow> WouldBlock | r # _ \<Rightarrow> r) s1)))"
      using unchunked False unfolding udp_timer_def s1_def c_def finish_def
      by (simp add: Let_def)
    ultimately show ?thesis
      using finish by auto
  qed
qed

lemma udp_handle_inv:
  assumes inv: "sender_inv fs s"
  shows "case udp_handle bitrate e s of
      Inl ending \<Rightarrow> ending \<noteq> UdpPanic
    | Inr t \<Rightarrow> sender_inv (fs @ offered_frames e) t"
proof (cases e)
  case (UdpFrame now f enc)
  then show ?thesis
    using sender_inv_frame [OF inv] sender_inv_more [OF inv] by (auto split: sum.splits)
next
  case (UdpTimer now results)
  show ?thesis
  proof (cases "us_pending s")
    case None
    then show ?thesis using inv by (simp add: UdpTimer)
  next
    case (Some f)
    show ?thesis
    proof (cases "us_pacer s \<le> now")
      case True
      with udp_timer_inv [OF inv Some] obtain t where
        "udp_timer now results f s = Some t" "sender_inv fs t"
        by blast
      with Some True show ?thesis by (simp add: UdpTimer)
    next
      case False
      with Some inv show ?thesis by (simp add: UdpTimer)
    qed
  qed
qed (use inv in \<open>auto simp: udp_report_def intro: sender_inv_schedule simp: same_schedule_def\<close>)

lemma udp_run_inv:
  assumes "sender_inv fs s"
  shows "case udp_run bitrate es s of
      Inl ending \<Rightarrow> ending \<noteq> UdpPanic
    | Inr t \<Rightarrow> sender_inv (fs @ concat (map offered_frames es)) t"
  using assms
proof (induction es arbitrary: fs s)
  case (Cons e es)
  show ?case
  proof (cases "udp_handle bitrate e s")
    case (Inl ending)
    with udp_handle_inv [OF Cons.prems, of e bitrate] show ?thesis by simp
  next
    case (Inr t)
    with udp_handle_inv [OF Cons.prems, of e bitrate] have "sender_inv (fs @ offered_frames e) t"
      by simp
    from Cons.IH [OF this] show ?thesis
      by (simp add: Inr split: sum.splits)
  qed
qed simp

section \<open>The properties\<close>



text \<open>
  Timers that fire late by at most half a period cost no media time. If every packet of a
  sequence leaves at its deadline or up to half a period after it, the deadline advances by
  exactly one period for each, so the rounding of the timers never accumulates.
\<close>

theorem pacer_keeps_clock:
  assumes "fired_on_time period d ts"
  shows "fold (\<lambda>t. pacer_sent t period) ts d = d + length ts * period"
  using assms by (induction ts arbitrary: d) (auto simp: pacer_sent_def max_def)

theorem pacer_keeps_clock_witness:
  "fold (\<lambda>t. pacer_sent t 10) [103, 114, 120] 100 = (130 :: nat)"
  using pacer_keeps_clock [of 10 100 "[103, 114, 120]"] by (simp add: pacer_sent_def)

text \<open>
  C29: the UDP sender paces and never panics. Whatever order frames, timers, echoes, losses and
  socket failures arrive in, the task never reaches the panic of the datagram encoder; the frames
  it dispatched are a subsequence of the frames it was offered (so none is repeated or reordered),
  each was younger than 40 ms when it left, and any two left at least 5 ms apart.
\<close>

theorem sender_paces_and_never_panics:
  "case udp_run bitrate es (new_sender target now generation base) of
     Inl ending \<Rightarrow> ending \<noteq> UdpPanic
   | Inr s \<Rightarrow>
       subseq (map snd (us_dispatched s)) (concat (map offered_frames es)) \<and>
       (\<forall>(t, f) \<in> set (us_dispatched s). since t (fr_ready_at f) < millis 40) \<and>
       sorted_wrt (\<lambda>a b. a + millis 5 \<le> b) (map fst (us_dispatched s))"
proof -
  have half: "FRAME_DURATION div 2 = millis 5"
    by (simp add: FRAME_DURATION_def millis_def)
  note udp_run_inv [OF sender_inv_new [of target now generation base], of es bitrate]
  then show ?thesis
    by (auto simp: sender_inv_def paced_def half MAX_SEND_AGE_def dest: subseq_appendD1
        split: sum.splits option.splits)
qed

text \<open>A silent frame offered at 1 ms and dispatched one millisecond later.\<close>

theorem sender_paces_and_never_panics_witness:
  "\<exists>f s. fr_samples f = replicate OPUS_FRAME_SAMPLES 0 \<and>
     udp_run Uncompressed [UdpFrame (millis 1) f None, UdpTimer (millis 2) [Sent 9]]
       (new_sender (SocketAddr (IpV4 192 168 0 9) 45000) 0 7 0) = Inr s \<and>
     us_dispatched s = [(millis 2, f)] \<and>
     since (millis 2) (fr_ready_at f) < millis 40"
proof -
  define f where
    "f = \<lparr>fr_samples = replicate OPUS_FRAME_SAMPLES 0, fr_position = 3, fr_ready_at = millis 1\<rparr>"
  obtain s where s: "udp_run Uncompressed [UdpFrame (millis 1) f None, UdpTimer (millis 2) [Sent 9]]
      (new_sender (SocketAddr (IpV4 192 168 0 9) 45000) 0 7 0) = Inr s" and "us_dispatched s = [(millis 2, f)]"
    by (auto simp: f_def new_sender_def new_pacer_def udp_frame_def udp_timer_def udp_send_def
        default_counters_def expired_def since_def millis_def MAX_SEND_AGE_def encode_zero_frame
        FORMAT_SILENCE_def FORMAT_UNCOMPRESSED_def nth_append Let_def)
  moreover from this have "since (millis 2) (fr_ready_at f) < millis 40"
    using sender_paces_and_never_panics [where bitrate = Uncompressed and
        es = "[UdpFrame (millis 1) f None, UdpTimer (millis 2) [Sent 9]]" and
        target = "SocketAddr (IpV4 192 168 0 9) 45000" and now = 0 and generation = 7 and base = 0]
    by simp
  ultimately show ?thesis
    unfolding f_def by (metis captured_frame.select_convs(1))
qed

end
