(* ===== verification/Control_Http.thy ===== *)
theory Control_Http
  imports Desk_Properties
begin

text \<open>
  The HTTPS control interface: shared state and bearer tokens (\<open>control/state.rs\<close>), the handler of
  every endpoint (\<open>control/handlers.rs\<close>), the event bus (\<open>control/events.rs\<close>) and the WebSocket
  connections (\<open>control/ws.rs\<close>), composed with the dispatcher that executes their commands.

  Routing, JSON and TLS are the framework's. What the channel to the dispatcher does with a
  command (answers, is closed, loses the acknowledgement, takes too long) is an input.
\<close>

section \<open>Requests and responses\<close>

record process_info =
  pi_pid :: u32
  pi_name :: string
  pi_has_audio_session :: bool

datatype http_request =
    PostProbe "device_id option"
  | PostConnect connect_req
  | PostDisconnect device_id
  | GetSources
  | PostChangeSource device_id audio_source
  | PostChangeBitrate device_id "i32 option"
  | GetProcesses
  | GetWs "device_id option"

text \<open>\<open>hc_authorization\<close> is the header's value when it is text.\<close>

record http_call =
  hc_request :: http_request
  hc_peer :: socket_addr
  hc_authorization :: "string option"

datatype http_body =
    BodyPresence presence_response
  | BodySources sources_response
  | BodyProcesses "process_info list"
  | BodyError control_error_response
  | BodyText string
  | BodyUpgrade device_id generation
  | BodyEmpty

type_synonym http_response = "nat \<times> http_body"

definition control_error :: "nat \<Rightarrow> string \<Rightarrow> string \<Rightarrow> http_response" where
  "control_error status code message = (status, BodyError \<lparr>ce_code = code, ce_message = message\<rparr>)"

definition connect_error_code :: "string \<Rightarrow> string" where
  "connect_error_code message =
     (let m = to_ascii_lowercase message in
      if contains m ''cancelled on the phone'' then ''pairing_cancelled''
      else if contains m ''rejected on the pc'' then ''pairing_rejected''
      else if contains m ''invalid or expired'' \<or> contains m ''challenge expired'' then ''pairing_expired''
      else if contains m ''too many pending'' then ''pairing_capacity_exhausted''
      else if contains m ''challenge'' \<or> contains m ''authentication'' \<or> contains m ''signature'' \<or>
           contains m ''device key'' then ''authentication_failed''
      else if contains m ''remember the approved'' then ''pairing_persistence_failed''
      else ''stream_start_failed'')"

definition unauthorized :: http_response where
  "unauthorized = control_error 401 ''unauthorized'' ''a valid device session token is required''"

definition bearer_token :: "string option \<Rightarrow> string option" where
  "bearer_token authorization = (case authorization of
       None \<Rightarrow> None
     | Some v \<Rightarrow> if starts_with v ''Bearer '' then Some (drop (length ''Bearer '') v) else None)"

definition authenticate_device :: "string option \<Rightarrow> device_id \<Rightarrow> authorizer \<Rightarrow> authorized_session option" where
  "authenticate_device authorization d a = (case bearer_token authorization of
       None \<Rightarrow> None | Some token \<Rightarrow> authenticate d token a)"

definition authenticate_bearer :: "string option \<Rightarrow> authorizer \<Rightarrow> authorized_session option" where
  "authenticate_bearer authorization a = (case bearer_token authorization of
       None \<Rightarrow> None | Some token \<Rightarrow> authenticate_token token a)"

section \<open>The channel to the dispatcher\<close>

text \<open>The flag of a lost or late acknowledgement is whether the command was executed.\<close>

datatype channel = Answers | SendFails | DropsAck bool | TimesOut bool

datatype outcome = Reply control_reply | NotSent | AckDropped | AckLate

definition dispatch ::
  "'a audio_ops \<Rightarrow> desk_config \<Rightarrow> step_inputs \<Rightarrow> channel \<Rightarrow> control_command \<Rightarrow> 'a desk \<Rightarrow>
   'a desk \<times> outcome" where
  "dispatch ops cfg inp ch cmd s =
     (let executed = handle_command ops cfg inp cmd s;
          left = (case executed of None \<Rightarrow> s | Some (t, r) \<Rightarrow> t) in
      case ch of
        Answers \<Rightarrow> (left, (case executed of None \<Rightarrow> AckDropped | Some (t, r) \<Rightarrow> Reply r))
      | SendFails \<Rightarrow> (s, NotSent)
      | DropsAck acted \<Rightarrow> (if acted then left else s, AckDropped)
      | TimesOut acted \<Rightarrow> (if acted then left else s, AckLate))"

definition dispatcher_unavailable :: http_response where
  "dispatcher_unavailable =
     control_error 503 ''dispatcher_unavailable'' ''control dispatcher is unavailable''"

definition ack_dropped :: http_response where
  "ack_dropped =
     control_error 503 ''dispatcher_unavailable'' ''control dispatcher dropped the acknowledgement''"

text \<open>The reply to a mutation; a command that could not be sent is answered before.\<close>

fun await_mutation :: "outcome \<Rightarrow> http_response" where
  "await_mutation NotSent = dispatcher_unavailable"
| "await_mutation AckDropped = ack_dropped"
| "await_mutation AckLate = control_error 504 ''operation_timeout'' ''control operation timed out''"
| "await_mutation (Reply (ReplyUnit (Inl message))) = control_error 409 ''operation_failed'' message"
| "await_mutation (Reply _) = (200, BodyEmpty)"

section \<open>The endpoints\<close>

record http_env =
  he_link :: "connection_mode \<Rightarrow> ip_addr \<Rightarrow> network_link"
  he_processes :: "process_info list"

definition build_presence :: "desk_config \<Rightarrow> bool \<Rightarrow> presence_response" where
  "build_presence cfg broadcasting =
     \<lparr>pr_device_id = cf_streamer_id cfg, pr_streamer_name = cf_streamer_name cfg,
      pr_is_offline = (\<not> broadcasting), pr_pc_network_link = None, pr_device_registered = None,
      pr_session_token = None, pr_session_generation = None, pr_pending_request_id = None,
      pr_device_auth_challenge = None, pr_pc_certificate_fingerprint = Some (cf_fingerprint cfg),
      pr_pc_output_volume = None\<rparr>"

text \<open>No time limit: while the acknowledgement is late, the request is not answered at all.\<close>

definition http_probe ::
  "'a audio_ops \<Rightarrow> desk_config \<Rightarrow> step_inputs \<Rightarrow> channel \<Rightarrow> device_id option \<Rightarrow> 'a desk \<Rightarrow>
   'a desk \<times> http_response option" where
  "http_probe ops cfg inp ch device s =
     (case dispatch ops cfg inp ch (CmdProbe device) s of (t, out) \<Rightarrow>
        (t, (case out of
             AckLate \<Rightarrow> None
           | Reply (ReplyPresence (Inr p)) \<Rightarrow> Some (200, BodyPresence
               (p\<lparr>pr_pc_certificate_fingerprint := Some (cf_fingerprint cfg)\<rparr>))
           | _ \<Rightarrow> Some (200, BodyPresence (build_presence cfg (dk_is_broadcasting t))))))"

definition connect_command_of ::
  "connect_req \<Rightarrow> socket_addr \<Rightarrow> string option \<Rightarrow> authorizer \<Rightarrow> connect_command" where
  "connect_command_of req peer authorization a =
     \<lparr>cc_device_id = cr_device_id req, cc_device_name = cr_device_name req,
      cc_source = cr_source req, cc_remote_addr = peer, cc_bitrate = cr_bitrate req,
      cc_authorized = (authenticate_device authorization (cr_device_id req) a \<noteq> None),
      cc_pending_request_id = cr_pending_request_id req, cc_device_auth = cr_device_auth req\<rparr>"

definition http_connect ::
  "'a audio_ops \<Rightarrow> desk_config \<Rightarrow> http_env \<Rightarrow> step_inputs \<Rightarrow> channel \<Rightarrow> connect_req \<Rightarrow> socket_addr \<Rightarrow>
   string option \<Rightarrow> 'a desk \<Rightarrow> 'a desk \<times> http_response" where
  "http_connect ops cfg env inp ch req peer authorization s =
     (if \<not> dk_is_broadcasting s
      then (s, control_error 403 ''streamer_offline''
              (''streamer '' @ cf_streamer_name cfg @ '' is offline''))
      else
        let command = connect_command_of req peer authorization (dk_authorizer s) in
        case dispatch ops cfg inp ch (CmdConnect command) s of (t, out) \<Rightarrow>
          (t, (case out of
               NotSent \<Rightarrow> dispatcher_unavailable
             | AckDropped \<Rightarrow> ack_dropped
             | AckLate \<Rightarrow> control_error 504 ''operation_timeout'' ''stream start timed out''
             | Reply (ReplyPresence (Inl message)) \<Rightarrow>
                 control_error 409 (connect_error_code message) message
             | Reply (ReplyPresence (Inr p)) \<Rightarrow>
                 (if pr_session_token p = None \<and> pr_pending_request_id p \<noteq> None then 202 else 200,
                  BodyPresence (p\<lparr>pr_pc_network_link := Some (he_link env (cr_mode req) (addr_ip peer)),
                    pr_pc_certificate_fingerprint := Some (cf_fingerprint cfg)\<rparr>))
             | Reply _ \<Rightarrow> ack_dropped)))"

definition http_sources ::
  "'a audio_ops \<Rightarrow> desk_config \<Rightarrow> step_inputs \<Rightarrow> channel \<Rightarrow> string option \<Rightarrow> 'a desk \<Rightarrow>
   'a desk \<times> http_response option" where
  "http_sources ops cfg inp ch authorization s =
     (if authenticate_bearer authorization (dk_authorizer s) = None then (s, Some unauthorized)
      else case dispatch ops cfg inp ch CmdGetSources s of (t, out) \<Rightarrow>
        (t, (case out of
             AckLate \<Rightarrow> None
           | Reply (ReplySources r) \<Rightarrow> Some (200, BodySources r)
           | _ \<Rightarrow> Some (200, BodySources \<lparr>sr_sources = [Desktop], sr_capabilities =
               \<lparr>supports_process_capture = False, supports_volume_sync = False\<rparr>\<rparr>))))"

text \<open>Disconnect and the two changes: a session of the named device, then one command.\<close>

definition http_mutation ::
  "'a audio_ops \<Rightarrow> desk_config \<Rightarrow> step_inputs \<Rightarrow> channel \<Rightarrow> device_id \<Rightarrow> (generation \<Rightarrow> control_command) \<Rightarrow>
   string option \<Rightarrow> 'a desk \<Rightarrow> 'a desk \<times> http_response" where
  "http_mutation ops cfg inp ch d command authorization s =
     (case authenticate_device authorization d (dk_authorizer s) of
        None \<Rightarrow> (s, unauthorized)
      | Some session \<Rightarrow>
          (case dispatch ops cfg inp ch (command (as_generation session)) s of
             (t, out) \<Rightarrow> (t, await_mutation out)))"

definition http_disconnect ::
  "'a audio_ops \<Rightarrow> desk_config \<Rightarrow> step_inputs \<Rightarrow> channel \<Rightarrow> device_id \<Rightarrow> socket_addr \<Rightarrow> string option \<Rightarrow>
   'a desk \<Rightarrow> 'a desk \<times> http_response" where
  "http_disconnect ops cfg inp ch d peer =
     http_mutation ops cfg inp ch d (\<lambda>g. CmdDisconnect d peer (Some g))"

definition http_change_source ::
  "'a audio_ops \<Rightarrow> desk_config \<Rightarrow> step_inputs \<Rightarrow> channel \<Rightarrow> device_id \<Rightarrow> audio_source \<Rightarrow> string option \<Rightarrow>
   'a desk \<Rightarrow> 'a desk \<times> http_response" where
  "http_change_source ops cfg inp ch d source =
     http_mutation ops cfg inp ch d (\<lambda>g. CmdChangeSource d source)"

definition http_change_bitrate ::
  "'a audio_ops \<Rightarrow> desk_config \<Rightarrow> step_inputs \<Rightarrow> channel \<Rightarrow> device_id \<Rightarrow> i32 option \<Rightarrow> string option \<Rightarrow>
   'a desk \<Rightarrow> 'a desk \<times> http_response" where
  "http_change_bitrate ops cfg inp ch d bitrate =
     http_mutation ops cfg inp ch d (\<lambda>g. CmdChangeBitrate d bitrate)"

definition http_processes :: "http_env \<Rightarrow> string option \<Rightarrow> 'a desk \<Rightarrow> http_response" where
  "http_processes env authorization s =
     (if authenticate_bearer authorization (dk_authorizer s) = None then unauthorized
      else (200, BodyProcesses (he_processes env)))"

definition http_ws_upgrade :: "device_id option \<Rightarrow> string option \<Rightarrow> 'a desk \<Rightarrow> http_response" where
  "http_ws_upgrade device authorization s = (case device of
       None \<Rightarrow> (400, BodyText ''Missing device_id query parameter'')
     | Some d \<Rightarrow>
       (case authenticate_device authorization d (dk_authorizer s) of
          None \<Rightarrow> unauthorized
        | Some session \<Rightarrow> (101, BodyUpgrade d (as_generation session))))"

text \<open>The router.\<close>

definition http_serve ::
  "'a audio_ops \<Rightarrow> desk_config \<Rightarrow> http_env \<Rightarrow> step_inputs \<Rightarrow> channel \<Rightarrow> http_call \<Rightarrow> 'a desk \<Rightarrow>
   'a desk \<times> http_response option" where
  "http_serve ops cfg env inp ch call s =
     (let authorization = hc_authorization call; peer = hc_peer call in
      case hc_request call of
        PostProbe device \<Rightarrow> http_probe ops cfg inp ch device s
      | PostConnect req \<Rightarrow>
          apsnd Some (http_connect ops cfg env inp ch req peer authorization s)
      | PostDisconnect d \<Rightarrow> apsnd Some (http_disconnect ops cfg inp ch d peer authorization s)
      | GetSources \<Rightarrow> http_sources ops cfg inp ch authorization s
      | PostChangeSource d source \<Rightarrow>
          apsnd Some (http_change_source ops cfg inp ch d source authorization s)
      | PostChangeBitrate d bitrate \<Rightarrow>
          apsnd Some (http_change_bitrate ops cfg inp ch d bitrate authorization s)
      | GetProcesses \<Rightarrow> (s, Some (http_processes env authorization s))
      | GetWs device \<Rightarrow> (s, Some (http_ws_upgrade device authorization s)))"

section \<open>WebSocket connections and events\<close>

text \<open>
  The registry of the connections: device to channel, the channels whose socket still reads them,
  and what each was sent. Channels are numbered in the order they are opened.
\<close>

record ws_hub =
  wh_connections :: "(device_id, nat) hash_map"
  wh_open :: "nat list"
  wh_sent :: "(nat \<times> ws_event) list"
  wh_next :: nat

definition new_hub :: ws_hub where
  "new_hub = \<lparr>wh_connections = [], wh_open = [], wh_sent = [], wh_next = 0\<rparr>"

definition ws_open :: "device_id \<Rightarrow> ws_hub \<Rightarrow> ws_hub \<times> nat" where
  "ws_open d h =
     (h\<lparr>wh_connections := hm_insert d (wh_next h) (wh_connections h),
        wh_open := wh_next h # wh_open h, wh_next := wh_next h + 1\<rparr>, wh_next h)"

definition ws_leave :: "device_id \<Rightarrow> nat \<Rightarrow> ws_hub \<Rightarrow> ws_hub \<times> bool" where
  "ws_leave d ch h =
     (let is_match = (hm_get (wh_connections h) d = Some ch) in
      (if is_match then h\<lparr>wh_connections := hm_remove d (wh_connections h)\<rparr> else h, is_match))"

text \<open>The end of a socket: it leaves the registry and stops reading its channel.\<close>

definition ws_close :: "device_id \<Rightarrow> nat \<Rightarrow> ws_hub \<Rightarrow> ws_hub" where
  "ws_close d ch h = (let h1 = fst (ws_leave d ch h) in h1\<lparr>wh_open := removeAll ch (wh_open h1)\<rparr>)"

definition event_send :: "device_id \<Rightarrow> ws_event \<Rightarrow> ws_hub \<Rightarrow> ws_hub \<times> (string + unit)" where
  "event_send d e h = (case hm_get (wh_connections h) d of
       None \<Rightarrow> (h, Inl (''no active connection for device '' @ d))
     | Some ch \<Rightarrow>
         if ch \<in> set (wh_open h) then (h\<lparr>wh_sent := wh_sent h @ [(ch, e)]\<rparr>, Inr ())
         else (h, Inl (''no active connection for device '' @ d)))"

definition event_broadcast :: "ws_event \<Rightarrow> ws_hub \<Rightarrow> ws_hub \<times> nat" where
  "event_broadcast e h =
     (let reached = filter (\<lambda>ch. ch \<in> set (wh_open h)) (map snd (wh_connections h)) in
      (h\<lparr>wh_sent := wh_sent h @ map (\<lambda>ch. (ch, e)) reached\<rparr>, length reached))"

text \<open>
  A text message of the socket of device \<open>d\<close>; \<open>None\<close> is text that is not a command. The commands of
  a socket carry the generation its upgrade was authorised with.
\<close>

definition handle_ws_command ::
  "'a audio_ops \<Rightarrow> desk_config \<Rightarrow> step_inputs \<Rightarrow> channel \<Rightarrow> ws_command option \<Rightarrow> string \<Rightarrow> device_id \<Rightarrow>
   generation \<Rightarrow> 'a desk \<times> ws_hub \<Rightarrow> ('a desk \<times> ws_hub) \<times> (string + unit)" where
  "handle_ws_command ops cfg inp ch command parse_error d g = (\<lambda>(s, h). case command of
       None \<Rightarrow> ((s, h), Inl (''Failed to parse WsCommand: '' @ parse_error))
     | Some WsHeartbeat \<Rightarrow>
         (case dispatch ops cfg inp ch (CmdSessionHeartbeat d g) s of
            (t, NotSent) \<Rightarrow> ((t, h), Inl ''control dispatcher is unavailable'')
          | (t, out) \<Rightarrow> (case event_send d WsHeartbeatAcknowledged h of (h1, r) \<Rightarrow> ((t, h1), r)))
     | Some WsDisconnect \<Rightarrow>
         (case dispatch ops cfg inp ch
                 (CmdDisconnect d (SocketAddr (IpV4 0 0 0 0) 0) (Some g)) s of
            (t, out) \<Rightarrow> ((t, h), Inr ())))"

section \<open>Basic facts\<close>

lemma audio_result: "snd (audio_call f s) = snd (f (dk_audio s))"
  by (simp add: audio_call_def split: prod.splits)

definition bearer_header :: "string \<Rightarrow> string" where
  "bearer_header token = ''Bearer '' @ token"

lemma bearer_token_Some: "bearer_token v = Some token \<longleftrightarrow> v = Some (bearer_header token)"
  by (auto simp: bearer_token_def bearer_header_def starts_with_iff split: option.splits)

lemma authenticate_device_Some:
  "authenticate_device v d a = Some session \<longleftrightarrow>
     (\<exists>token. v = Some (bearer_header token) \<and> authenticate d token a = Some session)"
  unfolding authenticate_device_def bearer_token_Some [symmetric]
  by (auto split: option.splits)

lemma dispatch_state:
  "fst (dispatch ops cfg inp ch cmd s) = s \<or>
   (\<exists>r. handle_command ops cfg inp cmd s = Some (fst (dispatch ops cfg inp ch cmd s), r))"
  by (auto simp: dispatch_def Let_def split: channel.splits option.splits)

lemma dispatch_Answers:
  "handle_command ops cfg inp cmd s = Some (t, r) \<Longrightarrow>
   dispatch ops cfg inp Answers cmd s = (t, Reply r)"
  by (simp add: dispatch_def Let_def)

lemma http_mutation_state:
  assumes "fst (http_mutation ops cfg inp ch d command v s) \<noteq> s"
  shows "\<exists>session r. authenticate_device v d (dk_authorizer s) = Some session \<and>
     handle_command ops cfg inp (command (as_generation session)) s =
       Some (fst (http_mutation ops cfg inp ch d command v s), r)"
proof -
  from assms obtain session where session: "authenticate_device v d (dk_authorizer s) = Some session"
    by (auto simp: http_mutation_def split: option.splits)
  then have "fst (http_mutation ops cfg inp ch d command v s) =
      fst (dispatch ops cfg inp ch (command (as_generation session)) s)"
    by (simp add: http_mutation_def split: prod.splits)
  with session assms dispatch_state [of ops cfg inp ch "command (as_generation session)" s]
  show ?thesis by auto
qed

text \<open>A pairing the phone did not confirm is reported as a stream that could not start.\<close>

lemma unconfirmed_pairing_code:
  "connect_error_code ''phone confirmation is required for pairing'' = ''stream_start_failed''"
  by code_simp

section \<open>Registry of the WebSockets\<close>

definition hub_ok :: "ws_hub \<Rightarrow> bool" where
  "hub_ok h \<longleftrightarrow> hm_wf (wh_connections h) \<and> (\<forall>ch \<in> set (wh_open h). ch < wh_next h)"

interpretation sockets: replacing_table hub_ok "\<lambda>h. hm_get (wh_connections h)" ws_leave
    "\<lambda>d ch h. h\<lparr>wh_connections := hm_insert d ch (wh_connections h)\<rparr>"
  by unfold_locales (auto simp: hub_ok_def ws_leave_def Let_def)

section \<open>Who may change what\<close>

lemma apsnd_state: "apsnd f x = (t, r) \<Longrightarrow> t = fst x"
  by (cases x) simp

definition presents_session :: "http_call \<Rightarrow> device_id \<Rightarrow> 'a desk \<Rightarrow> bool" where
  "presents_session call d s \<longleftrightarrow>
     (\<exists>token. hc_authorization call = Some (bearer_header token) \<and>
        authenticate d token (dk_authorizer s) \<noteq> None)"

definition others_untouched :: "device_id \<Rightarrow> 'a desk \<Rightarrow> 'a desk \<Rightarrow> bool" where
  "others_untouched d s t \<longleftrightarrow> (\<forall>e. e \<noteq> d \<longrightarrow>
     session_generation (dk_authorizer t) e = session_generation (dk_authorizer s) e \<and>
     get_addr e (dk_registry t) = get_addr e (dk_registry s))"

lemma disconnect_others: "others_untouched d s (fst (handle_disconnect ops d g s))"
  using handle_disconnect_state [of ops d g s]
  by (auto simp: others_untouched_def session_generation_def get_addr_def revoke_sessions unregister_def)

lemma presents_sessionI:
  "authenticate_device (hc_authorization call) d (dk_authorizer s) = Some session \<Longrightarrow>
   presents_session call d s"
  by (auto simp: presents_session_def authenticate_device_Some)

lemma connect_others:
  assumes "desk_ok s" and "handle_connect ops cfg inp c s = Some (t, r)"
  shows "others_untouched (cc_device_id c) s t"
  using connect_sessions [OF assms]
  by (auto simp: others_untouched_def session_generation_def get_addr_def) metis

lemma command_disconnect_state:
  "handle_command ops cfg inp (CmdDisconnect d p g) s = Some (t, r) \<Longrightarrow>
   t = fst (handle_disconnect ops d g s)"
  by (auto split: prod.splits)

lemma http_connect_state:
  assumes "fst (http_connect ops cfg env inp ch req peer v s) \<noteq> s"
  shows "dk_is_broadcasting s \<and> (\<exists>c r. cc_device_id c = cr_device_id req \<and>
     handle_connect ops cfg inp c s = Some (fst (http_connect ops cfg env inp ch req peer v s), r))"
proof -
  define c where "c = connect_command_of req peer v (dk_authorizer s)"
  from assms have on: "dk_is_broadcasting s"
    by (rule contrapos_np) (simp add: http_connect_def)
  then have "fst (http_connect ops cfg env inp ch req peer v s) =
      fst (dispatch ops cfg inp ch (CmdConnect c) s)"
    by (simp add: http_connect_def c_def Let_def split: prod.splits)
  with assms dispatch_state [of ops cfg inp ch "CmdConnect c" s]
  obtain r where "handle_connect ops cfg inp c s =
      Some (fst (http_connect ops cfg env inp ch req peer v s), r)"
    by (auto split: option.splits)
  moreover have "cc_device_id c = cr_device_id req"
    by (simp add: c_def connect_command_of_def)
  ultimately show ?thesis
    using on by blast
qed

lemma http_probe_state:
  assumes "fst (http_probe ops cfg inp ch device s) \<noteq> s"
  shows "\<exists>d. device = Some d \<and> fst (http_probe ops cfg inp ch device s) =
     s\<lparr>dk_registry := fst (update_last_seen (in_now inp) d (dk_registry s))\<rparr>"
proof -
  have eq: "fst (http_probe ops cfg inp ch device s) = fst (dispatch ops cfg inp ch (CmdProbe device) s)"
    by (simp add: http_probe_def split: prod.splits)
  with assms dispatch_state [of ops cfg inp ch "CmdProbe device" s]
  show ?thesis
    by (auto simp: handle_probe_def refresh_def split: prod.splits option.splits)
qed


text \<open>
  C8: the token a connect hands out is the key to its session. When a connect over HTTPS returns
  a token, a disconnect that carries it as its bearer token is accepted, ends the session and the
  registration of the device (if the audio engine accepts the unsubscription), and the same
  request a second time is refused with 401 and changes nothing.
\<close>

theorem issued_token_is_the_key:
  assumes "desk_ok s"
    and connect: "http_serve ops cfg env inp Answers
      \<lparr>hc_request = PostConnect req, hc_peer = peer, hc_authorization = v\<rparr> s =
        (t, Some (status, BodyPresence p))"
    and tok: "pr_session_token p = Some tok"
    and audio: "\<And>a. snd (ao_unsubscribe ops (cr_device_id req) a) = Inr ()"
  shows "\<exists>u. status = 200 \<and>
    (let leave = \<lparr>hc_request = PostDisconnect (cr_device_id req), hc_peer = peer',
         hc_authorization = Some (bearer_header tok)\<rparr> in
     http_serve ops cfg env inp' Answers leave t = (u, Some (200, BodyEmpty)) \<and>
     \<not> has_session (cr_device_id req) (dk_authorizer u) \<and>
     get_addr (cr_device_id req) (dk_registry u) = None \<and>
     http_serve ops cfg env inp'' ch leave u = (u, Some unauthorized))"
proof -
  define c where "c = connect_command_of req peer v (dk_authorizer s)"
  have c: "cc_device_id c = cr_device_id req"
    by (simp add: c_def connect_command_of_def)
  from connect have "http_connect ops cfg env inp Answers req peer v s = (t, status, BodyPresence p)"
    by (auto simp: http_serve_def apsnd_def map_prod_def split: prod.splits)
  then obtain q where h: "handle_connect ops cfg inp c s = Some (t, Inr q)"
    and q: "pr_session_token q = Some tok" "status = 200"
    using tok unfolding http_connect_def dispatch_def c_def [symmetric]
    by (cases "handle_connect ops cfg inp c s")
      (auto simp: Let_def control_error_def ack_dropped_def dispatcher_unavailable_def
        split: if_splits sum.splits)
  from connect_sessions [OF assms(1) h] q obtain g where
    sessions: "hm_get (au_sessions (dk_authorizer t)) (cr_device_id req) =
      Some \<lparr>sr_token = tok, sr_generation = g\<rparr>"
    by (auto simp: c)
  define d where "d = cr_device_id req"
  have auth: "authenticate_device (Some (bearer_header tok)) d (dk_authorizer t) =
      Some \<lparr>as_device_id = d, as_generation = g\<rparr>"
    using sessions by (auto simp: authenticate_device_Some authenticate_def d_def)
  define u where "u = fst (handle_disconnect ops d (Some g) t)"
  have cur: "is_current d g (dk_authorizer t)"
    using sessions by (simp add: is_current_def session_generation_def d_def)
  have ended: "handle_disconnect ops d (Some g) t = (u, Inr ()) \<and>
      hm_get (au_sessions (dk_authorizer u)) d = None \<and> hm_get (dk_registry u) d = None"
  proof -
    have "snd (unregister_device ops d t) = Inr ()"
      using audio by (simp add: unregister_device_def audio_result d_def Let_def)
    then have "handle_disconnect ops d (Some g) t = (u, Inr ()) \<and> u = (fst (unregister_device ops d t))
        \<lparr>dk_authorizer := fst (revoke d (Some g) (dk_authorizer (fst (unregister_device ops d t))))\<rparr>"
      using cur by (cases "unregister_device ops d t") (simp add: handle_disconnect_def u_def)
    then show ?thesis
      using cur by (simp add: revoke_def is_current_def unregister_def)
  qed
  then have refused: "authenticate_device (Some (bearer_header tok)) d (dk_authorizer u) = None"
    by (auto simp: authenticate_device_def authenticate_def split: option.splits)
  show ?thesis
    unfolding Let_def d_def [symmetric]
    using q ended auth refused
    by (auto simp: http_serve_def http_disconnect_def http_mutation_def dispatch_def Let_def
        has_session_def get_addr_def)
qed

section \<open>Events reach the newest socket\<close>

datatype ws_op = SocketOpens device_id | SocketEnds device_id nat

fun ws_do :: "ws_op \<Rightarrow> ws_hub \<Rightarrow> ws_hub" where
  "ws_do (SocketOpens d) h = fst (ws_open d h)"
| "ws_do (SocketEnds d ch) h = ws_close d ch h"

abbreviation ws_run :: "ws_op list \<Rightarrow> ws_hub \<Rightarrow> ws_hub" where
  "ws_run ops h \<equiv> fold ws_do ops h"

lemma hub_ok_new: "hub_ok new_hub"
  by (simp add: hub_ok_def new_hub_def)

lemma hub_ok_do: "hub_ok h \<Longrightarrow> hub_ok (ws_do op h)"
  by (cases op) (auto simp: hub_ok_def ws_open_def ws_close_def ws_leave_def Let_def less_Suc_eq)

lemma hub_ok_run: "hub_ok h \<Longrightarrow> hub_ok (ws_run ops h)"
  by (induction ops arbitrary: h) (simp_all add: hub_ok_do)

definition connected :: "device_id \<Rightarrow> nat \<Rightarrow> ws_hub \<Rightarrow> bool" where
  "connected d ch h \<longleftrightarrow> hm_get (wh_connections h) d = Some ch \<and> ch \<in> set (wh_open h)"

lemma connected_open: "connected d (wh_next h) (fst (ws_open d h))"
  by (simp add: connected_def ws_open_def)

lemma connected_kept:
  assumes "hub_ok h" "connected d ch h" "op \<noteq> SocketOpens d" "\<forall>e. op \<noteq> SocketEnds e ch"
  shows "connected d ch (ws_do op h)"
proof (cases op)
  case (SocketOpens e)
  then show ?thesis using assms by (simp add: connected_def ws_open_def)
next
  case (SocketEnds e ch')
  moreover have "hm_get (wh_connections (fst (ws_leave e ch' h))) d = Some ch"
    using sockets.current_evict [OF assms(1), of e ch' d] assms SocketEnds
    by (auto simp: connected_def)
  ultimately show ?thesis
    using assms by (auto simp: connected_def ws_close_def ws_leave_def Let_def)
qed

lemma connected_run:
  assumes "hub_ok h" "connected d ch h" "SocketOpens d \<notin> set ops" "\<forall>e. SocketEnds e ch \<notin> set ops"
  shows "connected d ch (ws_run ops h)"
  using assms
proof (induction ops arbitrary: h)
  case (Cons op ops)
  then have "connected d ch (ws_do op h)"
    by (intro connected_kept) auto
  with Cons show ?case by (simp add: hub_ok_do)
qed simp

text \<open>
  Events reach the newest socket. After any history of sockets opening and ending, once a new
  socket of a device has opened, and as long as it has not ended itself and the device has opened
  no other, an event for the device is delivered to exactly that socket, however late the older
  sockets end; and when it ends itself, the device is no longer connected.
\<close>

theorem events_reach_newest_socket:
  assumes "h = ws_run before new_hub"
    and "SocketOpens d \<notin> set later" and "\<forall>e. SocketEnds e (wh_next h) \<notin> set later"
    and "h' = ws_run (SocketOpens d # later) h"
  shows "event_send d ev h' = (h'\<lparr>wh_sent := wh_sent h' @ [(wh_next h, ev)]\<rparr>, Inr ()) \<and>
    event_send d ev (ws_close d (wh_next h) h') =
      (ws_close d (wh_next h) h', Inl (''no active connection for device '' @ d))"
proof -
  have "hub_ok h" and opened: "hub_ok (fst (ws_open d h))"
    using hub_ok_run [OF hub_ok_new] hub_ok_do [of h "SocketOpens d"] by (simp_all add: assms(1))
  from connected_run [OF opened connected_open assms(2, 3)]
  have now: "connected d (wh_next h) h'"
    by (simp add: assms(4))
  define message where "message = ''no active connection for device '' @ d"
  have "hub_ok h'"
    using hub_ok_run [OF opened] by (simp add: assms(4))
  from sockets.current_evict [OF this, of d "wh_next h" d] now
  have "hm_get (wh_connections (ws_close d (wh_next h) h')) d = None"
    by (simp add: connected_def ws_close_def Let_def)
  with now show ?thesis
    unfolding message_def [symmetric] event_send_def by (simp add: connected_def)
qed

section \<open>A concrete exchange\<close>

text \<open>A desk on which the phone holds a session with the token \<open>k\<close>, and its reconnect.\<close>

definition sample_session_desk :: "unit desk" where
  "sample_session_desk = sample_desk\<lparr>dk_authorizer := default_authorizer
     \<lparr>au_sessions := [(''phone'', \<lparr>sr_token = ''k'', sr_generation = 5\<rparr>)], au_next_generation := 5\<rparr>\<rparr>"

definition sample_request :: connect_req where
  "sample_request = \<lparr>cr_device_id = ''phone'', cr_device_name = ''Pixel'', cr_mode = ModeWifi,
     cr_jitter_config = default_jitter_config, cr_bitrate = default_bitrate, cr_source = None,
     cr_network_link = None, cr_pending_request_id = None, cr_device_auth = None\<rparr>"

definition sample_env :: http_env where
  "sample_env = \<lparr>he_link = \<lambda>_ _. Ethernet, he_processes = []\<rparr>"

definition sample_call :: "http_request \<Rightarrow> http_call" where
  "sample_call r = \<lparr>hc_request = r, hc_peer = SocketAddr (IpV4 10 0 0 2) 40000,
     hc_authorization = Some (bearer_header ''k'')\<rparr>"

lemma sample_session_desk_ok: "desk_ok sample_session_desk"
  using sample_desk_ok
  by (simp add: desk_ok_def sample_session_desk_def authorizer_ok_def default_authorizer_def hm_wf_def)

lemma sample_authorized:
  "authenticate_device (Some (bearer_header ''k'')) ''phone'' (dk_authorizer sample_session_desk) =
     Some \<lparr>as_device_id = ''phone'', as_generation = 5\<rparr>"
  by (auto simp: authenticate_device_Some authenticate_def sample_session_desk_def hm_get_def)

lemma sample_reconnects:
  "\<exists>t p. http_serve quiet_audio sample_cfg sample_env sample_inputs Answers
      (sample_call (PostConnect sample_request)) sample_session_desk = (t, Some (200, BodyPresence p)) \<and>
    pr_session_token p = Some (hex_encode toy_crypto (as_bytes ''t''))"
  using sample_authorized
  by (simp add: http_serve_def http_connect_def sample_call_def dispatch_def connect_command_of_def
      sample_request_def sample_session_desk_def
      handle_connect_def connect_gate_def connect_start_def prepare_def register_device_def
      audio_call_def quiet_audio_def sample_cfg_def sample_inputs_def sample_desk_def
      new_desk_def default_authorizer_def gen_next_def register_def new_registry_def
      remember_identity_def commit_def forget_request_def presence_def get_addr_def
      notify_device_discovered_def tray_def Let_def)

lemma sample_ended:
  "au_sessions (dk_authorizer (fst (handle_disconnect quiet_audio ''phone'' (Some 5) sample_session_desk))) = []"
  by (simp add: handle_disconnect_def is_current_def session_generation_def sample_session_desk_def
      unregister_device_def unregister_def audio_call_def quiet_audio_def revoke_def hm_get_def
      hm_remove_def sample_desk_def new_desk_def new_registry_def Let_def)


theorem issued_token_is_the_key_witness:
  "\<exists>t u. fst (http_serve quiet_audio sample_cfg sample_env sample_inputs Answers
      (sample_call (PostConnect sample_request)) sample_session_desk) = t \<and>
     http_serve quiet_audio sample_cfg sample_env sample_inputs Answers
       \<lparr>hc_request = PostDisconnect ''phone'', hc_peer = SocketAddr (IpV4 10 0 0 2) 40001,
        hc_authorization = Some (bearer_header (hex_encode toy_crypto (as_bytes ''t'')))\<rparr> t =
       (u, Some (200, BodyEmpty)) \<and>
     \<not> has_session ''phone'' (dk_authorizer u)"
proof -
  obtain t p where h: "http_serve quiet_audio sample_cfg sample_env sample_inputs Answers
      (sample_call (PostConnect sample_request)) sample_session_desk = (t, Some (200, BodyPresence p))"
    "pr_session_token p = Some (hex_encode toy_crypto (as_bytes ''t''))"
    using sample_reconnects by blast
  have audio: "snd (ao_unsubscribe quiet_audio (cr_device_id sample_request) a) = Inr ()" for a
    by (simp add: quiet_audio_def)
  from issued_token_is_the_key [OF sample_session_desk_ok h(1) [unfolded sample_call_def] h(2) audio,
      of "SocketAddr (IpV4 10 0 0 2) 40001" sample_inputs]
  show ?thesis
    using h(1) by (auto simp: sample_request_def Let_def)
qed

theorem events_reach_newest_socket_witness:
  "snd (event_send ''phone'' WsDisconnectEvent
     (ws_run [SocketOpens ''phone'', SocketOpens ''phone'', SocketEnds ''phone'' 0] new_hub)) = Inr ()"
  using events_reach_newest_socket [OF refl, of "''phone''" "[SocketEnds ''phone'' 0]"
      "[SocketOpens ''phone'']" _ WsDisconnectEvent, OF _ _ refl]
  by (simp add: new_hub_def ws_open_def)

end
