(* ===== verification/Float_Order.thy ===== *)
theory Float_Order
  imports Float32
begin

text \<open>
  Comparing, clamping, rounding and converting single-precision values, and their order: all
  finite patterns are integers in units of the smallest positive one, so the comparison of
  two numbers is the comparison of these integers.
\<close>

section \<open>Operations\<close>

definition f32_le :: "f32 \<Rightarrow> f32 \<Rightarrow> bool" where
  "f32_le a b \<longleftrightarrow> \<not> f32_is_nan a \<and> \<not> f32_is_nan b \<and> \<not> f32_lt b a"

definition f32_ge :: "f32 \<Rightarrow> f32 \<Rightarrow> bool" where
  "f32_ge a b \<longleftrightarrow> f32_le b a"

definition f32_eq :: "f32 \<Rightarrow> f32 \<Rightarrow> bool" where
  "f32_eq a b \<longleftrightarrow> f32_le a b \<and> f32_le b a"

definition f32_min :: "f32 \<Rightarrow> f32 \<Rightarrow> f32" where
  "f32_min a b = (if f32_is_nan a then b else if f32_is_nan b then a
                  else if f32_lt b a then b else a)"

text \<open>\<open>f32::clamp\<close>, which panics unless \<open>lo <= hi\<close>; a NaN stays one.\<close>

definition f32_clamp :: "f32 \<Rightarrow> f32 \<Rightarrow> f32 \<Rightarrow> f32 option" where
  "f32_clamp lo hi a =
     (if \<not> f32_le lo hi then None
      else Some (if f32_lt a lo then lo else if f32_lt hi a then hi else a))"

text \<open>The integer part of the magnitude of a finite value.\<close>

definition f32_floor_mag :: "f32 \<Rightarrow> nat" where
  "f32_floor_mag a = f32_mant a * 2 ^ nat (f32_scale a) div 2 ^ nat (- f32_scale a)"

text \<open>\<open>a as u32\<close> and \<open>a as usize\<close>: a NaN and the negatives give 0, too large values the maximum.\<close>

definition f32_to_nat :: "nat \<Rightarrow> f32 \<Rightarrow> nat" where
  "f32_to_nat limit a =
     (if f32_is_nan a \<or> f32_sign a then 0 else if f32_is_inf a then limit else min limit (f32_floor_mag a))"

definition f32_to_u32 :: "f32 \<Rightarrow> u32" where
  "f32_to_u32 a = of_nat (f32_to_nat (2 ^ 32 - 1) a)"

definition f32_ceil :: "f32 \<Rightarrow> f32" where
  "f32_ceil a =
     (if f32_is_nan a then f32_nan
      else if f32_is_inf a \<or> f32_is_zero a \<or> 0 \<le> f32_scale a then a
      else let d = 2 ^ nat (- f32_scale a) in
        if f32_sign a then f32_of_ratio True (f32_mant a div d) 1
        else f32_of_ratio False ((f32_mant a + d - 1) div d) 1)"

text \<open>\<open>f32::powi\<close> for an exponent that is not negative, by repeated squaring.\<close>

fun powi_loop :: "f32 \<Rightarrow> f32 \<Rightarrow> nat \<Rightarrow> f32" where
  "powi_loop r a n =
     (let r' = (if odd n then f32_mul r a else r) in
      if n div 2 = 0 then r' else powi_loop r' (f32_mul a a) (n div 2))"

declare powi_loop.simps [simp del]

definition f32_powi :: "f32 \<Rightarrow> nat \<Rightarrow> f32" where
  "f32_powi a n = powi_loop (f32_of_nat 1) a n"

definition f32_lerp :: "f32 \<Rightarrow> f32 \<Rightarrow> f32 \<Rightarrow> f32" where
  "f32_lerp a b t = f32_add a (f32_mul (f32_sub b a) t)"

section \<open>The order\<close>

definition f32_key :: "f32 \<Rightarrow> int" where
  "f32_key a = (if f32_is_inf a then (if f32_sign a then - (2 ^ 300) else 2 ^ 300)
     else f32_units (- 149) a)"

lemma f32_exp_less: "f32_exp a < 256"
  by (simp add: f32_exp_def)

lemma f32_scale_bounds:
  "- 149 \<le> f32_scale a" "\<not> f32_is_nan a \<Longrightarrow> \<not> f32_is_inf a \<Longrightarrow> f32_scale a \<le> 104"
  using f32_exp_less [of a] by (auto simp: f32_scale_def f32_is_nan_def f32_is_inf_def)

lemma f32_mant_less: "f32_mant a < 2 ^ 24"
proof -
  have "f32_frac a < 2 ^ 23" by (simp add: f32_frac_def)
  then show ?thesis by (simp add: f32_mant_def)
qed

lemma f32_units_shift:
  assumes "v \<le> u" "u \<le> f32_scale a"
  shows "f32_units v a = f32_units u a * 2 ^ nat (u - v)"
proof -
  have "nat (f32_scale a - v) = nat (f32_scale a - u) + nat (u - v)" using assms by linarith
  then show ?thesis by (simp add: f32_units_def Let_def power_add)
qed

lemma f32_units_less:
  "\<not> f32_is_nan a \<Longrightarrow> \<not> f32_is_inf a \<Longrightarrow> \<bar>f32_units (- 149) a\<bar> < 2 ^ 300"
proof -
  assume a: "\<not> f32_is_nan a" "\<not> f32_is_inf a"
  then have "nat (f32_scale a + 149) \<le> 253" using f32_scale_bounds by fastforce
  then have "f32_mant a * 2 ^ nat (f32_scale a + 149) \<le> 2 ^ 24 * 2 ^ 253"
    using f32_mant_less [of a] by (intro mult_mono power_increasing) simp_all
  also have "\<dots> < 2 ^ 300" by simp
  finally have "f32_mant a * 2 ^ nat (f32_scale a + 149) < 2 ^ 300" .
  then have "int (f32_mant a * 2 ^ nat (f32_scale a + 149)) < 2 ^ 300"
    using of_nat_less_iff [of "f32_mant a * 2 ^ nat (f32_scale a + 149)" "2 ^ 300", where ?'a = int]
    by simp
  then show ?thesis by (simp add: f32_units_def Let_def)
qed

lemma f32_lt_key: "f32_lt a b \<longleftrightarrow> \<not> f32_is_nan a \<and> \<not> f32_is_nan b \<and> f32_key a < f32_key b"
proof (cases "f32_is_nan a \<or> f32_is_nan b \<or> f32_is_inf a \<or> f32_is_inf b")
  case True
  then show ?thesis
    using f32_units_less [of a] f32_units_less [of b]
    by (auto simp: f32_lt_def f32_key_def abs_less_iff)
next
  case False
  define u where "u = min (f32_scale a) (f32_scale b)"
  have "f32_units (- 149) a = f32_units u a * 2 ^ nat (u + 149)"
    "f32_units (- 149) b = f32_units u b * 2 ^ nat (u + 149)"
    using f32_units_shift [of "- 149" u] f32_scale_bounds(1) [of a] f32_scale_bounds(1) [of b]
    by (simp_all add: u_def min_def)
  then show ?thesis
    using False by (simp add: f32_lt_def f32_key_def u_def [symmetric] Let_def)
qed

lemma f32_le_key: "f32_le a b \<longleftrightarrow> \<not> f32_is_nan a \<and> \<not> f32_is_nan b \<and> f32_key a \<le> f32_key b"
  by (auto simp: f32_le_def f32_lt_key)

lemma f32_le_trans: "f32_le a b \<Longrightarrow> f32_le b c \<Longrightarrow> f32_le a c"
  by (simp add: f32_le_key)

lemma f32_max_num:
  assumes "\<not> f32_is_nan a" "\<not> f32_is_nan b"
  shows "\<not> f32_is_nan (f32_max a b)" "f32_key (f32_max a b) = max (f32_key a) (f32_key b)"
    "f32_max a b \<in> {a, b}"
  using assms by (auto simp: f32_max_def f32_lt_key)

lemma f32_clamp_num:
  assumes "f32_clamp lo hi a = Some r" "\<not> f32_is_nan a"
  shows "f32_le lo r" "f32_le r hi"
  using assms by (auto simp: f32_clamp_def f32_le_key f32_lt_key split: if_splits)

text \<open>The integer part in terms of the key.\<close>

lemma f32_floor_mag_key:
  assumes "\<not> f32_is_nan a" "\<not> f32_is_inf a"
  shows "f32_floor_mag a = nat \<bar>f32_key a\<bar> div 2 ^ 149"
proof -
  have k: "nat \<bar>f32_key a\<bar> = f32_mant a * 2 ^ nat (f32_scale a + 149)"
    using assms by (simp add: f32_key_def f32_units_def Let_def nat_mult_distrib nat_power_eq)
  show ?thesis
  proof (cases "0 \<le> f32_scale a")
    case True
    then have "nat (f32_scale a + 149) = nat (f32_scale a) + 149" by (simp add: nat_add_distrib)
    then have "nat \<bar>f32_key a\<bar> = f32_mant a * 2 ^ nat (f32_scale a) * 2 ^ 149"
      by (simp only: k power_add mult.assoc)
    then show ?thesis using True by (simp add: f32_floor_mag_def)
  next
    case False
    then have "nat (f32_scale a + 149) + nat (- f32_scale a) = 149"
      using f32_scale_bounds(1) [of a] by linarith
    then have eq: "(2 ^ 149 :: nat) = 2 ^ nat (f32_scale a + 149) * 2 ^ nat (- f32_scale a)"
      by (metis power_add)
    have "f32_mant a * 2 ^ nat (f32_scale a + 149) div 2 ^ 149 = f32_mant a div 2 ^ nat (- f32_scale a)"
      unfolding eq by (subst mult.commute, subst div_mult_mult1) simp_all
    then show ?thesis
      using False by (simp add: k f32_floor_mag_def)
  qed
qed

lemma f32_finite_less:
  assumes "f32_le 0 a" "f32_lt a b" "f32_key b \<le> int n * 2 ^ 149" "n < 2 ^ 32"
  shows "\<not> f32_is_nan a" "\<not> f32_is_inf a" "f32_floor_mag a < n"
proof -
  have key: "f32_key 0 = 0" by (simp add: f32_key_def)
  have a: "\<not> f32_is_nan a" "0 \<le> f32_key a" "f32_key a < int n * 2 ^ 149"
    using assms by (auto simp: f32_le_key f32_lt_key key)
  then show "\<not> f32_is_nan a" by simp
  have "int n * 2 ^ 149 \<le> 2 ^ 32 * 2 ^ 149"
    using assms(4) by (intro mult_right_mono) simp_all
  then have "f32_key a < 2 ^ 300" using a(3) by simp
  then show inf: "\<not> f32_is_inf a" using a(2) by (auto simp: f32_key_def split: if_splits)
  have "nat \<bar>f32_key a\<bar> < n * 2 ^ 149"
    using a(2, 3) by (simp add: nat_less_iff)
  then show "f32_floor_mag a < n"
    using f32_floor_mag_key [OF a(1) inf] by (simp add: less_mult_imp_div_less)
qed

text \<open>Rounding never makes a NaN.\<close>

lemma f32_pack_num: "n \<le> 0x7F800000 \<Longrightarrow> \<not> f32_is_nan (f32_pack s n)"
proof -
  assume n: "n \<le> 0x7F800000"
  define k where "k = n + (if s then 2 ^ 31 else 0)"
  have "k < 2 ^ 32" using n by (simp add: k_def)
  then have u: "unat (f32_pack s n) = k"
    unfolding f32_pack_def k_def [symmetric] by (simp add: unat_of_nat)
  have "f32_exp (f32_pack s n) = n div 2 ^ 23"
  proof -
    have "(n + 2 ^ 31) div 2 ^ 23 = n div 2 ^ 23 + 256" by simp
    moreover have "n div 2 ^ 23 < 256" using n by (simp add: div_less_iff_less_mult)
    ultimately show ?thesis by (simp add: f32_exp_def u k_def)
  qed
  moreover have "f32_frac (f32_pack s n) = n mod 2 ^ 23"
    by (simp add: f32_frac_def u k_def mod_add_right_eq [symmetric, of n])
  moreover have "n mod 2 ^ 23 = 0" if "n div 2 ^ 23 = 255"
  proof -
    have "n = 255 * 2 ^ 23 + n mod 2 ^ 23" using that div_mult_mod_eq [of n "2 ^ 23"] by simp
    then show ?thesis using n by simp
  qed
  ultimately show ?thesis by (auto simp: f32_is_nan_def)
qed

lemma f32_of_ratio_num: "\<not> f32_is_nan (f32_of_ratio s p q)"
  by (auto simp: f32_of_ratio_def f32_assemble_def f32_inf_def Let_def intro!: f32_pack_num)

lemma f32_of_nat_num [simp]: "\<not> f32_is_nan (f32_of_nat n)"
  by (simp add: f32_of_nat_def f32_of_ratio_num)

lemma f32_ceil_num: "\<not> f32_is_nan a \<Longrightarrow> \<not> f32_is_nan (f32_ceil a)"
  by (simp add: f32_ceil_def f32_of_ratio_num Let_def)

lemma f32_to_nat_mono:
  assumes "f32_le a b"
  shows "f32_to_nat limit a \<le> f32_to_nat limit b"
proof -
  have num: "\<not> f32_is_nan a" "\<not> f32_is_nan b" and key: "f32_key a \<le> f32_key b"
    using assms by (simp_all add: f32_le_key)
  have neg: "f32_key c < 0 \<or> f32_key c = 0 \<and> \<not> f32_is_inf c" if "f32_sign c" "\<not> f32_is_nan c" for c
    using that by (auto simp: f32_key_def f32_units_def Let_def)
  have pos: "0 \<le> f32_key c" if "\<not> f32_sign c" for c
    using that by (auto simp: f32_key_def f32_units_def Let_def)
  have zero: "f32_floor_mag c = 0" if "f32_key c = 0" "\<not> f32_is_nan c" "\<not> f32_is_inf c" for c
    using f32_floor_mag_key [OF that(2, 3)] that(1) by simp
  show ?thesis
  proof (cases "f32_sign a \<or> f32_is_inf b \<and> \<not> f32_sign b")
    case True
    then show ?thesis using num by (auto simp: f32_to_nat_def)
  next
    case False
    have a: "\<not> f32_sign a" "0 \<le> f32_key a" "\<not> f32_is_inf a"
      using False pos [of a] key num f32_units_less [of b] neg [of b]
      by (auto simp: f32_key_def split: if_splits)
    show ?thesis
    proof (cases "f32_sign b")
      case True
      then have "f32_key a = 0" using neg [OF True num(2)] key a(2) by linarith
      then show ?thesis using zero [OF _ num(1) a(3)] using a(3) by (simp add: f32_to_nat_def)
    next
      case sign: False
      have b: "\<not> f32_is_inf b" using False sign by simp
      have "nat \<bar>f32_key a\<bar> \<le> nat \<bar>f32_key b\<bar>" using key a(2) by simp
      then have "f32_floor_mag a \<le> f32_floor_mag b"
        using f32_floor_mag_key [OF num(1) a(3)] f32_floor_mag_key [OF num(2) b] by (simp add: div_le_mono)
      then show ?thesis using a b num sign by (auto simp: f32_to_nat_def min_def)
    qed
  qed
qed

lemma f32_to_u32_mono: "f32_le a b \<Longrightarrow> f32_to_u32 a \<le> f32_to_u32 b"
proof -
  assume "f32_le a b"
  moreover have "unat (f32_to_u32 c) = f32_to_nat (2 ^ 32 - 1) c" for c
    by (simp add: f32_to_u32_def unat_of_nat f32_to_nat_def)
  ultimately show ?thesis
    using f32_to_nat_mono by (simp add: word_le_nat_alt)
qed

lemma f32_max_keeps_num: "\<not> f32_is_nan a \<Longrightarrow> \<not> f32_is_nan (f32_max a b)"
  by (simp add: f32_max_def)

end
