(* ===== verification/Playback_Flow.thy ===== *)
theory Playback_Flow
  imports Float_Order
begin

text \<open>
  The playback lifecycle of the player (\<open>jitter/flow.rs\<close>): prebuffering, starvation, the hold for a
  reordered packet, the window that measures how much was concealed, the guard that suppresses
  time-stretching after a starvation, and the filtered buffer level.

  Counters are 32-bit words; the level is an IEEE single.
\<close>

section \<open>State\<close>

definition MILLIS_PER_FRAME :: u32 where "MILLIS_PER_FRAME = 10"
definition RECOVERY_GUARD_WINDOW :: nat where "RECOVERY_GUARD_WINDOW = millis 500"
definition CONCEAL_WINDOW_CALLBACKS :: u32 where "CONCEAL_WINDOW_CALLBACKS = 500 div MILLIS_PER_FRAME"
definition CONCEAL_REBUFFER_PCT :: u32 where "CONCEAL_REBUFFER_PCT = 50"

lemmas flow_consts = MILLIS_PER_FRAME_def RECOVERY_GUARD_WINDOW_def CONCEAL_WINDOW_CALLBACKS_def
  CONCEAL_REBUFFER_PCT_def

record conceal_verdict =
  cv_conceal_pct :: u32
  cv_callbacks :: u32
  cv_should_rebuffer :: bool

record playback_flow =
  pf_is_prebuffering :: bool
  pf_missing_count :: u32
  pf_starvation_count :: u32
  pf_conceal_run :: u32
  pf_gap_hold_count :: u32
  pf_starvation_recovery :: u32
  pf_recovery_started_at :: "nat option"
  pf_filtered_level :: f32
  pf_conceal_callbacks :: u32
  pf_window_callbacks :: u32
  pf_starvation_events :: u32
  pf_episode_started_at :: "nat option"

definition new_flow :: playback_flow where
  "new_flow = \<lparr>pf_is_prebuffering = True, pf_missing_count = 0, pf_starvation_count = 0,
     pf_conceal_run = 0, pf_gap_hold_count = 0, pf_starvation_recovery = 0,
     pf_recovery_started_at = None, pf_filtered_level = 0, pf_conceal_callbacks = 0,
     pf_window_callbacks = 0, pf_starvation_events = 0, pf_episode_started_at = None\<rparr>"

section \<open>Operations\<close>

definition level_factor :: "u32 \<Rightarrow> nat" where
  "level_factor target =
     (if target \<le> 1 then 251 else if target \<le> 3 then 252 else if target \<le> 7 then 253 else 254)"

definition filter_buffer_level :: "u32 \<Rightarrow> u32 \<Rightarrow> playback_flow \<Rightarrow> playback_flow" where
  "filter_buffer_level occupied target f =
     (let alpha = f32_div (f32_of_nat (level_factor target)) (f32_of_nat 256) in
      f\<lparr>pf_filtered_level := f32_add (f32_mul (pf_filtered_level f) alpha)
          (f32_mul (f32_of_nat (unat occupied)) (f32_sub (f32_of_nat 1) alpha))\<rparr>)"

definition adjust_filtered_level :: "f32 \<Rightarrow> playback_flow \<Rightarrow> playback_flow" where
  "adjust_filtered_level delta f =
     f\<lparr>pf_filtered_level := f32_max (f32_add (pf_filtered_level f) delta) 0\<rparr>"

definition observe_delivery :: "bool \<Rightarrow> playback_flow \<Rightarrow> playback_flow \<times> conceal_verdict option" where
  "observe_delivery concealed f =
     (let window = pf_window_callbacks f + 1;
          missed = (if concealed then pf_conceal_callbacks f + 1 else pf_conceal_callbacks f) in
      if window < CONCEAL_WINDOW_CALLBACKS
      then (f\<lparr>pf_window_callbacks := window, pf_conceal_callbacks := missed\<rparr>, None)
      else
        let pct = missed * 100 div window in
        (f\<lparr>pf_window_callbacks := 0, pf_conceal_callbacks := 0\<rparr>,
         Some \<lparr>cv_conceal_pct = pct, cv_callbacks = window,
               cv_should_rebuffer = (CONCEAL_REBUFFER_PCT \<le> pct)\<rparr>))"

definition discard_conceal_window :: "playback_flow \<Rightarrow> playback_flow" where
  "discard_conceal_window f = f\<lparr>pf_conceal_callbacks := 0, pf_window_callbacks := 0\<rparr>"

definition note_starvation_onset :: "nat \<Rightarrow> playback_flow \<Rightarrow> playback_flow \<times> bool" where
  "note_starvation_onset now f =
     (let f1 = f\<lparr>pf_starvation_events := pf_starvation_events f + 1\<rparr> in
      if pf_episode_started_at f1 = None then (f1\<lparr>pf_episode_started_at := Some now\<rparr>, True)
      else (f1, False))"

definition close_starvation_episode :: "nat \<Rightarrow> playback_flow \<Rightarrow> playback_flow \<times> (u32 \<times> nat) option" where
  "close_starvation_episode now f = (case pf_episode_started_at f of
       None \<Rightarrow> (f, None)
     | Some started \<Rightarrow>
         (f\<lparr>pf_episode_started_at := None, pf_starvation_events := 0\<rparr>,
          Some (pf_starvation_events f, since now started)))"

definition tick_recovery :: "nat \<Rightarrow> playback_flow \<Rightarrow> playback_flow" where
  "tick_recovery now f =
     (let f1 = f\<lparr>pf_starvation_recovery := sat_sub32 (pf_starvation_recovery f) 1\<rparr> in
      case pf_recovery_started_at f1 of
        None \<Rightarrow> f1
      | Some started \<Rightarrow>
          if RECOVERY_GUARD_WINDOW \<le> since now started
          then f1\<lparr>pf_recovery_started_at := None\<rparr> else f1)"

definition arm_recovery_window :: "nat \<Rightarrow> playback_flow \<Rightarrow> playback_flow" where
  "arm_recovery_window now f =
     (if pf_recovery_started_at f = None then f\<lparr>pf_recovery_started_at := Some now\<rparr> else f)"

definition stretch_allowed :: "nat \<Rightarrow> playback_flow \<Rightarrow> bool" where
  "stretch_allowed now f = (case pf_recovery_started_at f of
       None \<Rightarrow> True
     | Some started \<Rightarrow> RECOVERY_GUARD_WINDOW \<le> since now started)"

definition reset_on_stream_restart :: "playback_flow \<Rightarrow> playback_flow" where
  "reset_on_stream_restart f = discard_conceal_window
     (f\<lparr>pf_is_prebuffering := True, pf_missing_count := 0, pf_starvation_count := 0,
        pf_conceal_run := 0, pf_gap_hold_count := 0, pf_filtered_level := 0\<rparr>)"

section \<open>The concealment window measures exactly\<close>

definition observe_run ::
  "bool list \<Rightarrow> playback_flow \<Rightarrow> playback_flow \<times> conceal_verdict list" where
  "observe_run cs f = foldl (\<lambda>(g, vs) c. case observe_delivery c g of
       (h, None) \<Rightarrow> (h, vs) | (h, Some v) \<Rightarrow> (h, vs @ [v])) (f, []) cs"

text \<open>The reference: every window of 50 callbacks is judged on its own.\<close>

definition verdict_of :: "bool list \<Rightarrow> conceal_verdict" where
  "verdict_of w = \<lparr>cv_conceal_pct = of_nat (2 * length (filter (\<lambda>b. b) w)), cv_callbacks = 50,
     cv_should_rebuffer = (25 \<le> length (filter (\<lambda>b. b) w))\<rparr>"

definition window :: "nat \<Rightarrow> 'a list \<Rightarrow> 'a list" where
  "window k xs = take 50 (drop (50 * k) xs)"

definition current_window :: "'a list \<Rightarrow> 'a list" where
  "current_window xs = drop (50 * (length xs div 50)) xs"

lemma length_current_window: "length (current_window xs) = length xs mod 50"
  by (simp add: current_window_def minus_mult_div_eq_mod)

lemma current_window_snoc:
  "current_window (xs @ [x]) =
     (if length (current_window xs) = 49 then [] else current_window xs @ [x])"
proof -
  have "Suc (length xs) div 50 = (if length xs mod 50 = 49 then Suc (length xs div 50) else length xs div 50)"
    by (simp add: div_Suc mod_Suc)
  moreover have "50 * (length xs div 50) \<le> length xs" by simp
  moreover have "50 * Suc (length xs div 50) = Suc (length xs)" if "length xs mod 50 = 49"
    using that mult_div_mod_eq [of 50 "length xs"] by simp
  ultimately show ?thesis
    unfolding length_current_window by (auto simp: current_window_def simp del: mult_Suc_right)
qed

lemma window_append: "50 * Suc k \<le> length xs \<Longrightarrow> window k (xs @ ys) = window k xs"
  by (simp add: window_def)

lemma window_complete:
  assumes "length (current_window xs) = 49"
  shows "window (length xs div 50) (xs @ [x]) = current_window xs @ [x]"
proof -
  have "50 * (length xs div 50) \<le> length xs" by simp
  then have "drop (50 * (length xs div 50)) (xs @ [x]) = current_window xs @ [x]"
    by (simp add: current_window_def)
  then show ?thesis using assms by (simp add: window_def)
qed

lemma observe_step:
  fixes c :: bool
  assumes "pf_window_callbacks f = of_nat n" "pf_conceal_callbacks f = of_nat m" "n < 50" "m \<le> n"
  defines "k \<equiv> (if c then Suc m else m)"
  shows "observe_delivery c f =
    (if n = 49
     then (f\<lparr>pf_window_callbacks := 0, pf_conceal_callbacks := 0\<rparr>,
        Some \<lparr>cv_conceal_pct = of_nat (2 * k), cv_callbacks = 50, cv_should_rebuffer = (25 \<le> k)\<rparr>)
     else (f\<lparr>pf_window_callbacks := of_nat (Suc n), pf_conceal_callbacks := of_nat k\<rparr>, None))"
proof -
  have n: "(of_nat n + 1 :: u32) < 50 \<longleftrightarrow> n \<noteq> 49"
    using assms(3) by (auto simp: word_less_nat_alt unat_word_ariths unat_of_nat)
  have k: "k \<le> 50" using assms(3, 4) by (simp add: k_def)
  have "of_nat k * 100 div (50 :: u32) = of_nat (2 * k)"
    using k by (simp add: word_unat_eq_iff unat_div unat_word_ariths unat_of_nat)
  moreover have "(50 :: u32) \<le> of_nat (2 * k) \<longleftrightarrow> 25 \<le> k"
    using k by (simp add: word_le_nat_alt unat_of_nat del: of_nat_mult)
  moreover have "(if c then pf_conceal_callbacks f + 1 else pf_conceal_callbacks f) = of_nat k"
    by (simp add: k_def assms(2))
  moreover have "500 div (10 :: u32) = 50" "(of_nat 49 :: u32) + 1 = 50"
    by (simp_all add: word_unat_eq_iff unat_div unat_word_ariths)
  ultimately show ?thesis
    using n unfolding observe_delivery_def assms(1) flow_consts Let_def
    by (cases "n = 49") (simp_all only: if_True if_False simp_thms of_nat_Suc add.commute)
qed

lemma observe_run_inv:
  assumes "pf_window_callbacks f = 0" "pf_conceal_callbacks f = 0"
  shows "pf_window_callbacks (fst (observe_run cs f)) = of_nat (length (current_window cs)) \<and>
    pf_conceal_callbacks (fst (observe_run cs f)) = of_nat (length (filter (\<lambda>b. b) (current_window cs))) \<and>
    snd (observe_run cs f) = map (\<lambda>k. verdict_of (window k cs)) [0..<length cs div 50]"
proof (induction cs rule: rev_induct)
  case Nil
  then show ?case using assms by (simp add: observe_run_def current_window_def)
next
  case (snoc c cs)
  obtain g vs where run: "observe_run cs f = (g, vs)" by (cases "observe_run cs f")
  let ?w = "current_window cs"
  have len: "length ?w < 50" "length (filter (\<lambda>b. b) ?w) \<le> length ?w"
    by (simp add: length_current_window) (rule length_filter_le)
  have fields: "pf_window_callbacks g = of_nat (length ?w)"
    "pf_conceal_callbacks g = of_nat (length (filter (\<lambda>b. b) ?w))"
    and vs: "vs = map (\<lambda>k. verdict_of (window k cs)) [0..<length cs div 50]"
    using snoc.IH by (simp_all add: run)
  note step = observe_step [OF fields len, of c]
  have fold: "observe_run (cs @ [c]) f = (case observe_delivery c g of
      (h, None) \<Rightarrow> (h, vs) | (h, Some v) \<Rightarrow> (h, vs @ [v]))"
    using run by (simp add: observe_run_def)
  have old: "map (\<lambda>k. verdict_of (window k (cs @ [c]))) [0..<length cs div 50] = vs"
    unfolding vs by (rule map_cong [OF refl]) (simp add: window_append less_eq_div_iff_mult_less_eq)
  show ?case
  proof (cases "length ?w = 49")
    case True
    then have "length cs mod 50 = 49" by (simp only: length_current_window)
    then have "Suc (length cs) div 50 = Suc (length cs div 50)"
      by (simp add: div_Suc mod_Suc)
    moreover have "verdict_of (window (length cs div 50) (cs @ [c])) =
        \<lparr>cv_conceal_pct = of_nat (2 * (if c then Suc (length (filter (\<lambda>b. b) ?w)) else length (filter (\<lambda>b. b) ?w))),
         cv_callbacks = 50,
         cv_should_rebuffer = (25 \<le> (if c then Suc (length (filter (\<lambda>b. b) ?w)) else length (filter (\<lambda>b. b) ?w)))\<rparr>"
      unfolding window_complete [OF True] by (simp add: verdict_of_def)
    ultimately show ?thesis
      using old True by (simp add: fold step current_window_snoc)
  next
    case False
    then have "length cs mod 50 \<noteq> 49" by (metis length_current_window)
    then have "Suc (length cs) div 50 = length cs div 50"
      by (simp add: div_Suc mod_Suc)
    then show ?thesis
      using old False by (simp add: fold step current_window_snoc)
  qed
qed

text \<open>
  The measure of under-delivery cannot latch its own history. Over any sequence of callbacks
  from an empty window, the verdicts are exactly those of the consecutive windows of 50 callbacks,
  each judged on its own: the percentage concealed in that window, and a rebuffer exactly when at
  least half of it was.
\<close>

theorem conceal_windows_exact:
  assumes "pf_window_callbacks f = 0" and "pf_conceal_callbacks f = 0"
  shows "snd (observe_run cs f) = map (\<lambda>k. verdict_of (window k cs)) [0..<length cs div 50]"
  using observe_run_inv [OF assms] by blast

theorem conceal_windows_exact_witness:
  "map cv_should_rebuffer (snd (observe_run (replicate 50 True @ replicate 60 False) new_flow)) =
     [True, False]"
proof -
  have "pf_window_callbacks new_flow = 0" "pf_conceal_callbacks new_flow = 0"
    by (simp_all add: new_flow_def)
  from conceal_windows_exact [OF this] show ?thesis
    by (simp add: upt_rec window_def verdict_of_def)
qed

end
