(* ===== verification/Arrival_Stats.thy ===== *)
theory Arrival_Stats
  imports Playback_Flow
begin

text \<open>
  The statistics of packet arrivals (\<open>jitter/stats.rs\<close>): the histogram of relative arrival
  delays in Q30 fixed point with exponential forgetting, the sliding window of delivery gaps,
  the detection of bursts, and the moving averages of the jitter.

  Histogram mass is an unbounded integer here; the facts below bound every bin by \<open>2^30\<close>, so
  the 64-bit arithmetic of the code, whose largest product is below \<open>2^46\<close>, is exact.
\<close>

section \<open>State\<close>

definition DELAY_HISTORY_PACKETS :: nat where "DELAY_HISTORY_PACKETS = 100"
definition IAT_HISTOGRAM_BINS :: nat where "IAT_HISTOGRAM_BINS = 65"
definition GAP_WINDOW_BUCKETS :: nat where "GAP_WINDOW_BUCKETS = 24"
definition GAP_FRESH_SECS :: nat where "GAP_FRESH_SECS = 8"
definition GAP_STALE_DECAY :: f32 where "GAP_STALE_DECAY = 0x3F59999A"
definition GAP_CLAMP_FRAMES :: f32 where "GAP_CLAMP_FRAMES = f32_of_nat 120"
definition BURST_EXPIRY_SECS :: nat where "BURST_EXPIRY_SECS = 5"
definition MIN_CLUSTER_SIZE :: u32 where "MIN_CLUSTER_SIZE = 3"
definition CLUSTER_IAT_THRESHOLD_MS :: f32 where "CLUSTER_IAT_THRESHOLD_MS = f32_of_nat 3"
definition CLUSTER_GAP_THRESHOLD_MS :: f32 where "CLUSTER_GAP_THRESHOLD_MS = f32_of_nat 30"
definition IAT_FACTOR_STEADY :: int where "IAT_FACTOR_STEADY = 32711"
definition LIMIT_PROBABILITY :: int where "LIMIT_PROBABILITY = 2 ^ 30 div 20"

lemmas stats_consts = DELAY_HISTORY_PACKETS_def IAT_HISTOGRAM_BINS_def GAP_WINDOW_BUCKETS_def
  GAP_FRESH_SECS_def BURST_EXPIRY_SECS_def MIN_CLUSTER_SIZE_def IAT_FACTOR_STEADY_def
  LIMIT_PROBABILITY_def

record jitter_stats =
  js_ema_jitter :: f32
  js_ema_jitter_var :: f32
  js_clean_streak :: u32
  js_last_macro_spike :: "nat option"
  js_unstable_regime_until :: "nat option"
  js_last_ingest_seq :: "u64 option"
  js_last_network_arrival :: "nat option"
  js_delay_history :: "f32 list"
  js_iat_histogram :: "int list"
  js_iat_factor :: int
  js_iat_percentile_target :: f32
  js_cluster_packet_count :: u32
  js_cluster_start_time :: "nat option"
  js_last_cluster_start :: "nat option"
  js_inter_burst_gap :: f32
  js_burst_detected :: bool
  js_last_burst_time :: "nat option"
  js_gap_buckets :: "f32 list"
  js_gap_bucket_idx :: nat
  js_gap_bucket_start :: "nat option"
  js_arrival_count :: u32

definition seed_histogram :: "int list" where
  "seed_histogram = map (\<lambda>i. 2 ^ 29 div 2 ^ i) [0..<IAT_HISTOGRAM_BINS]"

definition reset_histogram_to_seed :: "jitter_stats \<Rightarrow> jitter_stats" where
  "reset_histogram_to_seed s = s\<lparr>js_iat_histogram := seed_histogram, js_iat_factor := 0,
     js_iat_percentile_target := f32_of_nat 4\<rparr>"

definition reset_gap_window :: "jitter_stats \<Rightarrow> jitter_stats" where
  "reset_gap_window s = s\<lparr>js_gap_buckets := replicate GAP_WINDOW_BUCKETS 0, js_gap_bucket_idx := 0,
     js_gap_bucket_start := None\<rparr>"

definition new_stats :: jitter_stats where
  "new_stats = reset_histogram_to_seed
     \<lparr>js_ema_jitter = 0, js_ema_jitter_var = 0, js_clean_streak = 0, js_last_macro_spike = None,
      js_unstable_regime_until = None, js_last_ingest_seq = None, js_last_network_arrival = None,
      js_delay_history = [], js_iat_histogram = replicate IAT_HISTOGRAM_BINS 0, js_iat_factor = 0,
      js_iat_percentile_target = 0, js_cluster_packet_count = 0, js_cluster_start_time = None,
      js_last_cluster_start = None, js_inter_burst_gap = 0, js_burst_detected = False,
      js_last_burst_time = None, js_gap_buckets = replicate GAP_WINDOW_BUCKETS 0,
      js_gap_bucket_idx = 0, js_gap_bucket_start = None, js_arrival_count = 0\<rparr>"

section \<open>The histogram of relative arrival delays\<close>

definition update_delay_history :: "f32 \<Rightarrow> jitter_stats \<Rightarrow> jitter_stats" where
  "update_delay_history d s =
     (let h = js_delay_history s @ [d] in
      s\<lparr>js_delay_history := (if DELAY_HISTORY_PACKETS < length h then tl h else h)\<rparr>)"

definition relative_packet_arrival_delay :: "jitter_stats \<Rightarrow> f32" where
  "relative_packet_arrival_delay s = foldl (\<lambda>r d. f32_max (f32_add r d) 0) 0 (js_delay_history s)"

definition histogram_bin :: "f32 \<Rightarrow> nat option" where
  "histogram_bin d =
     (if f32_le 0 d \<and> f32_lt d (f32_of_nat IAT_HISTOGRAM_BINS)
      then Some (f32_to_nat (2 ^ 64 - 1) d) else None)"

text \<open>The correction of the rounding drift, spread over the bins from the first on.\<close>

fun correct_drift :: "int \<Rightarrow> int \<Rightarrow> int list \<Rightarrow> int list" where
  "correct_drift flip drift [] = []"
| "correct_drift flip drift (b # bs) =
     (if drift = 0 then b # bs
      else let c = flip * min \<bar>drift\<bar> (b div 16) in (b + c) # correct_drift flip (drift + c) bs)"

definition forget_and_bump :: "int \<Rightarrow> nat \<Rightarrow> int list \<Rightarrow> int list" where
  "forget_and_bump factor k bins =
     (let forgotten = map (\<lambda>b. b * factor div 32768) bins;
          increment = (32768 - factor) * 32768;
          drift = sum_list forgotten + increment - 2 ^ 30 in
      correct_drift (if 0 < drift then - 1 else 1) drift (forgotten[k := forgotten ! k + increment]))"

text \<open>The walk along the reverse distribution, from the second bin on.\<close>

fun tail_walk :: "int \<Rightarrow> nat \<Rightarrow> int list \<Rightarrow> nat" where
  "tail_walk mass index [] = index"
| "tail_walk mass index (b # bs) =
     (if LIMIT_PROBABILITY < mass then tail_walk (mass - b) (Suc index) bs else index)"

definition percentile_index :: "int list \<Rightarrow> nat" where
  "percentile_index bins = tail_walk (2 ^ 30 - hd bins) 0 (tl bins)"

definition update_iat_histogram :: "f32 \<Rightarrow> jitter_stats \<Rightarrow> jitter_stats" where
  "update_iat_histogram d s = (case histogram_bin d of None \<Rightarrow> s
     | Some k \<Rightarrow>
        let bins = forget_and_bump (js_iat_factor s) k (js_iat_histogram s) in
        s\<lparr>js_iat_histogram := bins,
          js_iat_factor := js_iat_factor s + (IAT_FACTOR_STEADY - js_iat_factor s + 3) div 4,
          js_iat_percentile_target := f32_of_nat (percentile_index bins)\<rparr>)"

section \<open>Levels read by the controller\<close>

definition stability_ratio :: "jitter_stats \<Rightarrow> f32" where
  "stability_ratio s = f32_div (f32_of_nat (unat (min (js_clean_streak s) 400))) (f32_of_nat 400)"

definition clean_threshold :: "jitter_stats \<Rightarrow> f32" where
  "clean_threshold s = f32_min (f32_add (f32_mul (js_ema_jitter s) 0x3FC00000) (f32_of_nat 1)) (f32_of_nat 10)"

text \<open>
  The heaviest bucket of the gap window and its age in seconds. Buckets of eight seconds and
  younger count in full.
\<close>

definition bucket_age :: "nat \<Rightarrow> nat \<Rightarrow> nat" where
  "bucket_age idx i = (idx + GAP_WINDOW_BUCKETS - i) mod GAP_WINDOW_BUCKETS"

definition bucket_weight :: "nat \<Rightarrow> f32 \<Rightarrow> f32" where
  "bucket_weight age gap = (if age \<le> GAP_FRESH_SECS then gap
     else f32_mul gap (f32_powi GAP_STALE_DECAY (age - GAP_FRESH_SECS)))"

definition weighted_gap_peak :: "jitter_stats \<Rightarrow> f32 \<times> nat" where
  "weighted_gap_peak s = foldl (\<lambda>(m, winner) (i, gap).
       if f32_le gap 0 then (m, winner)
       else
         let age = bucket_age (js_gap_bucket_idx s) i; w = bucket_weight age gap in
         if f32_lt m w \<or> (f32_eq w m \<and> age < winner) then (w, age) else (m, winner))
     (0, 0) (List.enumerate 0 (js_gap_buckets s))"

definition max_gap_frames :: "jitter_stats \<Rightarrow> f32" where
  "max_gap_frames s = fst (weighted_gap_peak s)"

definition max_gap_age_secs :: "jitter_stats \<Rightarrow> nat" where
  "max_gap_age_secs s = snd (weighted_gap_peak s)"

section \<open>One arrival\<close>

fun rotate_buckets :: "nat \<Rightarrow> nat \<times> f32 list \<Rightarrow> nat \<times> f32 list" where
  "rotate_buckets 0 w = w"
| "rotate_buckets (Suc n) (idx, bs) =
     (let i = (idx + 1) mod GAP_WINDOW_BUCKETS in rotate_buckets n (i, bs[i := 0]))"

definition clamp_gap :: "f32 \<Rightarrow> f32" where
  "clamp_gap gap = (case f32_clamp 0 GAP_CLAMP_FRAMES gap of Some g \<Rightarrow> g | None \<Rightarrow> gap)"

definition record_gap :: "f32 \<Rightarrow> nat \<Rightarrow> jitter_stats \<Rightarrow> jitter_stats" where
  "record_gap gap_frames now s =
     (let gap = clamp_gap gap_frames;
          s1 = (case js_gap_bucket_start s of
              None \<Rightarrow> s\<lparr>js_gap_bucket_start := Some now\<rparr>
            | Some start \<Rightarrow>
                let elapsed = since now start div secs 1 in
                if 1 \<le> elapsed
                then (case rotate_buckets (min elapsed GAP_WINDOW_BUCKETS)
                        (js_gap_bucket_idx s, js_gap_buckets s) of
                    (i, bs) \<Rightarrow> s\<lparr>js_gap_bucket_idx := i, js_gap_buckets := bs,
                      js_gap_bucket_start := Some (start + secs elapsed)\<rparr>)
                else s) in
      s1\<lparr>js_gap_buckets := (js_gap_buckets s1)[js_gap_bucket_idx s1 :=
         f32_max (js_gap_buckets s1 ! js_gap_bucket_idx s1) gap]\<rparr>)"

text \<open>\<open>as_secs_f32() * 1000.0\<close>, and the elapsed milliseconds as a float.\<close>

definition secs_f32 :: "nat \<Rightarrow> f32" where
  "secs_f32 d = f32_add (f32_of_nat (d div secs 1)) (f32_div (f32_of_nat (d mod secs 1)) (f32_of_nat 1000000000))"

definition frame_f32 :: f32 where "frame_f32 = f32_of_nat (unat MILLIS_PER_FRAME)"

definition expire_burst :: "nat \<Rightarrow> jitter_stats \<Rightarrow> jitter_stats" where
  "expire_burst now s = (case js_last_burst_time s of
       Some t \<Rightarrow> if js_burst_detected s \<and> BURST_EXPIRY_SECS \<le> since now t div secs 1
         then s\<lparr>js_burst_detected := False, js_inter_burst_gap := 0, js_last_cluster_start := None\<rparr>
         else s
     | None \<Rightarrow> s)"

definition note_burst_gap :: "jitter_stats \<Rightarrow> jitter_stats" where
  "note_burst_gap s = (case (js_last_cluster_start s, js_cluster_start_time s) of
       (Some prev, Some cur) \<Rightarrow>
         let gap = f32_div (f32_mul (secs_f32 (since cur prev)) (f32_of_nat 1000)) frame_f32 in
         if f32_le gap GAP_CLAMP_FRAMES
         then s\<lparr>js_inter_burst_gap := (if f32_is_zero (js_inter_burst_gap s) then gap
             else f32_add (f32_mul (js_inter_burst_gap s) 0x3F333333) (f32_mul gap 0x3E99999A))\<rparr>
         else s
     | _ \<Rightarrow> s)"

definition track_cluster :: "f32 \<Rightarrow> nat \<Rightarrow> jitter_stats \<Rightarrow> jitter_stats" where
  "track_cluster iat now s =
     (if f32_lt iat CLUSTER_IAT_THRESHOLD_MS
      then s\<lparr>js_cluster_packet_count := js_cluster_packet_count s + 1,
             js_cluster_start_time := (case js_cluster_start_time s of None \<Rightarrow> Some now | t \<Rightarrow> t)\<rparr>
      else if f32_lt CLUSTER_GAP_THRESHOLD_MS iat
      then
        let s1 = (if MIN_CLUSTER_SIZE \<le> js_cluster_packet_count s
              then (note_burst_gap s)\<lparr>js_last_cluster_start := js_cluster_start_time s,
                     js_burst_detected := True, js_last_burst_time := Some now\<rparr>
              else s) in
        s1\<lparr>js_cluster_packet_count := 1, js_cluster_start_time := Some now\<rparr>
      else s\<lparr>js_cluster_packet_count := 0, js_cluster_start_time := None\<rparr>)"

definition track_streak :: "f32 \<Rightarrow> jitter_stats \<Rightarrow> jitter_stats" where
  "track_streak jitter s =
     (let t = clean_threshold s in
      s\<lparr>js_clean_streak :=
         (if f32_lt jitter t
          then (if js_clean_streak s = - 1 then - 1 else js_clean_streak s + 1)
          else if f32_lt (f32_mul t (f32_of_nat 2)) jitter then 0 else js_clean_streak s div 2)\<rparr>)"

definition track_ema :: "f32 \<Rightarrow> jitter_stats \<Rightarrow> jitter_stats" where
  "track_ema jitter s =
     (let s1 = s\<lparr>js_ema_jitter_var := f32_add (f32_mul (js_ema_jitter_var s) 0x3F733333)
            (f32_mul (f32_mul jitter jitter) 0x3D4CCCCD)\<rparr>;
          alpha = (if f32_lt (js_ema_jitter s1) jitter then 0x3E19999A
            else f32_lerp 0x3BA3D70A 0x3D23D70A (stability_ratio s1)) in
      s1\<lparr>js_ema_jitter := f32_add (f32_mul (js_ema_jitter s1) (f32_sub (f32_of_nat 1) alpha))
        (f32_mul jitter alpha)\<rparr>)"

definition track_spike :: "f32 \<Rightarrow> nat \<Rightarrow> jitter_stats \<Rightarrow> jitter_stats" where
  "track_spike jitter now s =
     (if f32_ge jitter (f32_of_nat 10)
      then (case js_last_macro_spike s of
          None \<Rightarrow> s\<lparr>js_last_macro_spike := Some now\<rparr>
        | Some last_spike \<Rightarrow>
            let interval = since now last_spike div millis 1 in
            if 500 < interval
            then (if interval < 10000 then s\<lparr>js_unstable_regime_until := Some (now + secs 20)\<rparr> else s)
              \<lparr>js_last_macro_spike := Some now\<rparr>
            else s)
      else s)"

text \<open>What an in-order packet \<open>seq_diff\<close> after the last one, \<open>iat\<close> milliseconds later, teaches.\<close>

definition learn_arrival :: "f32 \<Rightarrow> nat \<Rightarrow> nat \<Rightarrow> jitter_stats \<Rightarrow> jitter_stats" where
  "learn_arrival iat seq_diff now s =
     (let expected = f32_mul (f32_of_nat seq_diff) frame_f32;
          jitter = f32_div (f32_max (f32_sub iat expected) 0) frame_f32;
          iat_packets = f32_div iat frame_f32;
          s1 = update_delay_history (f32_sub iat_packets (f32_of_nat seq_diff)) s;
          s2 = update_iat_histogram (relative_packet_arrival_delay s1) s1;
          s3 = record_gap iat_packets now s2;
          s4 = track_cluster iat now (expire_burst now s3) in
      track_spike jitter now (track_ema jitter (track_streak jitter s4)))"

text \<open>\<open>observe(seq_num, arrival_time)\<close>: whether the packet is kept.\<close>

definition observe :: "u64 \<Rightarrow> nat \<Rightarrow> jitter_stats \<Rightarrow> jitter_stats \<times> bool" where
  "observe seq now s =
     (let note = (\<lambda>r. (r\<lparr>js_last_network_arrival := Some now, js_last_ingest_seq := Some seq,
            js_arrival_count := (if js_arrival_count r = - 1 then - 1 else js_arrival_count r + 1)\<rparr>, True)) in
      case (js_last_network_arrival s, js_last_ingest_seq s) of
        (Some last_time, Some last_seq) \<Rightarrow>
          if last_seq < seq \<and> seq - last_seq < 1000
          then (if now < last_time then (s, False)
            else note (learn_arrival (f32_of_nat ((now - last_time) div millis 1))
              (unat (seq - last_seq)) now s))
          else note s
      | _ \<Rightarrow> note s)"

definition take_arrival_count :: "jitter_stats \<Rightarrow> jitter_stats \<times> u32" where
  "take_arrival_count s = (s\<lparr>js_arrival_count := 0\<rparr>, js_arrival_count s)"

definition stats_reset_on_config_change :: "jitter_stats \<Rightarrow> jitter_stats" where
  "stats_reset_on_config_change s = reset_gap_window (reset_histogram_to_seed
     (s\<lparr>js_ema_jitter := 0, js_clean_streak := 0, js_ema_jitter_var := 0, js_delay_history := [],
        js_cluster_packet_count := 0, js_cluster_start_time := None, js_last_cluster_start := None,
        js_inter_burst_gap := 0, js_burst_detected := False, js_last_burst_time := None\<rparr>))"

definition stats_reset_on_stream_restart :: "jitter_stats \<Rightarrow> jitter_stats" where
  "stats_reset_on_stream_restart s =
     stats_reset_on_config_change (s\<lparr>js_last_ingest_seq := None\<rparr>)"

section \<open>The histogram is a distribution\<close>

lemma correct_drift_spec:
  assumes "drift \<le> 0" "\<forall>b \<in> set bs. 0 \<le> b" "- drift \<le> (\<Sum>b\<leftarrow>bs. b div 16)"
  shows "sum_list (correct_drift 1 drift bs) = sum_list bs - drift \<and>
    list_all2 (\<le>) bs (correct_drift 1 drift bs)"
  using assms
proof (induction bs arbitrary: drift)
  case (Cons b bs)
  show ?case
  proof (cases "drift = 0")
    case True
    then show ?thesis by (simp add: list_all2_same)
  next
    case False
    define c where "c = min (- drift) (b div 16)"
    define r where "r = (\<Sum>b\<leftarrow>bs. b div 16)"
    have "0 \<le> r"
      unfolding r_def by (rule sum_list_nonneg) (use Cons.prems(2) in auto)
    moreover have "0 \<le> b div 16" "drift \<le> 0" "- drift \<le> b div 16 + r"
      using Cons.prems by (simp_all add: r_def pos_imp_zdiv_nonneg_iff)
    ultimately have c: "0 \<le> c" "c \<le> - drift" "- (drift + c) \<le> (\<Sum>b\<leftarrow>bs. b div 16)"
      unfolding c_def r_def [symmetric] by linarith+
    have "correct_drift 1 drift (b # bs) = (b + c) # correct_drift 1 (drift + c) bs"
      using False Cons.prems(1) by (simp add: c_def Let_def)
    then show ?thesis
      using Cons.IH [of "drift + c"] c Cons.prems(2) by simp
  qed
qed simp

lemma forgotten_sum:
  fixes bins :: "int list"
  assumes "\<forall>b \<in> set bins. 0 \<le> b" "0 \<le> f"
  shows "32768 * (\<Sum>b\<leftarrow>bins. b * f div 32768) \<le> f * sum_list bins"
    "f * sum_list bins \<le> 32768 * (\<Sum>b\<leftarrow>bins. b * f div 32768) + 32767 * int (length bins)"
  using assms by (induction bins) (auto simp: algebra_simps; linarith)+

lemma div16_sum:
  "sum_list bins \<le> 16 * (\<Sum>b\<leftarrow>bins. b div 16) + 15 * int (length bins)" for bins :: "int list"
proof (induction bins)
  case (Cons b bins)
  have "b \<le> 16 * (b div 16) + 15" by presburger
  with Cons show ?case by simp
qed simp

lemma sum_list_bump: "k < length xs \<Longrightarrow> sum_list (xs[k := xs ! k + d]) = sum_list xs + (d :: int)"
proof (induction xs arbitrary: k)
  case (Cons x xs)
  then show ?case by (cases k) simp_all
qed simp

text \<open>A histogram: 65 bins, none negative, and the mass of one, but for the seed's last bit.\<close>

definition histogram_ok :: "int \<Rightarrow> int list \<Rightarrow> bool" where
  "histogram_ok factor bins \<longleftrightarrow> length bins = IAT_HISTOGRAM_BINS \<and> (\<forall>b \<in> set bins. 0 \<le> b) \<and>
     0 \<le> factor \<and> factor \<le> IAT_FACTOR_STEADY \<and>
     (sum_list bins = 2 ^ 30 \<or> factor = 0 \<and> sum_list bins = 2 ^ 30 - 1)"

lemma seed_ok: "histogram_ok 0 seed_histogram"
  by (simp add: histogram_ok_def seed_histogram_def stats_consts upt_conv_Cons)

lemma forget_and_bump_ok:
  assumes ok: "histogram_ok f bins" and k: "k < IAT_HISTOGRAM_BINS"
  shows "length (forget_and_bump f k bins) = IAT_HISTOGRAM_BINS"
    "\<forall>b \<in> set (forget_and_bump f k bins). 0 \<le> b" "sum_list (forget_and_bump f k bins) = 2 ^ 30"
    "forget_and_bump f k bins ! k \<ge> (32768 - f) * 32768"
proof -
  have len: "length bins = 65" and pos: "\<forall>b \<in> set bins. 0 \<le> b" and f: "0 \<le> f" "f \<le> 32711"
    and sum: "f * sum_list bins = f * 2 ^ 30"
    using ok by (auto simp: histogram_ok_def stats_consts)
  define forgotten where "forgotten = map (\<lambda>b. b * f div 32768) bins"
  define inc where "inc = (32768 - f) * 32768"
  define drift where "drift = sum_list forgotten + inc - 2 ^ 30"
  define bumped where "bumped = forgotten[k := forgotten ! k + inc]"
  have lb: "length bumped = 65" by (simp add: bumped_def forgotten_def len)
  have k65: "k < length forgotten" using k by (simp add: forgotten_def len stats_consts)
  have posf: "\<forall>b \<in> set forgotten. 0 \<le> b" using pos f by (auto simp: forgotten_def pos_imp_zdiv_nonneg_iff)
  have inc: "0 \<le> inc" using f by (simp add: inc_def)
  have posb: "\<forall>b \<in> set bumped. 0 \<le> b"
    using posf inc nth_mem [OF k65] by (auto simp: bumped_def dest!: set_update_subset_insert [THEN subsetD])
  have sumb: "sum_list bumped = 2 ^ 30 + drift"
    using sum_list_bump [OF k65] by (simp add: bumped_def drift_def)
  have "drift \<le> 0" "- 65 < drift"
    using forgotten_sum [OF pos f(1)] sum by (simp_all add: drift_def forgotten_def inc_def len)
  moreover have "- drift \<le> (\<Sum>b\<leftarrow>bumped. b div 16)"
    using div16_sum [of bumped] sumb \<open>- 65 < drift\<close> by (simp add: lb)
  moreover have eq: "forget_and_bump f k bins = correct_drift 1 drift bumped"
    using \<open>drift \<le> 0\<close>
    by (simp add: forget_and_bump_def forgotten_def inc_def drift_def bumped_def Let_def)
  ultimately have C: "sum_list (forget_and_bump f k bins) = sum_list bumped - drift"
    "list_all2 (\<le>) bumped (forget_and_bump f k bins)"
    using correct_drift_spec [OF _ posb] by simp_all
  show "length (forget_and_bump f k bins) = IAT_HISTOGRAM_BINS"
    using list_all2_lengthD [OF C(2)] lb by (simp add: stats_consts)
  show "sum_list (forget_and_bump f k bins) = 2 ^ 30" using C(1) sumb by simp
  show "\<forall>b \<in> set (forget_and_bump f k bins). 0 \<le> b"
  proof
    fix b assume "b \<in> set (forget_and_bump f k bins)"
    then obtain i where i: "i < length (forget_and_bump f k bins)" "b = forget_and_bump f k bins ! i"
      by (auto simp: in_set_conv_nth)
    then have "i < length bumped" "bumped ! i \<le> b"
      using C(2) by (simp_all add: list_all2_conv_all_nth)
    moreover have "0 \<le> bumped ! i" using posb \<open>i < length bumped\<close> by simp
    ultimately show "0 \<le> b" by simp
  qed
  have "bumped ! k \<le> forget_and_bump f k bins ! k"
    using C(2) lb k by (auto simp: list_all2_conv_all_nth stats_consts)
  moreover have "inc \<le> bumped ! k"
    using posf nth_mem [OF k65] k65 by (auto simp: bumped_def)
  ultimately show "forget_and_bump f k bins ! k \<ge> (32768 - f) * 32768" by (simp add: inc_def)
qed

lemma factor_step: "0 \<le> f \<Longrightarrow> f \<le> IAT_FACTOR_STEADY \<Longrightarrow>
    0 \<le> f + (IAT_FACTOR_STEADY - f + 3) div 4 \<and> f + (IAT_FACTOR_STEADY - f + 3) div 4 \<le> IAT_FACTOR_STEADY"
  by (simp add: stats_consts)

text \<open>The walk finds the first index with at most the limit beyond it.\<close>

lemma tail_walk_spec:
  "\<exists>k \<le> length bs. tail_walk m i bs = i + k \<and> (\<forall>j < k. LIMIT_PROBABILITY < m - sum_list (take j bs)) \<and>
     (k < length bs \<longrightarrow> m - sum_list (take k bs) \<le> LIMIT_PROBABILITY)"
proof (induction bs arbitrary: m i)
  case (Cons b bs)
  show ?case
  proof (cases "LIMIT_PROBABILITY < m")
    case True
    from Cons.IH [of "m - b" "Suc i"] obtain k where k: "k \<le> length bs"
      "tail_walk (m - b) (Suc i) bs = Suc i + k"
      "\<forall>j < k. LIMIT_PROBABILITY < m - b - sum_list (take j bs)"
      "k < length bs \<longrightarrow> m - b - sum_list (take k bs) \<le> LIMIT_PROBABILITY" by blast
    have "LIMIT_PROBABILITY < m - sum_list (take j (b # bs))" if "j < Suc k" for j
      using that k(3) True by (cases j) (auto simp: algebra_simps)
    then show ?thesis
      using k True by (intro exI [of _ "Suc k"]) (auto simp: algebra_simps)
  qed (auto intro: exI [of _ 0])
qed simp

definition mass_above :: "int list \<Rightarrow> nat \<Rightarrow> int" where
  "mass_above bins k = 2 ^ 30 - sum_list (take (Suc k) bins)"

lemma percentile_least:
  assumes "length bins = IAT_HISTOGRAM_BINS" "2 ^ 30 - 1 \<le> sum_list bins"
  shows "percentile_index bins = (LEAST k. mass_above bins k \<le> LIMIT_PROBABILITY)"
proof -
  obtain b bs where bins: "bins = b # bs" "length bs = 64"
    using assms(1) by (cases bins) (auto simp: stats_consts)
  obtain k where k: "k \<le> length bs" "percentile_index bins = k"
    "\<forall>j < k. LIMIT_PROBABILITY < 2 ^ 30 - b - sum_list (take j bs)"
    "k < length bs \<longrightarrow> 2 ^ 30 - b - sum_list (take k bs) \<le> LIMIT_PROBABILITY"
    using tail_walk_spec [of bs "2 ^ 30 - b" 0] by (auto simp: percentile_index_def bins)
  have mass: "mass_above bins j = 2 ^ 30 - b - sum_list (take j bs)" for j
    by (simp add: mass_above_def bins)
  have last: "mass_above bins (length bs) \<le> LIMIT_PROBABILITY"
    using assms(2) by (simp only: mass) (simp add: bins(1) stats_consts)
  have "(LEAST k. mass_above bins k \<le> LIMIT_PROBABILITY) = k"
  proof (rule Least_equality)
    show "mass_above bins k \<le> LIMIT_PROBABILITY"
      using k last by (cases "k = length bs") (auto simp: mass)
  qed (use k(3) in \<open>force simp: mass not_less [symmetric]\<close>)
  with k(2) show ?thesis by simp
qed

definition hist_of :: "jitter_stats \<Rightarrow> int list \<times> int \<times> f32" where
  "hist_of s = (js_iat_histogram s, js_iat_factor s, js_iat_percentile_target s)"

definition hist_ok :: "jitter_stats \<Rightarrow> bool" where
  "hist_ok s \<longleftrightarrow> histogram_ok (js_iat_factor s) (js_iat_histogram s) \<and>
     js_iat_percentile_target s = f32_of_nat (percentile_index (js_iat_histogram s))"

lemma hist_ok_cong: "hist_of t = hist_of s \<Longrightarrow> hist_ok t = hist_ok s"
  by (simp add: hist_of_def hist_ok_def)

lemma hist_of_same [simp]:
  "hist_of (update_delay_history d s) = hist_of s" "hist_of (record_gap g now s) = hist_of s"
  "hist_of (expire_burst now s) = hist_of s" "hist_of (note_burst_gap s) = hist_of s"
  "hist_of (track_streak j s) = hist_of s"
  "hist_of (track_ema j s) = hist_of s" "hist_of (track_spike j now s) = hist_of s"
  by (auto simp: hist_of_def update_delay_history_def record_gap_def expire_burst_def note_burst_gap_def
      track_streak_def track_ema_def track_spike_def Let_def split: option.splits prod.splits)

lemma hist_of_cluster [simp]: "hist_of (track_cluster iat now s) = hist_of s"
  using hist_of_same(4) [of s] by (simp add: track_cluster_def hist_of_def)

lemma seed_percentile: "percentile_index seed_histogram = 4"
  by (simp add: percentile_index_def seed_histogram_def stats_consts upt_conv_Cons)

lemma hist_ok_seed: "hist_ok (reset_histogram_to_seed s)"
  using seed_ok seed_percentile by (simp add: hist_ok_def reset_histogram_to_seed_def)

lemma bins_key: "f32_key (f32_of_nat IAT_HISTOGRAM_BINS) = int 65 * 2 ^ 149"
  by (simp add: f32_key_def IAT_HISTOGRAM_BINS_def f32_eval)

lemma histogram_bin_less: "histogram_bin d = Some k \<Longrightarrow> k < IAT_HISTOGRAM_BINS"
  using f32_finite_less [of d "f32_of_nat IAT_HISTOGRAM_BINS" 65] bins_key
  by (auto simp: histogram_bin_def f32_to_nat_def IAT_HISTOGRAM_BINS_def split: if_splits)

lemma hist_ok_update: "hist_ok s \<Longrightarrow> hist_ok (update_iat_histogram d s)"
proof (cases "histogram_bin d")
  case (Some k)
  assume "hist_ok s"
  then have ok: "histogram_ok (js_iat_factor s) (js_iat_histogram s)" by (simp add: hist_ok_def)
  note F = forget_and_bump_ok [OF ok histogram_bin_less [OF Some]]
  have "0 \<le> js_iat_factor s" "js_iat_factor s \<le> IAT_FACTOR_STEADY"
    using ok by (simp_all add: histogram_ok_def)
  from factor_step [OF this] F(1-3) show ?thesis
    by (simp add: hist_ok_def update_iat_histogram_def Some histogram_ok_def Let_def)
qed (simp add: update_iat_histogram_def)

lemma hist_ok_learn: "hist_ok s \<Longrightarrow> hist_ok (learn_arrival iat n now s)"
proof -
  assume "hist_ok s"
  then have "hist_ok (update_delay_history d s)" for d
    using hist_ok_cong [of "update_delay_history d s" s] by simp
  from hist_ok_update [OF this] show ?thesis
    unfolding learn_arrival_def Let_def by (subst hist_ok_cong) (simp only: hist_of_same hist_of_cluster)
qed

lemma hist_ok_observe:
  assumes "hist_ok s"
  shows "hist_ok (fst (observe seq now s))"
proof -
  have "hist_ok (r\<lparr>js_last_network_arrival := a, js_last_ingest_seq := b, js_arrival_count := c\<rparr>) = hist_ok r"
    for r a b c by (simp add: hist_ok_def)
  then show ?thesis
    using assms hist_ok_learn [OF assms] by (simp add: observe_def Let_def split: option.splits)
qed

section \<open>The gap window\<close>

text \<open>The gaps recorded so far, the latest last, and the second a time lies in, from the first gap on.\<close>

definition gap_slot :: "nat \<Rightarrow> nat \<Rightarrow> nat" where
  "gap_slot t0 t = (t - t0) div secs 1"

text \<open>The reference: the largest gap recorded in the second \<open>k\<close>, and the one \<open>age\<close> seconds back.\<close>

definition slot_max :: "nat \<Rightarrow> (f32 \<times> nat) list \<Rightarrow> nat \<Rightarrow> f32" where
  "slot_max t0 gs k = foldl f32_max 0 (map (\<lambda>(g, t). clamp_gap g)
     (filter (\<lambda>(g, t). gap_slot t0 t = k) gs))"

definition gap_of_age :: "(f32 \<times> nat) list \<Rightarrow> nat \<Rightarrow> f32" where
  "gap_of_age gs age =
     (let t0 = snd (hd gs); now_slot = gap_slot t0 (snd (last gs)) in
      if age \<le> now_slot then slot_max t0 gs (now_slot - age) else 0)"

definition record_gaps :: "(f32 \<times> nat) list \<Rightarrow> jitter_stats \<Rightarrow> jitter_stats" where
  "record_gaps gs s = foldl (\<lambda>r (g, t). record_gap g t r) s gs"

lemma rotate_length [simp]: "length (snd (rotate_buckets n (i, bs))) = length bs"
  by (induction n "(i, bs)" arbitrary: i bs rule: rotate_buckets.induct) (simp_all add: Let_def)

lemma rotate_idx: "i < 24 \<Longrightarrow> fst (rotate_buckets n (i, bs)) = (i + n) mod 24"
  by (induction n arbitrary: i bs) (simp_all add: Let_def GAP_WINDOW_BUCKETS_def mod_simps)

text \<open>After \<open>n\<close> steps the youngest \<open>n\<close> buckets are empty and the others have aged by \<open>n\<close>.\<close>

lemma ex_Suc_le: "(\<exists>m. 0 < m \<and> m \<le> Suc n \<and> P m) \<longleftrightarrow> P 1 \<or> (\<exists>m. 0 < m \<and> m \<le> n \<and> P (Suc m))"
proof
  assume "\<exists>m. 0 < m \<and> m \<le> Suc n \<and> P m"
  then obtain k where "k \<le> n" "P (Suc k)" by (metis Suc_le_mono gr0_implies_Suc)
  then show "P 1 \<or> (\<exists>m. 0 < m \<and> m \<le> n \<and> P (Suc m))" by (cases "k = 0") auto
qed (auto intro: exI [of _ 1])

lemma rotate_nth:
  "i < 24 \<Longrightarrow> length bs = 24 \<Longrightarrow> p < 24 \<Longrightarrow> snd (rotate_buckets n (i, bs)) ! p =
    (if \<exists>m. 0 < m \<and> m \<le> n \<and> (i + m) mod 24 = p then 0 else bs ! p)"
proof (induction n arbitrary: i bs)
  case (Suc n)
  define j where "j = Suc i mod 24"
  have step: "snd (rotate_buckets (Suc n) (i, bs)) = snd (rotate_buckets n (j, bs[j := 0]))"
    by (simp add: j_def GAP_WINDOW_BUCKETS_def Let_def)
  have "(\<exists>m. 0 < m \<and> m \<le> Suc n \<and> (i + m) mod 24 = p) \<longleftrightarrow>
      p = j \<or> (\<exists>m. 0 < m \<and> m \<le> n \<and> (j + m) mod 24 = p)"
  proof -
    have "(j + m) mod 24 = (i + Suc m) mod 24" for m
      by (simp add: j_def mod_simps)
    then show ?thesis
      using ex_Suc_le [of n "\<lambda>m. (i + m) mod 24 = p"] by (auto simp: j_def)
  qed
  note ex = this
  define hit where "hit \<longleftrightarrow> (\<exists>m. 0 < m \<and> m \<le> n \<and> (j + m) mod 24 = p)"
  have "j < 24" by (simp add: j_def)
  then have "snd (rotate_buckets n (j, bs[j := 0])) ! p = (if hit then 0 else bs[j := 0] ! p)"
    using Suc.IH [of j "bs[j := 0]"] Suc.prems by (simp add: hit_def)
  then show ?case
    unfolding step ex hit_def [symmetric] using Suc.prems by (simp add: nth_list_update)
qed auto

lemma rotate_age:
  assumes "i < 24" "length bs = 24" "age < 24" "n \<le> 24"
  shows "snd (rotate_buckets n (i, bs)) ! ((i + n + 24 - age) mod 24) =
    (if age < n then 0 else bs ! ((i + n + 24 - age) mod 24))"
proof -
  have "(\<exists>m. 0 < m \<and> m \<le> n \<and> (i + m) mod 24 = (i + n + 24 - age) mod 24) \<longleftrightarrow> age < n"
  proof
    assume "age < n"
    then have "0 < n - age \<and> n - age \<le> n \<and> (i + (n - age)) mod 24 = (i + n + 24 - age) mod 24"
      by (simp add: mod_if [of "i + n + 24 - age"] Nat.add_diff_assoc2)
    then show "\<exists>m. 0 < m \<and> m \<le> n \<and> (i + m) mod 24 = (i + n + 24 - age) mod 24" by blast
  next
    assume "\<exists>m. 0 < m \<and> m \<le> n \<and> (i + m) mod 24 = (i + n + 24 - age) mod 24"
    then obtain m where m: "0 < m" "m \<le> n" "(i + n + 24 - age) mod 24 = (i + m) mod 24" by auto
    show "age < n"
    proof (rule ccontr)
      assume "\<not> age < n"
      then have "i + m < i + n + 24 - age" "i + n + 24 - age < i + m + 24"
        using m assms(3, 4) by simp_all
      moreover have "24 dvd (i + n + 24 - age) - (i + m)"
        using m(3) calculation(1) by (metis less_imp_le mod_eq_dvd_iff_nat)
      ultimately have "24 \<le> (i + n + 24 - age) - (i + m)"
        by (intro dvd_imp_le) simp_all
      then show False
        using \<open>i + n + 24 - age < i + m + 24\<close> by linarith
    qed
  qed
  then show ?thesis
    using rotate_nth [OF assms(1, 2), of "(i + n + 24 - age) mod 24" n] by simp
qed

lemma slot_max_snoc:
  "slot_max t0 (gs @ [(g, t)]) k =
     (if gap_slot t0 t = k then f32_max (slot_max t0 gs k) (clamp_gap g) else slot_max t0 gs k)"
  by (simp add: slot_max_def)

lemma slot_max_late: "\<forall>(g, t) \<in> set gs. gap_slot t0 t < k \<Longrightarrow> slot_max t0 gs k = 0"
proof -
  assume "\<forall>(g, t) \<in> set gs. gap_slot t0 t < k"
  then have "filter (\<lambda>(g, t). gap_slot t0 t = k) gs = []"
    by (auto simp: filter_empty_conv)
  then show ?thesis by (simp add: slot_max_def)
qed

lemma gap_slot_mono: "t \<le> u \<Longrightarrow> gap_slot t0 t \<le> gap_slot t0 u"
  by (simp add: gap_slot_def div_le_mono diff_le_mono)

lemma div_sub_multiple: "0 < c \<Longrightarrow> (a - k * c) div c = a div c - k" for a :: nat
proof (cases "k * c \<le> a")
  case True
  moreover assume "0 < c"
  ultimately have "a div c = (k * c + (a - k * c)) div c" by simp
  also have "\<dots> = k + (a - k * c) div c" using \<open>0 < c\<close> by simp
  finally show ?thesis by simp
next
  case False
  assume "0 < c"
  with False have "a div c < k" by (simp add: div_less_iff_less_mult)
  with False show ?thesis by simp
qed

lemma elapsed_slots:
  assumes "t0 \<le> t"
  shows "since t (t0 + secs k) div secs 1 = gap_slot t0 t - k"
proof -
  have "t - (t0 + secs k) = (t - t0) - k * 1000000000"
    by (simp add: secs_def)
  then show ?thesis by (simp add: since_def gap_slot_def secs_def div_sub_multiple)
qed

definition window_of :: "nat \<Rightarrow> (f32 \<times> nat) list \<Rightarrow> nat \<Rightarrow> jitter_stats \<Rightarrow> bool" where
  "window_of t0 gs k r \<longleftrightarrow> js_gap_bucket_start r = Some (t0 + secs k) \<and> js_gap_bucket_idx r < 24 \<and>
     length (js_gap_buckets r) = 24 \<and>
     (\<forall>age < 24. js_gap_buckets r ! ((js_gap_bucket_idx r + 24 - age) mod 24) =
        (if age \<le> k then slot_max t0 gs (k - age) else 0))"

text \<open>Moving the window on to the second of the new gap, and storing the gap in it.\<close>

definition advance_window :: "nat \<Rightarrow> jitter_stats \<Rightarrow> jitter_stats" where
  "advance_window n r = (case rotate_buckets (min n GAP_WINDOW_BUCKETS)
       (js_gap_bucket_idx r, js_gap_buckets r) of
     (i, bs) \<Rightarrow> r\<lparr>js_gap_bucket_idx := i, js_gap_buckets := bs,
       js_gap_bucket_start := map_option (\<lambda>t. t + secs n) (js_gap_bucket_start r)\<rparr>)"

lemma advance_window:
  assumes w: "window_of t0 gs k r" and late: "\<forall>(g, t) \<in> set gs. gap_slot t0 t \<le> k"
  shows "window_of t0 gs (k + n) (advance_window n r)"
proof -
  define m where "m = min n 24"
  have m24: "m \<le> 24" by (simp add: m_def)
  obtain i bs where rot: "rotate_buckets m (js_gap_bucket_idx r, js_gap_buckets r) = (i, bs)" by fastforce
  have idx: "js_gap_bucket_idx r < 24" and len: "length (js_gap_buckets r) = 24"
    using w by (simp_all add: window_of_def)
  have i: "i = (js_gap_bucket_idx r + m) mod 24" and bs: "length bs = 24"
    using rotate_idx [OF idx, of m "js_gap_buckets r"] rotate_length [of m "js_gap_bucket_idx r" "js_gap_buckets r"]
      len by (simp_all add: rot)
  have "bs ! ((i + 24 - age) mod 24) = (if age \<le> k + n then slot_max t0 gs (k + n - age) else 0)"
    if age: "age < 24" for age
  proof -
    have pos: "(i + 24 - age) mod 24 = (js_gap_bucket_idx r + m + 24 - age) mod 24"
    proof -
      define d where "d = 24 - age"
      have "i + 24 - age = i + d" "js_gap_bucket_idx r + m + 24 - age = js_gap_bucket_idx r + m + d"
        using age by (simp_all add: d_def)
      then show ?thesis by (simp only: i mod_add_left_eq)
    qed
    have "bs ! ((i + 24 - age) mod 24) =
        (if age < m then 0 else js_gap_buckets r ! ((js_gap_bucket_idx r + m + 24 - age) mod 24))"
      using rotate_age [OF idx len age m24] by (simp only: rot pos snd_conv)
    moreover have "slot_max t0 gs (k + n - age) = 0" if "age < n"
      using late that by (intro slot_max_late) auto
    moreover have "js_gap_buckets r ! ((js_gap_bucket_idx r + m + 24 - age) mod 24) =
        (if age - m \<le> k then slot_max t0 gs (k - (age - m)) else 0)" if "\<not> age < m"
    proof -
      have "js_gap_bucket_idx r + m + 24 - age = js_gap_bucket_idx r + 24 - (age - m)"
        using that age by simp
      moreover have "age - m < 24" using age by simp
      ultimately show ?thesis using w unfolding window_of_def by metis
    qed
    ultimately show ?thesis
      using age by (auto simp: m_def min_def split: if_splits)
  qed
  then show ?thesis
    using w i bs by (simp add: window_of_def advance_window_def GAP_WINDOW_BUCKETS_def rot [unfolded m_def]
        secs_def algebra_simps)
qed

lemma store_gap:
  assumes w: "window_of t0 gs k r" and t: "gap_slot t0 t = k"
  shows "window_of t0 (gs @ [(g, t)]) k (r\<lparr>js_gap_buckets := (js_gap_buckets r)[js_gap_bucket_idx r :=
    f32_max (js_gap_buckets r ! js_gap_bucket_idx r) (clamp_gap g)]\<rparr>)"
proof -
  have idx: "js_gap_bucket_idx r < 24" and len: "length (js_gap_buckets r) = 24"
    and all: "\<And>age. age < 24 \<Longrightarrow> js_gap_buckets r ! ((js_gap_bucket_idx r + 24 - age) mod 24) =
        (if age \<le> k then slot_max t0 gs (k - age) else 0)"
    using w by (simp_all add: window_of_def)
  have here: "js_gap_buckets r ! js_gap_bucket_idx r = slot_max t0 gs k"
    using all [of 0] idx by simp
  have other: "(js_gap_bucket_idx r + 24 - age) mod 24 = js_gap_bucket_idx r \<longleftrightarrow> age = 0" if "age < 24" for age
    using that idx by (cases "age \<le> js_gap_bucket_idx r") (auto simp: mod_if)
  have "(js_gap_buckets r)[js_gap_bucket_idx r := f32_max (slot_max t0 gs k) (clamp_gap g)] !
      ((js_gap_bucket_idx r + 24 - age) mod 24) =
      (if age \<le> k then slot_max t0 (gs @ [(g, t)]) (k - age) else 0)" if "age < 24" for age
    using that all [OF that] other [OF that] len t by (auto simp: nth_list_update slot_max_snoc)
  then show ?thesis
    using w here by (simp add: window_of_def)
qed

lemma record_gap_window:
  assumes w: "window_of t0 gs k r" and late: "\<forall>(g, t) \<in> set gs. gap_slot t0 t \<le> k"
    and t: "t0 \<le> t" "k \<le> gap_slot t0 t"
  shows "window_of t0 (gs @ [(g, t)]) (gap_slot t0 t) (record_gap g t r)"
proof -
  define n where "n = gap_slot t0 t - k"
  have start: "js_gap_bucket_start r = Some (t0 + secs k)" using w by (simp add: window_of_def)
  have n: "since t (t0 + secs k) div secs 1 = n" using elapsed_slots [OF t(1)] by (simp add: n_def)
  define r1 where "r1 = (if 1 \<le> n then advance_window n r else r)"
  have r1: "r1 = (if n = 0 then r else advance_window n r)" by (auto simp: r1_def)
  have "window_of t0 gs (gap_slot t0 t) r1"
    using w advance_window [OF w late, of n] t(2) by (cases "n = 0") (simp_all add: r1 n_def)
  from store_gap [OF this refl, of g]
  show ?thesis
    using start n by (simp add: record_gap_def r1_def advance_window_def Let_def split: prod.splits if_splits)
qed

lemma record_gaps_window:
  assumes "gs \<noteq> []" "sorted (map snd gs)" "js_gap_bucket_start s = None" "js_gap_bucket_idx s = 0"
    "js_gap_buckets s = replicate 24 0"
  shows "window_of (snd (hd gs)) gs (gap_slot (snd (hd gs)) (snd (last gs))) (record_gaps gs s)"
  using assms
proof (induction gs rule: rev_nonempty_induct)
  case (single x)
  obtain g t where x: "x = (g, t)" by fastforce
  have "window_of t [] 0 (s\<lparr>js_gap_bucket_start := Some t\<rparr>)"
    using single by (simp add: window_of_def secs_def slot_max_def)
  from store_gap [OF this, of t g] show ?case
    using single by (simp add: x record_gaps_def record_gap_def gap_slot_def Let_def)
next
  case (snoc x gs)
  obtain g t where x: "x = (g, t)" by fastforce
  have hd: "hd (gs @ [x]) = hd gs" using snoc.hyps by simp
  have sorted: "sorted (map snd gs)" "\<forall>y \<in> set gs. snd y \<le> t"
    using snoc.prems by (auto simp: x sorted_append)
  have last: "snd (last gs) \<le> t" "snd (hd gs) \<le> t" using sorted(2) snoc.hyps by simp_all
  have "\<forall>(g, u) \<in> set gs. u \<le> snd (last gs)"
    using sorted(1) snoc.hyps
    by (cases gs rule: rev_cases) (auto simp: sorted_append)
  then have late: "\<forall>(g, u) \<in> set gs. gap_slot (snd (hd gs)) u \<le> gap_slot (snd (hd gs)) (snd (last gs))"
    using gap_slot_mono by fastforce
  have "record_gaps (gs @ [x]) s = record_gap g t (record_gaps gs s)"
    by (simp add: record_gaps_def x)
  then show ?case
    using record_gap_window [OF snoc.IH [OF sorted(1) snoc.prems(2-4)] late last(2) gap_slot_mono [OF last(1)], of g]
    by (simp only: hd) (simp add: x)
qed

text \<open>The peak is at least every bucket that counts in full.\<close>

definition peak_step :: "nat \<Rightarrow> f32 \<times> nat \<Rightarrow> nat \<times> f32 \<Rightarrow> f32 \<times> nat" where
  "peak_step idx = (\<lambda>(m, winner) (i, gap).
       if f32_le gap 0 then (m, winner)
       else
         let age = bucket_age idx i; w = bucket_weight age gap in
         if f32_lt m w \<or> (f32_eq w m \<and> age < winner) then (w, age) else (m, winner))"

lemma weighted_gap_peak_fold:
  "weighted_gap_peak s = foldl (peak_step (js_gap_bucket_idx s)) (0, 0) (List.enumerate 0 (js_gap_buckets s))"
  by (simp add: weighted_gap_peak_def peak_step_def)

lemma peak_step_mono: "\<not> f32_is_nan (fst a) \<Longrightarrow>
    f32_le (fst a) (fst (peak_step idx a x))"
  by (cases a; cases x) (auto simp: peak_step_def Let_def f32_le_key f32_lt_key f32_eq_def)

lemma peak_fold_mono: "\<not> f32_is_nan (fst a) \<Longrightarrow> f32_le (fst a) (fst (foldl (peak_step idx) a xs))"
proof (induction xs arbitrary: a)
  case (Cons x xs)
  have "f32_le (fst a) (fst (peak_step idx a x))" by (rule peak_step_mono [OF Cons.prems])
  moreover from this have "\<not> f32_is_nan (fst (peak_step idx a x))" by (simp add: f32_le_key)
  ultimately show ?case using Cons.IH f32_le_trans by fastforce
qed (simp add: f32_le_key)

lemma peak_fold_covers:
  assumes "(i, gap) \<in> set xs" "bucket_age idx i \<le> 8" "\<not> f32_is_nan gap" "\<not> f32_is_nan (fst a)"
    "f32_le 0 (fst a)"
  shows "f32_le gap (fst (foldl (peak_step idx) a xs))"
  using assms
proof (induction xs arbitrary: a)
  case (Cons x xs)
  have up: "f32_le (fst a) (fst (peak_step idx a x))" by (rule peak_step_mono [OF Cons.prems(4)])
  then have num: "\<not> f32_is_nan (fst (peak_step idx a x))" "f32_le 0 (fst (peak_step idx a x))"
    using f32_le_trans [OF Cons.prems(5)] by (simp_all add: f32_le_key)
  show ?case
  proof (cases "x = (i, gap)")
    case True
    have "f32_le gap (fst (peak_step idx a x))"
      using Cons.prems(2-5) True
      by (cases a) (auto simp: peak_step_def bucket_weight_def GAP_FRESH_SECS_def Let_def
          f32_le_key f32_lt_key f32_eq_def)
    then show ?thesis
      using peak_fold_mono [OF num(1), of idx xs] f32_le_trans by fastforce
  next
    case False
    then show ?thesis using Cons.IH [OF _ Cons.prems(2, 3) num] Cons.prems(1) by simp
  qed
qed simp

lemma max_gap_covers:
  assumes "i < length (js_gap_buckets s)" "bucket_age (js_gap_bucket_idx s) i \<le> 8"
    "\<not> f32_is_nan (js_gap_buckets s ! i)"
  shows "f32_le (js_gap_buckets s ! i) (max_gap_frames s)"
proof -
  have "(i, js_gap_buckets s ! i) \<in> set (List.enumerate 0 (js_gap_buckets s))"
    using assms(1) by (simp add: in_set_enumerate_eq)
  from peak_fold_covers [OF this assms(2, 3), of "(0, 0)"] show ?thesis
    by (simp add: max_gap_frames_def weighted_gap_peak_fold f32_le_key)
qed

lemma clamp_gap_num: "\<not> f32_is_nan g \<Longrightarrow> \<not> f32_is_nan (clamp_gap g)"
  using f32_clamp_num [of 0 GAP_CLAMP_FRAMES g] by (auto simp: clamp_gap_def f32_le_key split: option.splits)

lemma fold_max_covers:
  assumes "\<forall>x \<in> set xs. \<not> f32_is_nan x" "\<not> f32_is_nan a"
  shows "\<not> f32_is_nan (foldl f32_max a xs) \<and> f32_le a (foldl f32_max a xs) \<and>
    (\<forall>x \<in> set xs. f32_le x (foldl f32_max a xs))"
  using assms
proof (induction xs arbitrary: a)
  case (Cons x xs)
  have "\<not> f32_is_nan (f32_max a x)" "f32_le a (f32_max a x)" "f32_le x (f32_max a x)"
    using Cons.prems f32_max_num [of a x] by (simp_all add: f32_le_key)
  then show ?case using Cons.IH [of "f32_max a x"] Cons.prems(1) f32_le_trans by fastforce
qed (simp add: f32_le_key)

lemma slot_max_covers:
  assumes "\<forall>(g, t) \<in> set gs. \<not> f32_is_nan g"
  shows "\<not> f32_is_nan (slot_max t0 gs k)"
    and "(g, t) \<in> set gs \<Longrightarrow> gap_slot t0 t = k \<Longrightarrow> f32_le (clamp_gap g) (slot_max t0 gs k)"
proof -
  let ?xs = "map (\<lambda>(g, t). clamp_gap g) (filter (\<lambda>(g, t). gap_slot t0 t = k) gs)"
  have "\<forall>x \<in> set ?xs. \<not> f32_is_nan x" using assms clamp_gap_num by fastforce
  note F = fold_max_covers [OF this, of 0]
  then show "\<not> f32_is_nan (slot_max t0 gs k)" by (simp add: slot_max_def)
  assume "(g, t) \<in> set gs" "gap_slot t0 t = k"
  then have "clamp_gap g \<in> set ?xs" by force
  then show "f32_le (clamp_gap g) (slot_max t0 gs k)" using F [OF f32_zero_facts(2)] unfolding slot_max_def by blast
qed

section \<open>Runs\<close>

datatype stats_op = Observed u64 nat | ConfigChanged | Restarted

fun stats_step :: "jitter_stats \<Rightarrow> stats_op \<Rightarrow> jitter_stats" where
  "stats_step s (Observed seq now) = fst (observe seq now s)"
| "stats_step s ConfigChanged = stats_reset_on_config_change s"
| "stats_step s Restarted = stats_reset_on_stream_restart s"

lemma hist_ok_reset: "hist_ok (stats_reset_on_config_change s)"
proof -
  have "hist_of (reset_gap_window r) = hist_of r" for r by (simp add: hist_of_def reset_gap_window_def)
  from hist_ok_cong [OF this] hist_ok_seed show ?thesis
    unfolding stats_reset_on_config_change_def by blast
qed

lemma hist_ok_run: "hist_ok s \<Longrightarrow> hist_ok (foldl stats_step s ops)"
proof (induction ops arbitrary: s)
  case (Cons op ops)
  then have "hist_ok (stats_step s op)"
    using hist_ok_observe hist_ok_reset by (cases op) (simp_all add: stats_reset_on_stream_restart_def)
  then show ?case using Cons.IH by simp
qed simp

section \<open>Properties\<close>



text \<open>
  The delivery-gap window is exact: after any sequence of gaps recorded at rising times, the bucket of each
  age below 24 seconds holds the largest gap recorded in that second, clamped, and nothing older is kept.
\<close>

theorem gap_window_exact:
  assumes "gs \<noteq> []" "sorted (map snd gs)" "age < 24"
  shows "js_gap_buckets (record_gaps gs new_stats) !
      ((js_gap_bucket_idx (record_gaps gs new_stats) + 24 - age) mod 24) = gap_of_age gs age"
proof -
  have "js_gap_bucket_start new_stats = None" "js_gap_bucket_idx new_stats = 0"
    "js_gap_buckets new_stats = replicate 24 0"
    by (simp_all add: new_stats_def reset_histogram_to_seed_def GAP_WINDOW_BUCKETS_def)
  from record_gaps_window [OF assms(1, 2) this] assms(3) show ?thesis
    unfolding window_of_def gap_of_age_def Let_def by blast
qed

theorem gap_window_exact_witness:
  "js_gap_buckets (record_gaps [(f32_of_nat 7, 0), (f32_of_nat 2, secs 30)] new_stats) !
      ((js_gap_bucket_idx (record_gaps [(f32_of_nat 7, 0), (f32_of_nat 2, secs 30)] new_stats) + 24 - 6) mod 24) = 0"
  using gap_window_exact [of "[(f32_of_nat 7, 0), (f32_of_nat 2, secs 30)]" 6]
  by (simp add: gap_of_age_def slot_max_def gap_slot_def secs_def)

text \<open>
  The depth signal covers the recent past: the published peak is at least every gap recorded in the
  last eight seconds (up to the clamp of 120 frames).
\<close>

theorem recent_gaps_covered:
  assumes "sorted (map snd gs)" "\<forall>(g, t) \<in> set gs. \<not> f32_is_nan g" "(g, t) \<in> set gs"
    and recent: "gap_slot (snd (hd gs)) (snd (last gs)) \<le> gap_slot (snd (hd gs)) t + 8"
  shows "f32_le (clamp_gap g) (max_gap_frames (record_gaps gs new_stats))"
proof -
  define r where "r = record_gaps gs new_stats"
  define t0 where "t0 = snd (hd gs)"
  define k where "k = gap_slot t0 (snd (last gs))"
  have ne: "gs \<noteq> []" using assms(3) by auto
  have init: "js_gap_bucket_start new_stats = None" "js_gap_bucket_idx new_stats = 0"
    "js_gap_buckets new_stats = replicate 24 0"
    by (simp_all add: new_stats_def reset_histogram_to_seed_def GAP_WINDOW_BUCKETS_def)
  have w: "window_of t0 gs k r"
    using record_gaps_window [OF ne assms(1) init] by (simp add: r_def t0_def k_def)
  have "t \<le> snd (last gs)"
    using assms(1, 3) ne by (cases gs rule: rev_cases) (auto simp: sorted_append)
  then have slot: "gap_slot t0 t \<le> k" "k \<le> gap_slot t0 t + 8"
    using gap_slot_mono recent by (simp_all add: k_def t0_def)
  define age where "age = k - gap_slot t0 t"
  have age: "age \<le> 8" "age \<le> k" "k - age = gap_slot t0 t" using slot by (simp_all add: age_def)
  define i where "i = (js_gap_bucket_idx r + 24 - age) mod 24"
  have idx: "js_gap_bucket_idx r < 24" "length (js_gap_buckets r) = 24"
    using w by (simp_all add: window_of_def)
  have bucket: "js_gap_buckets r ! i = slot_max t0 gs (gap_slot t0 t)"
    using w age unfolding window_of_def i_def by auto
  have "bucket_age (js_gap_bucket_idx r) i = age"
    using idx(1) age(1) by (cases "age \<le> js_gap_bucket_idx r")
      (auto simp: bucket_age_def i_def GAP_WINDOW_BUCKETS_def mod_if)
  then have "f32_le (slot_max t0 gs (gap_slot t0 t)) (max_gap_frames r)"
    using max_gap_covers [of i r] idx(2) age(1) slot_max_covers(1) [OF assms(2)]
    by (simp add: bucket i_def [symmetric]) (simp add: i_def)
  with slot_max_covers(2) [OF assms(2, 3) refl] show ?thesis
    using f32_le_trans unfolding r_def by blast
qed

theorem recent_gaps_covered_witness:
  "f32_le (clamp_gap (f32_of_nat 7)) (max_gap_frames (record_gaps [(f32_of_nat 7, 0), (f32_of_nat 2, secs 8)] new_stats))"
  using recent_gaps_covered [of "[(f32_of_nat 7, 0), (f32_of_nat 2, secs 8)]" "f32_of_nat 7" 0]
  by (simp add: gap_slot_def secs_def)

text \<open>
  A relative delay of 64 frames and a fraction is within the range of the histogram and lands in its top
  bin, and one such packet after a reset puts the percentile at the end of the walk, 64 frames.
\<close>

theorem top_bin_takes_samples:
  assumes "f32_le (f32_of_nat 64) d" "f32_lt d (f32_of_nat 65)"
  shows "histogram_bin d = Some 64 \<and>
    js_iat_percentile_target (update_iat_histogram d (reset_histogram_to_seed s)) = f32_of_nat 64"
proof -
  have k: "f32_key (f32_of_nat 64) = 64 * 2 ^ 149" "f32_key (f32_of_nat 65) = 65 * 2 ^ 149"
    "f32_key 0 = 0" "\<not> f32_is_nan (f32_of_nat 64)" "\<not> f32_is_nan (f32_of_nat 65)"
    by (simp_all add: f32_key_def f32_eval)
  have d: "f32_le 0 d" "f32_lt d (f32_of_nat IAT_HISTOGRAM_BINS)"
    using assms by (auto simp: f32_le_key f32_lt_key k IAT_HISTOGRAM_BINS_def)
  note F = f32_finite_less [OF d, of 65]
  have fin: "\<not> f32_is_nan d" "\<not> f32_is_inf d" using F by (simp_all add: k IAT_HISTOGRAM_BINS_def)
  have key: "64 * 2 ^ 149 \<le> f32_key d" "f32_key d < 65 * 2 ^ 149"
    using assms by (simp_all add: f32_le_key f32_lt_key k)
  then have "64 * 2 ^ 149 \<le> nat \<bar>f32_key d\<bar>" "nat \<bar>f32_key d\<bar> < 65 * 2 ^ 149" by simp_all
  then have "f32_floor_mag d = 64"
    using f32_floor_mag_key [OF fin] by (simp add: div_nat_eqI)
  moreover have "\<not> f32_sign d"
  proof
    assume "f32_sign d"
    then have "f32_key d \<le> 0" using fin by (simp add: f32_key_def f32_units_def Let_def)
    with key(1) show False by simp
  qed
  ultimately have bin: "histogram_bin d = Some 64"
    using d fin by (simp add: histogram_bin_def f32_to_nat_def)
  have "percentile_index (forget_and_bump 0 64 seed_histogram) = 64"
    by code_simp
  then show ?thesis
    by (simp add: bin update_iat_histogram_def reset_histogram_to_seed_def Let_def)
qed

theorem top_bin_takes_samples_witness:
  "histogram_bin (f32_of_nat 64) = Some 64 \<and>
    js_iat_percentile_target (update_iat_histogram (f32_of_nat 64) new_stats) = f32_of_nat 64"
proof -
  have "f32_le (f32_of_nat 64) (f32_of_nat 64)" "f32_lt (f32_of_nat 64) (f32_of_nat 65)"
    by (simp_all add: f32_le_def f32_eval)
  from top_bin_takes_samples [OF this] show ?thesis unfolding new_stats_def by blast
qed

end
