(* ===== verification/Target_Controller.thy ===== *)
theory Target_Controller
  imports Arrival_Stats
begin

text \<open>
  The controller of the buffer depth (\<open>jitter/target.rs\<close>): the raw target from the statistics,
  hysteresis, dwell, ramps, downward probing, and the floor learnt from starvations. Depths are
  32-bit words of frames; the terms of the raw target are IEEE singles.
\<close>

section \<open>Constants and state\<close>

definition HYSTERESIS_BAND :: u32 where "HYSTERESIS_BAND = 3"
definition TARGET_QUANTUM :: u32 where "TARGET_QUANTUM = 4"
definition RAMP_INTERVAL :: u32 where "RAMP_INTERVAL = 5"
definition RAMP_UP_STEP :: u32 where "RAMP_UP_STEP = 2"
definition RAMP_INTERVAL_UP :: u32 where "RAMP_INTERVAL_UP = 2"
definition PROBE_DOWN_INTERVAL :: u32 where "PROBE_DOWN_INTERVAL = 200"
definition PROBE_GATED_INTERVAL :: u32 where "PROBE_GATED_INTERVAL = 600"
definition DOWN_DWELL_MS :: u32 where "DOWN_DWELL_MS = 2000"
definition STARVATION_WINDOW_SECS :: nat where "STARVATION_WINDOW_SECS = 30"
definition FLOOR_HOLD_SECS :: nat where "FLOOR_HOLD_SECS = 8"
definition FLOOR_DECAY_SECS :: nat where "FLOOR_DECAY_SECS = 2"

lemmas target_consts = HYSTERESIS_BAND_def TARGET_QUANTUM_def RAMP_INTERVAL_def RAMP_UP_STEP_def
  RAMP_INTERVAL_UP_def PROBE_DOWN_INTERVAL_def PROBE_GATED_INTERVAL_def DOWN_DWELL_MS_def
  MILLIS_PER_FRAME_def

record target_controller =
  tc_effective :: u32
  tc_exit_count :: u32
  tc_exit_falling :: bool
  tc_ramp_goal :: u32
  tc_ramp_countdown :: u32
  tc_probe_down :: u32
  tc_probe_floor :: u32
  tc_starvations :: "nat list"
  tc_last_starvation :: "nat option"
  tc_last_floor_decay :: nat

definition new_controller :: "nat \<Rightarrow> target_controller" where
  "new_controller now = \<lparr>tc_effective = 2, tc_exit_count = 0, tc_exit_falling = False,
     tc_ramp_goal = 2, tc_ramp_countdown = 0, tc_probe_down = PROBE_DOWN_INTERVAL,
     tc_probe_floor = 0, tc_starvations = [], tc_last_starvation = None,
     tc_last_floor_decay = now\<rparr>"

section \<open>What the configuration fixes\<close>

definition ms_to_frames_ceil :: "u32 \<Rightarrow> u32" where
  "ms_to_frames_ceil ms =
     (if ms mod MILLIS_PER_FRAME = 0 then ms div MILLIS_PER_FRAME else ms div MILLIS_PER_FRAME + 1)"

definition config_min_depth :: "jitter_config \<Rightarrow> u32" where
  "config_min_depth config = ms_to_frames_ceil (min_depth_ms config)"

definition comfort_cap_f32 :: "jitter_config \<Rightarrow> f32" where
  "comfort_cap_f32 config = f32_of_nat (unat (ms_to_frames_ceil (comfort_cap_ms config)))"

definition comfort_cap :: "jitter_config \<Rightarrow> u32" where
  "comfort_cap config = f32_to_u32 (comfort_cap_f32 config)"

definition quantize_target :: "u32 \<Rightarrow> u32 \<Rightarrow> u32" where
  "quantize_target raw quantum =
     (if quantum = 0 then raw else (raw + quantum div 2) div quantum * quantum)"

definition u32_clamp :: "u32 \<Rightarrow> u32 \<Rightarrow> u32 \<Rightarrow> u32" where
  "u32_clamp lo hi a = min (max a lo) hi"

definition adaptive_quantum :: "jitter_config \<Rightarrow> u32" where
  "adaptive_quantum config = u32_clamp 1 TARGET_QUANTUM (comfort_cap config div 16)"

definition adaptive_hysteresis :: "jitter_config \<Rightarrow> u32" where
  "adaptive_hysteresis config = u32_clamp 1 HYSTERESIS_BAND (comfort_cap config div 8)"

definition adaptive_dwell :: "jitter_config \<Rightarrow> u32" where
  "adaptive_dwell config = max (sat_sub32 40 (min (comfort_cap config div 2) 25)) 15"

definition down_dwell :: u32 where "down_dwell = DOWN_DWELL_MS div MILLIS_PER_FRAME"

text \<open>The band the filtered level may drift in.\<close>

definition band_low :: "u32 \<Rightarrow> u32" where "band_low target = target * 3 div 4"

definition band_high :: "u32 \<Rightarrow> u32" where
  "band_high target = max target (band_low target + 20 div MILLIS_PER_FRAME)"

section \<open>The raw target\<close>

datatype target_term = MinDepth | Histogram | GapFloor | StaticTerm

record target_breakdown =
  tb_histogram_base :: f32
  tb_burst_floor :: f32
  tb_gap_floor :: f32
  tb_min_depth :: f32
  tb_pre_clamp :: f32
  tb_winning :: target_term
  tb_raw :: u32

definition gap_floor_of :: "jitter_stats \<Rightarrow> f32" where
  "gap_floor_of stats =
     (let gap = max_gap_frames stats in
      if f32_lt (f32_of_nat 1) gap
      then (if js_burst_detected stats
        then f32_add (f32_mul gap 0x3FA00000) (f32_of_nat 1) else f32_add gap (f32_of_nat 1))
      else 0)"

definition pre_clamp_of :: "jitter_config \<Rightarrow> jitter_stats \<Rightarrow> f32" where
  "pre_clamp_of config stats = f32_max (f32_max (f32_of_nat (unat (config_min_depth config)))
     (js_iat_percentile_target stats)) (gap_floor_of stats)"

text \<open>\<open>None\<close> would be the panic of \<open>clamp\<close> on a cap below the minimum.\<close>

definition target_breakdown_of ::
  "jitter_config \<Rightarrow> jitter_stats \<Rightarrow> f32 option \<Rightarrow> target_breakdown option" where
  "target_breakdown_of config stats tcp_cap_override = (case static_target_ms config of
     Some static_ms \<Rightarrow>
       let raw = ms_to_frames_ceil static_ms in
       Some \<lparr>tb_histogram_base = 0, tb_burst_floor = 0, tb_gap_floor = 0,
         tb_min_depth = f32_of_nat (unat (config_min_depth config)),
         tb_pre_clamp = f32_of_nat (unat raw), tb_winning = StaticTerm, tb_raw = raw\<rparr>
   | None \<Rightarrow>
       let base = js_iat_percentile_target stats;
           burst = (if js_burst_detected stats
             then f32_add (js_inter_burst_gap stats) (f32_of_nat 2) else 0);
           gap_floor = gap_floor_of stats;
           min_depth = f32_of_nat (unat (config_min_depth config));
           target = pre_clamp_of config stats;
           winning = (if f32_ge min_depth (f32_max base gap_floor) then MinDepth
             else if f32_ge base gap_floor then Histogram else GapFloor);
           cap = (case tcp_cap_override of None \<Rightarrow> comfort_cap_f32 config | Some c \<Rightarrow> c) in
       (case f32_clamp min_depth (f32_max cap min_depth) (f32_ceil target) of
          None \<Rightarrow> None
        | Some raw \<Rightarrow> Some \<lparr>tb_histogram_base = base, tb_burst_floor = burst,
            tb_gap_floor = gap_floor, tb_min_depth = min_depth, tb_pre_clamp = target,
            tb_winning = winning, tb_raw = f32_to_u32 raw\<rparr>))"

section \<open>Resets and the learnt floor\<close>

definition reset_for_config :: "nat \<Rightarrow> jitter_config \<Rightarrow> target_controller \<Rightarrow> target_controller" where
  "reset_for_config now config c =
     (let eff = max (ms_to_frames_ceil (min_depth_ms config)) 2 in
      c\<lparr>tc_effective := eff, tc_ramp_goal := eff, tc_exit_count := 0, tc_ramp_countdown := 0,
        tc_probe_down := PROBE_DOWN_INTERVAL, tc_probe_floor := 0, tc_starvations := [],
        tc_last_starvation := None, tc_last_floor_decay := now\<rparr>)"

definition reset_controller :: "target_controller \<Rightarrow> target_controller" where
  "reset_controller c =
     (let eff = max (tc_probe_floor c) 2 in
      c\<lparr>tc_effective := eff, tc_ramp_goal := eff, tc_exit_count := 0, tc_ramp_countdown := 0,
        tc_probe_down := PROBE_DOWN_INTERVAL\<rparr>)"

definition sat_add32 :: "u32 \<Rightarrow> u32 \<Rightarrow> u32" where
  "sat_add32 a b = (if a \<le> - 1 - b then a + b else - 1)"

definition apply_starvation_floor ::
  "jitter_config \<Rightarrow> jitter_stats \<Rightarrow> target_controller \<Rightarrow> target_controller" where
  "apply_starvation_floor config stats c =
     (let gap = max_gap_frames stats in
      if f32_lt (f32_of_nat 1) gap \<and> f32_ge gap (f32_of_nat (unat (tc_effective c))) then c
      else c\<lparr>tc_probe_floor :=
        min (max (tc_probe_floor c) (sat_add32 (tc_effective c) (adaptive_quantum config)))
          (max (comfort_cap config div 2) 1)\<rparr>)"

definition relax_probe_floor :: "u32 \<Rightarrow> u32 \<Rightarrow> nat \<Rightarrow> target_controller \<Rightarrow> target_controller" where
  "relax_probe_floor quantum min_depth now c =
     (if tc_probe_floor c \<le> min_depth then c
      else if (case tc_last_starvation c of None \<Rightarrow> False
          | Some t \<Rightarrow> since now t div secs 1 < FLOOR_HOLD_SECS) then c
      else if since now (tc_last_floor_decay c) div secs 1 < FLOOR_DECAY_SECS then c
      else c\<lparr>tc_last_floor_decay := now,
             tc_probe_floor := max (sat_sub32 (tc_probe_floor c) quantum) min_depth\<rparr>)"

definition jump_to_floor :: "target_controller \<Rightarrow> target_controller" where
  "jump_to_floor c =
     (if tc_effective c < tc_probe_floor c
      then c\<lparr>tc_effective := tc_probe_floor c, tc_ramp_goal := tc_probe_floor c, tc_exit_count := 0\<rparr>
      else c)"

definition record_starvation :: "nat \<Rightarrow> target_controller \<Rightarrow> target_controller" where
  "record_starvation now c =
     c\<lparr>tc_last_starvation := Some now, tc_starvations :=
       dropWhile (\<lambda>t. secs STARVATION_WINDOW_SECS < since now t) (tc_starvations c @ [now])\<rparr>"

definition recent_starvation_count :: "nat \<Rightarrow> target_controller \<Rightarrow> nat" where
  "recent_starvation_count now c =
     length (filter (\<lambda>t. since now t \<le> secs STARVATION_WINDOW_SECS) (tc_starvations c))"

section \<open>Advancing the target\<close>

text \<open>The hysteresis and the dwell: when a pending transition commits to a new goal.\<close>

definition dwell_step :: "jitter_config \<Rightarrow> u32 \<Rightarrow> target_controller \<Rightarrow> target_controller" where
  "dwell_step config quantized c =
     (let diff = (if quantized \<le> tc_effective c then tc_effective c - quantized
            else quantized - tc_effective c) in
      if diff \<le> adaptive_hysteresis config then c\<lparr>tc_exit_count := 0\<rparr>
      else
        let falling = (quantized < tc_effective c);
            c1 = (if tc_exit_count c = 0 \<or> falling \<noteq> tc_exit_falling c
              then c\<lparr>tc_exit_falling := falling, tc_exit_count := 0\<rparr> else c);
            count = tc_exit_count c1 + 1;
            dwell = (if falling then down_dwell else adaptive_dwell config) in
        if dwell \<le> count
        then c1\<lparr>tc_ramp_goal := max quantized (tc_probe_floor c1), tc_exit_count := 0\<rparr>
        else c1\<lparr>tc_exit_count := count\<rparr>)"

text \<open>One callback of the ramp towards a goal that is not reached.\<close>

definition ramp_step :: "target_controller \<Rightarrow> target_controller" where
  "ramp_step c =
     (let c1 = (if tc_ramp_countdown c \<noteq> 0 then c
          else if tc_effective c < tc_ramp_goal c
          then c\<lparr>tc_effective := min (sat_add32 (tc_effective c) RAMP_UP_STEP) (tc_ramp_goal c),
                 tc_ramp_countdown := RAMP_INTERVAL_UP\<rparr>
          else c\<lparr>tc_effective := max (tc_effective c - 1) (tc_probe_floor c),
                 tc_ramp_countdown := RAMP_INTERVAL\<rparr>) in
      c1\<lparr>tc_ramp_countdown := sat_sub32 (tc_ramp_countdown c1) 1\<rparr>)"

definition may_probe :: "jitter_stats \<Rightarrow> u32 \<Rightarrow> nat \<Rightarrow> target_controller \<Rightarrow> bool" where
  "may_probe stats min_depth now c \<longleftrightarrow> f32_lt 0x3E4CCCCD (stability_ratio stats) \<and>
     min_depth < tc_effective c \<and>
     \<not> (case js_unstable_regime_until stats of None \<Rightarrow> False
        | Some until \<Rightarrow> now < until \<and> f32_lt (stability_ratio stats) 0x3F000000)"

text \<open>One callback of the downward probe at the goal.\<close>

definition probe_step ::
  "jitter_stats \<Rightarrow> u32 \<Rightarrow> u32 \<Rightarrow> nat \<Rightarrow> target_controller \<Rightarrow> target_controller" where
  "probe_step stats quantum min_depth now c =
     (let interval = (if 0 < recent_starvation_count now c \<or> js_burst_detected stats
            then PROBE_GATED_INTERVAL
            else if f32_lt 0x3F4CCCCD (stability_ratio stats) then 60 else 120);
          count = sat_sub32 (tc_probe_down c) 1 in
      if count = 0
      then
        let goal = max (max (quantize_target (sat_sub32 (tc_effective c) quantum) quantum) min_depth)
              (tc_probe_floor c);
            c1 = c\<lparr>tc_probe_down := interval\<rparr> in
        if goal < tc_effective c then c1\<lparr>tc_ramp_goal := goal\<rparr> else c1
      else c\<lparr>tc_probe_down := count\<rparr>)"

definition advance_adaptive ::
  "jitter_config \<Rightarrow> jitter_stats \<Rightarrow> u32 \<Rightarrow> u32 \<Rightarrow> nat \<Rightarrow> target_controller \<Rightarrow> target_controller" where
  "advance_adaptive config stats raw min_depth now c =
     (let quantum = adaptive_quantum config;
          quantized = u32_clamp min_depth (max (comfort_cap config) min_depth)
            (quantize_target raw quantum);
          c1 = dwell_step config quantized (relax_probe_floor quantum min_depth now c) in
      if tc_effective c1 \<noteq> tc_ramp_goal c1 then ramp_step c1
      else if may_probe stats min_depth now c1 then probe_step stats quantum min_depth now c1
      else c1)"

definition advance_target ::
  "jitter_config \<Rightarrow> jitter_stats \<Rightarrow> u32 \<Rightarrow> u32 \<Rightarrow> nat \<Rightarrow> target_controller \<Rightarrow> target_controller" where
  "advance_target config stats raw min_depth now c =
     (if static_target_ms config \<noteq> None then c\<lparr>tc_effective := raw, tc_ramp_goal := raw\<rparr>
      else advance_adaptive config stats raw min_depth now c)"

text \<open>What the manager does when a frame is played after a starvation, outside its cooldown.\<close>

definition learn_starvation ::
  "jitter_config \<Rightarrow> jitter_stats \<Rightarrow> nat \<Rightarrow> target_controller \<Rightarrow> target_controller" where
  "learn_starvation config stats now c =
     jump_to_floor (apply_starvation_floor config stats (record_starvation now c))"

section \<open>Bounds\<close>

definition depth_limit :: "jitter_config \<Rightarrow> u32" where
  "depth_limit config = max (max (comfort_cap config) (config_min_depth config)) 2"

text \<open>The target and its goal stay below the limit, the floor below half the cap and the target.\<close>

definition depth_ok :: "jitter_config \<Rightarrow> target_controller \<Rightarrow> bool" where
  "depth_ok config c \<longleftrightarrow> tc_effective c \<le> depth_limit config \<and> tc_ramp_goal c \<le> depth_limit config \<and>
     tc_probe_floor c \<le> max (comfort_cap config div 2) 1 \<and> tc_probe_floor c \<le> tc_effective c"

lemma half_cap_limit: "max (comfort_cap config div 2) 1 \<le> depth_limit config"
proof -
  have "comfort_cap config div 2 \<le> comfort_cap config"
    by (simp add: word_le_nat_alt unat_div)
  then show ?thesis
    unfolding depth_limit_def by (intro max.boundedI) (simp_all add: le_max_iff_disj)
qed

lemma unat_max: "unat (max a b) = max (unat a) (unat b)" for a b :: u32
  by (simp add: max_def word_le_nat_alt)

lemma unat_min: "unat (min a b) = min (unat a) (unat b)" for a b :: u32
  by (simp add: min_def word_le_nat_alt)

lemma u32_clamp_le: "lo \<le> hi \<Longrightarrow> u32_clamp lo hi a \<le> hi"
  by (simp add: u32_clamp_def)

lemma depth_ok_dwell:
  assumes "depth_ok config c" "quantized \<le> depth_limit config"
  shows "depth_ok config (dwell_step config quantized c)"
    "tc_effective (dwell_step config quantized c) = tc_effective c"
    "tc_probe_floor (dwell_step config quantized c) = tc_probe_floor c"
proof -
  have "tc_probe_floor c \<le> depth_limit config"
    using assms(1) half_cap_limit [of config] by (auto simp: depth_ok_def)
  then show "depth_ok config (dwell_step config quantized c)"
    using assms unfolding depth_ok_def dwell_step_def Let_def by (auto simp: le_max_iff_disj)
  show "tc_effective (dwell_step config quantized c) = tc_effective c"
    "tc_probe_floor (dwell_step config quantized c) = tc_probe_floor c"
    by (simp_all add: dwell_step_def Let_def)
qed

lemma depth_ok_relax: "depth_ok config c \<Longrightarrow> depth_ok config (relax_probe_floor q m now c)"
  by (auto simp: depth_ok_def relax_probe_floor_def sat_sub32_def max_def word_le_nat_alt
      unat_sub_if' split: if_splits)

lemma relax_effective [simp]:
  "tc_effective (relax_probe_floor q m now c) = tc_effective c"
  "tc_ramp_goal (relax_probe_floor q m now c) = tc_ramp_goal c"
  "tc_exit_count (relax_probe_floor q m now c) = tc_exit_count c"
  "tc_exit_falling (relax_probe_floor q m now c) = tc_exit_falling c"
  by (simp_all add: relax_probe_floor_def)

lemma sub_one_le: "b < a \<Longrightarrow> a - 1 \<le> a \<and> b \<le> a - 1" for a b :: u32
  by (auto simp: word_le_nat_alt word_less_nat_alt unat_sub_if' word_greater_zero_iff)

lemma unat_top32: "unat (- 1 :: u32) = 2 ^ 32 - 1"
  by (simp only: unsigned_minus_1_eq_mask mask_eq_exp_minus_1) simp

lemma unat_sat_add32: "unat (sat_add32 a b) = min (unat a + unat b) (2 ^ 32 - 1)"
proof -
  have m: "unat (- 1 - b) = 2 ^ 32 - 1 - unat b"
    using unsigned_less [of b, where ?'a = nat] by (simp add: unat_sub_if' unat_top32)
  have "a \<le> - 1 - b \<longleftrightarrow> unat a + unat b \<le> 2 ^ 32 - 1"
    using unsigned_less [of b, where ?'a = nat] by (auto simp: word_le_nat_alt m)
  then show ?thesis
    by (auto simp: sat_add32_def unat_word_ariths unat_top32)
qed

text \<open>A step of the ramp: up by at most two, down by at most one, and never past the goal or the floor.\<close>

lemma ramp_step_spec:
  assumes "tc_probe_floor c \<le> tc_effective c" "tc_effective c \<noteq> tc_ramp_goal c"
  shows "tc_ramp_goal (ramp_step c) = tc_ramp_goal c" "tc_probe_floor (ramp_step c) = tc_probe_floor c"
    "tc_probe_floor c \<le> tc_effective (ramp_step c)"
    "tc_effective (ramp_step c) \<le> max (tc_effective c) (tc_ramp_goal c)"
    "min (tc_effective c) (tc_ramp_goal c) \<le> tc_effective (ramp_step c)"
    "unat (tc_effective (ramp_step c)) \<le> unat (tc_effective c) + 2"
    "unat (tc_effective c) \<le> unat (tc_effective (ramp_step c)) + 1"
proof -
  let ?f = "unat (tc_probe_floor c)" and ?e = "unat (tc_effective c)" and ?g = "unat (tc_ramp_goal c)"
  have lim: "?g \<le> 2 ^ 32 - 1" "?e \<le> 2 ^ 32 - 1"
    using unsigned_less [of "tc_ramp_goal c", where ?'a = nat] unsigned_less [of "tc_effective c", where ?'a = nat]
    by simp_all
  have pre: "?f \<le> ?e" "?e \<noteq> ?g" using assms by (simp_all add: word_le_nat_alt word_unat_eq_iff)
  have eff: "unat (tc_effective (ramp_step c)) =
      (if tc_ramp_countdown c \<noteq> 0 then ?e else if ?e < ?g then min (?e + 2) ?g else max (?e - 1) ?f)"
  proof -
    have "unat (tc_effective c - 1) = ?e - 1" if "\<not> ?e < ?g"
      using that pre by (simp add: unat_sub word_le_nat_alt)
    then show ?thesis
      using lim by (simp add: ramp_step_def Let_def word_less_nat_alt unat_max unat_min unat_sat_add32
          RAMP_UP_STEP_def) (auto simp: min_def)
  qed
  show "tc_ramp_goal (ramp_step c) = tc_ramp_goal c" "tc_probe_floor (ramp_step c) = tc_probe_floor c"
    by (simp_all add: ramp_step_def Let_def)
  show "tc_probe_floor c \<le> tc_effective (ramp_step c)"
    "tc_effective (ramp_step c) \<le> max (tc_effective c) (tc_ramp_goal c)"
    "min (tc_effective c) (tc_ramp_goal c) \<le> tc_effective (ramp_step c)"
    "unat (tc_effective (ramp_step c)) \<le> unat (tc_effective c) + 2"
    "unat (tc_effective c) \<le> unat (tc_effective (ramp_step c)) + 1"
    using pre by (auto simp: word_le_nat_alt eff unat_max unat_min)
qed

lemma depth_ok_ramp:
  assumes "depth_ok config c" "tc_effective c \<noteq> tc_ramp_goal c"
  shows "depth_ok config (ramp_step c)"
proof -
  have "tc_probe_floor c \<le> tc_effective c" using assms(1) by (simp add: depth_ok_def)
  note R = ramp_step_spec [OF this assms(2)]
  show ?thesis
    using assms(1) R(1, 2, 3) order_trans [OF R(4)] by (simp add: depth_ok_def)
qed

lemma probe_step_spec:
  "tc_effective (probe_step stats q m now c) = tc_effective c"
  "tc_probe_floor (probe_step stats q m now c) = tc_probe_floor c"
  "tc_ramp_goal (probe_step stats q m now c) \<le> max (tc_effective c) (tc_ramp_goal c)"
  by (simp_all add: probe_step_def Let_def) (auto simp: less_imp_le le_max_iff_disj)

lemma depth_ok_probe: "depth_ok config c \<Longrightarrow> depth_ok config (probe_step stats q m now c)"
  using probe_step_spec [of stats q m now c] order_trans [OF probe_step_spec(3) [of stats q m now c]]
  by (simp add: depth_ok_def)

lemma quantized_le: "u32_clamp (config_min_depth config)
    (max (comfort_cap config) (config_min_depth config)) a \<le> depth_limit config"
  unfolding u32_clamp_def depth_limit_def by (rule order_trans [OF min.cobounded2 max.cobounded1])

text \<open>One callback: the invariant, and how far the target moves.\<close>

lemma advance_adaptive_spec:
  fixes m raw :: u32 and stats :: jitter_stats and now :: nat
  assumes ok: "depth_ok config c" and m: "m = config_min_depth config"
  defines "d \<equiv> advance_adaptive config stats raw m now c"
  shows "depth_ok config d" "unat (tc_effective d) \<le> unat (tc_effective c) + 2"
    "unat (tc_effective c) \<le> unat (tc_effective d) + 1"
proof -
  define q where "q = u32_clamp m (max (comfort_cap config) m) (quantize_target raw (adaptive_quantum config))"
  define r where "r = relax_probe_floor (adaptive_quantum config) m now c"
  define c1 where "c1 = dwell_step config q r"
  have q: "q \<le> depth_limit config" unfolding q_def m by (rule quantized_le)
  have r: "depth_ok config r" "tc_effective r = tc_effective c"
    using depth_ok_relax [OF ok] by (simp_all add: r_def)
  note D = depth_ok_dwell [OF r(1) q, folded c1_def]
  have eff: "tc_effective c1 = tc_effective c" using D(2) r(2) by simp
  have d: "d = (if tc_effective c1 \<noteq> tc_ramp_goal c1 then ramp_step c1
      else if may_probe stats m now c1 then probe_step stats (adaptive_quantum config) m now c1 else c1)"
    unfolding d_def advance_adaptive_def Let_def q_def [symmetric] r_def [symmetric] c1_def [symmetric] ..
  show "depth_ok config d"
    using depth_ok_ramp [OF D(1)] depth_ok_probe [OF D(1)] D(1) by (simp add: d)
  have "tc_probe_floor c1 \<le> tc_effective c1" using D(1) by (simp add: depth_ok_def)
  note R = ramp_step_spec [OF this]
  show "unat (tc_effective d) \<le> unat (tc_effective c) + 2" "unat (tc_effective c) \<le> unat (tc_effective d) + 1"
    using R(6, 7) probe_step_spec(1) [of stats "adaptive_quantum config" m now c1] by (auto simp: d eff)
qed

lemma depth_ok_starved: "depth_ok config c \<Longrightarrow> depth_ok config (learn_starvation config stats now c)"
proof -
  assume ok: "depth_ok config c"
  define f where "f = apply_starvation_floor config stats (record_starvation now c)"
  have f: "tc_effective f = tc_effective c" "tc_ramp_goal f = tc_ramp_goal c"
    "tc_probe_floor f \<le> max (comfort_cap config div 2) 1"
    using ok by (auto simp: f_def apply_starvation_floor_def record_starvation_def Let_def depth_ok_def)
  then have "tc_probe_floor f \<le> depth_limit config"
    using half_cap_limit order_trans by blast
  then show ?thesis
    using f ok by (auto simp: learn_starvation_def f_def [symmetric] jump_to_floor_def depth_ok_def)
qed

lemma depth_ok_reset: "depth_ok config c \<Longrightarrow> depth_ok config (reset_controller c)"
  using half_cap_limit [of config] order_trans [of "tc_probe_floor c"]
  by (auto simp: depth_ok_def reset_controller_def Let_def le_max_iff_disj)
    (auto simp: depth_limit_def le_max_iff_disj)

lemma depth_ok_config: "depth_ok config (reset_for_config now config c)"
proof -
  have "max (config_min_depth config) 2 \<le> depth_limit config"
    unfolding depth_limit_def by (rule max.mono [OF max.cobounded2 order_refl])
  then show ?thesis
    by (simp add: depth_ok_def reset_for_config_def Let_def config_min_depth_def)
qed

lemma depth_ok_new: "depth_ok config (new_controller now)"
  by (simp add: depth_ok_def new_controller_def depth_limit_def le_max_iff_disj)

section \<open>Runs\<close>

datatype depth_op = Advanced jitter_stats u32 nat | Starved jitter_stats nat | StreamReset

fun depth_step :: "jitter_config \<Rightarrow> target_controller \<Rightarrow> depth_op \<Rightarrow> target_controller" where
  "depth_step config c (Advanced stats raw now) =
     advance_target config stats raw (config_min_depth config) now c"
| "depth_step config c (Starved stats now) = learn_starvation config stats now c"
| "depth_step config c StreamReset = reset_controller c"

lemma depth_ok_run:
  "static_target_ms config = None \<Longrightarrow> depth_ok config c \<Longrightarrow> depth_ok config (foldl (depth_step config) c ops)"
proof (induction ops arbitrary: c)
  case (Cons op ops)
  have "depth_ok config (depth_step config c op)"
    using Cons.prems advance_adaptive_spec(1) [OF Cons.prems(2) refl] depth_ok_starved depth_ok_reset
    by (cases op) (simp_all add: advance_target_def)
  then show ?case using Cons.IH [OF Cons.prems(1)] by simp
qed simp

text \<open>Callbacks on a link whose calm does not allow probing.\<close>

definition no_probe :: "jitter_stats \<Rightarrow> bool" where
  "no_probe stats \<longleftrightarrow> \<not> f32_lt 0x3E4CCCCD (stability_ratio stats)"

lemma dwell_step_count:
  assumes "unat (tc_exit_count c) \<le> n" "n < 199" "e \<le> tc_effective c" "e \<le> tc_ramp_goal c"
  shows "unat (tc_exit_count (dwell_step config q c)) \<le> Suc n \<and> e \<le> tc_ramp_goal (dwell_step config q c)"
proof -
  have "unat (x + 1) \<le> Suc n" if "unat x \<le> n" for x :: u32
    using that assms(2) by (simp add: unat_word_ariths)
  moreover have "\<not> down_dwell \<le> x + 1" if "unat x \<le> n" for x :: u32
    using that assms(2) by (simp add: down_dwell_def target_consts word_le_nat_alt unat_word_ariths)
  ultimately show ?thesis
    using assms by (auto simp: dwell_step_def Let_def le_max_iff_disj)
qed

lemma calm_advance:
  fixes m raw :: u32 and now :: nat
  assumes ok: "depth_ok config c" and m: "m = config_min_depth config" and "no_probe stats"
    and "unat (tc_exit_count c) \<le> n" "n < 199" "e \<le> tc_effective c" "e \<le> tc_ramp_goal c"
  defines "d \<equiv> advance_adaptive config stats raw m now c"
  shows "unat (tc_exit_count d) \<le> Suc n" "e \<le> tc_effective d" "e \<le> tc_ramp_goal d"
proof -
  define q where "q = u32_clamp m (max (comfort_cap config) m) (quantize_target raw (adaptive_quantum config))"
  define r where "r = relax_probe_floor (adaptive_quantum config) m now c"
  define c1 where "c1 = dwell_step config q r"
  have q: "q \<le> depth_limit config" unfolding q_def m by (rule quantized_le)
  have r: "depth_ok config r" using depth_ok_relax [OF ok] by (simp add: r_def)
  note D = depth_ok_dwell [OF r q, folded c1_def]
  have c1: "unat (tc_exit_count c1) \<le> Suc n \<and> e \<le> tc_ramp_goal c1"
    unfolding c1_def using assms by (intro dwell_step_count) (simp_all add: r_def)
  have eff: "e \<le> tc_effective c1" using D(2) assms(6) by (simp add: r_def)
  have d: "d = (if tc_effective c1 \<noteq> tc_ramp_goal c1 then ramp_step c1 else c1)"
    using assms(3) unfolding d_def advance_adaptive_def Let_def q_def [symmetric] r_def [symmetric] c1_def [symmetric]
    by (simp add: may_probe_def no_probe_def)
  have "tc_probe_floor c1 \<le> tc_effective c1" using D(1) by (simp add: depth_ok_def)
  note R = ramp_step_spec [OF this]
  have count: "tc_exit_count (ramp_step c1) = tc_exit_count c1" by (simp add: ramp_step_def Let_def)
  have "e \<le> min (tc_effective c1) (tc_ramp_goal c1)" using eff c1 by simp
  then show "unat (tc_exit_count d) \<le> Suc n" "e \<le> tc_effective d" "e \<le> tc_ramp_goal d"
    using c1 eff R(1) order_trans [OF _ R(5)] count by (auto simp: d)
qed

definition quantized_target :: "jitter_config \<Rightarrow> u32 \<Rightarrow> u32" where
  "quantized_target config raw = u32_clamp (config_min_depth config)
     (max (comfort_cap config) (config_min_depth config)) (quantize_target raw (adaptive_quantum config))"

text \<open>A callback that asks for more, and the count of those before it.\<close>

definition rising :: "u32 \<Rightarrow> nat \<Rightarrow> target_controller \<Rightarrow> bool" where
  "rising e n c \<longleftrightarrow> unat (tc_exit_count c) = n \<and> (n = 0 \<or> \<not> tc_exit_falling c) \<and>
     tc_effective c \<le> e \<and> tc_ramp_goal c \<le> e"

lemma rising_dwell:
  assumes "rising e n c" "unat e + unat (adaptive_hysteresis config) < unat q"
    "n < unat (adaptive_dwell config)"
  shows "if Suc n < unat (adaptive_dwell config) then rising e (Suc n) (dwell_step config q c)
    else q \<le> tc_ramp_goal (dwell_step config q c)"
proof -
  have e: "unat (tc_effective c) \<le> unat e" using assms(1) by (simp add: rising_def word_le_nat_alt)
  then have up: "\<not> q < tc_effective c" "\<not> q \<le> tc_effective c"
    "\<not> q - tc_effective c \<le> adaptive_hysteresis config"
    using assms(2) by (auto simp: word_less_nat_alt word_le_nat_alt unat_sub_if')
  define n0 where "n0 = (if tc_exit_count c = 0 \<or> tc_exit_falling c then 0 else tc_exit_count c)"
  have n0: "unat n0 = n" using assms(1) by (auto simp: n0_def rising_def)
  have count: "unat (n0 + 1) = Suc n" "adaptive_dwell config \<le> n0 + 1 \<longleftrightarrow> \<not> Suc n < unat (adaptive_dwell config)"
    using n0 assms(3) unsigned_less [of "adaptive_dwell config", where ?'a = nat]
    by (simp_all add: unat_word_ariths word_le_nat_alt not_less)
  show ?thesis
    using assms(1) up count n0 by (auto simp: dwell_step_def Let_def rising_def n0_def split: if_splits)
qed

lemma rising_advance:
  fixes raw :: u32 and stats :: jitter_stats and now :: nat
  assumes ok: "depth_ok config c" and r: "rising e n c" and n: "n < unat (adaptive_dwell config)"
    and q: "unat e + unat (adaptive_hysteresis config) < unat (quantized_target config raw)"
  defines "d \<equiv> advance_adaptive config stats raw (config_min_depth config) now c"
  shows "if Suc n < unat (adaptive_dwell config) then rising e (Suc n) d else quantized_target config raw \<le> tc_ramp_goal d"
proof -
  define r1 where "r1 = relax_probe_floor (adaptive_quantum config) (config_min_depth config) now c"
  define c1 where "c1 = dwell_step config (quantized_target config raw) r1"
  have "rising e n r1" using r by (simp add: rising_def r1_def)
  note W = rising_dwell [OF this q n, folded c1_def]
  have r1: "depth_ok config r1" using depth_ok_relax [OF ok] by (simp add: r1_def)
  have "quantized_target config raw \<le> depth_limit config"
    unfolding quantized_target_def by (rule quantized_le)
  note D = depth_ok_dwell [OF r1 this, folded c1_def]
  have floor: "tc_probe_floor c1 \<le> tc_effective c1" using D(1) by (simp add: depth_ok_def)
  have d: "d = (if tc_effective c1 \<noteq> tc_ramp_goal c1 then ramp_step c1
      else if may_probe stats (config_min_depth config) now c1
      then probe_step stats (adaptive_quantum config) (config_min_depth config) now c1 else c1)"
    unfolding d_def advance_adaptive_def Let_def quantized_target_def [symmetric] r1_def [symmetric] c1_def [symmetric] ..
  have below: "tc_effective c1 \<le> e"
    using D(2) r by (simp add: r1_def rising_def)
  have ramp: "tc_exit_count (ramp_step c1) = tc_exit_count c1" "tc_exit_falling (ramp_step c1) = tc_exit_falling c1"
    by (simp_all add: ramp_step_def Let_def)
  have probe: "tc_exit_count (probe_step stats q m now c1) = tc_exit_count c1"
    "tc_exit_falling (probe_step stats q m now c1) = tc_exit_falling c1" for q m
    by (simp_all add: probe_step_def Let_def)
  show ?thesis
  proof (cases "Suc n < unat (adaptive_dwell config)")
    case True
    then have c1: "rising e (Suc n) c1" using W by simp
    then have top: "max (tc_effective c1) (tc_ramp_goal c1) \<le> e" by (simp add: rising_def)
    have "rising e (Suc n) (ramp_step c1)" if "tc_effective c1 \<noteq> tc_ramp_goal c1"
      using c1 ramp ramp_step_spec(1, 4) [OF floor that] order_trans [OF _ top] by (simp add: rising_def)
    moreover have "rising e (Suc n) (probe_step stats q m now c1)" for q m
      using c1 probe probe_step_spec [of stats q m now c1] order_trans [OF _ top] by (simp add: rising_def)
    ultimately show ?thesis using True c1 by (simp add: d)
  next
    case False
    then have goal: "quantized_target config raw \<le> tc_ramp_goal c1" using W by simp
    have "unat (tc_effective c1) < unat (tc_ramp_goal c1)"
      using goal below q by (simp add: word_le_nat_alt)
    then show ?thesis
      using False goal ramp_step_spec(1) [OF floor] by (auto simp: d)
  qed
qed

lemma rising_run:
  assumes "static_target_ms config = None" "depth_ok config c" "rising e n c"
    "n + length ops = unat (adaptive_dwell config)" "ops \<noteq> []"
    "\<forall>op \<in> set ops. \<exists>stats raw now. op = Advanced stats raw now \<and>
       unat e + unat (adaptive_hysteresis config) < unat (quantized_target config raw) \<and>
       goal \<le> quantized_target config raw"
  shows "goal \<le> tc_ramp_goal (foldl (depth_step config) c ops)"
  using assms
proof (induction ops arbitrary: n c)
  case (Cons op ops)
  then obtain stats raw now where op: "op = Advanced stats raw now"
    "unat e + unat (adaptive_hysteresis config) < unat (quantized_target config raw)"
    "goal \<le> quantized_target config raw" by auto
  define d where "d = advance_adaptive config stats raw (config_min_depth config) now c"
  have d: "depth_step config c op = d"
    using Cons.prems(1) by (simp add: op d_def advance_target_def)
  have n: "n < unat (adaptive_dwell config)" using Cons.prems(4) by simp
  note R = rising_advance [OF Cons.prems(2, 3) n op(2), of stats now, folded d_def]
  have okd: "depth_ok config d" unfolding d_def by (rule advance_adaptive_spec(1) [OF Cons.prems(2) refl])
  show ?case
  proof (cases "ops = []")
    case True
    then have "\<not> Suc n < unat (adaptive_dwell config)" using Cons.prems(4) by simp
    then show ?thesis using R op(3) True d by (auto intro: order_trans)
  next
    case False
    then have "Suc n < unat (adaptive_dwell config)" using Cons.prems(4) by (cases ops) simp_all
    then have "rising e (Suc n) d" using R by simp
    from Cons.IH [OF Cons.prems(1) okd this _ False] Cons.prems(4, 6) d show ?thesis by simp
  qed
qed simp

section \<open>The raw target stays in range and never panics\<close>

lemma f32_clamp_total: "f32_le lo hi \<Longrightarrow> \<exists>r. f32_clamp lo hi a = Some r"
  by (simp add: f32_clamp_def)

lemma breakdown_total:
  assumes "case cap_override of None \<Rightarrow> True | Some c \<Rightarrow> \<not> f32_is_nan c"
  shows "\<exists>b. target_breakdown_of config stats cap_override = Some b"
proof -
  define m where "m = f32_of_nat (unat (config_min_depth config))"
  define cap where "cap = (case cap_override of None \<Rightarrow> comfort_cap_f32 config | Some c \<Rightarrow> c)"
  have "\<not> f32_is_nan cap" using assms by (auto simp: cap_def comfort_cap_f32_def split: option.splits)
  then have "f32_le m (f32_max cap m)"
    using f32_max_num [of cap m] by (simp add: f32_le_key m_def)
  then show ?thesis
    using f32_clamp_total [of m "f32_max cap m" "f32_ceil (pre_clamp_of config stats)"]
    by (auto simp: target_breakdown_of_def Let_def m_def cap_def split: option.splits)
qed

lemma breakdown_range:
  assumes "static_target_ms config = None" "target_breakdown_of config stats None = Some b"
  shows "f32_to_u32 (f32_of_nat (unat (config_min_depth config))) \<le> tb_raw b"
    "tb_raw b \<le> max (comfort_cap config) (f32_to_u32 (f32_of_nat (unat (config_min_depth config))))"
proof -
  define m where "m = f32_of_nat (unat (config_min_depth config))"
  define cap where "cap = comfort_cap_f32 config"
  obtain r where r: "f32_clamp m (f32_max cap m) (f32_ceil (pre_clamp_of config stats)) = Some r"
    and raw: "tb_raw b = f32_to_u32 r"
    using assms by (auto simp: target_breakdown_of_def Let_def m_def cap_def split: option.splits)
  have t: "\<not> f32_is_nan (pre_clamp_of config stats)"
    unfolding pre_clamp_of_def by (intro f32_max_keeps_num) simp
  note C = f32_clamp_num [OF r f32_ceil_num [OF t]]
  show "f32_to_u32 (f32_of_nat (unat (config_min_depth config))) \<le> tb_raw b"
    using f32_to_u32_mono [OF C(1)] raw by (simp add: m_def)
  have "f32_max cap m \<in> {cap, m}"
    by (rule f32_max_num(3)) (simp_all add: cap_def comfort_cap_f32_def m_def)
  then show "tb_raw b \<le> max (comfort_cap config) (f32_to_u32 (f32_of_nat (unat (config_min_depth config))))"
    using f32_to_u32_mono [OF C(2)] raw by (auto simp: m_def cap_def comfort_cap_def le_max_iff_disj)
qed

section \<open>Properties\<close>

text \<open>
  In any run of callbacks, starvations and stream restarts under an adaptive profile, whatever
  the statistics say, the target never leaves the comfort cap (nor the minimum depth, nor two
  frames), the floor learnt from starvations never exceeds half the cap nor the target itself, and
  one callback moves the target up by at most two frames and down by at most one.
\<close>

theorem depth_stays_in_bounds:
  fixes now0 :: nat
  assumes "static_target_ms config = None"
  defines "c ops \<equiv> foldl (depth_step config) (new_controller now0) ops"
  shows "tc_effective (c ops) \<le> max (max (comfort_cap config) (config_min_depth config)) 2 \<and>
    tc_probe_floor (c ops) \<le> max (comfort_cap config div 2) 1 \<and>
    tc_probe_floor (c ops) \<le> tc_effective (c ops) \<and>
    (let d = advance_target config stats raw (config_min_depth config) now (c ops) in
       unat (tc_effective d) \<le> unat (tc_effective (c ops)) + 2 \<and>
       unat (tc_effective (c ops)) \<le> unat (tc_effective d) + 1)"
proof -
  have "depth_ok config (c ops)"
    unfolding c_def by (rule depth_ok_run [OF assms(1) depth_ok_new])
  then show ?thesis
    using advance_adaptive_spec(2, 3) [OF \<open>depth_ok config (c ops)\<close> refl] assms(1)
    by (simp add: depth_ok_def depth_limit_def advance_target_def Let_def)
qed

definition link_config :: jitter_config where
  "link_config = for_link_pair \<lparr>phone = Wifi24Ghz, pc = LUnknown\<rparr>"

lemma link_config_simps: "static_target_ms link_config = None" "comfort_cap_ms link_config = 800"
  "min_depth_ms link_config = 30"
  by (simp_all add: link_config_def for_link_pair_def effective_link_def has_link_def)

lemma link_config_cap: "comfort_cap link_config = 80" "config_min_depth link_config = 3"
  "adaptive_quantum link_config = 4" "adaptive_hysteresis link_config = 3" "adaptive_dwell link_config = 15"
proof -
  show cap: "comfort_cap link_config = 80"
    by (simp add: comfort_cap_def comfort_cap_f32_def link_config_simps ms_to_frames_ceil_def
        MILLIS_PER_FRAME_def f32_to_u32_def f32_to_nat_def f32_floor_mag_def f32_eval)
  show "config_min_depth link_config = 3"
    by (simp add: config_min_depth_def link_config_simps ms_to_frames_ceil_def MILLIS_PER_FRAME_def)
  show "adaptive_quantum link_config = 4" "adaptive_hysteresis link_config = 3" "adaptive_dwell link_config = 15"
    by (simp_all add: adaptive_quantum_def adaptive_hysteresis_def adaptive_dwell_def u32_clamp_def cap
        target_consts sat_sub32_def)
qed

theorem depth_stays_in_bounds_witness:
  "tc_effective (foldl (depth_step link_config) (new_controller 0) [Starved new_stats 0, StreamReset]) \<le> 80"
  using depth_stays_in_bounds [OF link_config_simps(1), of 0 "[Starved new_stats 0, StreamReset]"]
  by (simp add: link_config_cap)



text \<open>
  A worsening link is answered within the dwell: when every callback of a dwell (15 to 40 of them, by the
  profile) asks for more than the hysteresis above where the target and its goal were, the goal is
  raised by its end to at least the least depth that was asked for.
\<close>

theorem rise_commits_within_dwell:
  assumes "static_target_ms config = None" "depth_ok config c" "tc_exit_count c = 0"
    "tc_ramp_goal c \<le> tc_effective c" "length ops = unat (adaptive_dwell config)"
    "\<forall>op \<in> set ops. \<exists>stats raw now. op = Advanced stats raw now \<and>
       unat (tc_effective c) + unat (adaptive_hysteresis config) < unat (quantized_target config raw) \<and>
       goal \<le> quantized_target config raw"
  shows "goal \<le> tc_ramp_goal (foldl (depth_step config) c ops)"
proof -
  have "15 \<le> adaptive_dwell config" by (simp add: adaptive_dwell_def)
  then have "ops \<noteq> []" using assms(5) by (auto simp: word_le_nat_alt)
  moreover have "rising (tc_effective c) 0 c" using assms(3, 4) by (simp add: rising_def)
  ultimately show ?thesis
    using rising_run [OF assms(1, 2) _ _ _ assms(6), of 0] assms(5) by simp
qed

theorem rise_commits_within_dwell_witness:
  "(40 :: u32) \<le> tc_ramp_goal (foldl (depth_step link_config) (new_controller 0)
      (replicate 15 (Advanced new_stats 40 0)))"
proof -
  have "quantized_target link_config 40 = 40"
    by (simp add: quantized_target_def quantize_target_def u32_clamp_def link_config_cap)
  moreover have "depth_ok link_config (new_controller 0)" by (rule depth_ok_new)
  ultimately show ?thesis
    using rise_commits_within_dwell [OF link_config_simps(1), of "new_controller 0" "replicate 15 (Advanced new_stats 40 0)" 40]
    by (simp add: new_controller_def link_config_cap)
qed

text \<open>
  The raw target never panics and, for any adaptive profile and any statistics, lies between the minimum
  depth and the comfort cap, as the conversion to a float and back reads them.
\<close>

theorem raw_target_in_range:
  assumes "static_target_ms config = None"
  shows "\<exists>b. target_breakdown_of config stats None = Some b \<and>
    f32_to_u32 (f32_of_nat (unat (config_min_depth config))) \<le> tb_raw b \<and>
    tb_raw b \<le> max (comfort_cap config) (f32_to_u32 (f32_of_nat (unat (config_min_depth config))))"
proof -
  obtain b where "target_breakdown_of config stats None = Some b"
    using breakdown_total [of None] by auto
  with breakdown_range [OF assms this] show ?thesis by blast
qed

theorem raw_target_in_range_witness:
  "\<exists>b. target_breakdown_of link_config new_stats None = Some b \<and> tb_raw b \<le> 80"
proof -
  have "f32_to_u32 (f32_of_nat (unat (config_min_depth link_config))) = 3"
    by (simp add: link_config_cap f32_to_u32_def f32_to_nat_def f32_floor_mag_def f32_eval)
  then show ?thesis
    using raw_target_in_range [OF link_config_simps(1), of new_stats] by (auto simp: link_config_cap)
qed

end
