(* ===== verification/Playback_Manager.thy ===== *)
theory Playback_Manager
  imports Jitter_Buffer Target_Controller
begin

text \<open>
  The playback callback of the player (\<open>jitter/manager.rs\<close>): one call of \<open>process_next_frame\<close> decides
  whether the playhead is held, waits for a reordered packet, plays, stretches or conceals, and
  hands audio to the output.

  The player owns the reorder buffer, the arrival statistics, the depth controller and the playback
  flow, and every step works on all of them as the code does. What the signal processing answers in
  a callback is an input of it: the loudness of the decoded frame, and whether the time-scaler found
  a splice. The output is the sequence of what was handed to the playback buffer, each with the packets it was
  made from; their samples are the decoder's and the time-scaler's affair. The counters of the
  log lines are left out.
\<close>

section \<open>Constants and helpers\<close>

definition MAX_MISSING_DEFAULT :: u32 where "MAX_MISSING_DEFAULT = 1000 div MILLIS_PER_FRAME"
definition MAX_MISSING_2_4GHZ :: u32 where "MAX_MISSING_2_4GHZ = 3000 div MILLIS_PER_FRAME"
definition MAX_MISSING_UNKNOWN :: u32 where "MAX_MISSING_UNKNOWN = 2000 div MILLIS_PER_FRAME"
definition REORDER_TOLERANCE :: u32 where "REORDER_TOLERANCE = 30 div MILLIS_PER_FRAME"
definition REORDER_TOLERANCE_2_4GHZ :: u32 where
  "REORDER_TOLERANCE_2_4GHZ = 60 div MILLIS_PER_FRAME"
definition TIMESCALE_INTERVAL_BASE :: u32 where "TIMESCALE_INTERVAL_BASE = 6"
definition MIN_TIMESCALE_INTERVAL :: u32 where "MIN_TIMESCALE_INTERVAL = 2"
definition MIN_EXPAND_INTERVAL :: u32 where "MIN_EXPAND_INTERVAL = 20"
definition MIN_SILENCE_GROW_INTERVAL :: u32 where "MIN_SILENCE_GROW_INTERVAL = 3"
definition EMERGENCY_MIN_MARGIN :: u32 where "EMERGENCY_MIN_MARGIN = 50 div MILLIS_PER_FRAME"
definition REBUFFER_AFTER :: u32 where "REBUFFER_AFTER = 5"
definition SILENCE_RMS :: f32 where "SILENCE_RMS = 0x3BA3D70A"

lemmas manager_consts = MAX_MISSING_DEFAULT_def MAX_MISSING_2_4GHZ_def MAX_MISSING_UNKNOWN_def
  REORDER_TOLERANCE_def REORDER_TOLERANCE_2_4GHZ_def TIMESCALE_INTERVAL_BASE_def
  MIN_TIMESCALE_INTERVAL_def MIN_EXPAND_INTERVAL_def MIN_SILENCE_GROW_INTERVAL_def
  EMERGENCY_MIN_MARGIN_def REBUFFER_AFTER_def

definition reorder_tolerance_for :: "network_link \<Rightarrow> bool \<Rightarrow> u32" where
  "reorder_tolerance_for link is_no_buffer =
     (if is_no_buffer then 0
      else if link = Wifi24Ghz then REORDER_TOLERANCE_2_4GHZ else REORDER_TOLERANCE)"

definition timescale_interval :: "u32 \<Rightarrow> u32" where
  "timescale_interval target =
     max (TIMESCALE_INTERVAL_BASE div max (target div 4) 1) MIN_TIMESCALE_INTERVAL"

definition emergency_threshold :: "u32 \<Rightarrow> u32" where
  "emergency_threshold high_limit = high_limit + max EMERGENCY_MIN_MARGIN (high_limit div 2)"

definition max_missing_for :: "network_link \<Rightarrow> u32" where
  "max_missing_for link = (case link of
       Wifi24Ghz \<Rightarrow> MAX_MISSING_2_4GHZ
     | WifiUnknown \<Rightarrow> MAX_MISSING_UNKNOWN
     | LUnknown \<Rightarrow> MAX_MISSING_UNKNOWN
     | _ \<Rightarrow> MAX_MISSING_DEFAULT)"

section \<open>State\<close>

text \<open>What the callbacks hand to the playback buffer.\<close>

datatype emission =
    EmFrame raw_packet bool
  | EmShed raw_packet
  | EmStaged "raw_packet list" bool
  | EmGrown raw_packet
  | EmExpanded raw_packet
  | EmConcealed u32
  | EmSilence
  | EmFlush "raw_packet list"

record player =
  pm_flow :: playback_flow
  pm_buffer :: jitter_buffer
  pm_config :: jitter_config
  pm_link :: network_link
  pm_stats :: jitter_stats
  pm_control :: target_controller
  pm_countdown :: u32
  pm_cooldown :: u32
  pm_fadein :: bool
  pm_startup_flush :: bool
  pm_out :: "emission list"
  pm_resets :: nat

record frame_inputs =
  fi_now :: nat
  fi_config :: "jitter_config option"
  fi_tcp_mode :: bool
  fi_rms :: f32
  fi_headroom :: bool
  fi_accelerated :: "nat option"
  fi_expanded :: "nat option"

record frame_context =
  fx_now :: nat
  fx_target :: u32
  fx_raw_target :: u32
  fx_min_depth :: u32
  fx_is_no_buffer :: bool
  fx_tcp_mode :: bool

definition new_player :: "jitter_config \<Rightarrow> network_link \<Rightarrow> nat \<Rightarrow> player" where
  "new_player config link now =
     \<lparr>pm_flow = new_flow, pm_buffer = jb_new, pm_config = config, pm_link = link,
      pm_stats = new_stats, pm_control = new_controller now, pm_countdown = 0, pm_cooldown = 0, pm_fadein = False,
      pm_startup_flush = True, pm_out = [], pm_resets = 0\<rparr>"

definition min_depth_frames :: "player \<Rightarrow> u32" where
  "min_depth_frames s = ms_to_frames_ceil (min_depth_ms (pm_config s))"

abbreviation occupied :: "player \<Rightarrow> u32" where
  "occupied s \<equiv> occupied_count (pm_buffer s)"

definition emit :: "emission \<Rightarrow> player \<Rightarrow> player" where
  "emit e s = s\<lparr>pm_out := pm_out s @ [e]\<rparr>"

text \<open>One packet off the ring; the statistics drop it when the clock ran backwards.\<close>

definition ingest_packet :: "raw_packet \<Rightarrow> player \<Rightarrow> player" where
  "ingest_packet p s = (case observe (seq_num p) (arrival_time p) (pm_stats s) of
       (stats, False) \<Rightarrow> s\<lparr>pm_stats := stats\<rparr>
     | (stats, True) \<Rightarrow> s\<lparr>pm_stats := stats, pm_buffer := fst (jb_insert (pm_buffer s) p)\<rparr>)"

section \<open>Flushing\<close>

text \<open>
  The loop of \<open>flush_with_crossfade\<close>, with the packets it popped; the loop need not end on an
  arbitrary buffer, so it is partial.
\<close>

partial_function (option) flush_loop ::
  "u32 \<Rightarrow> jitter_buffer \<Rightarrow> raw_packet list \<Rightarrow> (jitter_buffer \<times> raw_packet list) option" where
  "flush_loop flush_to b popped =
     (if flush_to < occupied_count b
      then (case pop_next b of
          (b1, Some p) \<Rightarrow> flush_loop flush_to b1 (popped @ [p])
        | (b1, None) \<Rightarrow> flush_loop flush_to (advance_one b1) popped)
      else Some (b, popped))"

definition flush_with_crossfade :: "u32 \<Rightarrow> player \<Rightarrow> player option" where
  "flush_with_crossfade flush_to s =
     (if occupied s \<le> flush_to then Some s
      else map_option (\<lambda>(b, popped). emit (EmFlush popped) (s\<lparr>pm_buffer := b\<rparr>))
        (flush_loop flush_to (pm_buffer s) []))"

section \<open>Concealment and reset\<close>

definition trigger_reset :: "frame_inputs \<Rightarrow> player \<Rightarrow> player" where
  "trigger_reset inp s = s\<lparr>pm_buffer := jb_reset (pm_buffer s),
     pm_flow := reset_on_stream_restart (fst (close_starvation_episode (fi_now inp) (pm_flow s))),
     pm_stats := stats_reset_on_stream_restart (pm_stats s), pm_control := reset_controller (pm_control s),
     pm_out := [], pm_fadein := False,
     pm_resets := pm_resets s + 1\<rparr>"

definition check_reset_on_missing :: "frame_inputs \<Rightarrow> player \<Rightarrow> player \<times> bool" where
  "check_reset_on_missing inp s =
     (if max_missing_for (pm_link s) < pf_missing_count (pm_flow s)
      then (emit EmSilence (trigger_reset inp s), True) else (s, False))"

definition generate_plc :: "player \<Rightarrow> player" where
  "generate_plc s =
     (let run = (if pf_conceal_run (pm_flow s) = (- 1) then (- 1)
          else pf_conceal_run (pm_flow s) + 1) in
      emit (EmConcealed run) (s\<lparr>pm_flow := (pm_flow s)\<lparr>pf_conceal_run := run\<rparr>\<rparr>))"

definition manager_observe :: "bool \<Rightarrow> nat \<Rightarrow> player \<Rightarrow> player" where
  "manager_observe concealed now s =
     (let f1 = (if \<not> concealed \<and> min_depth_frames s < occupied s
          then fst (close_starvation_episode now (pm_flow s)) else pm_flow s) in
      if pf_is_prebuffering f1 then s\<lparr>pm_flow := discard_conceal_window f1\<rparr>
      else case observe_delivery concealed f1 of
          (f2, None) \<Rightarrow> s\<lparr>pm_flow := f2\<rparr>
        | (f2, Some verdict) \<Rightarrow>
            s\<lparr>pm_flow := (if cv_should_rebuffer verdict then f2\<lparr>pf_is_prebuffering := True\<rparr> else f2)\<rparr>)"

section \<open>The steps of a callback\<close>

definition reload_config_if_changed :: "frame_inputs \<Rightarrow> player \<Rightarrow> player option" where
  "reload_config_if_changed inp s =
     (let count = pm_countdown s + 1; check = (100 \<le> count);
          s1 = s\<lparr>pm_countdown := (if check then 0 else count)\<rparr> in
      case (if check then fi_config inp else None) of
        None \<Rightarrow> Some s1
      | Some new_config \<Rightarrow>
          if new_config = pm_config s1 then Some s1
          else
            let control = reset_for_config (fi_now inp) new_config (pm_control s1);
                flush_target = tc_effective control + tc_effective control div 2;
                s2 = s1\<lparr>pm_flow := (pm_flow s1)\<lparr>pf_is_prebuffering := True, pf_filtered_level := 0\<rparr>,
                       pm_stats := stats_reset_on_config_change (pm_stats s1), pm_control := control,
                       pm_config := new_config\<rparr> in
            if flush_target < occupied s1 then flush_with_crossfade flush_target s2 else Some s2)"

text \<open>The raw target: the cap over TCP is 12 frames, and a static depth is then kept above the minimum.\<close>

definition raw_target :: "frame_inputs \<Rightarrow> player \<Rightarrow> u32 option" where
  "raw_target inp s =
     (if fi_tcp_mode inp
      then (case target_breakdown_of (pm_config s) (pm_stats s) (Some (f32_of_nat 12)) of
          None \<Rightarrow> None
        | Some dynamic \<Rightarrow> Some (case static_target_ms (pm_config s) of
              Some static_ms \<Rightarrow> max (ms_to_frames_ceil static_ms) (min_depth_frames s)
            | None \<Rightarrow> tb_raw dynamic))
      else map_option tb_raw (target_breakdown_of (pm_config s) (pm_stats s) None))"

definition resolve_target :: "frame_inputs \<Rightarrow> player \<Rightarrow> (player \<times> frame_context) option" where
  "resolve_target inp s = (case raw_target inp s of None \<Rightarrow> None
     | Some raw \<Rightarrow>
        let control = advance_target (pm_config s) (pm_stats s) raw (min_depth_frames s) (fi_now inp)
              (pm_control s) in
        Some (s\<lparr>pm_control := control\<rparr>,
          \<lparr>fx_now = fi_now inp, fx_target = tc_effective control, fx_raw_target = raw,
           fx_min_depth = min_depth_frames s,
           fx_is_no_buffer = (static_target_ms (pm_config s) = Some 0), fx_tcp_mode = fi_tcp_mode inp\<rparr>))"

definition apply_no_buffer_flush :: "frame_context \<Rightarrow> player \<Rightarrow> player option" where
  "apply_no_buffer_flush ctx s =
     (if fx_is_no_buffer ctx \<and> fx_target ctx + 1 < occupied s
      then flush_with_crossfade (fx_target ctx + 1) s else Some s)"

definition unpause_threshold :: "frame_context \<Rightarrow> player \<Rightarrow> u32" where
  "unpause_threshold ctx s = max (f32_to_u32 (f32_mul (f32_of_nat (unat (fx_target ctx)))
     (resume_threshold_pct (pm_config s)))) (fx_min_depth ctx)"

text \<open>The playhead stays held: the callback conceals, or resets after too long an outage.\<close>

definition hold_playhead :: "frame_inputs \<Rightarrow> player \<Rightarrow> player" where
  "hold_playhead inp s =
     (let s1 = (if occupied s = 0
            then s\<lparr>pm_flow := (pm_flow s)\<lparr>pf_missing_count := pf_missing_count (pm_flow s) + 1\<rparr>\<rparr>
            else s);
          checked = (if occupied s = 0 then check_reset_on_missing inp s1 else (s1, False)) in
      if snd checked then fst checked
      else generate_plc (s1\<lparr>pm_flow := discard_conceal_window (pm_flow s1)\<rparr>))"

definition serve_prebuffering ::
  "frame_inputs \<Rightarrow> frame_context \<Rightarrow> player \<Rightarrow> (player \<times> bool) option" where
  "serve_prebuffering inp ctx s =
     (if \<not> pf_is_prebuffering (pm_flow s) then Some (s, False)
      else if unpause_threshold ctx s \<le> occupied s
      then
        let s1 = s\<lparr>pm_flow := (pm_flow s)\<lparr>pf_is_prebuffering := False\<rparr>\<rparr>;
            resume_depth = max (band_high (max (fx_target ctx) (fx_raw_target ctx)))
              (unpause_threshold ctx s) in
        if \<not> pm_startup_flush s1 \<and> resume_depth < occupied s1
        then map_option (\<lambda>s2. (s2, False)) (flush_with_crossfade resume_depth s1)
        else Some (s1, False)
      else Some (hold_playhead inp s, True))"

definition apply_startup_flush :: "frame_context \<Rightarrow> player \<Rightarrow> player option" where
  "apply_startup_flush ctx s =
     (if pm_startup_flush s
      then
        let s1 = s\<lparr>pm_startup_flush := False\<rparr>;
            safe_flush_target = max (max (fx_target ctx) (fx_min_depth ctx * 2)) 8 in
        if safe_flush_target + 2 < occupied s1 then flush_with_crossfade safe_flush_target s1
        else Some s1
      else Some s)"

definition apply_static_target_flush :: "frame_context \<Rightarrow> player \<Rightarrow> player option" where
  "apply_static_target_flush ctx s =
     (if (case static_target_ms (pm_config s) of None \<Rightarrow> False | Some ms \<Rightarrow> 0 < ms) \<and>
         fx_target ctx + 1 < occupied s
      then flush_with_crossfade (fx_target ctx) s else Some s)"

definition try_fast_forward_over_gap :: "frame_context \<Rightarrow> player \<Rightarrow> player" where
  "try_fast_forward_over_gap ctx s =
     (if 0 < occupied s \<and> \<not> has_next (pm_buffer s)
      then
        let held = pf_gap_hold_count (pm_flow s) + 1;
            s1 = s\<lparr>pm_flow := (pm_flow s)\<lparr>pf_gap_hold_count := held\<rparr>\<rparr>;
            tolerance = reorder_tolerance_for (pm_link s) (fx_is_no_buffer ctx);
            over = (\<lambda>b. s1\<lparr>pm_buffer := b, pm_fadein := True,
              pm_flow := (pm_flow s1)\<lparr>pf_gap_hold_count := 0\<rparr>\<rparr>) in
        case lowest_available_seq (pm_buffer s1) of
          (b, Some lo) \<Rightarrow>
            (let diff = (if jb_next b \<le> lo then lo - jb_next b else jb_next b - lo) in
             if 20 < diff \<or> tolerance \<le> held then over (fast_forward b lo)
             else s1\<lparr>pm_buffer := b\<rparr>)
        | (b, None) \<Rightarrow>
            if tolerance \<le> held then over (advance_one b) else s1\<lparr>pm_buffer := b\<rparr>
      else s)"

text \<open>Coming out of a starvation.\<close>

definition recover_from_starvation :: "frame_context \<Rightarrow> player \<Rightarrow> player" where
  "recover_from_starvation ctx s =
     (if 0 < pf_starvation_count (pm_flow s)
      then
        let s1 = (if fx_tcp_mode ctx then s
              else
                let control = (if pf_starvation_recovery (pm_flow s) = 0
                      then learn_starvation (pm_config s) (pm_stats s) (fx_now ctx) (pm_control s)
                      else pm_control s);
                    effective = tc_effective control;
                    doubled = (if effective \<le> (- 1) div 2 then effective * 2 else (- 1)) in
                s\<lparr>pm_control := control,
                  pm_flow := arm_recovery_window (fx_now ctx)
                    ((pm_flow s)\<lparr>pf_starvation_recovery := min (max doubled 50) 200\<rparr>)\<rparr>) in
        s1\<lparr>pm_flow := (pm_flow s1)\<lparr>pf_starvation_count := 0\<rparr>\<rparr>
      else s)"

text \<open>The silent packets shed over the high limit, at most four of them.\<close>

fun shed_packets :: "nat \<Rightarrow> u32 \<Rightarrow> player \<Rightarrow> player" where
  "shed_packets 0 high_limit s = s"
| "shed_packets (Suc n) high_limit s =
     shed_packets n high_limit
       (if high_limit < occupied s \<and> has_next (pm_buffer s)
        then s\<lparr>pm_buffer := fst (pop_next (pm_buffer s)),
               pm_flow := adjust_filtered_level (f32_neg (f32_of_nat 1)) (pm_flow s)\<rparr>
        else s)"

definition frames_of_samples :: "nat \<Rightarrow> f32" where
  "frames_of_samples n = f32_div (f32_of_nat n) (f32_of_nat OPUS_FRAME_SAMPLES)"

definition run_timescale ::
  "frame_inputs \<Rightarrow> frame_context \<Rightarrow> raw_packet \<Rightarrow> player \<Rightarrow> player \<times> bool" where
  "run_timescale inp ctx p s =
     (let low_limit = band_low (fx_target ctx); high_limit = band_high (fx_target ctx);
          filtered = pf_filtered_level (pm_flow s);
          allowed = stretch_allowed (fx_now ctx) (pm_flow s);
          silent = f32_lt (fi_rms inp) SILENCE_RMS in
      if allowed \<and> f32_ge filtered (f32_of_nat (unat high_limit))
      then
        let is_fast = f32_ge filtered (f32_of_nat (unat (emergency_threshold high_limit))) in
        if silent \<and> has_next (pm_buffer s)
        then
          let excess = sat_sub32 (f32_to_u32 filtered) high_limit;
              s1 = shed_packets (unat (min (max (excess div 2) 1) 4)) high_limit (emit (EmShed p) s) in
          (s1\<lparr>pm_cooldown := timescale_interval (fx_target ctx)\<rparr>, True)
        else if is_fast \<or> pm_cooldown s = 0
        then
          let staged = (if has_next (pm_buffer s) \<and> fi_headroom inp
                then (case pop_next (pm_buffer s) of
                    (b, Some q) \<Rightarrow> (s\<lparr>pm_buffer := b\<rparr>, [p, q])
                  | (b, None) \<Rightarrow> (s\<lparr>pm_buffer := b\<rparr>, [p]))
                else (s, [p]));
              s1 = fst staged in
          (case fi_accelerated inp of
             Some removed \<Rightarrow>
               (emit (EmStaged (snd staged) True)
                 (s1\<lparr>pm_flow := adjust_filtered_level (f32_neg (frames_of_samples removed)) (pm_flow s1),
                    pm_cooldown := (if is_fast then pm_cooldown s1
                      else timescale_interval (fx_target ctx))\<rparr>), True)
           | None \<Rightarrow> (emit (EmStaged (snd staged) False) s1, True))
        else (s, False)
      else if f32_lt filtered (f32_of_nat (unat low_limit))
      then
        if silent \<and> pm_cooldown s = 0 \<and> static_target_ms (pm_config s) = None \<and>
           occupied s < fx_target ctx
        then (emit (EmGrown p) (s\<lparr>pm_flow := adjust_filtered_level (f32_of_nat 1) (pm_flow s),
                pm_cooldown := MIN_SILENCE_GROW_INTERVAL\<rparr>), True)
        else if allowed \<and> pm_cooldown s = 0 \<and> static_target_ms (pm_config s) = None
        then (case fi_expanded inp of
            Some inserted \<Rightarrow>
              (emit (EmExpanded p)
                (s\<lparr>pm_flow := adjust_filtered_level (frames_of_samples inserted) (pm_flow s),
                   pm_cooldown := MIN_EXPAND_INTERVAL\<rparr>), True)
          | None \<Rightarrow> (s, False))
        else (s, False)
      else (s, False))"

text \<open>A frame is at the playhead. \<open>None\<close> is the \<open>expect\<close> on it.\<close>

definition play_next_frame :: "frame_inputs \<Rightarrow> frame_context \<Rightarrow> player \<Rightarrow> player option" where
  "play_next_frame inp ctx s =
     (let s1 = manager_observe False (fx_now ctx) (s\<lparr>pm_flow := (pm_flow s)
            \<lparr>pf_gap_hold_count := 0, pf_missing_count := 0, pf_conceal_run := 0\<rparr>\<rparr>);
          s2 = recover_from_starvation ctx s1 in
      case pop_next (pm_buffer s2) of
        (b, None) \<Rightarrow> None
      | (b, Some p) \<Rightarrow>
          let fade = (0 < pf_starvation_count (pm_flow s2) \<or> pm_fadein s2);
              s3 = s2\<lparr>pm_buffer := b, pm_fadein := False\<rparr> in
          case run_timescale inp ctx p s3 of
            (s4, True) \<Rightarrow> Some s4
          | (s4, False) \<Rightarrow> Some (emit (EmFrame p fade) s4))"

definition handle_missing_frame :: "frame_inputs \<Rightarrow> frame_context \<Rightarrow> player \<Rightarrow> player" where
  "handle_missing_frame inp ctx s =
     (let s1 = manager_observe True (fx_now ctx)
            (s\<lparr>pm_flow := (pm_flow s)\<lparr>pf_missing_count := pf_missing_count (pm_flow s) + 1\<rparr>\<rparr>);
          f = pm_flow s1;
          s2 = (if occupied s1 = 0
            then
              let starved = pf_starvation_count f + 1;
                  f1 = f\<lparr>pf_gap_hold_count := 0, pf_starvation_count := starved\<rparr>;
                  f2 = (if starved = 1
                    then fst (note_starvation_onset (fx_now ctx) (f1\<lparr>pf_filtered_level := 0\<rparr>))
                    else f1) in
              s1\<lparr>pm_flow := (if starved = REBUFFER_AFTER then f2\<lparr>pf_is_prebuffering := True\<rparr> else f2)\<rparr>
            else s1) in
      case check_reset_on_missing inp s2 of
        (s3, True) \<Rightarrow> s3
      | (s3, False) \<Rightarrow> generate_plc s3)"

definition begin_frame :: "frame_inputs \<Rightarrow> player \<Rightarrow> player" where
  "begin_frame inp s = s\<lparr>pm_cooldown := sat_sub32 (pm_cooldown s) 1, pm_flow := tick_recovery (fi_now inp)
     (filter_buffer_level (occupied s) (tc_effective (pm_control s)) (pm_flow s))\<rparr>"

text \<open>The end of a callback whose playhead is not held.\<close>

definition serve_frame :: "frame_inputs \<Rightarrow> frame_context \<Rightarrow> player \<Rightarrow> player option" where
  "serve_frame inp ctx s =
     (case apply_startup_flush ctx s of None \<Rightarrow> None
      | Some s1 \<Rightarrow> (case apply_static_target_flush ctx s1 of None \<Rightarrow> None
      | Some s2 \<Rightarrow>
          let s3 = try_fast_forward_over_gap ctx s2 in
          if has_next (pm_buffer s3) then play_next_frame inp ctx s3
          else Some (handle_missing_frame inp ctx s3)))"

text \<open>\<open>None\<close>: the callback would not return, because it panics or loops.\<close>

definition process_next_frame :: "frame_inputs \<Rightarrow> player \<Rightarrow> player option" where
  "process_next_frame inp s =
     (case reload_config_if_changed inp (begin_frame inp s) of None \<Rightarrow> None
      | Some s1 \<Rightarrow> (case resolve_target inp s1 of None \<Rightarrow> None | Some (s2, ctx) \<Rightarrow>
          (case apply_no_buffer_flush ctx s2 of None \<Rightarrow> None
           | Some s3 \<Rightarrow> (case serve_prebuffering inp ctx s3 of None \<Rightarrow> None
             | Some (s4, True) \<Rightarrow> Some s4
             | Some (s4, False) \<Rightarrow> serve_frame inp ctx s4))))"

end
