(* ===== verification/Playback_Safety.thy ===== *)
theory Playback_Safety
  imports Playback_Manager
begin

text \<open>
  What the playback callback guarantees (\<open>Playback_Manager\<close>): it always returns and always hands
  over audio, a flush keeps the newest packets, an outage ends in a reset unless a packet is left
  below the resume threshold, and what a starvation does to time-stretching and fading.
\<close>

section \<open>Buffers within a bound\<close>

text \<open>
  A well-formed buffer all of whose packets have numbers below \<open>M\<close>. While it holds a packet the
  playhead is below \<open>M\<close>, and the callback steps it only then, at most two numbers at a time.
\<close>

definition buffer_below :: "nat \<Rightarrow> jitter_buffer \<Rightarrow> bool" where
  "buffer_below M b \<longleftrightarrow> jb_inv b \<and> jb_head b \<le> M + 1 \<and> (\<forall>t. jb_lookup b t \<noteq> None \<longrightarrow> t < M)"

lemma buffer_belowD: "buffer_below M b \<Longrightarrow> jb_inv b" "buffer_below M b \<Longrightarrow> jb_head b \<le> M + 1"
  "buffer_below M b \<Longrightarrow> jb_lookup b t = Some p \<Longrightarrow> t < M"
  by (auto simp: buffer_below_def)

lemma occupied_stored:
  assumes "jb_inv b" and "0 < occupied_count b"
  shows "jb_initialized b" and "\<exists>t p. jb_lookup b t = Some p"
proof -
  show init: "jb_initialized b"
    using assms(2) by (auto simp: occupied_count_def split: if_splits)
  have "0 < card (dom (jb_lookup b))"
    using assms by (simp add: occupied_card [OF assms(1), symmetric] word_less_nat_alt)
  then show "\<exists>t p. jb_lookup b t = Some p"
    by (fastforce simp: card_gt_0_iff)
qed

lemma occupied_head: "buffer_below M b \<Longrightarrow> 0 < occupied_count b \<Longrightarrow> jb_initialized b \<and> jb_head b < M"
  using occupied_stored [of b] lookup_window [of b] unfolding buffer_below_def
  by (metis le_less_trans option.distinct(1))

lemma buffer_below_step:
  assumes "buffer_below M b" "jb_head b \<le> M" "M + 514 < 2 ^ 64"
    and "\<And>m. cache = Some m \<Longrightarrow> jb_lookup b (jb_head b) = None \<and> jb_cached_min b = Some m"
  shows "buffer_below M (step_head b cache)"
  using assms step_head_spec [of b cache] by (auto simp: buffer_below_def)

lemma occupied_step:
  assumes inv: "jb_inv b" and "jb_initialized b" and "jb_head b + 512 < 2 ^ 64"
    and cache: "\<And>m. cache = Some m \<Longrightarrow> jb_lookup b (jb_head b) = None \<and> jb_cached_min b = Some m"
  shows "unat (occupied_count (step_head b cache)) =
    unat (occupied_count b) - (if jb_lookup b (jb_head b) = None then 0 else 1)"
  using assms(2) step_head_spec(3) [OF inv assms(3) cache]
  by (simp add: occupied_count_def) (simp add: step_head_def)

text \<open>One round of the flush loop: a pop, and past a hole one more step.\<close>

definition flush_round :: "jitter_buffer \<Rightarrow> jitter_buffer" where
  "flush_round b = (case pop_next b of (b1, Some p) \<Rightarrow> b1 | (b1, None) \<Rightarrow> advance_one b1)"

lemma flush_round_spec:
  assumes w: "buffer_below M b" and occ: "0 < occupied_count b" and lim: "M + 514 < 2 ^ 64"
  shows "buffer_below M (flush_round b)" "jb_head b < jb_head (flush_round b)"
    "unat (occupied_count b) \<le> unat (occupied_count (flush_round b)) + 1"
    "unat (occupied_count (flush_round b)) \<le> unat (occupied_count b)"
    "jb_lookup (flush_round b) t =
       (if jb_head (flush_round b) \<le> t then jb_lookup b t else None)"
    "jb_initialized (flush_round b)"
proof -
  have inv: "jb_inv b" and init: "jb_initialized b" and head: "jb_head b < M"
    using w occ occupied_head buffer_belowD by blast+
  have h: "jb_head b + 512 < 2 ^ 64" "Suc (jb_head b) + 512 < 2 ^ 64"
    using head lim by simp_all
  define c where "c = (if jb_lookup b (jb_head b) = None then jb_cached_min b else None)"
  have cache: "c = Some m \<Longrightarrow> jb_lookup b (jb_head b) = None \<and> jb_cached_min b = Some m" for m
    by (simp add: c_def split: if_splits)
  note pop = pop_next_eq [OF inv init, folded c_def]
  let ?b1 = "step_head b c"
  note S = step_head_spec [OF inv h(1) cache]
  have w1: "buffer_below M ?b1"
    using buffer_below_step [OF w _ lim cache] head by simp
  have below: "jb_lookup b t = None" if "t < jb_head b" for t
    using lookup_window [OF inv, of t] that by (cases "jb_lookup b t") auto
  have occ1: "unat (occupied_count ?b1) =
      unat (occupied_count b) - (if jb_lookup b (jb_head b) = None then 0 else 1)"
    by (rule occupied_step [OF inv init h(1) cache])
  have pos: "0 < unat (occupied_count b)"
    using occ by (simp add: word_less_nat_alt)
  show "buffer_below M (flush_round b)" "jb_head b < jb_head (flush_round b)"
    "unat (occupied_count b) \<le> unat (occupied_count (flush_round b)) + 1"
    "unat (occupied_count (flush_round b)) \<le> unat (occupied_count b)"
    "jb_lookup (flush_round b) t = (if jb_head (flush_round b) \<le> t then jb_lookup b t else None)"
    "jb_initialized (flush_round b)"
  proof -
    have "buffer_below M (flush_round b) \<and> jb_head b < jb_head (flush_round b) \<and>
      unat (occupied_count b) \<le> unat (occupied_count (flush_round b)) + 1 \<and>
      unat (occupied_count (flush_round b)) \<le> unat (occupied_count b) \<and>
      jb_initialized (flush_round b) \<and>
      jb_lookup (flush_round b) t = (if jb_head (flush_round b) \<le> t then jb_lookup b t else None)"
    proof (cases "jb_lookup b (jb_head b)")
      case (Some p)
      then have "flush_round b = ?b1"
        by (simp add: flush_round_def pop)
      with Some w1 S occ1 init below show ?thesis
        by (auto simp: not_le less_Suc_eq)
    next
      case None
      have i1: "jb_initialized ?b1" using S(3) init by simp
      have h1: "jb_head ?b1 + 512 < 2 ^ 64" using S(2) h(2) by simp
      note T = step_head_spec [OF S(1) h1, where cache = None]
      have "flush_round b = step_head ?b1 None"
        using None by (simp add: flush_round_def pop advance_one_eq [OF S(1)])
      moreover have "buffer_below M (step_head ?b1 None)"
        using buffer_below_step [OF w1 _ lim, of None] S(2) head by simp
      moreover have "unat (occupied_count (step_head ?b1 None)) =
          unat (occupied_count b) - (if jb_lookup ?b1 (jb_head ?b1) = None then 0 else 1)"
        using occupied_step [OF S(1) i1 h1, of None] occ1 None by simp
      ultimately show ?thesis
        using None S T i1 below by (auto simp: not_le less_Suc_eq)
    qed
    then show "buffer_below M (flush_round b)" "jb_head b < jb_head (flush_round b)"
      "unat (occupied_count b) \<le> unat (occupied_count (flush_round b)) + 1"
      "unat (occupied_count (flush_round b)) \<le> unat (occupied_count b)"
      "jb_lookup (flush_round b) t = (if jb_head (flush_round b) \<le> t then jb_lookup b t else None)"
      "jb_initialized (flush_round b)"
      by blast+
  qed
qed

lemma flush_loop_round:
  "flush_to < occupied_count b \<Longrightarrow> \<exists>out. flush_loop flush_to b popped = flush_loop flush_to (flush_round b) out"
  by (subst flush_loop.simps) (auto simp: flush_round_def split: prod.splits option.splits)

text \<open>
  The loop ends, since each round moves the playhead and no packet lies at or beyond the bound;
  it leaves exactly the newest \<open>flush_to\<close> packets.
\<close>

lemma flush_loop_spec:
  assumes "buffer_below M b" "flush_to \<le> occupied_count b" "M + 514 < 2 ^ 64"
  shows "\<exists>b' out. flush_loop flush_to b popped = Some (b', out) \<and> buffer_below M b' \<and>
    occupied_count b' = flush_to \<and> jb_head b \<le> jb_head b' \<and>
    (\<forall>t. jb_lookup b' t = (if jb_head b' \<le> t then jb_lookup b t else None))"
  using assms
proof (induction "M + 1 - jb_head b" arbitrary: b popped rule: less_induct)
  case less
  show ?case
  proof (cases "flush_to < occupied_count b")
    case False
    have below: "jb_lookup b t = None" if "t < jb_head b" for t
      using lookup_window [OF buffer_belowD(1) [OF less.prems(1)], of t] that by (cases "jb_lookup b t") auto
    from False less.prems(2) have "occupied_count b = flush_to" by simp
    moreover have "flush_loop flush_to b popped = Some (b, popped)"
      using False by (subst flush_loop.simps) simp
    ultimately show ?thesis
      using less.prems(1) below by auto
  next
    case True
    then have occ: "0 < occupied_count b"
      by (metis le_less_trans word_coorder.extremum)
    note R = flush_round_spec [OF less.prems(1) occ less.prems(3)]
    have "jb_head b < M"
      using occupied_head [OF less.prems(1) occ] by blast
    then have dec: "M + 1 - jb_head (flush_round b) < M + 1 - jb_head b"
      using R(2) by simp
    have ge: "flush_to \<le> occupied_count (flush_round b)"
      using R(3) True by (simp add: word_le_nat_alt word_less_nat_alt)
    obtain out where eq: "flush_loop flush_to b popped = flush_loop flush_to (flush_round b) out"
      using flush_loop_round [OF True] by blast
    from less.hyps [OF dec R(1) ge less.prems(3)] obtain b' out' where
      "flush_loop flush_to (flush_round b) out = Some (b', out')" "buffer_below M b'"
      "occupied_count b' = flush_to" "jb_head (flush_round b) \<le> jb_head b'"
      "\<And>t. jb_lookup b' t = (if jb_head b' \<le> t then jb_lookup (flush_round b) t else None)"
      by blast
    then show ?thesis
      using eq R(2, 5) by auto
  qed
qed

section \<open>The steps before a frame is served\<close>

text \<open>What those steps may change: flushed packets are gone, and nothing else that matters here.\<close>

definition carried :: "nat \<Rightarrow> player \<Rightarrow> player \<Rightarrow> bool" where
  "carried M s t \<longleftrightarrow>
     (buffer_below M (pm_buffer s) \<longrightarrow> buffer_below M (pm_buffer t)) \<and>
     pm_link t = pm_link s \<and> pm_resets t = pm_resets s \<and> pm_fadein t = pm_fadein s \<and>
     pf_missing_count (pm_flow t) = pf_missing_count (pm_flow s) \<and>
     pf_starvation_count (pm_flow t) = pf_starvation_count (pm_flow s) \<and>
     pf_recovery_started_at (pm_flow t) = pf_recovery_started_at (pm_flow s) \<and>
     (occupied s = 0 \<longrightarrow> pm_buffer t = pm_buffer s) \<and>
     (\<exists>out. pm_out t = pm_out s @ map EmFlush out)"

lemma carried_refl [simp]: "carried M s s"
  by (auto simp: carried_def intro: exI [of _ "[]"])

lemma carried_trans: "carried M s t \<Longrightarrow> carried M t u \<Longrightarrow> carried M s u"
proof -
  assume st: "carried M s t" and tu: "carried M t u"
  from st obtain out where "pm_out t = pm_out s @ map EmFlush out" unfolding carried_def by blast
  moreover from tu obtain out' where "pm_out u = pm_out t @ map EmFlush out'"
    unfolding carried_def by blast
  ultimately have "\<exists>out. pm_out u = pm_out s @ map EmFlush out"
    by (intro exI [of _ "out @ out'"]) simp
  then show ?thesis
    using st tu unfolding carried_def by (intro conjI) simp_all
qed

lemma flush_total:
  assumes "buffer_below M (pm_buffer s)" "M + 514 < 2 ^ 64"
  shows "\<exists>t. flush_with_crossfade n s = Some t \<and> carried M s t \<and> pm_flow t = pm_flow s \<and>
    pm_config t = pm_config s \<and> occupied t = min (occupied s) n"
proof (cases "occupied s \<le> n")
  case True
  then show ?thesis by (simp add: flush_with_crossfade_def min_def)
next
  case False
  then have "n \<le> occupied s" by simp
  from flush_loop_spec [OF assms(1) this assms(2), of "[]"] obtain b out where
    b: "flush_loop n (pm_buffer s) [] = Some (b, out)" "buffer_below M b" "occupied_count b = n"
    by blast
  let ?t = "emit (EmFlush out) (s\<lparr>pm_buffer := b\<rparr>)"
  have "flush_with_crossfade n s = Some ?t"
    using False b(1) by (simp add: flush_with_crossfade_def)
  moreover have "occupied s \<noteq> 0"
    using False by auto
  then have "carried M s ?t"
    using b(2) by (auto simp: carried_def emit_def intro: exI [of _ "[out]"])
  ultimately show ?thesis
    using b(3) False by (auto simp: emit_def min_def)
qed

lemma carried_update:
  "carried M (s\<lparr>pm_startup_flush := x\<rparr>) t \<longleftrightarrow> carried M s t"
  "carried M s (t\<lparr>pm_startup_flush := x\<rparr>) \<longleftrightarrow> carried M s t"
  by (simp_all add: carried_def)

lemma apply_flushes_total:
  assumes "buffer_below M (pm_buffer s)" "M + 514 < 2 ^ 64"
  shows "\<exists>t. apply_no_buffer_flush ctx s = Some t \<and> carried M s t"
    "\<exists>t. apply_startup_flush ctx s = Some t \<and> carried M s t"
    "\<exists>t. apply_static_target_flush ctx s = Some t \<and> carried M s t"
proof -
  show "\<exists>t. apply_no_buffer_flush ctx s = Some t \<and> carried M s t"
    using flush_total [OF assms, of "fx_target ctx + 1"] by (auto simp: apply_no_buffer_flush_def)
  show "\<exists>t. apply_static_target_flush ctx s = Some t \<and> carried M s t"
    using flush_total [OF assms, of "fx_target ctx"] by (auto simp: apply_static_target_flush_def)
  have "buffer_below M (pm_buffer (s\<lparr>pm_startup_flush := False\<rparr>))"
    using assms(1) by simp
  from flush_total [OF this assms(2), of "max (max (fx_target ctx) (fx_min_depth ctx * 2)) 8"]
  show "\<exists>t. apply_startup_flush ctx s = Some t \<and> carried M s t"
    by (auto simp: apply_startup_flush_def Let_def carried_update)
qed

lemma reload_total:
  assumes "buffer_below M (pm_buffer s)" "M + 514 < 2 ^ 64"
  shows "\<exists>t. reload_config_if_changed inp s = Some t \<and> carried M s t"
proof -
  define count where "count = pm_countdown s + 1"
  define s1 where "s1 = s\<lparr>pm_countdown := (if 100 \<le> count then 0 else count)\<rparr>"
  have same: "carried M s s1" by (auto simp: s1_def carried_def intro: exI [of _ "[]"])
  show ?thesis
  proof (cases "if 100 \<le> count then fi_config inp else None")
    case None
    then have "reload_config_if_changed inp s = Some s1"
      by (simp add: reload_config_if_changed_def count_def [symmetric] s1_def Let_def split: if_splits)
    then show ?thesis using same by blast
  next
    case (Some new_config)
    define control where "control = reset_for_config (fi_now inp) new_config (pm_control s1)"
    define target where "target = tc_effective control"
    define s2 where "s2 = s1\<lparr>pm_flow := (pm_flow s1)\<lparr>pf_is_prebuffering := True, pf_filtered_level := 0\<rparr>,
      pm_stats := stats_reset_on_config_change (pm_stats s1), pm_control := control, pm_config := new_config\<rparr>"
    have c2: "carried M s1 s2" by (auto simp: s2_def carried_def intro: exI [of _ "[]"])
    have "buffer_below M (pm_buffer s2)" using assms(1) by (simp add: s2_def s1_def)
    from flush_total [OF this assms(2)] obtain t where
      t: "flush_with_crossfade (target + target div 2) s2 = Some t" "carried M s2 t" by blast
    have "reload_config_if_changed inp s = (if new_config = pm_config s1 then Some s1
        else if target + target div 2 < occupied s1 then flush_with_crossfade (target + target div 2) s2
        else Some s2)"
      using Some by (simp add: reload_config_if_changed_def count_def [symmetric] s1_def s2_def
          target_def control_def Let_def split: if_splits)
    then show ?thesis
      using t same c2 by (auto intro: carried_trans)
  qed
qed

lemma raw_target_total: "\<exists>raw. raw_target inp s = Some raw"
  using breakdown_total [of "Some (f32_of_nat 12)" "pm_config s" "pm_stats s"]
    breakdown_total [of None "pm_config s" "pm_stats s"]
  by (auto simp: raw_target_def)

lemma prepare_total:
  assumes "buffer_below M (pm_buffer s)" "M + 514 < 2 ^ 64"
  shows "\<exists>t ctx. carried M (begin_frame inp s) t \<and> fx_now ctx = fi_now inp \<and>
    fx_tcp_mode ctx = fi_tcp_mode inp \<and>
    process_next_frame inp s = (case serve_prebuffering inp ctx t of None \<Rightarrow> None
      | Some (u, True) \<Rightarrow> Some u | Some (u, False) \<Rightarrow> serve_frame inp ctx u)"
proof -
  have "buffer_below M (pm_buffer (begin_frame inp s))"
    using assms(1) by (simp add: begin_frame_def)
  from reload_total [OF this assms(2)] obtain s1 where
    s1: "reload_config_if_changed inp (begin_frame inp s) = Some s1" "carried M (begin_frame inp s) s1"
    by blast
  obtain s2 ctx where s2: "resolve_target inp s1 = Some (s2, ctx)"
    using raw_target_total [of inp s1] by (auto simp: resolve_target_def Let_def)
  then have c2: "carried M s1 s2" and ctx: "fx_now ctx = fi_now inp" "fx_tcp_mode ctx = fi_tcp_mode inp"
    by (auto simp: resolve_target_def carried_def Let_def intro: exI [of _ "[]"] split: option.splits)
  have "buffer_below M (pm_buffer s2)"
    using \<open>buffer_below M (pm_buffer (begin_frame inp s))\<close> s1(2) c2 by (simp add: carried_def)
  from apply_flushes_total(1) [OF this assms(2)] obtain s3 where
    s3: "apply_no_buffer_flush ctx s2 = Some s3" "carried M s2 s3" by blast
  show ?thesis
    using carried_trans [OF carried_trans [OF s1(2) c2] s3(2)] ctx
    by (auto simp: process_next_frame_def s1 s2 s3)
qed

lemma serve_prebuffering_cases:
  assumes "buffer_below M (pm_buffer s)" "M + 514 < 2 ^ 64"
  obtains (held) "pf_is_prebuffering (pm_flow s)" "occupied s < unpause_threshold ctx s"
      "serve_prebuffering inp ctx s = Some (hold_playhead inp s, True)"
    | (released) t where "serve_prebuffering inp ctx s = Some (t, False)" "carried M s t"
proof (cases "pf_is_prebuffering (pm_flow s) \<and> \<not> unpause_threshold ctx s \<le> occupied s")
  case True
  then have "occupied s < unpause_threshold ctx s" by (simp add: not_le)
  with True show thesis by (intro held) (simp_all add: serve_prebuffering_def)
next
  case False
  define s1 where "s1 = s\<lparr>pm_flow := (pm_flow s)\<lparr>pf_is_prebuffering := False\<rparr>\<rparr>"
  have "buffer_below M (pm_buffer s1)" using assms(1) by (simp add: s1_def)
  from flush_total [OF this assms(2)] obtain t where
    t: "flush_with_crossfade (max (band_high (max (fx_target ctx) (fx_raw_target ctx)))
        (unpause_threshold ctx s)) s1 = Some t" "carried M s1 t" by blast
  have c1: "carried M s s1" by (auto simp: s1_def carried_def intro: exI [of _ "[]"])
  have "serve_prebuffering inp ctx s \<in> {Some (s, False), Some (s1, False), Some (t, False)}"
    using False t(1) by (auto simp: serve_prebuffering_def s1_def [symmetric] Let_def)
  then show thesis
    using released [of s] released [OF _ c1] released [OF _ carried_trans [OF c1 t(2)]] by auto
qed

section \<open>Serving a frame\<close>

lemma has_next_head: "buffer_below M b \<Longrightarrow> has_next b \<Longrightarrow> jb_initialized b \<and> jb_head b < M \<and>
    (\<exists>p. jb_lookup b (jb_head b) = Some p)"
  using has_next_iff [of b] by (auto simp: buffer_below_def)

lemma finite_stored: "jb_inv b \<Longrightarrow> finite (dom (jb_lookup b))"
  by (rule finite_subset [of _ "{jb_head b..<jb_head b + 512}"]) (auto dest: lookup_window)

lemma stored_occupied: "jb_inv b \<Longrightarrow> jb_lookup b t = Some p \<Longrightarrow> occupied_count b \<noteq> 0"
  using occupied_card [of b] finite_stored [of b] by auto

lemma pop_below:
  assumes "buffer_below M b" "has_next b" "M + 514 < 2 ^ 64"
  shows "buffer_below M (fst (pop_next b))" "\<exists>p. snd (pop_next b) = Some p"
proof -
  note D = buffer_belowD [OF assms(1)]
  have init: "jb_initialized b" and head: "jb_head b < M"
    and p: "\<exists>p. jb_lookup b (jb_head b) = Some p"
    using has_next_head [OF assms(1, 2)] by auto
  have h: "jb_head b + 512 < 2 ^ 64" using head assms(3) by simp
  note P = pop_next_spec [OF D(1) init h]
  show "\<exists>p. snd (pop_next b) = Some p" using P(1) p by simp
  show "buffer_below M (fst (pop_next b))"
    using assms(1) P head by (auto simp: buffer_below_def)
qed

lemma skip_below:
  assumes "buffer_below M b" "jb_lookup b (unat n) \<noteq> None" "M + 514 < 2 ^ 64"
  shows "buffer_below M (skip_to b n)"
proof -
  from assms(2) obtain p where "jb_lookup b (unat n) = Some p" by auto
  then have n: "jb_head b \<le> unat n" "unat n < M"
    using lookup_window [of b "unat n" p] assms(1) by (auto simp: buffer_below_def)
  then have "jb_head b + 512 < 2 ^ 64" using assms(3) by simp
  from skip_to_spec [OF _ n(1) this] show ?thesis
    using assms(1) n by (auto simp: buffer_below_def)
qed

text \<open>What a step past a hole may change: the buffer, the hold count and the fade-in flag.\<close>

definition hop :: "nat \<Rightarrow> player \<Rightarrow> player \<Rightarrow> bool" where
  "hop M s t \<longleftrightarrow> buffer_below M (pm_buffer t) \<and> pm_link t = pm_link s \<and> pm_resets t = pm_resets s \<and>
     pm_out t = pm_out s \<and>
     pf_missing_count (pm_flow t) = pf_missing_count (pm_flow s) \<and>
     pf_starvation_count (pm_flow t) = pf_starvation_count (pm_flow s) \<and>
     pf_recovery_started_at (pm_flow t) = pf_recovery_started_at (pm_flow s) \<and>
     (occupied s = 0 \<longrightarrow> t = s)"

lemma fast_forward_hop:
  assumes w: "buffer_below M (pm_buffer s)" and lim: "M + 514 < 2 ^ 64"
  shows "hop M s (try_fast_forward_over_gap ctx s)"
proof (cases "0 < occupied s \<and> \<not> has_next (pm_buffer s)")
  case False
  then have "try_fast_forward_over_gap ctx s = s"
    unfolding try_fast_forward_over_gap_def by (rule if_not_P)
  then show ?thesis using w by (simp add: hop_def)
next
  case True
  note D = buffer_belowD [OF w]
  obtain b lo where low: "lowest_available_seq (pm_buffer s) = (b, lo)" by fastforce
  note L = lowest_available_spec [OF D(1), unfolded low fst_conv snd_conv]
  have b: "buffer_below M b"
    using w L(1-3) by (simp add: buffer_below_def)
  have jump: "buffer_below M (skip_to b n)" if "lo = Some n" for n
    using skip_below [OF b _ lim] L(2, 5) that by simp
  have "jb_head (pm_buffer s) < M"
    using occupied_head [OF w] True by blast
  then have "jb_head b < M" "jb_head b + 512 < 2 ^ 64"
    using L(3) lim by simp_all
  then have step: "buffer_below M (advance_one b)"
    using buffer_below_step [OF b _ lim, of None] by (simp add: advance_one_eq [OF L(1)])
  show ?thesis
    using True b jump step
    by (cases lo) (auto simp: try_fast_forward_over_gap_def hop_def low Let_def fast_forward_def)
qed

lemma manager_observe_same [simp]:
  "pm_buffer (manager_observe c now s) = pm_buffer s" "pm_out (manager_observe c now s) = pm_out s"
  "pm_link (manager_observe c now s) = pm_link s" "pm_resets (manager_observe c now s) = pm_resets s"
  "pm_fadein (manager_observe c now s) = pm_fadein s"
  "pm_cooldown (manager_observe c now s) = pm_cooldown s"
  "pf_missing_count (pm_flow (manager_observe c now s)) = pf_missing_count (pm_flow s)"
  "pf_starvation_count (pm_flow (manager_observe c now s)) = pf_starvation_count (pm_flow s)"
  "pf_recovery_started_at (pm_flow (manager_observe c now s)) = pf_recovery_started_at (pm_flow s)"
  by (auto simp: manager_observe_def observe_delivery_def discard_conceal_window_def
      close_starvation_episode_def Let_def split: option.splits)

lemma recover_same [simp]:
  "pm_buffer (recover_from_starvation ctx s) = pm_buffer s"
  "pm_out (recover_from_starvation ctx s) = pm_out s"
  "pm_link (recover_from_starvation ctx s) = pm_link s"
  "pm_resets (recover_from_starvation ctx s) = pm_resets s"
  "pm_fadein (recover_from_starvation ctx s) = pm_fadein s"
  "pm_cooldown (recover_from_starvation ctx s) = pm_cooldown s"
  "pf_missing_count (pm_flow (recover_from_starvation ctx s)) = pf_missing_count (pm_flow s)"
  "pf_starvation_count (pm_flow (recover_from_starvation ctx s)) = 0"
  by (auto simp: recover_from_starvation_def arm_recovery_window_def Let_def word_gt_0)

lemma recover_arms:
  "0 < pf_starvation_count (pm_flow s) \<Longrightarrow> \<not> fx_tcp_mode ctx \<Longrightarrow>
   pf_recovery_started_at (pm_flow (recover_from_starvation ctx s)) =
     (case pf_recovery_started_at (pm_flow s) of None \<Rightarrow> Some (fx_now ctx) | Some t \<Rightarrow> Some t)"
  by (auto simp: recover_from_starvation_def arm_recovery_window_def Let_def split: option.splits)

lemma adjust_same [simp]:
  "pf_missing_count (adjust_filtered_level d f) = pf_missing_count f"
  "pf_starvation_count (adjust_filtered_level d f) = pf_starvation_count f"
  "pf_recovery_started_at (adjust_filtered_level d f) = pf_recovery_started_at f"
  by (simp_all add: adjust_filtered_level_def)

lemma emit_same [simp]:
  "pm_buffer (emit e s) = pm_buffer s" "pm_flow (emit e s) = pm_flow s" "pm_link (emit e s) = pm_link s"
  "pm_resets (emit e s) = pm_resets s" "pm_out (emit e s) = pm_out s @ [e]"
  "pm_fadein (emit e s) = pm_fadein s" "pm_cooldown (emit e s) = pm_cooldown s"
  "pm_config (emit e s) = pm_config s" "pm_stats (emit e s) = pm_stats s"
  "pm_control (emit e s) = pm_control s"
  "pm_startup_flush (emit e s) = pm_startup_flush s" "pm_countdown (emit e s) = pm_countdown s"
  by (simp_all add: emit_def)

text \<open>What playing may change besides the buffer and the output.\<close>

definition plays :: "nat \<Rightarrow> player \<Rightarrow> player \<Rightarrow> bool" where
  "plays M s t \<longleftrightarrow> (buffer_below M (pm_buffer s) \<longrightarrow> buffer_below M (pm_buffer t)) \<and>
     pm_link t = pm_link s \<and> pm_resets t = pm_resets s \<and>
     pf_missing_count (pm_flow t) = pf_missing_count (pm_flow s)"

lemma plays_refl [simp]: "plays M s s"
  by (simp add: plays_def)

lemma plays_trans: "plays M s t \<Longrightarrow> plays M t u \<Longrightarrow> plays M s u"
  by (simp add: plays_def)

lemma shed_plays: "M + 514 < 2 ^ 64 \<Longrightarrow> plays M s (shed_packets n h s) \<and> pm_out (shed_packets n h s) = pm_out s"
proof (induction n arbitrary: s)
  case (Suc n)
  define s1 where "s1 = (if h < occupied s \<and> has_next (pm_buffer s)
    then s\<lparr>pm_buffer := fst (pop_next (pm_buffer s)),
           pm_flow := adjust_filtered_level (f32_neg (f32_of_nat 1)) (pm_flow s)\<rparr> else s)"
  have "plays M s s1" "pm_out s1 = pm_out s"
    using pop_below(1) [OF _ _ Suc.prems] by (auto simp: s1_def plays_def)
  with Suc.IH [OF Suc.prems, of s1] show ?case
    by (auto simp: s1_def [symmetric] intro: plays_trans)
qed simp

text \<open>Audio by its own right, not the splice of a flush; and a frame not handed over verbatim.\<close>

definition audible :: "emission \<Rightarrow> bool" where
  "audible e \<longleftrightarrow> (case e of EmFlush ps \<Rightarrow> False | _ \<Rightarrow> True)"

lemma audible_simps [simp]: "audible (EmFrame p fade)" "audible (EmShed p)" "audible (EmStaged ps b)"
  "audible (EmGrown p)" "audible (EmExpanded p)" "audible (EmConcealed n)" "audible EmSilence"
  "\<not> audible (EmFlush ps)"
  by (simp_all add: audible_def)

definition not_verbatim :: "emission \<Rightarrow> bool" where
  "not_verbatim e \<longleftrightarrow> audible e \<and> (case e of EmFrame p fade \<Rightarrow> False | _ \<Rightarrow> True)"

lemma not_verbatim_simps [simp]: "\<not> not_verbatim (EmFrame p fade)" "not_verbatim (EmShed p)"
  "not_verbatim (EmStaged ps b)" "not_verbatim (EmGrown p)" "not_verbatim (EmExpanded p)"
  by (simp_all add: not_verbatim_def)

lemma run_timescale_plays:
  assumes lim: "M + 514 < 2 ^ 64" and run: "run_timescale inp ctx p s = (t, emitted)"
  shows "plays M s t"
    and "if emitted then \<exists>e. pm_out t = pm_out s @ [e] \<and> not_verbatim e else t = s"
    and "\<not> stretch_allowed (fx_now ctx) (pm_flow s) \<Longrightarrow> emitted \<Longrightarrow> pm_out t = pm_out s @ [EmGrown p]"
proof -
  have shed: "plays M s (shed_packets n h (emit e s))" "pm_out (shed_packets n h (emit e s)) = pm_out s @ [e]"
    for n h e using shed_plays [OF lim, of "emit e s" n h] by (simp_all add: plays_def)
  have pop: "buffer_below M (pm_buffer s) \<Longrightarrow> has_next (pm_buffer s) \<Longrightarrow> pop_next (pm_buffer s) = (b, q) \<Longrightarrow>
      buffer_below M b" for b q
    using pop_below(1) [OF _ _ lim, of "pm_buffer s"] by simp
  show "plays M s t"
    using run shed pop
    by (auto simp: run_timescale_def Let_def plays_def split: if_splits option.splits prod.splits)
  show "if emitted then \<exists>e. pm_out t = pm_out s @ [e] \<and> not_verbatim e else t = s"
    using run shed(2)
    by (auto simp: run_timescale_def Let_def split: if_splits option.splits prod.splits)
  show "pm_out t = pm_out s @ [EmGrown p]" if "\<not> stretch_allowed (fx_now ctx) (pm_flow s)" "emitted"
    using run that by (auto simp: run_timescale_def Let_def split: if_splits)
qed

section \<open>One callback\<close>

text \<open>A guard window that is open is younger than half a second: older ones were just closed.\<close>

definition guard_young :: "nat \<Rightarrow> player \<Rightarrow> bool" where
  "guard_young now s \<longleftrightarrow> (case pf_recovery_started_at (pm_flow s) of
     None \<Rightarrow> True | Some t \<Rightarrow> since now t < RECOVERY_GUARD_WINDOW)"

lemma begin_frame_young: "guard_young (fi_now inp) (begin_frame inp s)"
  by (auto simp: guard_young_def begin_frame_def tick_recovery_def Let_def split: option.splits)

lemma begin_frame_same [simp]:
  "pm_buffer (begin_frame inp s) = pm_buffer s" "pm_out (begin_frame inp s) = pm_out s"
  "pm_link (begin_frame inp s) = pm_link s" "pm_resets (begin_frame inp s) = pm_resets s"
  "pm_fadein (begin_frame inp s) = pm_fadein s"
  "pf_missing_count (pm_flow (begin_frame inp s)) = pf_missing_count (pm_flow s)"
  "pf_starvation_count (pm_flow (begin_frame inp s)) = pf_starvation_count (pm_flow s)"
  by (auto simp: begin_frame_def tick_recovery_def filter_buffer_level_def Let_def split: option.splits)

lemma guard_young_cong:
  "pf_recovery_started_at (pm_flow t) = pf_recovery_started_at (pm_flow s) \<Longrightarrow>
   guard_young now t \<longleftrightarrow> guard_young now s"
  by (simp add: guard_young_def)

lemma play_total:
  assumes below: "buffer_below M (pm_buffer s)" and nxt: "has_next (pm_buffer s)" and lim: "M + 514 < 2 ^ 64"
  shows "\<exists>t e p. play_next_frame inp ctx s = Some t \<and> buffer_below M (pm_buffer t) \<and>
    pm_link t = pm_link s \<and> pm_resets t = pm_resets s \<and> pf_missing_count (pm_flow t) = 0 \<and>
    pm_out t = pm_out s @ [e] \<and> audible e \<and>
    (0 < pf_starvation_count (pm_flow s) \<and> \<not> fx_tcp_mode ctx \<and> guard_young (fx_now ctx) s \<longrightarrow>
       e = EmGrown p \<or> e = EmFrame p (pm_fadein s))"
proof -
  define s1 where "s1 = manager_observe False (fx_now ctx) (s\<lparr>pm_flow := (pm_flow s)
    \<lparr>pf_gap_hold_count := 0, pf_missing_count := 0, pf_conceal_run := 0\<rparr>\<rparr>)"
  define s2 where "s2 = recover_from_starvation ctx s1"
  obtain p b where pop: "pop_next (pm_buffer s2) = (b, Some p)"
    using pop_below(2) [OF below nxt lim] by (cases "pop_next (pm_buffer s2)") (auto simp: s1_def s2_def)
  define s3 where "s3 = s2\<lparr>pm_buffer := b, pm_fadein := False\<rparr>"
  have b: "buffer_below M b"
    using pop_below(1) [OF below nxt lim] pop by (simp add: s1_def s2_def)
  obtain t0 played where ts: "run_timescale inp ctx p s3 = (t0, played)"
    by (cases "run_timescale inp ctx p s3")
  note R = run_timescale_plays [OF lim ts]
  define t where "t = (if played then t0 else emit (EmFrame p (pm_fadein s)) t0)"
  have fade: "(0 < pf_starvation_count (pm_flow s2) \<or> pm_fadein s2) = pm_fadein s"
    by (simp add: s2_def s1_def)
  have play: "play_next_frame inp ctx s = Some t"
    unfolding play_next_frame_def Let_def s1_def [symmetric] s2_def [symmetric] pop prod.case
      option.case s3_def [symmetric] ts fade t_def by simp
  have "buffer_below M (pm_buffer t)" "pm_link t = pm_link s" "pm_resets t = pm_resets s"
    "pf_missing_count (pm_flow t) = 0"
    using R(1) b by (simp_all add: t_def plays_def s3_def s2_def s1_def)
  moreover have "\<exists>e. pm_out t = pm_out s @ [e] \<and> audible e"
    using R(2) by (auto simp: t_def s3_def s2_def s1_def not_verbatim_def split: if_splits)
  moreover have "pm_out t = pm_out s @ [EmGrown p] \<or> pm_out t = pm_out s @ [EmFrame p (pm_fadein s)]"
    if "0 < pf_starvation_count (pm_flow s)" "\<not> fx_tcp_mode ctx" "guard_young (fx_now ctx) s"
  proof -
    have "pf_recovery_started_at (pm_flow s3) =
        (case pf_recovery_started_at (pm_flow s) of None \<Rightarrow> Some (fx_now ctx) | Some t \<Rightarrow> Some t)"
      using recover_arms [of s1 ctx] that(1, 2) by (simp add: s3_def s2_def s1_def)
    then have "\<not> stretch_allowed (fx_now ctx) (pm_flow s3)"
      using that(3) by (auto simp: stretch_allowed_def guard_young_def since_def RECOVERY_GUARD_WINDOW_def
          millis_def split: option.splits)
    from R(3) [OF this] R(2) show ?thesis
      by (cases played) (simp_all add: t_def s3_def s2_def s1_def)
  qed
  ultimately show ?thesis
    using play by (metis append1_eq_conv)
qed

text \<open>A callback that found nothing to play: a reset after too long an outage, or concealment.\<close>

definition concealed_or_reset :: "u32 \<Rightarrow> player \<Rightarrow> player \<Rightarrow> bool" where
  "concealed_or_reset m s t \<longleftrightarrow>
     (if max_missing_for (pm_link s) < m
      then pm_resets t = pm_resets s + 1 \<and> pf_missing_count (pm_flow t) = 0 \<and> pm_out t = [EmSilence] \<and>
        pm_buffer t = jb_reset (pm_buffer s)
      else pm_resets t = pm_resets s \<and> pf_missing_count (pm_flow t) = m \<and>
        pm_buffer t = pm_buffer s \<and> (\<exists>n. pm_out t = pm_out s @ [EmConcealed n])) \<and>
     pm_link t = pm_link s"

lemma generate_plc_same [simp]:
  "pm_buffer (generate_plc s) = pm_buffer s" "pm_link (generate_plc s) = pm_link s"
  "pm_resets (generate_plc s) = pm_resets s" "pm_config (generate_plc s) = pm_config s"
  "pm_stats (generate_plc s) = pm_stats s"
  "pm_control (generate_plc s) = pm_control s"
  "pf_missing_count (pm_flow (generate_plc s)) = pf_missing_count (pm_flow s)"
  "pf_is_prebuffering (pm_flow (generate_plc s)) = pf_is_prebuffering (pm_flow s)"
  by (simp_all add: generate_plc_def Let_def)

lemma trigger_reset_same [simp]:
  "pm_link (trigger_reset inp s) = pm_link s" "pm_resets (trigger_reset inp s) = pm_resets s + 1"
  "pm_buffer (trigger_reset inp s) = jb_reset (pm_buffer s)" "pm_out (trigger_reset inp s) = []"
  "pf_missing_count (pm_flow (trigger_reset inp s)) = 0"
  by (simp_all add: trigger_reset_def reset_on_stream_restart_def discard_conceal_window_def)

lemma check_reset_cases:
  assumes "pm_link s = pm_link r" "pm_resets s = pm_resets r" "pm_buffer s = pm_buffer r"
    "pm_out s = pm_out r"
  shows "concealed_or_reset (pf_missing_count (pm_flow s)) r (case check_reset_on_missing inp s of
      (t, True) \<Rightarrow> t | (t, False) \<Rightarrow> generate_plc t)"
  using assms by (auto simp: check_reset_on_missing_def concealed_or_reset_def generate_plc_def Let_def)

lemma handle_missing_result:
  "concealed_or_reset (pf_missing_count (pm_flow s) + 1) s (handle_missing_frame inp ctx s)"
proof -
  define s1 where "s1 = manager_observe True (fx_now ctx)
    (s\<lparr>pm_flow := (pm_flow s)\<lparr>pf_missing_count := pf_missing_count (pm_flow s) + 1\<rparr>\<rparr>)"
  have same: "pm_link s1 = pm_link s" "pm_resets s1 = pm_resets s" "pm_buffer s1 = pm_buffer s"
    "pm_out s1 = pm_out s" "pf_missing_count (pm_flow s1) = pf_missing_count (pm_flow s) + 1"
    by (simp_all add: s1_def)
  have "\<exists>s2. pm_link s2 = pm_link s1 \<and> pm_resets s2 = pm_resets s1 \<and> pm_buffer s2 = pm_buffer s1 \<and>
      pm_out s2 = pm_out s1 \<and> pf_missing_count (pm_flow s2) = pf_missing_count (pm_flow s1) \<and>
      handle_missing_frame inp ctx s =
        (case check_reset_on_missing inp s2 of (t, True) \<Rightarrow> t | (t, False) \<Rightarrow> generate_plc t)"
    unfolding handle_missing_frame_def s1_def [symmetric] Let_def
    by (intro exI conjI, rule_tac [6] refl) (auto simp: note_starvation_onset_def Let_def)
  then obtain s2 where same2: "pm_link s2 = pm_link s1" "pm_resets s2 = pm_resets s1"
      "pm_buffer s2 = pm_buffer s1" "pm_out s2 = pm_out s1"
      "pf_missing_count (pm_flow s2) = pf_missing_count (pm_flow s1)"
    and handle: "handle_missing_frame inp ctx s = (case check_reset_on_missing inp s2 of
      (t, True) \<Rightarrow> t | (t, False) \<Rightarrow> generate_plc t)"
    by blast
  show ?thesis
    using check_reset_cases [of s2 s inp] same same2 by (simp add: handle)
qed

lemma hold_result:
  "if occupied s = 0 then concealed_or_reset (pf_missing_count (pm_flow s) + 1) s (hold_playhead inp s)
   else pm_buffer (hold_playhead inp s) = pm_buffer s \<and> pm_link (hold_playhead inp s) = pm_link s \<and>
     pm_resets (hold_playhead inp s) = pm_resets s \<and>
     pf_missing_count (pm_flow (hold_playhead inp s)) = pf_missing_count (pm_flow s) \<and>
     (\<exists>n. pm_out (hold_playhead inp s) = pm_out s @ [EmConcealed n])"
  by (auto simp: hold_playhead_def check_reset_on_missing_def concealed_or_reset_def
      discard_conceal_window_def generate_plc_def Let_def)

lemma reset_below: "buffer_below M b \<Longrightarrow> buffer_below M (jb_reset b)"
  using jb_inv_reset [of b] by (simp add: buffer_below_def) (simp add: jb_head_def jb_reset_def)

lemma reset_occupied [simp]: "occupied_count (jb_reset b) = 0"
  by (simp add: occupied_count_def jb_reset_def)

lemma max_missing_bounds: "max_missing_for link \<le> 300"
  by (cases link) (simp_all add: max_missing_for_def manager_consts MILLIS_PER_FRAME_def)

lemma missing_step:
  "m \<le> max_missing_for link \<Longrightarrow> m + 1 \<le> max_missing_for link \<or> max_missing_for link < m + 1"
  by auto

text \<open>What one callback does; \<open>concealed_or_reset\<close> says what it does on an empty buffer.\<close>

definition callback_post :: "nat \<Rightarrow> player \<Rightarrow> player \<Rightarrow> bool" where
  "callback_post M s t \<longleftrightarrow> buffer_below M (pm_buffer t) \<and> pm_link t = pm_link s \<and>
     (\<exists>e \<in> set (pm_out t). audible e) \<and>
     (pf_missing_count (pm_flow s) \<le> max_missing_for (pm_link s) \<longrightarrow>
        pf_missing_count (pm_flow t) \<le> max_missing_for (pm_link s)) \<and>
     (occupied s = 0 \<longrightarrow> occupied t = 0 \<and>
        (if max_missing_for (pm_link s) < pf_missing_count (pm_flow s) + 1
         then pm_resets t = pm_resets s + 1 \<and> pf_missing_count (pm_flow t) = 0
         else pm_resets t = pm_resets s \<and>
           pf_missing_count (pm_flow t) = pf_missing_count (pm_flow s) + 1))"

lemma missing_post:
  assumes r: "concealed_or_reset (pf_missing_count (pm_flow r) + 1) r t"
    and "buffer_below M (pm_buffer r)" "pm_link r = pm_link s" "pm_resets r = pm_resets s"
    and "pf_missing_count (pm_flow r) = pf_missing_count (pm_flow s)"
    and "occupied s = 0 \<longrightarrow> occupied r = 0"
  shows "callback_post M s t"
proof (cases "max_missing_for (pm_link s) < pf_missing_count (pm_flow s) + 1")
  case True
  then show ?thesis
    using assms reset_below [of M "pm_buffer r"] by (auto simp: callback_post_def concealed_or_reset_def)
next
  case False
  then show ?thesis
    using assms by (auto simp: callback_post_def concealed_or_reset_def)
qed

lemma serve_frame_post:
  assumes w: "buffer_below M (pm_buffer s)" and lim: "M + 514 < 2 ^ 64"
  shows "\<exists>t. serve_frame inp ctx s = Some t \<and> callback_post M s t"
proof -
  obtain s1 where s1: "apply_startup_flush ctx s = Some s1" "carried M s s1"
    using apply_flushes_total(2) [OF w lim] by blast
  have w1: "buffer_below M (pm_buffer s1)" using w s1(2) by (simp add: carried_def)
  obtain s2 where s2: "apply_static_target_flush ctx s1 = Some s2" "carried M s1 s2"
    using apply_flushes_total(3) [OF w1 lim] by blast
  have w2: "buffer_below M (pm_buffer s2)" and c: "carried M s s2"
    using w1 s2(2) carried_trans [OF s1(2) s2(2)] by (simp_all add: carried_def)
  define s3 where "s3 = try_fast_forward_over_gap ctx s2"
  have h: "hop M s2 s3"
    unfolding s3_def by (rule fast_forward_hop [OF w2 lim])
  have serve: "serve_frame inp ctx s = (if has_next (pm_buffer s3) then play_next_frame inp ctx s3
      else Some (handle_missing_frame inp ctx s3))"
    by (simp add: serve_frame_def s1(1) s2(1) s3_def Let_def)
  have empty: "occupied s = 0 \<longrightarrow> occupied s3 = 0"
    using c h by (auto simp: carried_def hop_def)
  have same: "buffer_below M (pm_buffer s3)" "pm_link s3 = pm_link s" "pm_resets s3 = pm_resets s"
    "pf_missing_count (pm_flow s3) = pf_missing_count (pm_flow s)"
    using c h by (simp_all add: carried_def hop_def)
  show ?thesis
  proof (cases "has_next (pm_buffer s3)")
    case True
    from has_next_head [OF same(1) True] have "occupied s3 \<noteq> 0"
      using stored_occupied [OF buffer_belowD(1) [OF same(1)]] by auto
    moreover from play_total [OF same(1) True lim] obtain t where
      "play_next_frame inp ctx s3 = Some t" "buffer_below M (pm_buffer t)" "pm_link t = pm_link s3"
      "pf_missing_count (pm_flow t) = 0" "\<exists>e \<in> set (pm_out t). audible e"
      by (metis in_set_conv_decomp)
    ultimately show ?thesis
      using True serve same empty by (simp add: callback_post_def)
  next
    case False
    then show ?thesis
      using serve missing_post [OF handle_missing_result same(1-4) empty] by simp
  qed
qed

lemma callback_total:
  assumes w: "buffer_below M (pm_buffer s)" and lim: "M + 514 < 2 ^ 64"
  shows "\<exists>t. process_next_frame inp s = Some t \<and> callback_post M s t"
proof -
  from prepare_total [OF w lim] obtain r ctx where r: "carried M (begin_frame inp s) r"
    and step: "process_next_frame inp s = (case serve_prebuffering inp ctx r of None \<Rightarrow> None
      | Some (u, True) \<Rightarrow> Some u | Some (u, False) \<Rightarrow> serve_frame inp ctx u)" by blast
  have wr: "buffer_below M (pm_buffer r)" using r w by (simp add: carried_def)
  have same: "pm_link r = pm_link s" "pm_resets r = pm_resets s"
    "pf_missing_count (pm_flow r) = pf_missing_count (pm_flow s)" "occupied s = 0 \<longrightarrow> occupied r = 0"
    using r by (auto simp: carried_def)
  have lift: "callback_post M s t" if "callback_post M r t" for t
    using that same by (simp add: callback_post_def)
  show ?thesis
  proof (cases rule: serve_prebuffering_cases [OF wr lim, where ctx = ctx and inp = inp,
      case_names held released])
    case held
    have "callback_post M r (hold_playhead inp r)"
    proof (cases "occupied r = 0")
      case True
      then show ?thesis
        using hold_result [of r inp] by (intro missing_post [OF _ wr]) simp_all
    next
      case False
      then show ?thesis
        using hold_result [of r inp] wr by (auto simp: callback_post_def)
    qed
    then show ?thesis using step held lift by simp
  next
    case (released u)
    have "buffer_below M (pm_buffer u)" using released(2) wr by (simp add: carried_def)
    from serve_frame_post [OF this lim] obtain t where
      "serve_frame inp ctx u = Some t" "callback_post M u t" by blast
    moreover have "callback_post M r t"
      using \<open>callback_post M u t\<close> released(2) by (auto simp: callback_post_def carried_def)
    ultimately show ?thesis using step released(1) lift by auto
  qed
qed

end
