(* ===== verification/Playback_Properties.thy ===== *)
theory Playback_Properties
  imports Playback_Safety
begin

text \<open>
  Runs of the player, arrivals and audio callbacks in any order, and its properties: it never
  stops playing, an outage resets it after a fixed number of callbacks, a buffer left below the
  resume threshold holds it for ever, and what a starvation does to the frame played after it.
\<close>

section \<open>Runs\<close>

datatype player_event = Arrives raw_packet | Callback frame_inputs

text \<open>
  A callback is made when the playback buffer has run empty (\<open>fill_output\<close>), so its output starts
  empty; the run collects what every callback handed over.
\<close>

fun player_run :: "player \<Rightarrow> player_event list \<Rightarrow> (player \<times> emission list list) option" where
  "player_run s [] = Some (s, [])"
| "player_run s (Arrives p # es) = player_run (ingest_packet p s) es"
| "player_run s (Callback inp # es) =
     (case process_next_frame inp (s\<lparr>pm_out := []\<rparr>) of None \<Rightarrow> None
      | Some t \<Rightarrow> map_option (\<lambda>(u, outs). (u, pm_out t # outs)) (player_run t es))"

definition callbacks :: "player_event list \<Rightarrow> nat" where
  "callbacks es = length (filter (\<lambda>e. case e of Callback _ \<Rightarrow> True | _ \<Rightarrow> False) es)"

lemma callbacks_simps [simp]: "callbacks [] = 0" "callbacks (Arrives p # es) = callbacks es"
  "callbacks (Callback inp # es) = Suc (callbacks es)" "callbacks (map Callback inps) = length inps"
  by (simp_all add: callbacks_def comp_def)

definition player_ok :: "player \<Rightarrow> bool" where
  "player_ok s \<longleftrightarrow> buffer_below SEQ_LIMIT (pm_buffer s) \<and>
     pf_missing_count (pm_flow s) \<le> max_missing_for (pm_link s)"

lemma seq_limit_room: "SEQ_LIMIT + 514 < 2 ^ 64"
  by (simp add: SEQ_LIMIT_def)

lemma new_player_ok: "player_ok (new_player config link now0)"
  using jb_inv_new by (simp add: player_ok_def new_player_def new_flow_def buffer_below_def jb_lookup_def)
    (simp add: jb_head_def jb_new_def BUFFER_CAPACITY_def)

lemma insert_below:
  assumes w: "buffer_below M b" and p: "unat (seq_num p) < M" and lim: "M + 514 < 2 ^ 64"
  shows "buffer_below M (fst (jb_insert b p))"
proof -
  have inv: "jb_inv b" and h: "jb_head b + 512 < 2 ^ 64" "unat (seq_num p) + 512 < 2 ^ 64"
    using w p lim by (auto simp: buffer_below_def)
  note I = jb_insert_spec [OF inv h]
  show ?thesis
  proof (cases "jb_initialized b \<and> unat (seq_num p) < jb_head b \<and> jb_head b - unat (seq_num p) \<le> 512")
    case True
    then show ?thesis using I(1) w by simp
  next
    case False
    then have "\<not> jb_initialized b \<or> jb_head b \<le> unat (seq_num p) \<or> 512 < jb_head b - unat (seq_num p)"
      by auto
    from I(2) [OF this] show ?thesis
      using w p by (auto simp: buffer_below_def insert_head_def split: if_splits)
  qed
qed

lemma ingest_same [simp]:
  "pm_flow (ingest_packet p s) = pm_flow s" "pm_config (ingest_packet p s) = pm_config s"
  "pm_link (ingest_packet p s) = pm_link s" "pm_resets (ingest_packet p s) = pm_resets s"
  "pm_out (ingest_packet p s) = pm_out s" "pm_fadein (ingest_packet p s) = pm_fadein s"
  "snd (observe (seq_num p) (arrival_time p) (pm_stats s)) \<Longrightarrow>
     pm_buffer (ingest_packet p s) = fst (jb_insert (pm_buffer s) p)"
  by (cases "observe (seq_num p) (arrival_time p) (pm_stats s)"; case_tac b; simp add: ingest_packet_def)+

lemma ingest_ok: "player_ok s \<Longrightarrow> unat (seq_num p) < SEQ_LIMIT \<Longrightarrow> player_ok (ingest_packet p s)"
  using insert_below [OF _ _ seq_limit_room, of "pm_buffer s" p]
  by (simp add: player_ok_def ingest_packet_def split: prod.split bool.split)

lemma callback_ok:
  assumes "player_ok s"
  shows "\<exists>t. process_next_frame inp (s\<lparr>pm_out := []\<rparr>) = Some t \<and> player_ok t \<and>
    callback_post SEQ_LIMIT s t"
proof -
  have "buffer_below SEQ_LIMIT (pm_buffer (s\<lparr>pm_out := []\<rparr>))"
    using assms by (simp add: player_ok_def)
  from callback_total [OF this seq_limit_room, of inp] show ?thesis
    using assms by (auto simp: callback_post_def player_ok_def)
qed

lemma player_run_plays:
  assumes "player_ok s" and "\<forall>p. Arrives p \<in> set es \<longrightarrow> unat (seq_num p) < SEQ_LIMIT"
  shows "\<exists>t outs. player_run s es = Some (t, outs) \<and> length outs = callbacks es \<and> (\<forall>out \<in> set outs. \<exists>e \<in> set out. audible e) \<and>
    player_ok t \<and> pm_link t = pm_link s"
  using assms
proof (induction es arbitrary: s)
  case (Cons e es)
  have rest: "\<forall>p. Arrives p \<in> set es \<longrightarrow> unat (seq_num p) < SEQ_LIMIT"
    using Cons.prems(2) by simp
  show ?case
  proof (cases e)
    case (Arrives p)
    then have "player_ok (ingest_packet p s)"
      using Cons.prems by (intro ingest_ok) auto
    from Cons.IH [OF this rest] Arrives show ?thesis
      by (auto simp: ingest_packet_def split: prod.splits bool.splits)
  next
    case (Callback inp)
    from callback_ok [OF Cons.prems(1)] obtain t where
      t: "process_next_frame inp (s\<lparr>pm_out := []\<rparr>) = Some t" "player_ok t" "callback_post SEQ_LIMIT s t"
      by blast
    from Cons.IH [OF t(2) rest] t Callback show ?thesis
      by (fastforce simp: callback_post_def)
  qed
qed simp

lemma outage_run:
  assumes "player_ok s" "occupied s = 0"
  shows "\<exists>t outs. player_run s (map Callback inps) = Some (t, outs) \<and> occupied t = 0 \<and>
    pm_resets t = pm_resets s +
      (unat (pf_missing_count (pm_flow s)) + length inps) div Suc (unat (max_missing_for (pm_link s)))"
  using assms
proof (induction inps arbitrary: s)
  case Nil
  then show ?case by (simp add: player_ok_def word_le_nat_alt)
next
  case (Cons inp inps)
  define m where "m = unat (pf_missing_count (pm_flow s))"
  define k where "k = unat (max_missing_for (pm_link s))"
  have mk: "m \<le> k" "k \<le> 300"
    using Cons.prems(1) max_missing_bounds [of "pm_link s"]
    by (simp_all add: player_ok_def m_def k_def word_le_nat_alt)
  have m1: "unat (pf_missing_count (pm_flow s) + 1) = Suc m"
    using mk by (simp add: m_def unat_word_ariths)
  then have over: "max_missing_for (pm_link s) < pf_missing_count (pm_flow s) + 1 \<longleftrightarrow> m = k"
    using mk by (auto simp: word_less_nat_alt k_def)
  from callback_ok [OF Cons.prems(1)] obtain t where
    t: "process_next_frame inp (s\<lparr>pm_out := []\<rparr>) = Some t" "player_ok t" "callback_post SEQ_LIMIT s t"
    by blast
  have link: "pm_link t = pm_link s" and occ: "occupied t = 0"
    and new: "if m = k then pm_resets t = pm_resets s + 1 \<and> unat (pf_missing_count (pm_flow t)) = 0
      else pm_resets t = pm_resets s \<and> unat (pf_missing_count (pm_flow t)) = Suc m"
    using t(3) Cons.prems(2) over m1 by (auto simp: callback_post_def)
  from Cons.IH [OF t(2) occ] obtain u outs where
    u: "player_run t (map Callback inps) = Some (u, outs)" "occupied u = 0"
      "pm_resets u = pm_resets t + (unat (pf_missing_count (pm_flow t)) + length inps) div Suc k"
    using link by (auto simp: k_def)
  have "pm_resets u = pm_resets s + (m + length (inp # inps)) div Suc k"
  proof (cases "m = k")
    case True
    then have "m + length (inp # inps) = Suc k + length inps" by simp
    then show ?thesis using u(3) new True by (simp only: div_add_self1) simp
  qed (use u(3) new in simp)
  then show ?case
    using u t(1) by (simp add: m_def k_def)
qed

text \<open>A callback that finds fewer packets than the minimum depth, under an unchanged configuration.\<close>

definition still_held :: "player \<Rightarrow> frame_inputs \<Rightarrow> bool" where
  "still_held s inp \<longleftrightarrow> fi_config inp \<in> {None, Some (pm_config s)} \<and> occupied s < min_depth_frames s"

lemma still_held_cong:
  "pm_config t = pm_config s \<Longrightarrow> pm_buffer t = pm_buffer s \<Longrightarrow> still_held t inp = still_held s inp"
  by (simp add: still_held_def min_depth_frames_def)

lemma held_step:
  assumes "pf_is_prebuffering (pm_flow s)" "0 < occupied s" "static_target_ms (pm_config s) \<noteq> Some 0"
    and "still_held s inp"
  shows "\<exists>t n. process_next_frame inp (s\<lparr>pm_out := []\<rparr>) = Some t \<and> pf_is_prebuffering (pm_flow t) \<and>
    pm_buffer t = pm_buffer s \<and> pm_config t = pm_config s \<and> pm_resets t = pm_resets s \<and>
    pm_out t = [EmConcealed n]"
proof -
  define r where "r = begin_frame inp (s\<lparr>pm_out := []\<rparr>)"
  have r: "pf_is_prebuffering (pm_flow r)" "pm_buffer r = pm_buffer s" "pm_config r = pm_config s"
    "pm_resets r = pm_resets s" "pm_out r = []"
    using assms(1) by (auto simp: r_def begin_frame_def tick_recovery_def filter_buffer_level_def Let_def
        split: option.splits)
  define r1 where "r1 = r\<lparr>pm_countdown := (if 100 \<le> pm_countdown r + 1 then 0 else pm_countdown r + 1)\<rparr>"
  have r1: "pm_flow r1 = pm_flow r" "pm_buffer r1 = pm_buffer s" "pm_config r1 = pm_config s"
    "pm_resets r1 = pm_resets s" "pm_out r1 = []"
    using r by (simp_all add: r1_def)
  have "fi_config inp = None \<or> fi_config inp = Some (pm_config r1)"
    using assms(4) r1(3) by (auto simp: still_held_def)
  then have reload: "reload_config_if_changed inp r = Some r1"
    unfolding reload_config_if_changed_def Let_def r1_def [symmetric] by (elim disjE) simp_all
  obtain r2 ctx where resolve: "resolve_target inp r1 = Some (r2, ctx)"
    using raw_target_total [of inp r1] by (auto simp: resolve_target_def Let_def)
  have r2: "pm_flow r2 = pm_flow r" "pm_buffer r2 = pm_buffer s" "pm_config r2 = pm_config s"
      "pm_resets r2 = pm_resets s" "pm_out r2 = []"
    and ctx: "fx_min_depth ctx = min_depth_frames s" "\<not> fx_is_no_buffer ctx"
    using resolve r1 assms(3)
    by (auto simp: resolve_target_def min_depth_frames_def Let_def split: option.splits)
  have "\<not> unpause_threshold ctx r2 \<le> occupied r2"
    using assms(4) r2 ctx by (simp add: still_held_def unpause_threshold_def not_le less_max_iff_disj)
  then have "process_next_frame inp (s\<lparr>pm_out := []\<rparr>) = Some (hold_playhead inp r2)"
    using r r2 ctx by (simp add: process_next_frame_def r_def [symmetric] reload resolve
        apply_no_buffer_flush_def serve_prebuffering_def)
  moreover have "pf_is_prebuffering (pm_flow (hold_playhead inp r2))"
    "pm_buffer (hold_playhead inp r2) = pm_buffer s" "pm_config (hold_playhead inp r2) = pm_config s"
    "pm_resets (hold_playhead inp r2) = pm_resets s" "\<exists>n. pm_out (hold_playhead inp r2) = [EmConcealed n]"
    using r r2 assms(2) by (auto simp: hold_playhead_def generate_plc_def discard_conceal_window_def Let_def)
  ultimately show ?thesis by blast
qed

lemma held_run:
  assumes "pf_is_prebuffering (pm_flow s)" "0 < occupied s" "static_target_ms (pm_config s) \<noteq> Some 0"
    and "\<forall>inp \<in> set inps. still_held s inp"
  shows "\<exists>t outs. player_run s (map Callback inps) = Some (t, outs) \<and> pm_resets t = pm_resets s \<and>
    pm_buffer t = pm_buffer s \<and> pf_is_prebuffering (pm_flow t) \<and>
    (\<forall>out \<in> set outs. \<exists>n. out = [EmConcealed n])"
  using assms
proof (induction inps arbitrary: s)
  case (Cons inp inps)
  from held_step [OF Cons.prems(1-3), of inp] Cons.prems(4) obtain t n where
    t: "process_next_frame inp (s\<lparr>pm_out := []\<rparr>) = Some t" "pf_is_prebuffering (pm_flow t)"
      "pm_buffer t = pm_buffer s" "pm_config t = pm_config s" "pm_resets t = pm_resets s"
      "pm_out t = [EmConcealed n]" by auto
  have "\<forall>inp \<in> set inps. still_held t inp"
    using Cons.prems(4) still_held_cong [OF t(4, 3)] by simp
  from Cons.IH [OF t(2) _ _ this] t Cons.prems(2, 3) obtain u outs where
    "player_run t (map Callback inps) = Some (u, outs)" "pm_resets u = pm_resets s"
    "pm_buffer u = pm_buffer s" "pf_is_prebuffering (pm_flow u)" "\<forall>out \<in> set outs. \<exists>n. out = [EmConcealed n]"
    by auto
  then show ?case using t by auto
qed simp

text \<open>The callback after a starvation.\<close>

definition plain_output :: "emission list \<Rightarrow> bool" where
  "plain_output es \<longleftrightarrow> (\<forall>e \<in> set es. case e of
     EmShed p \<Rightarrow> False | EmStaged ps b \<Rightarrow> False | EmExpanded p \<Rightarrow> False | _ \<Rightarrow> True)"

lemma plain_output_simps [simp]:
  "plain_output []" "plain_output (es @ fs) \<longleftrightarrow> plain_output es \<and> plain_output fs"
  "plain_output (map EmFlush qs)" "plain_output [EmConcealed n]" "plain_output [EmSilence]"
  "plain_output [EmGrown p]" "plain_output [EmFrame p fade]"
  by (auto simp: plain_output_def)

lemma concealed_plain: "concealed_or_reset m s t \<Longrightarrow> plain_output (pm_out s) \<Longrightarrow> plain_output (pm_out t)"
  by (auto simp: concealed_or_reset_def split: if_splits)

lemma starved_serve:
  assumes w: "buffer_below M (pm_buffer s)" and lim: "M + 514 < 2 ^ 64"
    and starved: "0 < pf_starvation_count (pm_flow s)" "\<not> fx_tcp_mode ctx" "guard_young (fx_now ctx) s"
    and "plain_output (pm_out s)" and serve: "serve_frame inp ctx s = Some t"
  shows "plain_output (pm_out t)"
proof -
  obtain s1 where s1: "apply_startup_flush ctx s = Some s1" "carried M s s1"
    using apply_flushes_total(2) [OF w lim] by blast
  have w1: "buffer_below M (pm_buffer s1)" using w s1(2) by (simp add: carried_def)
  obtain s2 where s2: "apply_static_target_flush ctx s1 = Some s2" "carried M s1 s2"
    using apply_flushes_total(3) [OF w1 lim] by blast
  have w2: "buffer_below M (pm_buffer s2)" and c: "carried M s s2"
    using w1 s2(2) carried_trans [OF s1(2) s2(2)] by (simp_all add: carried_def)
  define s3 where "s3 = try_fast_forward_over_gap ctx s2"
  have h: "hop M s2 s3"
    unfolding s3_def by (rule fast_forward_hop [OF w2 lim])
  have "0 < pf_starvation_count (pm_flow s3)" "guard_young (fx_now ctx) s3" "plain_output (pm_out s3)"
    and w3: "buffer_below M (pm_buffer s3)"
    using c h starved assms(6) by (auto simp: carried_def hop_def guard_young_def)
  note s3_starved = this
  have serve: "(if has_next (pm_buffer s3) then play_next_frame inp ctx s3
      else Some (handle_missing_frame inp ctx s3)) = Some t"
    using serve by (simp add: serve_frame_def s1(1) s2(1) s3_def [symmetric] Let_def split del: if_split)
  show ?thesis
  proof (cases "has_next (pm_buffer s3)")
    case True
    from play_total [OF w3 True lim, of inp ctx] s3_starved starved(2) obtain t' e p where
      "play_next_frame inp ctx s3 = Some t'" "pm_out t' = pm_out s3 @ [e]"
      "e = EmGrown p \<or> e = EmFrame p (pm_fadein s3)" by auto
    then show ?thesis using serve True s3_starved(3) by auto
  next
    case False
    then show ?thesis
      using serve concealed_plain [OF handle_missing_result s3_starved(3), of inp ctx] by simp
  qed
qed

lemma starved_callback:
  assumes w: "buffer_below M (pm_buffer s)" and lim: "M + 514 < 2 ^ 64"
    and starved: "0 < pf_starvation_count (pm_flow s)" "\<not> fi_tcp_mode inp"
    and out: "pm_out s = []" and step: "process_next_frame inp s = Some t"
  shows "plain_output (pm_out t)"
proof -
  from prepare_total [OF w lim] obtain r ctx where r: "carried M (begin_frame inp s) r"
    and ctx: "fx_now ctx = fi_now inp" "fx_tcp_mode ctx = fi_tcp_mode inp"
    and next_step: "process_next_frame inp s = (case serve_prebuffering inp ctx r of None \<Rightarrow> None
      | Some (u, True) \<Rightarrow> Some u | Some (u, False) \<Rightarrow> serve_frame inp ctx u)" by blast
  have wr: "buffer_below M (pm_buffer r)" using r w by (simp add: carried_def)
  have starved_r: "0 < pf_starvation_count (pm_flow r)" "guard_young (fi_now inp) r" "plain_output (pm_out r)"
    using r starved begin_frame_young [of inp s] out by (auto simp: carried_def guard_young_def)
  show ?thesis
  proof (cases rule: serve_prebuffering_cases [OF wr lim, where ctx = ctx and inp = inp,
      case_names held released])
    case held
    then have "t = hold_playhead inp r" using step next_step by simp
    then show ?thesis
      using hold_result [of r inp] concealed_plain starved_r(3) by (auto split: if_splits)
  next
    case (released u)
    have u: "buffer_below M (pm_buffer u)" "0 < pf_starvation_count (pm_flow u)"
      "guard_young (fx_now ctx) u" "plain_output (pm_out u)"
      using starved_r wr ctx(1) released(2) by (auto simp: carried_def guard_young_def)
    have serve: "serve_frame inp ctx u = Some t"
      using step next_step released(1) by simp
    have "\<not> fx_tcp_mode ctx" using starved(2) ctx(2) by simp
    from starved_serve [OF u(1) lim u(2) this u(3, 4) serve] show ?thesis .
  qed
qed

lemma play_fade:
  fixes M :: nat
  assumes "play_next_frame inp ctx s = Some t"
    and "EmFrame p fade \<in> set (drop (length (pm_out s)) (pm_out t))"
    and lim: "M + 514 < 2 ^ 64"
  shows "fade = pm_fadein s"
proof -
  define s1 where "s1 = manager_observe False (fx_now ctx) (s\<lparr>pm_flow := (pm_flow s)
    \<lparr>pf_gap_hold_count := 0, pf_missing_count := 0, pf_conceal_run := 0\<rparr>\<rparr>)"
  define s2 where "s2 = recover_from_starvation ctx s1"
  have same: "pf_starvation_count (pm_flow s2) = 0" "pm_fadein s2 = pm_fadein s" "pm_out s2 = pm_out s"
    by (simp_all add: s2_def s1_def)
  have play: "play_next_frame inp ctx s = (case pop_next (pm_buffer s2) of
      (b, None) \<Rightarrow> None
    | (b, Some q) \<Rightarrow> (case run_timescale inp ctx q (s2\<lparr>pm_buffer := b, pm_fadein := False\<rparr>) of
          (s4, True) \<Rightarrow> Some s4 | (s4, False) \<Rightarrow> Some (emit (EmFrame q (pm_fadein s)) s4)))"
    unfolding play_next_frame_def Let_def s1_def [symmetric] s2_def [symmetric] same by simp
  then obtain b q where pop: "pop_next (pm_buffer s2) = (b, Some q)"
    using assms(1) by (auto split: prod.splits option.splits)
  obtain s4 emitted where ts: "run_timescale inp ctx q (s2\<lparr>pm_buffer := b, pm_fadein := False\<rparr>) = (s4, emitted)"
    by fastforce
  show ?thesis
    using assms(1, 2) run_timescale_plays(2) [OF lim ts] same
    by (cases emitted) (auto simp: play pop ts)
qed

lemma flush_newest:
  assumes "buffer_below M (pm_buffer s)" "M + 514 < 2 ^ 64"
  shows "\<exists>t h. flush_with_crossfade n s = Some t \<and> unat (occupied t) = min (unat (occupied s)) (unat n) \<and>
    (\<forall>q. jb_lookup (pm_buffer t) q = (if h \<le> q then jb_lookup (pm_buffer s) q else None))"
proof (cases "occupied s \<le> n")
  case True
  then show ?thesis
    by (intro exI [of _ s] exI [of _ 0]) (simp add: flush_with_crossfade_def word_le_nat_alt)
next
  case False
  then have "n \<le> occupied s" by simp
  from flush_loop_spec [OF assms(1) this assms(2), of "[]"] obtain b out where
    b: "flush_loop n (pm_buffer s) [] = Some (b, out)" "occupied_count b = n"
      "\<forall>q. jb_lookup b q = (if jb_head b \<le> q then jb_lookup (pm_buffer s) q else None)"
    by blast
  from False b show ?thesis
    by (intro exI [of _ "emit (EmFlush out) (s\<lparr>pm_buffer := b\<rparr>)"] exI [of _ "jb_head b"])
      (simp add: flush_with_crossfade_def word_le_nat_alt)
qed

text \<open>A player that has just been created on a 2.4GHz link and has one packet.\<close>

definition held_player :: player where
  "held_player = ingest_packet (sample_packet 7)
     (new_player (for_link_pair \<lparr>phone = Wifi24Ghz, pc = LUnknown\<rparr>) Wifi24Ghz 20)"

lemma held_player_buffer:
  "player_ok held_player" "jb_lookup (pm_buffer held_player) t = (if t = 7 then Some (sample_packet 7) else None)"
  "jb_initialized (pm_buffer held_player)" "jb_head (pm_buffer held_player) = 7"
  "occupied held_player = 1"
proof -
  show ok: "player_ok held_player"
    unfolding held_player_def by (rule ingest_ok [OF new_player_ok]) (simp add: SEQ_LIMIT_def)
  have buf: "pm_buffer held_player = fst (jb_insert jb_new (sample_packet 7))"
    by (simp add: held_player_def new_player_def) (simp add: observe_def new_stats_def reset_histogram_to_seed_def)
  have "jb_head jb_new + 512 < 2 ^ 64" "unat (seq_num (sample_packet 7)) + 512 < 2 ^ 64"
    by (simp_all add: jb_head_def jb_new_def)
  note I = jb_insert_spec(2) [OF jb_inv_new this]
  have "\<not> jb_initialized jb_new" by (simp add: jb_new_def)
  with I buf have all: "jb_initialized (pm_buffer held_player)" "jb_head (pm_buffer held_player) = 7"
    "\<forall>t. jb_lookup (pm_buffer held_player) t = (if t = 7 then Some (sample_packet 7) else None)"
    by (simp_all add: insert_head_def)
  then show "jb_lookup (pm_buffer held_player) t = (if t = 7 then Some (sample_packet 7) else None)"
    "jb_initialized (pm_buffer held_player)" "jb_head (pm_buffer held_player) = 7" by blast+
  have "dom (jb_lookup (pm_buffer held_player)) = {7}"
    using all(3) by (auto simp: dom_def split: if_splits)
  then have "unat (occupied held_player) = 1"
    using occupied_card [of "pm_buffer held_player"] ok by (simp add: player_ok_def buffer_below_def)
  then show "occupied held_player = 1" by (simp add: word_unat_eq_iff)
qed

lemma held_player_flow [simp]:
  "pm_flow held_player = new_flow" "pm_resets held_player = 0" "pm_out held_player = []"
  "pm_config held_player = for_link_pair \<lparr>phone = Wifi24Ghz, pc = LUnknown\<rparr>"
  by (simp_all add: held_player_def new_player_def)

section \<open>Properties\<close>

text \<open>
  C31: whatever packets arrive in whatever order, and whatever the configuration, the signal
  processing answers, every audio callback of a player returns and hands over some audio,
  and the count of missing frames stays within the limit of the link.
\<close>

theorem callbacks_always_play:
  assumes "\<forall>p. Arrives p \<in> set es \<longrightarrow> unat (seq_num p) < SEQ_LIMIT"
  shows "\<exists>t outs. player_run (new_player config link now0) es = Some (t, outs) \<and>
    length outs = callbacks es \<and> (\<forall>out \<in> set outs. \<exists>e \<in> set out. audible e) \<and>
    pf_missing_count (pm_flow t) \<le> max_missing_for link"
  using player_run_plays [OF new_player_ok assms, of config link now0]
  by (auto simp: player_ok_def new_player_def)

definition calm_inputs :: "nat \<Rightarrow> frame_inputs" where
  "calm_inputs now = \<lparr>fi_now = now, fi_config = None, fi_tcp_mode = False, fi_rms = 0,
     fi_headroom = True, fi_accelerated = None, fi_expanded = None\<rparr>"

theorem callbacks_always_play_witness:
  "\<exists>t outs. player_run (new_player default_jitter_config Ethernet 4)
      [Callback (calm_inputs 0), Arrives (sample_packet 7), Callback (calm_inputs 10)] = Some (t, outs) \<and>
    length outs = 2 \<and> (\<forall>out \<in> set outs. \<exists>e \<in> set out. audible e)"
  using callbacks_always_play [of "[Callback (calm_inputs 0), Arrives (sample_packet 7),
    Callback (calm_inputs 10)]" default_jitter_config Ethernet 4]
  by (fastforce simp: SEQ_LIMIT_def)

text \<open>
  C32: while nothing arrives and the buffer is empty the player resets on a fixed schedule: once in
  every \<open>max_missing_for link + 1\<close> callbacks, prebuffering or not, counted from the frames it was
  already missing.
\<close>

theorem outage_resets_on_schedule:
  assumes "player_ok s" "occupied s = 0"
  shows "\<exists>t outs. player_run s (map Callback inps) = Some (t, outs) \<and>
    pm_resets t = pm_resets s +
      (unat (pf_missing_count (pm_flow s)) + length inps) div Suc (unat (max_missing_for (pm_link s)))"
  using outage_run [OF assms, of inps] by blast

theorem outage_resets_on_schedule_witness:
  "\<exists>t outs. player_run (new_player default_jitter_config Wifi24Ghz 4) (map Callback (replicate 700 (calm_inputs 0))) =
      Some (t, outs) \<and> pm_resets t = 2"
proof -
  have "occupied (new_player default_jitter_config Wifi24Ghz 4) = 0"
    by (simp add: new_player_def jb_new_def occupied_count_def)
  note outage_resets_on_schedule [OF new_player_ok this, of "replicate 700 (calm_inputs 0)"]
  moreover have "pm_resets (new_player default_jitter_config Wifi24Ghz 4) = 0"
    "pf_missing_count (pm_flow (new_player default_jitter_config Wifi24Ghz 4)) = 0"
    "unat (max_missing_for (pm_link (new_player default_jitter_config Wifi24Ghz 4))) = 300"
    by (simp_all add: new_player_def new_flow_def max_missing_for_def manager_consts MILLIS_PER_FRAME_def)
  ultimately show ?thesis by (simp add: numeral_2_eq_2 del: map_replicate)
qed



text \<open>
  A frame that is played straight after a starvation, over anything but TCP, is never played
  faster or slower, nor is silence before it shed: the callback that recovers opens the guard
  window anew whenever the last one has run out, so while every frame played follows a
  starvation time-stretching never comes back.
\<close>

theorem no_stretch_after_starvation:
  assumes "player_ok s" and "0 < pf_starvation_count (pm_flow s)" "\<not> fi_tcp_mode inp"
    and "process_next_frame inp (s\<lparr>pm_out := []\<rparr>) = Some t"
  shows "plain_output (pm_out t)"
  using assms by (intro starved_callback [OF _ seq_limit_room, of "s\<lparr>pm_out := []\<rparr>" inp])
    (simp_all add: player_ok_def)

definition starved_player :: player where
  "starved_player = held_player\<lparr>pm_startup_flush := False, pm_cooldown := 5,
     pm_flow := new_flow\<lparr>pf_is_prebuffering := False, pf_starvation_count := 3\<rparr>\<rparr>"

lemma starved_player_ok: "player_ok starved_player"
  using held_player_buffer(1) by (simp add: player_ok_def starved_player_def new_flow_def)

theorem no_stretch_after_starvation_witness:
  "\<exists>t. process_next_frame (calm_inputs 0) (starved_player\<lparr>pm_out := []\<rparr>) = Some t \<and>
    plain_output (pm_out t)"
proof -
  obtain t where t: "process_next_frame (calm_inputs 0) (starved_player\<lparr>pm_out := []\<rparr>) = Some t"
    using callback_ok [OF starved_player_ok] by blast
  have "0 < pf_starvation_count (pm_flow starved_player)" "\<not> fi_tcp_mode (calm_inputs 0)"
    by (simp_all add: starved_player_def calm_inputs_def)
  from no_stretch_after_starvation [OF starved_player_ok this t] t show ?thesis by blast
qed

text \<open>
  The fade-in of a played frame depends on a skipped hole alone. A starvation before it plays
  no part, because the count of starved callbacks is cleared before it is looked at.
\<close>

theorem fade_ignores_starvation:
  assumes "play_next_frame inp ctx s = Some t"
    and "EmFrame p fade \<in> set (drop (length (pm_out s)) (pm_out t))"
  shows "fade = pm_fadein s"
  by (rule play_fade [OF assms seq_limit_room])

theorem fade_ignores_starvation_witness:
  "\<exists>t fade. play_next_frame (calm_inputs 0) (snd (the (resolve_target (calm_inputs 0) starved_player))) starved_player =
      Some t \<and> EmFrame (sample_packet 7) fade \<in> set (pm_out t) \<and> \<not> fade"
proof -
  define ctx where "ctx = snd (the (resolve_target (calm_inputs 0) starved_player))"
  define s1 where "s1 = manager_observe False (fx_now ctx) (starved_player\<lparr>pm_flow := (pm_flow starved_player)
    \<lparr>pf_gap_hold_count := 0, pf_missing_count := 0, pf_conceal_run := 0\<rparr>\<rparr>)"
  define s2 where "s2 = recover_from_starvation ctx s1"
  have ctx: "\<not> fx_tcp_mode ctx" "fx_now ctx = 0"
    using raw_target_total [of "calm_inputs 0" starved_player]
    by (auto simp: ctx_def resolve_target_def calm_inputs_def Let_def)
  have s1: "0 < pf_starvation_count (pm_flow s1)" "pf_recovery_started_at (pm_flow s1) = None"
    by (simp_all add: s1_def starved_player_def new_flow_def)
  have s2: "pm_buffer s2 = pm_buffer held_player" "pm_cooldown s2 = 5" "pm_out s2 = []"
    "\<not> stretch_allowed (fx_now ctx) (pm_flow s2)"
    using recover_arms [OF s1(1) ctx(1)] s1(2) ctx(2)
    by (simp_all add: s2_def s1_def starved_player_def stretch_allowed_def since_def
        RECOVERY_GUARD_WINDOW_def millis_def)
  have "snd (pop_next (pm_buffer s2)) = Some (sample_packet 7)"
    using pop_next_spec(1) [of "pm_buffer held_player"] held_player_buffer s2(1)
    by (auto simp: player_ok_def buffer_below_def)
  then obtain b where "pop_next (pm_buffer s2) = (b, Some (sample_packet 7))"
    by (cases "pop_next (pm_buffer s2)") auto
  moreover have "run_timescale (calm_inputs 0) ctx (sample_packet 7) (s2\<lparr>pm_buffer := b, pm_fadein := False\<rparr>) =
      (s2\<lparr>pm_buffer := b, pm_fadein := False\<rparr>, False)"
    using s2 by (simp add: run_timescale_def Let_def)
  moreover define fade where "fade = (0 < pf_starvation_count (pm_flow s2) \<or> pm_fadein s2)"
  moreover define t where "t = emit (EmFrame (sample_packet 7) fade) (s2\<lparr>pm_buffer := b, pm_fadein := False\<rparr>)"
  ultimately have play: "play_next_frame (calm_inputs 0) ctx starved_player = Some t"
    unfolding play_next_frame_def Let_def s1_def [symmetric] s2_def [symmetric] by simp
  have out: "pm_out t = [EmFrame (sample_packet 7) fade]" "pm_out starved_player = []"
    using s2(3) by (simp_all add: t_def starved_player_def)
  have "fade = pm_fadein starved_player"
    by (rule fade_ignores_starvation [OF play, of "sample_packet 7"]) (simp add: out)
  also have "\<dots> = False"
    by (simp add: starved_player_def held_player_def new_player_def)
  finally have "EmFrame (sample_packet 7) fade \<in> set (pm_out t) \<and> \<not> fade"
    using out by simp
  with play show ?thesis unfolding ctx_def by blast
qed

text \<open>
  A flush to \<open>n\<close> packets ends, and what it leaves are exactly the newest \<open>n\<close> packets of the
  buffer (all of them when there are no more): those at or past a point the playhead has reached.
\<close>

theorem flush_keeps_newest:
  assumes "player_ok s"
  shows "\<exists>t h. flush_with_crossfade n s = Some t \<and> unat (occupied t) = min (unat (occupied s)) (unat n) \<and>
    (\<forall>q. jb_lookup (pm_buffer t) q = (if h \<le> q then jb_lookup (pm_buffer s) q else None))"
  using flush_newest [OF _ seq_limit_room, of s n] assms by (simp add: player_ok_def)

theorem flush_keeps_newest_witness:
  "\<exists>t. flush_with_crossfade 0 held_player = Some t \<and> unat (occupied t) = 0"
  using flush_keeps_newest [OF held_player_buffer(1), of 0] by auto

end
