(* ===== verification/Playback_Depth.thy ===== *)
theory Playback_Depth
  imports Playback_Properties
begin

text \<open>
  The depth controller and the arrival statistics inside the running player: whatever the player
  does with them, the target stays within the comfort cap and the histogram stays exact.
\<close>

section \<open>What the steps do to the controller and the statistics\<close>

definition books :: "player \<Rightarrow> jitter_stats \<times> target_controller \<times> jitter_config" where
  "books s = (pm_stats s, pm_control s, pm_config s)"

definition books_ok :: "player \<Rightarrow> bool" where
  "books_ok s \<longleftrightarrow> hist_ok (pm_stats s) \<and>
     (static_target_ms (pm_config s) = None \<longrightarrow> depth_ok (pm_config s) (pm_control s))"

lemma books_ok_cong: "books t = books s \<Longrightarrow> books_ok t = books_ok s"
  by (simp add: books_def books_ok_def)

lemma books_same [simp]:
  "books (emit e s) = books s" "books (begin_frame inp s) = books s"
  "books (manager_observe c now s) = books s" "books (generate_plc s) = books s"
  "books (s\<lparr>pm_flow := f\<rparr>) = books s" "books (s\<lparr>pm_buffer := b\<rparr>) = books s"
  "books (s\<lparr>pm_out := out\<rparr>) = books s" "books (s\<lparr>pm_fadein := x\<rparr>) = books s"
  "books (s\<lparr>pm_startup_flush := x\<rparr>) = books s" "books (s\<lparr>pm_cooldown := n\<rparr>) = books s"
  "books (s\<lparr>pm_countdown := n\<rparr>) = books s"
  by (auto simp: books_def emit_def begin_frame_def manager_observe_def generate_plc_def Let_def
      split: option.splits prod.splits)

lemma books_flush: "flush_with_crossfade n s = Some t \<Longrightarrow> books t = books s"
  by (auto simp: flush_with_crossfade_def books_def emit_def split: if_splits)

lemma books_flushes:
  "apply_no_buffer_flush ctx s = Some t \<Longrightarrow> books t = books s"
  "apply_startup_flush ctx s = Some t \<Longrightarrow> books t = books s"
  "apply_static_target_flush ctx s = Some t \<Longrightarrow> books t = books s"
  by (auto simp: apply_no_buffer_flush_def apply_startup_flush_def apply_static_target_flush_def Let_def
      dest: books_flush split: if_splits)

lemma books_gap: "books (try_fast_forward_over_gap ctx s) = books s"
  by (auto simp: try_fast_forward_over_gap_def books_def Let_def split: prod.splits option.splits)

lemma books_shed: "books (shed_packets n h s) = books s"
  by (induction n arbitrary: s) simp_all

lemma books_timescale: "run_timescale inp ctx p s = (t, emitted) \<Longrightarrow> books t = books s"
  by (auto simp: run_timescale_def Let_def books_shed split: if_splits option.splits prod.splits)

lemma books_ok_reset: "books_ok s \<Longrightarrow> books_ok (trigger_reset inp s)"
  using hist_ok_reset depth_ok_reset
  by (simp add: books_ok_def trigger_reset_def stats_reset_on_stream_restart_def)

lemma books_ok_check: "books_ok s \<Longrightarrow> check_reset_on_missing inp s = (t, r) \<Longrightarrow> books_ok t"
  using books_ok_reset books_ok_cong [OF books_same(1)]
  by (auto simp: check_reset_on_missing_def split: if_splits)

lemma books_ok_hold: "books_ok s \<Longrightarrow> books_ok (hold_playhead inp s)"
  using books_ok_check [of _ inp] books_ok_reset [of _ inp]
  by (auto simp: hold_playhead_def check_reset_on_missing_def Let_def books_ok_cong [OF books_same(1)]
      books_ok_cong [OF books_same(4)] books_ok_cong [OF books_same(5)])

lemma books_ok_recover: "books_ok s \<Longrightarrow> books_ok (recover_from_starvation ctx s)"
  using depth_ok_starved by (auto simp: recover_from_starvation_def books_ok_def Let_def)

lemma books_ok_resolve: "books_ok s \<Longrightarrow> resolve_target inp s = Some (t, ctx) \<Longrightarrow> books_ok t"
  using advance_adaptive_spec(1) [OF _ refl]
  by (auto simp: resolve_target_def books_ok_def advance_target_def min_depth_frames_def
      config_min_depth_def Let_def split: option.splits)

lemma books_ok_reload: "books_ok s \<Longrightarrow> reload_config_if_changed inp s = Some t \<Longrightarrow> books_ok t"
proof -
  assume s: "books_ok s" and step: "reload_config_if_changed inp s = Some t"
  have flush: "books_ok u" if "flush_with_crossfade n r = Some u" "books_ok r" for n r u
    using that books_ok_cong [OF books_flush] by blast
  have fresh: "books_ok (s\<lparr>pm_countdown := n, pm_flow := f, pm_stats := stats_reset_on_config_change (pm_stats s),
      pm_control := reset_for_config (fi_now inp) config (pm_control s), pm_config := config\<rparr>)" for n f config
    by (simp add: books_ok_def hist_ok_reset depth_ok_config)
  show "books_ok t"
    using step s flush [OF _ fresh] fresh
    by (auto simp: reload_config_if_changed_def Let_def books_ok_cong [OF books_same(11)]
        split: if_splits option.splits)
qed

lemma books_ok_play:
  assumes "books_ok s" "play_next_frame inp ctx s = Some t"
  shows "books_ok t"
proof -
  define s1 where "s1 = manager_observe False (fx_now ctx) (s\<lparr>pm_flow := (pm_flow s)
    \<lparr>pf_gap_hold_count := 0, pf_missing_count := 0, pf_conceal_run := 0\<rparr>\<rparr>)"
  define s2 where "s2 = recover_from_starvation ctx s1"
  have "books_ok s1" using assms(1) by (simp add: s1_def books_ok_cong [OF books_same(3)] books_ok_cong [OF books_same(5)])
  then have s2: "books_ok s2" unfolding s2_def by (rule books_ok_recover)
  obtain b q' where pop': "pop_next (pm_buffer s2) = (b, q')" by fastforce
  have "q' \<noteq> None"
    using assms(2) unfolding play_next_frame_def Let_def s1_def [symmetric] s2_def [symmetric] pop' by (cases q') auto
  with pop' obtain q where pop: "pop_next (pm_buffer s2) = (b, Some q)" by auto
  obtain s4 r where ts: "run_timescale inp ctx q (s2\<lparr>pm_buffer := b, pm_fadein := False\<rparr>) = (s4, r)" by fastforce
  have "books s4 = books s2" using books_timescale [OF ts] by simp
  moreover have "books t = books s4"
    using assms(2) unfolding play_next_frame_def Let_def s1_def [symmetric] s2_def [symmetric]
    by (auto simp: pop ts split: bool.splits)
  ultimately show ?thesis using books_ok_cong s2 by metis
qed

lemma books_ok_missing: "books_ok s \<Longrightarrow> books_ok (handle_missing_frame inp ctx s)"
proof -
  assume s: "books_ok s"
  define s1 where "s1 = manager_observe True (fx_now ctx)
    (s\<lparr>pm_flow := (pm_flow s)\<lparr>pf_missing_count := pf_missing_count (pm_flow s) + 1\<rparr>\<rparr>)"
  have s1: "books_ok s1" using s by (simp add: s1_def books_ok_cong [OF books_same(3)] books_ok_cong [OF books_same(5)])
  have "\<exists>s2. books s2 = books s1 \<and> handle_missing_frame inp ctx s =
      (case check_reset_on_missing inp s2 of (t, True) \<Rightarrow> t | (t, False) \<Rightarrow> generate_plc t)"
    unfolding handle_missing_frame_def s1_def [symmetric] Let_def
    by (intro exI conjI, rule_tac [2] refl) simp
  then obtain s2 where s2: "books s2 = books s1" "handle_missing_frame inp ctx s =
      (case check_reset_on_missing inp s2 of (t, True) \<Rightarrow> t | (t, False) \<Rightarrow> generate_plc t)" by blast
  have "books_ok s2" using s1 books_ok_cong [OF s2(1)] by simp
  then show ?thesis
    using books_ok_check [of s2 inp] books_ok_cong [OF books_same(4)]
    by (cases "check_reset_on_missing inp s2"; case_tac b) (auto simp: s2(2))
qed

lemma books_ok_callback:
  assumes "books_ok s" "process_next_frame inp s = Some t"
  shows "books_ok t"
proof -
  have keep: "books_ok r" if "books r = books q" "books_ok q" for r q
    using that books_ok_cong by blast
  have "books_ok (begin_frame inp s)" using assms(1) keep books_same(2) by blast
  moreover obtain s1 s2 ctx s3 where s1: "reload_config_if_changed inp (begin_frame inp s) = Some s1"
    and s2: "resolve_target inp s1 = Some (s2, ctx)" and s3: "apply_no_buffer_flush ctx s2 = Some s3"
    and last_step: "(case serve_prebuffering inp ctx s3 of None \<Rightarrow> None
      | Some (s4, True) \<Rightarrow> Some s4 | Some (s4, False) \<Rightarrow> serve_frame inp ctx s4) = Some t"
    using assms(2) by (auto simp: process_next_frame_def split: option.splits prod.splits)
  ultimately have ok3: "books_ok s3"
    using books_ok_reload books_ok_resolve keep books_flushes(1) by metis
  obtain s4 held where pre: "serve_prebuffering inp ctx s3 = Some (s4, held)"
    using last_step by (cases "serve_prebuffering inp ctx s3") auto
  have ok4: "books_ok s4"
    using pre ok3 books_ok_hold [OF ok3] keep [OF books_flush] books_ok_cong [OF books_same(5)]
    by (fastforce simp: serve_prebuffering_def Let_def split: if_splits)
  show ?thesis
  proof (cases held)
    case True
    then show ?thesis using last_step pre ok4 by simp
  next
    case False
    then have "serve_frame inp ctx s4 = Some t" using last_step pre by simp
    then obtain s5 s6 where s56: "apply_startup_flush ctx s4 = Some s5" "apply_static_target_flush ctx s5 = Some s6"
      and fin: "(let s7 = try_fast_forward_over_gap ctx s6 in
        if has_next (pm_buffer s7) then play_next_frame inp ctx s7
        else Some (handle_missing_frame inp ctx s7)) = Some t"
      by (auto simp: serve_frame_def split: option.splits)
    have "books_ok (try_fast_forward_over_gap ctx s6)"
      using keep [OF books_gap] keep [OF books_flushes(3) [OF s56(2)]] keep [OF books_flushes(2) [OF s56(1)] ok4]
      by blast
    with fin show ?thesis
      using books_ok_play books_ok_missing by (auto simp: Let_def split: if_splits)
  qed
qed

lemma books_ok_ingest: "books_ok s \<Longrightarrow> books_ok (ingest_packet p s)"
  using hist_ok_observe [of "pm_stats s" "seq_num p" "arrival_time p"]
  by (auto simp: ingest_packet_def books_ok_def split: prod.splits bool.splits)

lemma books_ok_new: "books_ok (new_player config link now)"
  using hist_ok_seed depth_ok_new by (simp add: books_ok_def new_player_def new_stats_def)

lemma books_ok_run: "books_ok s \<Longrightarrow> player_run s es = Some (t, outs) \<Longrightarrow> books_ok t"
proof (induction s es arbitrary: t outs rule: player_run.induct)
  case (2 s p es)
  then show ?case using books_ok_ingest by simp
next
  case (3 s inp es)
  then obtain u where u: "process_next_frame inp (s\<lparr>pm_out := []\<rparr>) = Some u"
    and rest: "\<exists>os. player_run u es = Some (t, os)" by (auto split: option.splits)
  have "books_ok (s\<lparr>pm_out := []\<rparr>)" using 3(2) books_ok_cong [OF books_same(7)] by simp
  from books_ok_callback [OF this u] 3(1) [OF u] rest show ?case by blast
qed simp

section \<open>Properties\<close>



end
