(* ===== verification/Phone_Client.thy ===== *)
theory Phone_Client
  imports Control_Http
begin

text \<open>
  The phone's end of the control interface: certificate pins (\<open>control/tls.rs\<close>), the HTTPS client and
  its credentials (\<open>http_client.rs\<close>), its requests (\<open>http_requests.rs\<close>), the WebSocket
  (\<open>ws_session.rs\<close>, \<open>ws_client.rs\<close>) and the connect loop with pairing (\<open>http_connect.rs\<close>).

  What the machine at the other end does with a request is an input: nothing, or a certificate and
  a response. It need not be a Gemacast PC. The client keeps a log of the requests it sent and of
  what it asked its user and its key store, with the certificate the request went to; the log is
  only read by the properties.
\<close>

section \<open>Errors\<close>

datatype control_failure =
    SerializationFailed string
  | ControlSendFailed string string
  | ControlTimeout nat
  | ControlRejected string
  | RemoteRejected string string
  | ServerStartFailed string
  | HttpRequestFailed string
  | WebSocketFailed string

fun display_control_failure :: "control_failure \<Rightarrow> string" where
  "display_control_failure (SerializationFailed e) = ''failed to serialize control message''"
| "display_control_failure (ControlSendFailed addr e) = ''failed to send control message to '' @ addr"
| "display_control_failure (ControlTimeout ms) = ''request timed out after '' @ show_nat ms @ ''ms''"
| "display_control_failure (ControlRejected reason) = ''streamer rejected the request: '' @ reason"
| "display_control_failure (RemoteRejected code reason) =
     ''streamer rejected the request: '' @ reason @ '' ('' @ code @ '')''"
| "display_control_failure (ServerStartFailed e) = ''failed to start control server''"
| "display_control_failure (HttpRequestFailed s) = ''HTTP request failed: '' @ s"
| "display_control_failure (WebSocketFailed reason) = ''WebSocket connection failed: '' @ reason"

section \<open>Certificate pins\<close>

text \<open>The external parts: cryptography, the \<open>hex\<close> decoder, and the texts of library errors.\<close>

record phone_env =
  pe_crypto :: crypto
  pe_hex_decode :: "string \<Rightarrow> bytes option"
  pe_status_text :: "nat \<Rightarrow> string"
  pe_tls_error :: string
  pe_json_error :: string

definition normalize_fingerprint :: "phone_env \<Rightarrow> string \<Rightarrow> string + string" where
  "normalize_fingerprint env fp0 =
     (let fp = to_ascii_lowercase fp0 in
      case pe_hex_decode env fp of
        None \<Rightarrow> Inl ''PC certificate fingerprint must be hexadecimal''
      | Some bs \<Rightarrow> if length bs \<noteq> 32 then Inl ''PC certificate fingerprint must contain exactly 32 bytes''
                   else Inr fp)"

text \<open>\<open>client_config\<close>: the pin the verifier of this client compares with, if it has one.\<close>

definition client_config :: "phone_env \<Rightarrow> string option \<Rightarrow> string + string option" where
  "client_config env expected = (case expected of
       None \<Rightarrow> Inr None
     | Some fp \<Rightarrow> (case normalize_fingerprint env fp of Inl e \<Rightarrow> Inl e | Inr n \<Rightarrow> Inr (Some n)))"

definition fingerprint_bytes_eq :: "bytes \<Rightarrow> bytes \<Rightarrow> bool" where
  "fingerprint_bytes_eq left right \<longleftrightarrow> length left = length right \<and>
     foldl (\<lambda>difference (l, r). difference OR (l XOR r)) (0 :: u8) (zip left right) = 0"

definition verify_server_cert :: "phone_env \<Rightarrow> string option \<Rightarrow> bytes \<Rightarrow> bool" where
  "verify_server_cert env pin cert = (case pin of
       None \<Rightarrow> True
     | Some expected \<Rightarrow>
         fingerprint_bytes_eq (as_bytes expected) (as_bytes (sha256_fingerprint (pe_crypto env) cert)))"

text \<open>\<open>eq_ignore_ascii_case\<close>\<close>

definition eq_ignore_ascii_case :: "string \<Rightarrow> string \<Rightarrow> bool" where
  "eq_ignore_ascii_case a b \<longleftrightarrow> to_ascii_lowercase a = to_ascii_lowercase b"

section \<open>The client\<close>

record control_credentials =
  cd_device_id :: device_id
  cd_token :: string
  cd_generation :: generation
  cd_pc_device_id :: device_id
  cd_pc_fingerprint :: string

text \<open>
  The key store and the user of the phone (\<open>DeviceAuthSigner\<close>), as they answer during one connect.
\<close>

record signer =
  sg_public_key :: "string + string"
  sg_sign :: "bytes \<Rightarrow> string + string"
  sg_trusted :: "device_id \<Rightarrow> string + string option"
  sg_confirm :: "device_id \<Rightarrow> string \<Rightarrow> string \<Rightarrow> string \<Rightarrow> bool \<Rightarrow> string + bool"
  sg_remember :: "device_id \<Rightarrow> string \<Rightarrow> string + unit"

text \<open>
  A request as it goes out: the pin of the connection, the bearer token and what is asked. The
  log has it with the certificate of the machine it went to, and the token a machine issued with
  that machine's certificate.
\<close>

record phone_request =
  rq_pin :: "string option"
  rq_bearer :: "string option"
  rq_request :: http_request

datatype phone_act =
    Sent bytes phone_request
  | TokenFrom bytes string
  | Signed bytes bytes
  | Confirmed device_id string string
  | Remembered device_id string

text \<open>Nothing answers; a machine takes the request and breaks off; a machine responds.\<close>

datatype peer_answer =
    Unreachable string
  | Breaks bytes string
  | Serves bytes bool http_response

record phone_client =
  cl_credentials :: "control_credentials option"
  cl_log :: "phone_act list"

definition act :: "phone_act \<Rightarrow> phone_client \<Rightarrow> phone_client" where
  "act x p = p\<lparr>cl_log := cl_log p @ [x]\<rparr>"

definition credential_for :: "device_id option \<Rightarrow> phone_client \<Rightarrow> control_credentials option" where
  "credential_for device p = (case cl_credentials p of
       None \<Rightarrow> None
     | Some c \<Rightarrow> if (case device of None \<Rightarrow> True | Some d \<Rightarrow> d = cd_device_id c) then Some c else None)"

definition client_for :: "phone_env \<Rightarrow> control_credentials option \<Rightarrow> control_failure + string option" where
  "client_for env credential = (case credential of
       None \<Rightarrow> Inr None
     | Some c \<Rightarrow> (case client_config env (Some (cd_pc_fingerprint c)) of
           Inl reason \<Rightarrow> Inl (ControlRejected reason) | Inr pin \<Rightarrow> Inr pin))"

definition session_credentials :: "device_id \<Rightarrow> phone_client \<Rightarrow> control_credentials option" where
  "session_credentials d = credential_for (Some d)"

definition session_token :: "device_id \<Rightarrow> phone_client \<Rightarrow> string option" where
  "session_token d p = map_option cd_token (credential_for (Some d) p)"

text \<open>
  Sending a request: the TLS handshake comes first, so a machine whose certificate is refused
  sees nothing of it. The answer is the certificate, whether the library exposes it, and the response.
\<close>

definition send ::
  "phone_env \<Rightarrow> phone_request \<Rightarrow> peer_answer \<Rightarrow> phone_client \<Rightarrow>
   phone_client \<times> (control_failure + bytes \<times> bool \<times> http_response)" where
  "send env rq answer p = (case answer of
       Unreachable e \<Rightarrow> (p, Inl (HttpRequestFailed e))
     | Breaks cert e \<Rightarrow>
         (if verify_server_cert env (rq_pin rq) cert then act (Sent cert rq) p else p,
          Inl (HttpRequestFailed e))
     | Serves cert exposed resp \<Rightarrow>
         if verify_server_cert env (rq_pin rq) cert
         then (act (Sent cert rq) p, Inr (cert, exposed, resp))
         else (p, Inl (HttpRequestFailed (pe_tls_error env))))"

definition response_certificate_fingerprint :: "phone_env \<Rightarrow> bytes \<Rightarrow> bool \<Rightarrow> string + string" where
  "response_certificate_fingerprint env cert exposed =
     (if exposed then Inr (sha256_fingerprint (pe_crypto env) cert)
      else Inl ''HTTPS response did not expose the PC certificate'')"

definition ensure_success :: "phone_env \<Rightarrow> http_response \<Rightarrow> control_failure + http_body" where
  "ensure_success env = (\<lambda>(status, body).
     if 200 \<le> status \<and> status < 300 then Inr body
     else case body of
       BodyError e \<Rightarrow> Inl (RemoteRejected (ce_code e) (ce_message e))
     | _ \<Rightarrow> Inl (RemoteRejected ''http_error'' (''HTTP '' @ pe_status_text env status)))"

fun presence_body :: "phone_env \<Rightarrow> http_body \<Rightarrow> control_failure + presence_response" where
  "presence_body env (BodyPresence r) = Inr r"
| "presence_body env _ = Inl (HttpRequestFailed (pe_json_error env))"

definition verify_presence_certificate :: "presence_response \<Rightarrow> string \<Rightarrow> control_failure + string" where
  "verify_presence_certificate r observed = (case pr_pc_certificate_fingerprint r of
       None \<Rightarrow> Inl (ControlRejected ''streamer did not provide its PC certificate fingerprint'')
     | Some advertised \<Rightarrow>
         if eq_ignore_ascii_case advertised observed then Inr (to_ascii_lowercase advertised)
         else Inl (ControlRejected ''streamer identity does not match the HTTPS certificate''))"

section \<open>Requests\<close>

text \<open>What every authorised request does up to its response.\<close>

definition authorized_call ::
  "phone_env \<Rightarrow> device_id option \<Rightarrow> http_request \<Rightarrow> peer_answer \<Rightarrow> phone_client \<Rightarrow>
   phone_client \<times> (control_failure + http_body)" where
  "authorized_call env device request answer p =
     (let credential = credential_for device p in
      case client_for env credential of
        Inl e \<Rightarrow> (p, Inl e)
      | Inr pin \<Rightarrow>
          (case send env \<lparr>rq_pin = pin, rq_bearer = map_option cd_token credential, rq_request = request\<rparr>
                  answer p of
             (q, Inl e) \<Rightarrow> (q, Inl e)
           | (q, Inr (cert, exposed, resp)) \<Rightarrow> (q, ensure_success env resp)))"

definition send_disconnect_request ::
  "phone_env \<Rightarrow> device_id \<Rightarrow> peer_answer \<Rightarrow> phone_client \<Rightarrow> phone_client \<times> (control_failure + unit)" where
  "send_disconnect_request env d answer p =
     (case authorized_call env (Some d) (PostDisconnect d) answer p of
        (q, Inl e) \<Rightarrow> (q, Inl e)
      | (q, Inr _) \<Rightarrow> (q\<lparr>cl_credentials := None\<rparr>, Inr ()))"

definition request_audio_sources ::
  "phone_env \<Rightarrow> peer_answer \<Rightarrow> phone_client \<Rightarrow>
   phone_client \<times> (control_failure + audio_source list \<times> streamer_capabilities)" where
  "request_audio_sources env answer p =
     (case authorized_call env None GetSources answer p of
        (q, Inl e) \<Rightarrow> (q, Inl e)
      | (q, Inr (BodySources r)) \<Rightarrow> (q, Inr (sr_sources r, sr_capabilities r))
      | (q, Inr _) \<Rightarrow> (q, Inl (HttpRequestFailed (pe_json_error env))))"

definition send_change_source_request ::
  "phone_env \<Rightarrow> device_id \<Rightarrow> audio_source \<Rightarrow> peer_answer \<Rightarrow> phone_client \<Rightarrow>
   phone_client \<times> (control_failure + unit)" where
  "send_change_source_request env d source answer p =
     (case authorized_call env (Some d) (PostChangeSource d source) answer p of
        (q, Inl e) \<Rightarrow> (q, Inl e) | (q, Inr _) \<Rightarrow> (q, Inr ()))"

definition send_change_bitrate_request ::
  "phone_env \<Rightarrow> device_id \<Rightarrow> i32 option \<Rightarrow> peer_answer \<Rightarrow> phone_client \<Rightarrow>
   phone_client \<times> (control_failure + unit)" where
  "send_change_bitrate_request env d bitrate answer p =
     (case authorized_call env (Some d) (PostChangeBitrate d bitrate) answer p of
        (q, Inl e) \<Rightarrow> (q, Inl e) | (q, Inr _) \<Rightarrow> (q, Inr ()))"

text \<open>A probe pins the certificate of the session but carries no token.\<close>

definition send_probe ::
  "phone_env \<Rightarrow> device_id option \<Rightarrow> peer_answer \<Rightarrow> phone_client \<Rightarrow>
   phone_client \<times> (control_failure + presence_response)" where
  "send_probe env device answer p =
     (case client_for env (credential_for device p) of
        Inl e \<Rightarrow> (p, Inl e)
      | Inr pin \<Rightarrow>
        (case send env \<lparr>rq_pin = pin, rq_bearer = None, rq_request = PostProbe device\<rparr> answer p of
           (q, Inl e) \<Rightarrow> (q, Inl e)
         | (q, Inr (cert, exposed, resp)) \<Rightarrow>
           (case response_certificate_fingerprint env cert exposed of
              Inl reason \<Rightarrow> (q, Inl (ControlRejected reason))
            | Inr observed \<Rightarrow>
              (case ensure_success env resp of
                 Inl e \<Rightarrow> (q, Inl e)
               | Inr body \<Rightarrow>
                 (case presence_body env body of
                    Inl e \<Rightarrow> (q, Inl e)
                  | Inr r \<Rightarrow>
                    (case verify_presence_certificate r observed of
                       Inl e \<Rightarrow> (q, Inl e) | Inr _ \<Rightarrow> (q, Inr r)))))))"

definition request_process_list ::
  "phone_env \<Rightarrow> peer_answer \<Rightarrow> phone_client \<Rightarrow> phone_client \<times> (control_failure + process_info list)" where
  "request_process_list env answer p =
     (case authorized_call env None GetProcesses answer p of
        (q, Inl e) \<Rightarrow> (q, Inl e)
      | (q, Inr (BodyProcesses ps)) \<Rightarrow> (q, Inr ps)
      | (q, Inr _) \<Rightarrow> (q, Inl (HttpRequestFailed (pe_json_error env))))"

section \<open>Connecting\<close>

definition CONNECT_TIMEOUT :: nat where "CONNECT_TIMEOUT = secs 70"

text \<open>
  The variables of the connect loop. A round of it is a request, its answer, the instant after
  it and, for a connect that fails at its end, the answer to the farewell.
\<close>

record connect_run =
  cn_client :: phone_client
  cn_request :: connect_req
  cn_pin :: "string option"
  cn_deadline :: "nat option"
  cn_candidate :: "(device_id \<times> string) option"

record connect_round =
  ro_answer :: peer_answer
  ro_now :: nat
  ro_farewell :: peer_answer

datatype verdict = Again | Finish "control_failure + presence_response"

definition connect_begin ::
  "phone_env \<Rightarrow> signer option \<Rightarrow> string + bytes \<Rightarrow> connect_req \<Rightarrow> phone_client \<Rightarrow>
   control_failure + connect_run" where
  "connect_begin env sg nonce req p =
     (let run = (\<lambda>r. \<lparr>cn_client = p, cn_request = r, cn_pin = None, cn_deadline = None,
                      cn_candidate = None\<rparr>) in
      if cr_device_auth req \<noteq> None then Inr (run req)
      else case sg of
        None \<Rightarrow> Inl (ControlRejected ''device authentication is unavailable'')
      | Some g \<Rightarrow>
        (case nonce of
           Inl e \<Rightarrow> Inl (ControlRejected (''failed to generate device nonce: '' @ e))
         | Inr bs \<Rightarrow>
           (case sg_public_key g of
              Inl reason \<Rightarrow> Inl (ControlRejected reason)
            | Inr key \<Rightarrow> Inr (run (req\<lparr>cr_device_auth := Some
                \<lparr>ar_public_key = key, ar_phone_nonce = b64_encode (pe_crypto env) bs,
                 ar_challenge_id = None, ar_signature = None, ar_phone_confirmation = None\<rparr>\<rparr>)))))"

text \<open>
  Who has to be asked about the PC: nobody, if its certificate is the one remembered and the PC
  knows this phone; the user, if either side is new. \<open>Inl\<close> ends the connect.
\<close>

definition confirm_pc ::
  "signer \<Rightarrow> presence_response \<Rightarrow> device_auth_challenge \<Rightarrow> string \<Rightarrow> string \<Rightarrow>
   control_failure + bool \<times> bool" where
  "confirm_pc g r ch fp code = (case sg_trusted g (pr_device_id r) of
       Inl reason \<Rightarrow> Inl (ControlRejected reason)
     | Inr trusted \<Rightarrow>
       if (case trusted of None \<Rightarrow> False | Some t \<Rightarrow> \<not> eq_ignore_ascii_case t fp)
       then Inl (ControlRejected ''the paired PC certificate changed; forget this PC before pairing again'')
       else if trusted = None \<or> dc_requires_approval ch
       then (case sg_confirm g (pr_device_id r) (pr_streamer_name r) fp code (dc_requires_approval ch) of
               Inl reason \<Rightarrow> Inl (ControlRejected reason)
             | Inr False \<Rightarrow> Inl (ControlRejected ''PC identity confirmation was cancelled on the phone'')
             | Inr True \<Rightarrow> Inr (trusted = None, True))
       else Inr (trusted = None, False))"

definition answer_challenge ::
  "phone_env \<Rightarrow> signer option \<Rightarrow> bytes \<Rightarrow> presence_response \<Rightarrow> device_auth_challenge \<Rightarrow> string \<Rightarrow>
   connect_run \<Rightarrow> (connect_run \<times> verdict) option" where
  "answer_challenge env sg cert r ch fp run =
     (if \<not> eq_ignore_ascii_case (dc_pc_certificate_fingerprint ch) fp
      then Some (run, Finish (Inl (ControlRejected
        ''authentication challenge is bound to a different PC certificate'')))
      else case sg of
        None \<Rightarrow> Some (run, Finish (Inl (ControlRejected
          ''streamer requested device authentication, but no signer is available'')))
      | Some g \<Rightarrow>
       (case cr_device_auth (cn_request run) of
          None \<Rightarrow> Some (run, Finish (Inl (ControlRejected
            ''streamer requested device authentication, but the request identity is missing'')))
        | Some auth \<Rightarrow>
         (case build_device_auth_transcript (cr_device_id (cn_request run)) (pr_device_id r) fp
                 (ar_public_key auth) (ar_phone_nonce auth) (dc_challenge_id ch) (dc_challenge ch) of
            None \<Rightarrow> None
          | Some transcript \<Rightarrow>
            (let code = pairing_code (pe_crypto env) transcript in
             if dc_pairing_code ch \<noteq> code
             then Some (run, Finish (Inl (ControlRejected
               ''streamer returned an invalid pairing comparison code'')))
             else case confirm_pc g r ch fp code of
               Inl e \<Rightarrow> Some (run, Finish (Inl e))
             | Inr (is_new, confirmed) \<Rightarrow>
               (let p1 = (if confirmed then act (Confirmed (pr_device_id r) fp code) (cn_client run)
                          else cn_client run);
                    p2 = act (Signed cert transcript) p1 in
                case sg_sign g transcript of
                  Inl reason \<Rightarrow> Some (run\<lparr>cn_client := p2\<rparr>, Finish (Inl (ControlRejected reason)))
                | Inr signature \<Rightarrow>
                  (case client_config env (Some fp) of
                     Inl reason \<Rightarrow> Some (run\<lparr>cn_client := p2\<rparr>, Finish (Inl (ControlRejected reason)))
                   | Inr pin \<Rightarrow>
                     Some (run\<lparr>cn_client := p2,
                       cn_request := (cn_request run)\<lparr>cr_device_auth := Some (auth
                         \<lparr>ar_challenge_id := Some (dc_challenge_id ch), ar_signature := Some signature,
                          ar_phone_confirmation := (if confirmed then Some True else None)\<rparr>)\<rparr>,
                       cn_pin := pin,
                       cn_candidate := (if is_new then Some (pr_device_id r, fp)
                                        else cn_candidate run)\<rparr>, Again)))))))"

text \<open>A response that carries a token: the credentials are kept and a new PC is remembered.\<close>

definition accept_session ::
  "phone_env \<Rightarrow> signer option \<Rightarrow> bytes \<Rightarrow> presence_response \<Rightarrow> string \<Rightarrow> generation \<Rightarrow> string \<Rightarrow>
   peer_answer \<Rightarrow> connect_run \<Rightarrow> connect_run \<times> verdict" where
  "accept_session env sg cert r token g fp farewell run =
     (let d = cr_device_id (cn_request run);
          p1 = act (TokenFrom cert token) (cn_client run)
            \<lparr>cl_credentials := Some \<lparr>cd_device_id = d, cd_token = token, cd_generation = g,
               cd_pc_device_id = pr_device_id r, cd_pc_fingerprint = fp\<rparr>\<rparr>;
          run1 = run\<lparr>cn_client := p1, cn_candidate := None\<rparr> in
      case (cn_candidate run, sg) of
        (Some (pcid, pinned), Some s) \<Rightarrow>
          (case sg_remember s pcid pinned of
             Inr _ \<Rightarrow> (run1\<lparr>cn_client := act (Remembered pcid pinned) p1\<rparr>, Finish (Inr r))
           | Inl reason \<Rightarrow>
               (run1\<lparr>cn_client := fst (send_disconnect_request env d farewell p1)\<rparr>,
                Finish (Inl (ControlRejected (''failed to remember the approved PC: '' @ reason)))))
      | _ \<Rightarrow> (run1, Finish (Inr r)))"

definition await_approval :: "nat \<Rightarrow> presence_response \<Rightarrow> connect_run \<Rightarrow> connect_run \<times> verdict" where
  "await_approval now r run = (case pr_pending_request_id r of
       None \<Rightarrow> (run, Finish (Inr r))
     | Some request_id \<Rightarrow>
       (let deadline = (case cn_deadline run of None \<Rightarrow> now + CONNECT_TIMEOUT | Some t \<Rightarrow> t);
            run1 = run\<lparr>cn_deadline := Some deadline\<rparr> in
        if deadline \<le> now
        then (run1, Finish (Inl (ControlRejected (''connection approval '' @ request_id @ '' timed out''))))
        else (run1\<lparr>cn_request := (cn_request run)\<lparr>cr_pending_request_id := Some request_id\<rparr>\<rparr>, Again)))"

text \<open>One round of the loop; \<open>None\<close> is the panic of an oversized transcript.\<close>

definition connect_step ::
  "phone_env \<Rightarrow> signer option \<Rightarrow> connect_round \<Rightarrow> connect_run \<Rightarrow> (connect_run \<times> verdict) option" where
  "connect_step env sg ro run =
     (case send env \<lparr>rq_pin = cn_pin run, rq_bearer = None, rq_request = PostConnect (cn_request run)\<rparr>
             (ro_answer ro) (cn_client run) of
        (p, Inl e) \<Rightarrow> Some (run\<lparr>cn_client := p\<rparr>, Finish (Inl e))
      | (p, Inr (cert, exposed, resp)) \<Rightarrow>
        (let run1 = run\<lparr>cn_client := p\<rparr> in
         case response_certificate_fingerprint env cert exposed of
           Inl reason \<Rightarrow> Some (run1, Finish (Inl (ControlRejected reason)))
         | Inr observed \<Rightarrow>
          (case ensure_success env resp of
             Inl e \<Rightarrow> Some (run1, Finish (Inl e))
           | Inr body \<Rightarrow>
            (case presence_body env body of
               Inl e \<Rightarrow> Some (run1, Finish (Inl e))
             | Inr r \<Rightarrow>
              (case verify_presence_certificate r observed of
                 Inl e \<Rightarrow> Some (run1, Finish (Inl e))
               | Inr fp \<Rightarrow>
                (case pr_device_auth_challenge r of
                   Some ch \<Rightarrow> answer_challenge env sg cert r ch fp run1
                 | None \<Rightarrow>
                   Some (case (pr_session_token r, pr_session_generation r) of
                       (Some token, Some g) \<Rightarrow>
                         accept_session env sg cert r token g fp (ro_farewell ro) run1
                     | _ \<Rightarrow> await_approval (ro_now ro) r run1)))))))"

text \<open>
  The loop over the rounds it gets; \<open>Again\<close> in the result is a connect that still runs. Nothing in
  the loop bounds the challenges a machine may send one after another.
\<close>

fun connect_rounds ::
  "phone_env \<Rightarrow> signer option \<Rightarrow> connect_round list \<Rightarrow> connect_run \<Rightarrow> (connect_run \<times> verdict) option" where
  "connect_rounds env sg [] run = Some (run, Again)"
| "connect_rounds env sg (ro # ros) run = (case connect_step env sg ro run of
       None \<Rightarrow> None
     | Some (run1, Again) \<Rightarrow> connect_rounds env sg ros run1
     | Some (run1, Finish v) \<Rightarrow> Some (run1, Finish v))"

definition send_connect_request ::
  "phone_env \<Rightarrow> signer option \<Rightarrow> string + bytes \<Rightarrow> connect_req \<Rightarrow> connect_round list \<Rightarrow> phone_client \<Rightarrow>
   (phone_client \<times> verdict) option" where
  "send_connect_request env sg nonce req ros p = (case connect_begin env sg nonce req p of
       Inl e \<Rightarrow> Some (p, Finish (Inl e))
     | Inr run \<Rightarrow> (case connect_rounds env sg ros run of
         None \<Rightarrow> None | Some (run1, v) \<Rightarrow> Some (cn_client run1, v)))"

section \<open>The WebSocket\<close>

text \<open>
  The errors of the URL parser and of the header parser are inputs. A response other than an
  upgrade is a failed connection.
\<close>

definition ws_connect ::
  "phone_env \<Rightarrow> string option \<Rightarrow> string option \<Rightarrow> device_id \<Rightarrow> string option \<Rightarrow> string option \<Rightarrow>
   peer_answer \<Rightarrow> phone_client \<Rightarrow> phone_client \<times> (control_failure + unit)" where
  "ws_connect env url_error header_error d token fp answer p =
     (if token \<noteq> None \<and> fp = None
      then (p, Inl (WebSocketFailed
        ''refusing to send a WebSocket token without a pinned PC certificate''))
      else case url_error of
        Some e \<Rightarrow> (p, Inl (WebSocketFailed (''failed to parse WS URL: '' @ e)))
      | None \<Rightarrow>
       (case (if token = None then None else header_error) of
          Some e \<Rightarrow> (p, Inl (WebSocketFailed (''failed to build WS authorization header: '' @ e)))
        | None \<Rightarrow>
         (case client_config env fp of
            Inl reason \<Rightarrow> (p, Inl (WebSocketFailed
              (''failed to configure WSS certificate pin: '' @ reason)))
          | Inr pin \<Rightarrow>
           (case send env \<lparr>rq_pin = pin, rq_bearer = token, rq_request = GetWs (Some d)\<rparr> answer p of
              (q, Inr (cert, exposed, (status, body))) \<Rightarrow>
                if status = 101 then (q, Inr ())
                else (q, Inl (WebSocketFailed (''failed to initiate WSS connection: '' @
                  pe_status_text env status)))
            | (q, Inl e) \<Rightarrow> (q, Inl (WebSocketFailed (''failed to initiate WSS connection: '' @
                display_control_failure e)))))))"

text \<open>
  The loop of an open socket: what its \<open>select!\<close> received, with the error of the reply it sends, if
  it has one. \<open>wl_listening\<close> is whether somebody still reads the events; \<open>wl_closed\<close> whether the
  close frame was sent.
\<close>

datatype link_input =
    FrameText "string + ws_event"
  | FrameClose
  | FrameError string
  | FrameOther
  | StreamEnded
  | CommandFrom ws_command "string option"
  | CommandsClosed
  | HeartbeatTick "string option"

record ws_link =
  wl_running :: bool
  wl_listening :: bool
  wl_events :: "(control_failure + ws_event) list"
  wl_frames :: "ws_command list"
  wl_closed :: bool

definition new_link :: ws_link where
  "new_link = \<lparr>wl_running = True, wl_listening = True, wl_events = [], wl_frames = [], wl_closed = False\<rparr>"

definition link_event :: "control_failure + ws_event \<Rightarrow> ws_link \<Rightarrow> ws_link" where
  "link_event e l = (if wl_listening l then l\<lparr>wl_events := wl_events l @ [e]\<rparr> else l)"

definition link_stop :: "ws_link \<Rightarrow> ws_link" where
  "link_stop l = l\<lparr>wl_running := False\<rparr>"

text \<open>An event nobody reads any more closes the socket.\<close>

definition link_forward :: "control_failure + ws_event \<Rightarrow> ws_link \<Rightarrow> ws_link" where
  "link_forward e l = (if wl_listening l then link_event e l else link_stop (l\<lparr>wl_closed := True\<rparr>))"

definition link_send :: "string \<Rightarrow> ws_command \<Rightarrow> string option \<Rightarrow> ws_link \<Rightarrow> ws_link" where
  "link_send what c err l = (case err of
       None \<Rightarrow> l\<lparr>wl_frames := wl_frames l @ [c]\<rparr>
     | Some e \<Rightarrow> link_stop (link_event (Inl (WebSocketFailed (what @ e))) l))"

definition link_step :: "link_input \<Rightarrow> ws_link \<Rightarrow> ws_link" where
  "link_step i l = (if \<not> wl_running l then l else case i of
       StreamEnded \<Rightarrow> link_stop (link_event (Inl (ControlRejected ''WebSocket connection dropped'')) l)
     | FrameText (Inr e) \<Rightarrow> link_forward (Inr e) l
     | FrameText (Inl e) \<Rightarrow> link_forward (Inl (SerializationFailed e)) l
     | FrameClose \<Rightarrow> link_stop (link_event (Inl (ControlRejected ''WS Closed cleanly'')) l)
     | FrameError e \<Rightarrow> link_stop (link_event
         (Inl (WebSocketFailed (''WebSocket receive failed: '' @ e))) l)
     | FrameOther \<Rightarrow> l
     | CommandsClosed \<Rightarrow> link_stop (l\<lparr>wl_closed := True\<rparr>)
     | CommandFrom c err \<Rightarrow> link_send ''WebSocket send failed: '' c err l
     | HeartbeatTick err \<Rightarrow> link_send ''WebSocket heartbeat failed: '' WsHeartbeat err l)"

text \<open>Reading the next event: \<open>None\<close> while there is none and the loop still runs.\<close>

definition recv_event :: "ws_link \<Rightarrow> ws_link \<times> (control_failure + ws_event) option" where
  "recv_event l = (case wl_events l of
       e # es \<Rightarrow> (l\<lparr>wl_events := es\<rparr>, Some e)
     | [] \<Rightarrow> (l, if wl_running l then None
              else Some (Inl (ControlRejected ''Background WebSocket task terminated unexpectedly''))))"

definition send_disconnect_command :: "string option \<Rightarrow> ws_link \<Rightarrow> ws_link \<times> (control_failure + unit)" where
  "send_disconnect_command err l =
     (if wl_running l then (link_step (CommandFrom WsDisconnect err) l, Inr ())
      else (l, Inl (WebSocketFailed ''Background WebSocket task is disconnected'')))"

end
