(* ===== verification/Phone_Connect.thy ===== *)
theory Phone_Connect
  imports Phone_Client
begin

text \<open>
  What the phone's control client guarantees: where its tokens go, what it signs and which PCs it
  remembers, against any machine at the other end; and that pairing with a PC succeeds, both
  programs run together.
\<close>

section \<open>Fingerprints\<close>

lemma ascii_lower_idem [simp]: "ascii_lower (ascii_lower c) = ascii_lower c"
proof (cases "65 \<le> (of_char c :: nat) \<and> (of_char c :: nat) \<le> 90")
  case True
  then have "(of_char (char_of (of_char c + 32 :: nat) :: char) :: nat) = of_char c + 32"
    by (simp add: of_char_of)
  with True show ?thesis by (simp add: ascii_lower_def Let_def)
qed (auto simp: ascii_lower_def Let_def)

lemma lowercase_idem [simp]: "to_ascii_lowercase (to_ascii_lowercase s) = to_ascii_lowercase s"
  by (simp add: to_ascii_lowercase_def)

lemma length_lowercase [simp]: "length (to_ascii_lowercase s) = length s"
  by (simp add: to_ascii_lowercase_def)

lemma fingerprint_bytes_eq_iff [simp]: "fingerprint_bytes_eq l r \<longleftrightarrow> l = r"
proof -
  have "constant_time_eq l r = (l = r)" by (rule constant_time_eq_iff)
  then show ?thesis
    unfolding constant_time_eq_def fingerprint_bytes_eq_def by (auto split: if_splits)
qed

lemma client_config_pin: "client_config env (Some fp) = Inr pin \<Longrightarrow> pin = Some (to_ascii_lowercase fp)"
  by (auto simp: client_config_def normalize_fingerprint_def Let_def split: sum.splits option.splits if_splits)

lemma verify_server_cert_pin:
  "verify_server_cert env (Some fp) cert \<longleftrightarrow> sha256_fingerprint (pe_crypto env) cert = fp"
  by (auto simp: verify_server_cert_def)

text \<open>The fingerprint of a certificate as the phone stores it.\<close>

definition print_of :: "phone_env \<Rightarrow> bytes \<Rightarrow> string" where
  "print_of env cert = to_ascii_lowercase (sha256_fingerprint (pe_crypto env) cert)"

lemma verified_print:
  "verify_presence_certificate r (sha256_fingerprint (pe_crypto env) cert) = Inr fp \<Longrightarrow> fp = print_of env cert"
  by (auto simp: verify_presence_certificate_def eq_ignore_ascii_case_def print_of_def
      split: option.splits if_splits)

section \<open>Tokens go to their issuer\<close>

datatype phone_op =
    OpConnect "signer option" "string + bytes" connect_req "connect_round list"
  | OpDisconnect device_id peer_answer
  | OpSources peer_answer
  | OpChangeSource device_id audio_source peer_answer
  | OpChangeBitrate device_id "i32 option" peer_answer
  | OpProbe "device_id option" peer_answer
  | OpProcesses peer_answer
  | OpSocket "string option" "string option" device_id peer_answer

text \<open>A socket is opened with the credentials of the session (\<open>establish_websocket\<close>).\<close>

fun phone_do :: "phone_env \<Rightarrow> phone_op \<Rightarrow> phone_client \<Rightarrow> phone_client option" where
  "phone_do env (OpConnect sg nonce req ros) p = map_option fst (send_connect_request env sg nonce req ros p)"
| "phone_do env (OpDisconnect d a) p = Some (fst (send_disconnect_request env d a p))"
| "phone_do env (OpSources a) p = Some (fst (request_audio_sources env a p))"
| "phone_do env (OpChangeSource d s a) p = Some (fst (send_change_source_request env d s a p))"
| "phone_do env (OpChangeBitrate d b a) p = Some (fst (send_change_bitrate_request env d b a p))"
| "phone_do env (OpProbe d a) p = Some (fst (send_probe env d a p))"
| "phone_do env (OpProcesses a) p = Some (fst (request_process_list env a p))"
| "phone_do env (OpSocket ue he d a) p = (let credentials = session_credentials d p in
     Some (fst (ws_connect env ue he d (map_option cd_token credentials)
       (map_option cd_pc_fingerprint credentials) a p)))"

fun phone_run :: "phone_env \<Rightarrow> phone_op list \<Rightarrow> phone_client \<Rightarrow> phone_client option" where
  "phone_run env [] p = Some p"
| "phone_run env (op # ops) p = (case phone_do env op p of None \<Rightarrow> None | Some q \<Rightarrow> phone_run env ops q)"

definition new_client :: phone_client where
  "new_client = \<lparr>cl_credentials = None, cl_log = []\<rparr>"

definition issued_by :: "phone_env \<Rightarrow> string \<Rightarrow> string \<Rightarrow> phone_act list \<Rightarrow> bool" where
  "issued_by env token fp log \<longleftrightarrow> (\<exists>cert. TokenFrom cert token \<in> set log \<and> fp = print_of env cert)"

definition tokens_ok :: "phone_env \<Rightarrow> phone_client \<Rightarrow> bool" where
  "tokens_ok env p \<longleftrightarrow>
     (\<forall>c. cl_credentials p = Some c \<longrightarrow> issued_by env (cd_token c) (cd_pc_fingerprint c) (cl_log p)) \<and>
     (\<forall>cert rq token. Sent cert rq \<in> set (cl_log p) \<and> rq_bearer rq = Some token \<longrightarrow>
        issued_by env token (sha256_fingerprint (pe_crypto env) cert) (cl_log p))"

lemma issued_by_snoc: "issued_by env t fp log \<Longrightarrow> issued_by env t fp (log @ xs)"
  by (auto simp: issued_by_def)

lemma tokens_ok_new: "tokens_ok env new_client"
  by (simp add: tokens_ok_def new_client_def)

lemma credential_for_Some: "credential_for d p = Some c \<Longrightarrow> cl_credentials p = Some c"
  by (auto simp: credential_for_def split: option.splits if_splits)

lemma tokens_ok_log:
  "tokens_ok env p \<Longrightarrow> (\<And>cert rq t. x = Sent cert rq \<Longrightarrow> rq_bearer rq = Some t \<Longrightarrow>
     issued_by env t (sha256_fingerprint (pe_crypto env) cert) (cl_log p)) \<Longrightarrow> tokens_ok env (act x p)"
  by (auto simp: tokens_ok_def act_def intro: issued_by_snoc)

text \<open>A request whose bearer token, if any, belongs to the pinned certificate.\<close>

definition bearer_ok :: "phone_env \<Rightarrow> phone_request \<Rightarrow> phone_client \<Rightarrow> bool" where
  "bearer_ok env rq p \<longleftrightarrow> (\<forall>token. rq_bearer rq = Some token \<longrightarrow>
     (\<exists>fp. rq_pin rq = Some fp \<and> issued_by env token fp (cl_log p)))"

lemma tokens_ok_send:
  assumes "send env rq a p = (q, x)" and "tokens_ok env p" and "bearer_ok env rq p"
  shows "tokens_ok env q"
  using assms
  by (auto simp: send_def bearer_ok_def verify_server_cert_pin split: peer_answer.splits if_splits
      intro!: tokens_ok_log)

lemma bearer_ok_credential:
  assumes "tokens_ok env p" and "client_for env (credential_for d p) = Inr pin"
  shows "bearer_ok env \<lparr>rq_pin = pin, rq_bearer = map_option cd_token (credential_for d p),
    rq_request = r\<rparr> p"
proof (cases "credential_for d p")
  case None
  then show ?thesis by (simp add: bearer_ok_def)
next
  case (Some c)
  from Some assms(1) have "issued_by env (cd_token c) (cd_pc_fingerprint c) (cl_log p)"
    by (simp add: tokens_ok_def credential_for_Some)
  then have "issued_by env (cd_token c) (to_ascii_lowercase (cd_pc_fingerprint c)) (cl_log p)"
    by (auto simp: issued_by_def print_of_def)
  with assms(2) Some show ?thesis
    by (auto simp: bearer_ok_def client_for_def split: sum.splits dest!: client_config_pin)
qed

lemma tokens_ok_call:
  "tokens_ok env p \<Longrightarrow> tokens_ok env (fst (authorized_call env d r a p))"
  by (auto simp: authorized_call_def Let_def split: sum.splits prod.splits
      dest: tokens_ok_send [OF _ _ bearer_ok_credential])

lemma tokens_ok_forget: "tokens_ok env p \<Longrightarrow> tokens_ok env (p\<lparr>cl_credentials := None\<rparr>)"
  by (simp add: tokens_ok_def)

lemma tokens_ok_disconnect:
  "tokens_ok env p \<Longrightarrow> tokens_ok env (fst (send_disconnect_request env d a p))"
  using tokens_ok_call [of env p "Some d" "PostDisconnect d" a]
  by (auto simp: send_disconnect_request_def tokens_ok_forget split: sum.splits prod.splits)

text \<open>The ways a round of the connect loop can go.\<close>

lemma connect_step_cases:
  assumes "connect_step env sg ro run = Some (run', v)"
    and "send env \<lparr>rq_pin = cn_pin run, rq_bearer = None, rq_request = PostConnect (cn_request run)\<rparr>
      (ro_answer ro) (cn_client run) = (p, x)"
  obtains
    (failed) e where "run' = run\<lparr>cn_client := p\<rparr>" "v = Finish (Inl e)"
  | (challenged) cert r ch where
      "answer_challenge env sg cert r ch (print_of env cert) (run\<lparr>cn_client := p\<rparr>) = Some (run', v)"
      "pr_device_auth_challenge r = Some ch"
  | (accepted) cert r token g where
      "accept_session env sg cert r token g (print_of env cert) (ro_farewell ro) (run\<lparr>cn_client := p\<rparr>) = (run', v)"
      "pr_session_token r = Some token"
  | (waiting) r where "await_approval (ro_now ro) r (run\<lparr>cn_client := p\<rparr>) = (run', v)"
proof (cases x)
  case (Inl e)
  with assms failed show thesis by (auto simp: connect_step_def)
next
  case (Inr y)
  obtain cert exposed resp where y: "y = (cert, exposed, resp)" by (cases y)
  show thesis
  proof (cases "response_certificate_fingerprint env cert exposed")
    case (Inl reason)
    with assms y \<open>x = Inr y\<close> failed show thesis by (auto simp: connect_step_def Let_def)
  next
    case (Inr observed)
    then have obs: "observed = sha256_fingerprint (pe_crypto env) cert"
      by (auto simp: response_certificate_fingerprint_def split: if_splits)
    show thesis
      using assms y \<open>x = Inr y\<close> Inr failed challenged accepted waiting
      by (auto simp: connect_step_def Let_def obs split: sum.splits option.splits
          dest!: verified_print)
  qed
qed

lemma tokens_ok_plain:
  "tokens_ok env p \<Longrightarrow> (\<And>cert rq. x \<noteq> Sent cert rq) \<Longrightarrow> tokens_ok env (act x p)"
  by (rule tokens_ok_log) auto

text \<open>Answering a challenge: it is refused without a trace, or its transcript is signed.\<close>

lemma answer_challenge_cases:
  assumes answer: "answer_challenge env sg cert r ch fp run = Some (run', v)"
  obtains
    (refused) "run' = run" "v \<noteq> Again"
  | (signed) g auth t is_new confirmed where
      "sg = Some g" "cr_device_auth (cn_request run) = Some auth"
      "build_device_auth_transcript (cr_device_id (cn_request run)) (pr_device_id r) fp
         (ar_public_key auth) (ar_phone_nonce auth) (dc_challenge_id ch) (dc_challenge ch) = Some t"
      "confirm_pc g r ch fp (pairing_code (pe_crypto env) t) = Inr (is_new, confirmed)"
      "cn_client run' = act (Signed cert t) (if confirmed
         then act (Confirmed (pr_device_id r) fp (pairing_code (pe_crypto env) t)) (cn_client run)
         else cn_client run)"
      "cn_candidate run' = cn_candidate run \<or> is_new \<and> cn_candidate run' = Some (pr_device_id r, fp)"
      "cr_device_id (cn_request run') = cr_device_id (cn_request run)"
proof -
  show thesis
  proof (cases "eq_ignore_ascii_case (dc_pc_certificate_fingerprint ch) fp \<and> sg \<noteq> None \<and>
      cr_device_auth (cn_request run) \<noteq> None")
    case False
    with answer have "run' = run \<and> v \<noteq> Again"
      by (cases "cr_device_auth (cn_request run)"; cases sg)
        (auto simp: answer_challenge_def split: if_splits)
    with refused show thesis by blast
  next
    case True
    then obtain g auth where g: "sg = Some g" "cr_device_auth (cn_request run) = Some auth" by auto
    with True answer obtain t where t: "build_device_auth_transcript (cr_device_id (cn_request run))
        (pr_device_id r) fp (ar_public_key auth) (ar_phone_nonce auth) (dc_challenge_id ch)
        (dc_challenge ch) = Some t"
      by (auto simp: answer_challenge_def split: option.splits)
    show thesis
    proof (cases "confirm_pc g r ch fp (pairing_code (pe_crypto env) t)")
      case (Inl e)
      with answer refused g t True show thesis
        by (auto simp: answer_challenge_def Let_def split: if_splits)
    next
      case (Inr y)
      obtain n c where y: "y = (n, c)" by (cases y)
      show thesis
      proof (cases "dc_pairing_code ch = pairing_code (pe_crypto env) t")
        case False
        with answer refused g t True show thesis by (auto simp: answer_challenge_def Let_def)
      next
        case code: True
        show thesis
          by (rule signed [OF g t Inr [unfolded y]])
            (use answer g t True Inr y code in \<open>auto simp: answer_challenge_def Let_def
              split: sum.splits if_splits\<close>)
      qed
    qed
  qed
qed

lemma tokens_ok_accept:
  assumes "accept_session env sg cert r token g (print_of env cert) farewell run = (run', v)"
    and "tokens_ok env (cn_client run)"
  shows "tokens_ok env (cn_client run')"
proof -
  define p1 where "p1 = act (TokenFrom cert token) (cn_client run)
      \<lparr>cl_credentials := Some \<lparr>cd_device_id = cr_device_id (cn_request run), cd_token = token,
         cd_generation = g, cd_pc_device_id = pr_device_id r, cd_pc_fingerprint = print_of env cert\<rparr>\<rparr>"
  have "tokens_ok env (act (TokenFrom cert token) (cn_client run))"
    using assms(2) by (simp add: tokens_ok_plain)
  then have "tokens_ok env p1"
    by (auto simp: p1_def tokens_ok_def act_def issued_by_def)
  with assms(1) show ?thesis
    unfolding accept_session_def Let_def p1_def [symmetric]
    by (auto simp: tokens_ok_plain tokens_ok_disconnect split: option.splits sum.splits)
qed

lemma await_approval_client:
  "await_approval now r run = (run', v) \<Longrightarrow> cn_client run' = cn_client run"
  by (auto simp: await_approval_def Let_def split: option.splits if_splits)

lemma tokens_ok_step:
  assumes step: "connect_step env sg ro run = Some (run', v)" and ok: "tokens_ok env (cn_client run)"
  shows "tokens_ok env (cn_client run')"
proof -
  obtain p x where p: "send env \<lparr>rq_pin = cn_pin run, rq_bearer = None,
      rq_request = PostConnect (cn_request run)\<rparr> (ro_answer ro) (cn_client run) = (p, x)"
    by fastforce
  from tokens_ok_send [OF p ok] have "tokens_ok env p"
    by (simp add: bearer_ok_def)
  with step p show ?thesis
  proof (cases rule: connect_step_cases)
    case (challenged cert r ch)
    from this(1) \<open>tokens_ok env p\<close> show ?thesis
      by (cases rule: answer_challenge_cases) (auto simp: tokens_ok_plain)
  next
    case (accepted cert r token g)
    from tokens_ok_accept [OF this(1)] \<open>tokens_ok env p\<close> show ?thesis by simp
  qed (auto dest: await_approval_client)
qed

lemma tokens_ok_rounds:
  "connect_rounds env sg ros run = Some (run', v) \<Longrightarrow> tokens_ok env (cn_client run) \<Longrightarrow>
   tokens_ok env (cn_client run')"
  by (induction env sg ros run rule: connect_rounds.induct)
    (auto split: option.splits prod.splits verdict.splits dest: tokens_ok_step)

lemma connect_begin_run:
  "connect_begin env sg nonce req p = Inr run \<Longrightarrow>
   cn_client run = p \<and> cr_device_id (cn_request run) = cr_device_id req \<and> cn_candidate run = None \<and>
   cn_pin run = None \<and> cn_deadline run = None"
  by (auto simp: connect_begin_def Let_def split: if_splits option.splits sum.splits)

lemma tokens_ok_do:
  assumes "phone_do env op p = Some q" and "tokens_ok env p"
  shows "tokens_ok env q"
proof (cases op)
  case (OpConnect sg nonce req ros)
  with assms show ?thesis
    by (auto simp: send_connect_request_def split: sum.splits option.splits prod.splits
        dest!: tokens_ok_rounds dest: connect_begin_run)
next
  case (OpProbe d a)
  with assms show ?thesis
    by (auto simp: send_probe_def bearer_ok_def split: sum.splits prod.splits dest: tokens_ok_send)
next
  case (OpSocket ue he d a)
  have "bearer_ok env \<lparr>rq_pin = Some (to_ascii_lowercase (cd_pc_fingerprint c)),
      rq_bearer = Some (cd_token c), rq_request = GetWs (Some d)\<rparr> p"
    if "credential_for (Some d) p = Some c" for c
    using that assms(2)
    by (fastforce simp: tokens_ok_def bearer_ok_def issued_by_def print_of_def dest: credential_for_Some)
  moreover have "bearer_ok env \<lparr>rq_pin = pin, rq_bearer = None, rq_request = r\<rparr> p" for pin r
    by (simp add: bearer_ok_def)
  ultimately show ?thesis
    using OpSocket assms
    by (cases "credential_for (Some d) p")
      (auto simp: ws_connect_def session_credentials_def Let_def split: option.splits sum.splits
        prod.splits if_splits dest: tokens_ok_send dest!: client_config_pin)
next
  case (OpSources a)
  with assms tokens_ok_call [of env p None GetSources a] show ?thesis
    by (auto simp: request_audio_sources_def split: sum.splits prod.splits http_body.splits)
next
  case (OpChangeSource d s a)
  with assms tokens_ok_call [of env p "Some d" "PostChangeSource d s" a] show ?thesis
    by (auto simp: send_change_source_request_def split: sum.splits prod.splits)
next
  case (OpChangeBitrate d b a)
  with assms tokens_ok_call [of env p "Some d" "PostChangeBitrate d b" a] show ?thesis
    by (auto simp: send_change_bitrate_request_def split: sum.splits prod.splits)
next
  case (OpProcesses a)
  with assms tokens_ok_call [of env p None GetProcesses a] show ?thesis
    by (auto simp: request_process_list_def split: sum.splits prod.splits http_body.splits)
next
  case (OpDisconnect d a)
  with assms show ?thesis by (auto simp: tokens_ok_disconnect)
qed

lemma tokens_ok_run: "phone_run env ops p = Some q \<Longrightarrow> tokens_ok env p \<Longrightarrow> tokens_ok env q"
  by (induction env ops p rule: phone_run.induct) (auto split: option.splits dest: tokens_ok_do)

text \<open>
  C9: a token goes nowhere but to the PC that issued it. Whatever the client does and whatever
  machines it meets, when a request with a bearer token leaves the phone, the machine at the other
  end of the connection has a certificate with the fingerprint of one from which the phone received
  this very token.
\<close>

theorem token_goes_to_issuer:
  assumes "phone_run env ops new_client = Some p"
    and "Sent cert rq \<in> set (cl_log p)" and "rq_bearer rq = Some token"
  shows "\<exists>issuer. TokenFrom issuer token \<in> set (cl_log p) \<and>
    sha256_fingerprint (pe_crypto env) cert =
      to_ascii_lowercase (sha256_fingerprint (pe_crypto env) issuer)"
  using tokens_ok_run [OF assms(1) tokens_ok_new] assms(2, 3)
  by (fastforce simp: tokens_ok_def issued_by_def print_of_def)

section \<open>What is signed and remembered\<close>

text \<open>
  A signature over \<open>t\<close> made on a connection to \<open>cert\<close>: the transcript is for that certificate, and
  either the PC it names is remembered with this certificate or the user has confirmed the PC,
  the certificate and the code of this transcript.
\<close>

definition signed_for :: "phone_env \<Rightarrow> device_id \<Rightarrow> bytes \<Rightarrow> bytes \<Rightarrow> device_id \<Rightarrow> bool" where
  "signed_for env d cert t pcid \<longleftrightarrow>
     (\<exists>key nonce i ch. build_device_auth_transcript d pcid (print_of env cert) key nonce i ch = Some t)"

definition vouched :: "phone_env \<Rightarrow> device_id \<Rightarrow> phone_act list \<Rightarrow> device_id \<Rightarrow> string \<Rightarrow> bool" where
  "vouched env d log pcid fp \<longleftrightarrow>
     (\<exists>cert t. Signed cert t \<in> set log \<and> fp = print_of env cert \<and> signed_for env d cert t pcid \<and>
        Confirmed pcid fp (pairing_code (pe_crypto env) t) \<in> set log)"

definition pinned_to :: "signer \<Rightarrow> device_id \<Rightarrow> string \<Rightarrow> bool" where
  "pinned_to g pcid fp \<longleftrightarrow>
     (\<exists>stored. sg_trusted g pcid = Inr (Some stored) \<and> eq_ignore_ascii_case stored fp)"

definition log_ok :: "phone_env \<Rightarrow> signer \<Rightarrow> device_id \<Rightarrow> phone_act list \<Rightarrow> bool" where
  "log_ok env g d log \<longleftrightarrow>
     (\<forall>cert t. Signed cert t \<in> set log \<longrightarrow> (\<exists>pcid. signed_for env d cert t pcid \<and>
        (pinned_to g pcid (print_of env cert) \<or>
         sg_trusted g pcid = Inr None \<and>
           Confirmed pcid (print_of env cert) (pairing_code (pe_crypto env) t) \<in> set log))) \<and>
     (\<forall>pcid fp. Remembered pcid fp \<in> set log \<longrightarrow>
        sg_trusted g pcid = Inr None \<and> vouched env d log pcid fp)"

definition run_ok :: "phone_env \<Rightarrow> signer \<Rightarrow> device_id \<Rightarrow> connect_run \<Rightarrow> bool" where
  "run_ok env g d run \<longleftrightarrow> log_ok env g d (cl_log (cn_client run)) \<and>
     cr_device_id (cn_request run) = d \<and>
     (\<forall>pcid fp. cn_candidate run = Some (pcid, fp) \<longrightarrow>
        sg_trusted g pcid = Inr None \<and> vouched env d (cl_log (cn_client run)) pcid fp)"

lemma vouched_snoc: "vouched env d log pcid fp \<Longrightarrow> vouched env d (log @ xs) pcid fp"
  by (auto simp: vouched_def)

lemma log_ok_snoc:
  assumes "log_ok env g d log"
    and "\<And>cert t. x = Signed cert t \<Longrightarrow> \<exists>pcid. signed_for env d cert t pcid \<and>
        (pinned_to g pcid (print_of env cert) \<or> sg_trusted g pcid = Inr None \<and>
           Confirmed pcid (print_of env cert) (pairing_code (pe_crypto env) t) \<in> set log)"
    and "\<And>pcid fp. x = Remembered pcid fp \<Longrightarrow> sg_trusted g pcid = Inr None \<and> vouched env d log pcid fp"
  shows "log_ok env g d (log @ [x])"
  unfolding log_ok_def
proof (intro conjI allI impI)
  fix cert t assume "Signed cert t \<in> set (log @ [x])"
  then show "\<exists>pcid. signed_for env d cert t pcid \<and>
        (pinned_to g pcid (print_of env cert) \<or> sg_trusted g pcid = Inr None \<and>
           Confirmed pcid (print_of env cert) (pairing_code (pe_crypto env) t) \<in> set (log @ [x]))"
    using assms(1, 2) unfolding log_ok_def by fastforce
next
  fix pcid fp assume "Remembered pcid fp \<in> set (log @ [x])"
  then have "sg_trusted g pcid = Inr None \<and> vouched env d log pcid fp"
    using assms(1, 3) unfolding log_ok_def by auto
  then show "sg_trusted g pcid = Inr None" "vouched env d (log @ [x]) pcid fp"
    by (simp_all add: vouched_snoc)
qed

lemma cl_log_act [simp]: "cl_log (act x p) = cl_log p @ [x]"
  by (simp add: act_def)

lemma cl_credentials_act [simp]: "cl_credentials (act x p) = cl_credentials p"
  by (simp add: act_def)

text \<open>Requests leave the log in order: they neither sign nor remember.\<close>

lemma send_log: "send env rq a p = (q, x) \<Longrightarrow> cl_log q = cl_log p \<or> (\<exists>cert. cl_log q = cl_log p @ [Sent cert rq])"
  by (auto simp: send_def split: peer_answer.splits if_splits)

lemma call_log: "authorized_call env e r a p = (q, x) \<Longrightarrow>
    cl_log q = cl_log p \<or> (\<exists>cert rq. cl_log q = cl_log p @ [Sent cert rq])"
  by (auto simp: authorized_call_def Let_def split: sum.splits prod.splits dest!: send_log)

lemma disconnect_log: "send_disconnect_request env d a p = (q, x) \<Longrightarrow>
    cl_log q = cl_log p \<or> (\<exists>cert rq. cl_log q = cl_log p @ [Sent cert rq])"
  by (auto simp: send_disconnect_request_def split: sum.splits prod.splits dest!: call_log)

lemma confirm_pc_cases:
  "confirm_pc g r ch fp code = Inr (is_new, confirmed) \<Longrightarrow>
   (is_new \<longleftrightarrow> sg_trusted g (pr_device_id r) = Inr None) \<and>
   (is_new \<longrightarrow> confirmed) \<and> (\<not> is_new \<longrightarrow> pinned_to g (pr_device_id r) fp)"
  by (auto simp: confirm_pc_def pinned_to_def split: sum.splits if_splits option.splits bool.splits)

lemma run_ok_client:
  assumes "run_ok env g d run" and "cl_log p = cl_log (cn_client run) \<or>
      (\<exists>x. cl_log p = cl_log (cn_client run) @ [x] \<and> (\<forall>cert t. x \<noteq> Signed cert t) \<and>
        (\<forall>pcid fp. x \<noteq> Remembered pcid fp))"
  shows "run_ok env g d (run\<lparr>cn_client := p\<rparr>)"
  using assms(2)
proof
  assume "\<exists>x. cl_log p = cl_log (cn_client run) @ [x] \<and> (\<forall>cert t. x \<noteq> Signed cert t) \<and>
      (\<forall>pcid fp. x \<noteq> Remembered pcid fp)"
  then obtain x where x: "cl_log p = cl_log (cn_client run) @ [x]"
    "\<And>cert t. x \<noteq> Signed cert t" "\<And>pcid fp. x \<noteq> Remembered pcid fp" by blast
  have "log_ok env g d (cl_log (cn_client run) @ [x])"
    by (rule log_ok_snoc) (use assms(1) x(2, 3) in \<open>auto simp: run_ok_def\<close>)
  with assms(1) x(1) show ?thesis by (simp add: run_ok_def vouched_snoc)
qed (use assms(1) in \<open>simp add: run_ok_def\<close>)

lemma run_ok_answer:
  assumes answer: "answer_challenge env (Some g) cert r ch (print_of env cert) run = Some (run', v)"
    and ok: "run_ok env g d run"
  shows "run_ok env g d run'"
  using answer
proof (cases rule: answer_challenge_cases)
  case refused
  with ok show ?thesis by simp
next
  case (signed g' auth t is_new confirmed)
  define fp where "fp = print_of env cert"
  define code where "code = pairing_code (pe_crypto env) t"
  define log where "log = (if confirmed then cl_log (cn_client run) @ [Confirmed (pr_device_id r) fp code]
      else cl_log (cn_client run))"
  have log': "cl_log (cn_client run') = log @ [Signed cert t]"
    using signed by (simp add: log_def fp_def code_def)
  have d: "cr_device_id (cn_request run) = d" "log_ok env g d (cl_log (cn_client run))"
    using ok by (simp_all add: run_ok_def)
  have this_pc: "signed_for env d cert t (pr_device_id r)"
    using signed(3) d(1) unfolding signed_for_def by blast
  have who: "is_new \<longleftrightarrow> sg_trusted g (pr_device_id r) = Inr None" "is_new \<longrightarrow> confirmed"
    "\<not> is_new \<longrightarrow> pinned_to g (pr_device_id r) fp"
    using confirm_pc_cases [OF signed(4)] signed(1) by (auto simp: fp_def)
  have "log_ok env g d log"
    using d(2) by (auto simp: log_def intro: log_ok_snoc)
  then have "log_ok env g d (log @ [Signed cert t])"
  proof (rule log_ok_snoc)
    fix cert' t' assume "Signed cert t = Signed cert' t'"
    then show "\<exists>pcid. signed_for env d cert' t' pcid \<and> (pinned_to g pcid (print_of env cert') \<or>
        sg_trusted g pcid = Inr None \<and> Confirmed pcid (print_of env cert')
          (pairing_code (pe_crypto env) t') \<in> set log)"
      using this_pc who by (auto simp: log_def code_def fp_def intro!: exI [of _ "pr_device_id r"])
  qed simp
  moreover have "vouched env d (log @ [Signed cert t]) (pr_device_id r) fp" if is_new
    using that who this_pc unfolding vouched_def fp_def [symmetric] code_def [symmetric]
    by (intro exI [of _ cert] exI [of _ t]) (simp add: log_def fp_def code_def)
  moreover have "vouched env d (log @ [Signed cert t]) pcid x"
    if "vouched env d (cl_log (cn_client run)) pcid x" for pcid x
    using that by (auto simp: log_def intro!: vouched_snoc)
  ultimately show ?thesis
    using ok signed(6, 7) who(1) unfolding run_ok_def log' d fp_def by auto
qed

lemma run_ok_accept:
  assumes accept: "accept_session env (Some g) cert r token gen fp farewell run = (run', v)"
    and ok: "run_ok env g d run"
  shows "run_ok env g d run'"
proof -
  define p1 where "p1 = act (TokenFrom cert token) (cn_client run)
      \<lparr>cl_credentials := Some \<lparr>cd_device_id = cr_device_id (cn_request run), cd_token = token,
         cd_generation = gen, cd_pc_device_id = pr_device_id r, cd_pc_fingerprint = fp\<rparr>\<rparr>"
  define run1 where "run1 = run\<lparr>cn_client := p1, cn_candidate := None\<rparr>"
  have "run_ok env g d (run\<lparr>cn_client := p1\<rparr>)"
    by (rule run_ok_client [OF ok]) (simp add: p1_def)
  then have run1: "run_ok env g d run1" and
    cand: "cn_candidate run = Some (pcid, x) \<Longrightarrow> sg_trusted g pcid = Inr None \<and> vouched env d (cl_log p1) pcid x"
    for pcid x by (auto simp: run_ok_def run1_def)
  have "run_ok env g d (run1\<lparr>cn_client := fst (send_disconnect_request env e farewell p1)\<rparr>)" for e
    using disconnect_log [of env e farewell p1]
    by (cases "send_disconnect_request env e farewell p1")
      (intro run_ok_client [OF run1], auto simp: run1_def)
  moreover have "run_ok env g d (run1\<lparr>cn_client := act (Remembered pcid x) p1\<rparr>)"
    if "cn_candidate run = Some (pcid, x)" for pcid x
    using run1 cand [OF that] by (auto simp: run_ok_def run1_def intro: log_ok_snoc)
  moreover note run1
  ultimately show ?thesis
    using accept unfolding accept_session_def Let_def p1_def [symmetric] run1_def [symmetric]
    by (auto split: option.splits sum.splits)
qed

lemma run_ok_await: "await_approval now r run = (run', v) \<Longrightarrow> run_ok env g d run \<Longrightarrow> run_ok env g d run'"
  by (auto simp: await_approval_def run_ok_def Let_def split: option.splits if_splits)

lemma run_ok_step:
  assumes step: "connect_step env (Some g) ro run = Some (run', v)" and ok: "run_ok env g d run"
  shows "run_ok env g d run'"
proof -
  obtain p x where p: "send env \<lparr>rq_pin = cn_pin run, rq_bearer = None,
      rq_request = PostConnect (cn_request run)\<rparr> (ro_answer ro) (cn_client run) = (p, x)"
    by fastforce
  have "run_ok env g d (run\<lparr>cn_client := p\<rparr>)"
    using send_log [OF p] by (intro run_ok_client [OF ok]) auto
  with step p show ?thesis
    by (cases rule: connect_step_cases) (auto dest: run_ok_answer run_ok_accept run_ok_await)
qed

lemma run_ok_rounds:
  "connect_rounds env (Some g) ros run = Some (run', v) \<Longrightarrow> run_ok env g d run \<Longrightarrow> run_ok env g d run'"
  by (induction env "Some g" ros run rule: connect_rounds.induct)
    (auto split: option.splits prod.splits verdict.splits dest: run_ok_step)

lemma connect_log_ok:
  assumes "send_connect_request env (Some g) nonce req ros p = Some (q, v)" and "cl_log p = []"
  shows "log_ok env g (cr_device_id req) (cl_log q)"
proof (cases "connect_begin env (Some g) nonce req p")
  case (Inl e)
  with assms show ?thesis by (simp add: send_connect_request_def log_ok_def)
next
  case (Inr run)
  with assms connect_begin_run [OF Inr] have "run_ok env g (cr_device_id req) run"
    by (simp add: run_ok_def log_ok_def)
  with assms Inr show ?thesis
    by (auto simp: send_connect_request_def split: option.splits dest!: run_ok_rounds)
      (simp add: run_ok_def)
qed

text \<open>
  C10: a PC is remembered only with the user's consent, and never over another. If a connect stores
  the certificate of a PC, then no certificate was stored for that PC, the phone signed a challenge
  on a connection to exactly this certificate, and the user confirmed this PC, this certificate and
  the code computed from that challenge. And nothing is ever signed for a PC that is stored with a
  different certificate.
\<close>

theorem remembered_pc_was_confirmed:
  assumes "send_connect_request env (Some g) nonce req ros p = Some (q, v)" and "cl_log p = []"
  shows "(\<forall>pcid fp. Remembered pcid fp \<in> set (cl_log q) \<longrightarrow> sg_trusted g pcid = Inr None \<and>
      (\<exists>cert t. fp = print_of env cert \<and> Signed cert t \<in> set (cl_log q) \<and>
         signed_for env (cr_device_id req) cert t pcid \<and>
         Confirmed pcid fp (pairing_code (pe_crypto env) t) \<in> set (cl_log q))) \<and>
    (\<forall>cert t. Signed cert t \<in> set (cl_log q) \<longrightarrow> (\<exists>pcid.
       signed_for env (cr_device_id req) cert t pcid \<and>
       (\<forall>stored. sg_trusted g pcid = Inr (Some stored) \<longrightarrow>
          eq_ignore_ascii_case stored (print_of env cert))))"
  using connect_log_ok [OF assms]
  by (auto simp: log_ok_def vouched_def pinned_to_def) (metis sum.inject(2) option.inject option.distinct(1))+

section \<open>A relayed challenge\<close>

lemma verify_challenge_signed:
  assumes "verify_challenge c now d pcid fp auth m = Some (m', Inr v)"
  shows "\<exists>i ch t sig key. build_device_auth_transcript d pcid fp (ar_public_key auth)
      (ar_phone_nonce auth) i ch = Some t \<and>
    decode_device_public_key c (ar_public_key auth) = Inr key \<and> p256_verify c key t sig"
  using assms
  by (auto simp: verify_challenge_def verify_device_auth_signature_def Let_def
      split: option.splits if_splits sum.splits)

lemma signed_for_unique:
  "build_device_auth_transcript d pcid fp k n i ch = Some t \<Longrightarrow> signed_for env d' cert t pcid' \<Longrightarrow>
   d' = d \<and> pcid' = pcid \<and> fp = print_of env cert"
  unfolding signed_for_def build_device_auth_transcript_def
proof (elim exE)
  fix k' n' i' ch'
  assume "put_fields [DEVICE_AUTH_DOMAIN, as_bytes d, as_bytes pcid, as_bytes fp, as_bytes k,
      as_bytes n, as_bytes i, as_bytes ch] = Some t"
    and "put_fields [DEVICE_AUTH_DOMAIN, as_bytes d', as_bytes pcid', as_bytes (print_of env cert),
      as_bytes k', as_bytes n', as_bytes i', as_bytes ch'] = Some t"
  from put_fields_inj [OF this] show ?thesis by simp
qed

text \<open>
  C11: a challenge cannot be relayed. If nobody but the phone can sign with its key, and a PC accepts a
  signature of that key over its own challenge, then the phone made it on a connection to a machine
  with that PC's certificate and for the same device; and unless the phone has this PC stored with
  this certificate, its user confirmed the PC, the certificate and the code.
\<close>

theorem relay_is_rejected:
  assumes "send_connect_request env (Some g) nonce req ros p = Some (q, v)" and "cl_log p = []"
    and accepted: "verify_challenge c now d pcid fp auth m = Some (m', Inr ident)"
    and unforgeable: "\<And>key t sig. decode_device_public_key c (ar_public_key auth) = Inr key \<Longrightarrow>
      p256_verify c key t sig \<Longrightarrow> \<exists>cert. Signed cert t \<in> set (cl_log q)"
  shows "d = cr_device_id req \<and> (\<exists>cert t. Signed cert t \<in> set (cl_log q) \<and> fp = print_of env cert \<and>
    (pinned_to g pcid fp \<or> Confirmed pcid fp (pairing_code (pe_crypto env) t) \<in> set (cl_log q)))"
proof -
  from verify_challenge_signed [OF accepted] unforgeable obtain i ch t cert where
    t: "build_device_auth_transcript d pcid fp (ar_public_key auth) (ar_phone_nonce auth) i ch = Some t"
    and made: "Signed cert t \<in> set (cl_log q)" by blast
  from connect_log_ok [OF assms(1, 2)] made obtain pcid' where
    "signed_for env (cr_device_id req) cert t pcid'" and
    "pinned_to g pcid' (print_of env cert) \<or>
       Confirmed pcid' (print_of env cert) (pairing_code (pe_crypto env) t) \<in> set (cl_log q)"
    unfolding log_ok_def by blast
  with signed_for_unique [OF t this(1)] made show ?thesis by metis
qed

section \<open>A machine that asks for nothing\<close>

text \<open>
  C13: the stored certificate is only looked at when the machine asks for authentication. A machine
  with any certificate at all, which names itself like a stored PC and answers the first request
  with a token instead of a challenge, is accepted: the user is asked nothing, nothing is signed or
  compared with the stored certificate, and the phone keeps its token as the session with that PC.
\<close>

theorem unchallenged_session_accepted:
  assumes "sg_public_key g = Inr key"
    and "sg_trusted g (pr_device_id r) = Inr (Some stored)"
    and "\<not> eq_ignore_ascii_case stored (sha256_fingerprint (pe_crypto env) cert)"
    and "cr_device_auth req = None"
    and "pr_pc_certificate_fingerprint r = Some (sha256_fingerprint (pe_crypto env) cert)"
    and "pr_device_auth_challenge r = None" and "pr_session_token r = Some token"
    and "pr_session_generation r = Some gen"
    and "ro_answer ro = Serves cert True (200, BodyPresence r)"
  shows "\<exists>q. send_connect_request env (Some g) (Inr nonce) req [ro] p = Some (q, Finish (Inr r)) \<and>
    cl_credentials q = Some \<lparr>cd_device_id = cr_device_id req, cd_token = token, cd_generation = gen,
      cd_pc_device_id = pr_device_id r, cd_pc_fingerprint = print_of env cert\<rparr> \<and>
    (\<exists>rq. cl_log q = cl_log p @ [Sent cert rq, TokenFrom cert token])"
  using assms
  by (simp add: send_connect_request_def connect_begin_def connect_step_def send_def
      verify_server_cert_def response_certificate_fingerprint_def ensure_success_def
      verify_presence_certificate_def eq_ignore_ascii_case_def accept_session_def print_of_def Let_def)

section \<open>A concrete connect\<close>

text \<open>A phone pairs with \<open>desk\<close>: a challenge, then a token. The user confirms, the key store signs.\<close>

definition toy_env :: phone_env where
  "toy_env = \<lparr>pe_crypto = toy_crypto, pe_hex_decode = \<lambda>_. Some (replicate 32 0),
     pe_status_text = \<lambda>_. ''?'', pe_tls_error = ''tls'', pe_json_error = ''json''\<rparr>"

definition toy_signer :: "string option \<Rightarrow> signer" where
  "toy_signer stored = \<lparr>sg_public_key = Inr toy_key, sg_sign = \<lambda>_. Inr ''s'', sg_trusted = \<lambda>_. Inr stored,
     sg_confirm = \<lambda>_ _ _ _ _. Inr True, sg_remember = \<lambda>_ _. Inr ()\<rparr>"

definition toy_presence :: presence_response where
  "toy_presence = \<lparr>pr_device_id = ''desk'', pr_streamer_name = ''Desk'', pr_is_offline = False,
     pr_pc_network_link = None, pr_device_registered = None, pr_session_token = None,
     pr_session_generation = None, pr_pending_request_id = None, pr_device_auth_challenge = None,
     pr_pc_certificate_fingerprint = Some ''00'', pr_pc_output_volume = None\<rparr>"

definition toy_asks :: presence_response where
  "toy_asks = toy_presence\<lparr>pr_device_auth_challenge := Some \<lparr>dc_challenge_id = ''i'', dc_challenge = ''c'',
     dc_pc_certificate_fingerprint = ''00'', dc_pairing_code = ''000000'', dc_requires_approval = True,
     dc_expires_in_seconds = 90\<rparr>\<rparr>"

definition toy_grants :: presence_response where
  "toy_grants = toy_presence\<lparr>pr_session_token := Some ''t'', pr_session_generation := Some 1\<rparr>"

definition toy_round :: "presence_response \<Rightarrow> connect_round" where
  "toy_round r = \<lparr>ro_answer = Serves [1] True (200, BodyPresence r), ro_now = 0, ro_farewell = Unreachable []\<rparr>"

definition toy_log :: "bytes \<Rightarrow> phone_act list" where
  "toy_log t = [Confirmed ''desk'' ''00'' ''000000'', Signed [1] t, TokenFrom [1] ''t'', Remembered ''desk'' ''00'']"

lemma toy_code [simp]: "pairing_code toy_crypto t = ''000000''"
proof -
  have "show_nat6 0 = ''000000''" by code_simp
  moreover have "nat_of_be (replicate 4 0) = 0" by code_simp
  ultimately show ?thesis
    by (simp add: pairing_code_def toy_crypto_def Let_def)
qed

lemma toy_lower [simp]: "to_ascii_lowercase ''00'' = ''00''"
  by (simp add: to_ascii_lowercase_def ascii_lower_def)

lemma toy_print [simp]: "sha256_fingerprint toy_crypto cert = ''00''" "print_of toy_env cert = ''00''"
  by (simp_all add: sha256_fingerprint_def print_of_def toy_env_def) (simp_all add: toy_crypto_def)

lemma toy_pin [simp]: "client_config toy_env (Some ''00'') = Inr (Some ''00'')"
  by (simp add: client_config_def normalize_fingerprint_def toy_env_def)

definition toy_transcript_of :: bytes where
  "toy_transcript_of = the (build_device_auth_transcript ''phone'' ''desk'' ''00'' toy_key [CHR 0x01] ''i'' ''c'')"

lemma toy_transcript_of:
  "build_device_auth_transcript ''phone'' ''desk'' ''00'' toy_key [CHR 0x01] ''i'' ''c'' = Some toy_transcript_of"
  unfolding toy_transcript_of_def
  by (simp add: build_device_auth_transcript_def DEVICE_AUTH_DOMAIN_def toy_key_def)

lemma toy_connects:
  obtains q rq1 rq2 where
    "send_connect_request toy_env (Some (toy_signer None)) (Inr [1]) sample_request
       [toy_round toy_asks, toy_round toy_grants] new_client = Some (q, Finish (Inr toy_grants))"
    "cl_log q = [Sent [1] rq1, Confirmed ''desk'' ''00'' ''000000'', Signed [1] toy_transcript_of,
       Sent [1] rq2, TokenFrom [1] ''t'', Remembered ''desk'' ''00'']"
    "cl_credentials q = Some \<lparr>cd_device_id = ''phone'', cd_token = ''t'', cd_generation = 1,
       cd_pc_device_id = ''desk'', cd_pc_fingerprint = ''00''\<rparr>"
proof -
  have nonce: "b64_encode toy_crypto [1] = [CHR 0x01]"
    by (simp add: toy_crypto_def of_bytes_def char_of_def bit_0)
  have env: "pe_crypto toy_env = toy_crypto" by (simp add: toy_env_def)
  have req: "cr_device_id sample_request = ''phone''" "cr_device_auth sample_request = None"
    by (simp_all add: sample_request_def)
  show thesis
    by (rule that)
      (simp add: send_connect_request_def connect_begin_def toy_signer_def req env nonce Let_def
        connect_step_def send_def toy_round_def verify_server_cert_def response_certificate_fingerprint_def
        ensure_success_def toy_asks_def toy_grants_def toy_presence_def verify_presence_certificate_def
        eq_ignore_ascii_case_def answer_challenge_def toy_transcript_of confirm_pc_def
        accept_session_def new_client_def, simp, simp)
qed

text \<open>The witnesses of this theory.\<close>

theorem token_goes_to_issuer_witness:
  "\<exists>p rq. phone_run toy_env [OpConnect (Some (toy_signer None)) (Inr [1]) sample_request
       [toy_round toy_asks, toy_round toy_grants], OpSources (Serves [2] True (200, BodyEmpty))] new_client =
     Some p \<and> Sent [2] rq \<in> set (cl_log p) \<and> rq_bearer rq = Some ''t'' \<and>
     (\<exists>issuer. TokenFrom issuer ''t'' \<in> set (cl_log p))"
proof -
  obtain q rq1 rq2 where q: "send_connect_request toy_env (Some (toy_signer None)) (Inr [1]) sample_request
       [toy_round toy_asks, toy_round toy_grants] new_client = Some (q, Finish (Inr toy_grants))"
    "cl_credentials q = Some \<lparr>cd_device_id = ''phone'', cd_token = ''t'', cd_generation = 1,
       cd_pc_device_id = ''desk'', cd_pc_fingerprint = ''00''\<rparr>"
    by (rule toy_connects) blast
  define rq where "rq = \<lparr>rq_pin = Some ''00'', rq_bearer = Some ''t'', rq_request = GetSources\<rparr>"
  have "verify_server_cert toy_env (Some ''00'') [2]"
    by (simp add: verify_server_cert_def toy_env_def)
  then have "fst (request_audio_sources toy_env (Serves [2] True (200, BodyEmpty)) q) = act (Sent [2] rq) q"
    by (simp add: request_audio_sources_def authorized_call_def credential_for_def client_for_def q(2)
        send_def ensure_success_def Let_def rq_def)
  with q(1) have run: "phone_run toy_env [OpConnect (Some (toy_signer None)) (Inr [1]) sample_request
       [toy_round toy_asks, toy_round toy_grants], OpSources (Serves [2] True (200, BodyEmpty))] new_client =
     Some (act (Sent [2] rq) q)" by simp
  have sent: "Sent [2] rq \<in> set (cl_log (act (Sent [2] rq) q))" "rq_bearer rq = Some ''t''"
    by (simp_all add: rq_def)
  from token_goes_to_issuer [OF run sent] run sent show ?thesis by blast
qed

theorem remembered_pc_was_confirmed_witness:
  "\<exists>q. send_connect_request toy_env (Some (toy_signer None)) (Inr [1]) sample_request
       [toy_round toy_asks, toy_round toy_grants] new_client = Some (q, Finish (Inr toy_grants)) \<and>
     Remembered ''desk'' ''00'' \<in> set (cl_log q) \<and>
     (\<exists>t. Confirmed ''desk'' ''00'' (pairing_code (pe_crypto toy_env) t) \<in> set (cl_log q))"
proof -
  obtain q rq1 rq2 where q: "send_connect_request toy_env (Some (toy_signer None)) (Inr [1]) sample_request
       [toy_round toy_asks, toy_round toy_grants] new_client = Some (q, Finish (Inr toy_grants))"
    "cl_log q = [Sent [1] rq1, Confirmed ''desk'' ''00'' ''000000'', Signed [1] toy_transcript_of,
       Sent [1] rq2, TokenFrom [1] ''t'', Remembered ''desk'' ''00'']"
    by (rule toy_connects) blast
  have "cl_log new_client = []" by (simp add: new_client_def)
  from remembered_pc_was_confirmed [OF q(1) this] q show ?thesis by auto
qed

definition strict_crypto :: crypto where
  "strict_crypto = toy_crypto\<lparr>p256_verify := \<lambda>_ t _. t = toy_transcript_of\<rparr>"

definition strict_answer :: device_auth_request where
  "strict_answer = \<lparr>ar_public_key = toy_key, ar_phone_nonce = [CHR 0x01], ar_challenge_id = Some ''i'',
     ar_signature = Some ''s'', ar_phone_confirmation = Some True\<rparr>"

definition strict_table :: device_auth where
  "strict_table = default_device_auth\<lparr>da_challenges := [(''i'', \<lparr>pc_device_id = ''phone'',
     pc_pc_id = ''desk'', pc_fingerprint = ''00'', pc_public_key = toy_key,
     pc_phone_nonce = [CHR 0x01], pc_challenge = ''c'', pc_created_at = 0\<rparr>)]\<rparr>"

lemma strict_key: "decode_device_public_key strict_crypto toy_key = Inr (4 # replicate 64 0x6B)"
  by (simp add: decode_device_public_key_def strict_crypto_def toy_crypto_def toy_key_bytes)

lemma strict_accepts:
  "\<exists>m' ident. verify_challenge strict_crypto 0 ''phone'' ''desk'' ''00'' strict_answer strict_table =
     Some (m', Inr ident)"
proof -
  have "\<exists>fp. device_public_key_fingerprint strict_crypto toy_key = Inr fp"
    by (simp add: device_public_key_fingerprint_def strict_key)
  moreover have "verify_device_auth_signature strict_crypto toy_key ''s'' toy_transcript_of = Inr ()"
    by (simp add: verify_device_auth_signature_def strict_key)
      (simp add: strict_crypto_def toy_crypto_def)
  ultimately show ?thesis
    using toy_transcript_of
    by (auto simp: verify_challenge_def strict_answer_def strict_table_def prune_expired_def
        hm_retain_def hm_get_def since_def default_device_auth_def Let_def)
qed

theorem relay_is_rejected_witness:
  "\<exists>q. send_connect_request toy_env (Some (toy_signer None)) (Inr [1]) sample_request
       [toy_round toy_asks, toy_round toy_grants] new_client = Some (q, Finish (Inr toy_grants)) \<and>
     (\<exists>m' ident. verify_challenge strict_crypto 0 ''phone'' ''desk'' ''00'' strict_answer strict_table =
       Some (m', Inr ident)) \<and>
     (\<exists>cert t. Signed cert t \<in> set (cl_log q) \<and> print_of toy_env cert = ''00'')"
proof -
  obtain q rq1 rq2 where q: "send_connect_request toy_env (Some (toy_signer None)) (Inr [1]) sample_request
       [toy_round toy_asks, toy_round toy_grants] new_client = Some (q, Finish (Inr toy_grants))"
    "cl_log q = [Sent [1] rq1, Confirmed ''desk'' ''00'' ''000000'', Signed [1] toy_transcript_of,
       Sent [1] rq2, TokenFrom [1] ''t'', Remembered ''desk'' ''00'']"
    by (rule toy_connects) blast
  obtain m' ident where v: "verify_challenge strict_crypto 0 ''phone'' ''desk'' ''00'' strict_answer
      strict_table = Some (m', Inr ident)"
    using strict_accepts by blast
  have "\<exists>cert t. Signed cert t \<in> set (cl_log q) \<and> ''00'' = print_of toy_env cert \<and>
      (pinned_to (toy_signer None) ''desk'' ''00'' \<or>
       Confirmed ''desk'' ''00'' (pairing_code (pe_crypto toy_env) t) \<in> set (cl_log q))"
    using relay_is_rejected [OF q(1) _ v] q(2) by (auto simp: new_client_def strict_crypto_def)
  then have "\<exists>cert t. Signed cert t \<in> set (cl_log q) \<and> print_of toy_env cert = ''00''" by metis
  with q(1) v show ?thesis by blast
qed

theorem unchallenged_session_accepted_witness:
  "\<exists>q. send_connect_request toy_env (Some (toy_signer (Some ''ff''))) (Inr [1]) sample_request
       [toy_round toy_grants] new_client = Some (q, Finish (Inr toy_grants)) \<and>
     (\<exists>rq. cl_log q = [Sent [1] rq, TokenFrom [1] ''t''])"
proof -
  have "\<not> eq_ignore_ascii_case ''ff'' ''00''"
    by (simp add: eq_ignore_ascii_case_def) (simp add: to_ascii_lowercase_def ascii_lower_def)
  then show ?thesis
    using unchallenged_session_accepted [of "toy_signer (Some ''ff'')" toy_key toy_grants "''ff''" toy_env
        "[1]" sample_request "''t''" 1 "toy_round toy_grants" "[1]" new_client]
    by (auto simp: toy_signer_def toy_grants_def toy_presence_def sample_request_def toy_round_def
        toy_env_def new_client_def)
qed

end
