(* ===== verification/Phone_Pairing.thy ===== *)
theory Phone_Pairing
  imports Phone_Connect
begin

text \<open>
  The phone and the PC together: the connect loop of the phone against the endpoint of the PC, with
  the user of the PC answering the pairing dialog in between.
\<close>

section \<open>Both programs\<close>

datatype pair_event = PhoneAsks step_inputs nat | UserApproves nat string

text \<open>
  A phone with an open connection to the PC, whose certificate is \<open>cert\<close>: each request is answered
  by the PC's \<open>/connect\<close> endpoint, at the instant of the phone's clock given with it.
\<close>

fun pair_run ::
  "'a audio_ops \<Rightarrow> desk_config \<Rightarrow> http_env \<Rightarrow> phone_env \<Rightarrow> bytes \<Rightarrow> socket_addr \<Rightarrow> signer \<Rightarrow>
   pair_event list \<Rightarrow> connect_run \<Rightarrow> 'a desk \<Rightarrow> (connect_run \<times> 'a desk \<times> verdict) option" where
  "pair_run ops cfg he env cert peer g [] run s = Some (run, s, Again)"
| "pair_run ops cfg he env cert peer g (UserApproves now i # es) run s =
     pair_run ops cfg he env cert peer g es run (approval_answered now i True s)"
| "pair_run ops cfg he env cert peer g (PhoneAsks inp now # es) run s =
     (case http_connect ops cfg he inp Answers (cn_request run) peer None s of (t, resp) \<Rightarrow>
       (case connect_step env (Some g) \<lparr>ro_answer = Serves cert True resp, ro_now = now,
                ro_farewell = Unreachable []\<rparr> run of
          None \<Rightarrow> None
        | Some (run1, Again) \<Rightarrow> pair_run ops cfg he env cert peer g es run1 t
        | Some (run1, Finish v) \<Rightarrow> Some (run1, t, Finish v)))"

section \<open>The phone's steps\<close>

lemma connect_step_presence:
  assumes "verify_server_cert env (cn_pin run) cert" "200 \<le> st" "st < 300"
    and "pr_pc_certificate_fingerprint r = Some (sha256_fingerprint (pe_crypto env) cert)"
    and "to_ascii_lowercase (sha256_fingerprint (pe_crypto env) cert) = fp"
    and "run1 = run\<lparr>cn_client := act (Sent cert \<lparr>rq_pin = cn_pin run, rq_bearer = None,
      rq_request = PostConnect (cn_request run)\<rparr>) (cn_client run)\<rparr>"
  shows "connect_step env sg \<lparr>ro_answer = Serves cert True (st, BodyPresence r), ro_now = now,
      ro_farewell = fw\<rparr> run =
    (case pr_device_auth_challenge r of
       Some ch \<Rightarrow> answer_challenge env sg cert r ch fp run1
     | None \<Rightarrow> Some (case (pr_session_token r, pr_session_generation r) of
         (Some token, Some gen) \<Rightarrow> accept_session env sg cert r token gen fp fw run1
       | _ \<Rightarrow> await_approval now r run1))"
  using assms
  by (cases "pr_device_auth_challenge r"; cases "pr_session_token r"; cases "pr_session_generation r")
    (simp_all add: connect_step_def send_def response_certificate_fingerprint_def ensure_success_def
      verify_presence_certificate_def eq_ignore_ascii_case_def Let_def)

text \<open>A phone whose key store and user agree to everything, and that has not met this PC.\<close>

definition agreeable :: "phone_env \<Rightarrow> signer \<Rightarrow> string \<Rightarrow> device_id \<Rightarrow> bool" where
  "agreeable env g key pcid \<longleftrightarrow> sg_public_key g = Inr key \<and> sg_trusted g pcid = Inr None \<and>
     (\<forall>name fp code approval. sg_confirm g pcid name fp code approval = Inr True) \<and>
     (\<forall>t. \<exists>sig. sg_sign g t = Inr sig \<and> verify_device_auth_signature (pe_crypto env) key sig t = Inr ()) \<and>
     (\<forall>fp. sg_remember g pcid fp = Inr ())"

lemma phone_answers:
  assumes "agreeable env g key (pr_device_id r)"
    and "cr_device_auth (cn_request run) = Some auth"
    and "dc_pc_certificate_fingerprint ch = fp"
    and t: "build_device_auth_transcript (cr_device_id (cn_request run)) (pr_device_id r) fp
      (ar_public_key auth) (ar_phone_nonce auth) (dc_challenge_id ch) (dc_challenge ch) = Some t"
    and "dc_pairing_code ch = pairing_code (pe_crypto env) t"
    and pin: "client_config env (Some fp) = Inr pin"
  obtains sig where "verify_device_auth_signature (pe_crypto env) key sig t = Inr ()"
    and "answer_challenge env (Some g) cert r ch fp run = Some (run
      \<lparr>cn_client := act (Signed cert t) (act (Confirmed (pr_device_id r) fp
         (pairing_code (pe_crypto env) t)) (cn_client run)),
       cn_request := (cn_request run)\<lparr>cr_device_auth := Some (auth
         \<lparr>ar_challenge_id := Some (dc_challenge_id ch), ar_signature := Some sig,
          ar_phone_confirmation := Some True\<rparr>)\<rparr>,
       cn_pin := pin, cn_candidate := Some (pr_device_id r, fp)\<rparr>, Again)"
proof -
  from assms(1) obtain sig where sig: "sg_sign g t = Inr sig"
    "verify_device_auth_signature (pe_crypto env) key sig t = Inr ()"
    unfolding agreeable_def by blast
  have "confirm_pc g r ch fp (pairing_code (pe_crypto env) t) = Inr (True, True)"
    using assms(1) by (simp add: confirm_pc_def agreeable_def)
  then show thesis
    using that [OF sig(2)] assms(2-6) sig(1)
    by (simp add: answer_challenge_def eq_ignore_ascii_case_def Let_def)
qed

section \<open>The PC's steps\<close>

text \<open>An endpoint that answers a connect with success answers with the presence it was given.\<close>

definition stamped :: "desk_config \<Rightarrow> http_env \<Rightarrow> connect_req \<Rightarrow> socket_addr \<Rightarrow> presence_response \<Rightarrow> presence_response" where
  "stamped cfg he req peer p = p\<lparr>pr_pc_network_link := Some (he_link he (cr_mode req) (addr_ip peer)),
     pr_pc_certificate_fingerprint := Some (cf_fingerprint cfg)\<rparr>"

lemma http_connect_reply:
  assumes "dk_is_broadcasting s"
    and "handle_connect ops cfg inp (connect_command_of req peer None (dk_authorizer s)) s = Some (t, Inr p)"
  obtains st where "200 \<le> st" "st < 300"
    "http_connect ops cfg he inp Answers req peer None s = (t, st, BodyPresence (stamped cfg he req peer p))"
proof -
  have "dispatch ops cfg inp Answers (CmdConnect (connect_command_of req peer None (dk_authorizer s))) s =
      (t, Reply (ReplyPresence (Inr p)))"
    by (rule dispatch_Answers) (simp add: assms(2))
  with assms(1) show thesis
    by (intro that [of "if pr_session_token p = None \<and> pr_pending_request_id p \<noteq> None then 202 else 200"])
      (simp_all add: http_connect_def stamped_def Let_def)
qed

definition command_for :: "connect_req \<Rightarrow> socket_addr \<Rightarrow> connect_command" where
  "command_for req peer = connect_command_of req peer None default_authorizer"

lemma command_for: "connect_command_of req peer None a = command_for req peer"
  by (simp add: command_for_def connect_command_of_def authenticate_device_def bearer_token_def)

lemma command_for_fields [simp]:
  "cc_device_id (command_for req peer) = cr_device_id req"
  "cc_device_name (command_for req peer) = cr_device_name req"
  "\<not> cc_authorized (command_for req peer)"
  "cc_pending_request_id (command_for req peer) = cr_pending_request_id req"
  "cc_device_auth (command_for req peer) = cr_device_auth req"
  by (simp_all add: command_for_def connect_command_of_def authenticate_device_def bearer_token_def)

text \<open>A challenge can be drawn: the key and the nonce decode, there is randomness and room.\<close>

definition can_challenge ::
  "desk_config \<Rightarrow> step_inputs \<Rightarrow> device_auth \<Rightarrow> device_id \<Rightarrow> string \<Rightarrow> string \<Rightarrow> bool" where
  "can_challenge cfg inp m d key nonce \<longleftrightarrow> validate_device_public_key (cf_crypto cfg) key = Inr () \<and>
     (\<exists>bs. b64_decode (cf_crypto cfg) nonce = Inr bs \<and> length bs = 32) \<and>
     (\<exists>r16 r32. in_random16 inp = Inr r16 \<and> in_random32 inp = Inr r32 \<and>
        build_device_auth_transcript d (cf_streamer_id cfg) (cf_fingerprint cfg) key nonce
          (b64_encode (cf_crypto cfg) r16) (b64_encode (cf_crypto cfg) r32) \<noteq> None) \<and>
     length (da_challenges (prune_expired (in_now inp) m)) < MAX_PENDING_CHALLENGES"

lemma begin_succeeds:
  assumes "can_challenge cfg inp m d key nonce"
  shows "\<exists>m' ch t. begin_challenge (cf_crypto cfg) (in_random16 inp) (in_random32 inp) (in_now inp) d
      (cf_streamer_id cfg) (cf_fingerprint cfg) app key nonce m = Some (m', Inr ch) \<and>
    build_device_auth_transcript d (cf_streamer_id cfg) (cf_fingerprint cfg) key nonce
      (dc_challenge_id ch) (dc_challenge ch) = Some t \<and>
    dc_pairing_code ch = pairing_code (cf_crypto cfg) t \<and>
    dc_pc_certificate_fingerprint ch = cf_fingerprint cfg"
proof -
  obtain bs r16 r32 t where r: "in_random16 inp = Inr r16" "in_random32 inp = Inr r32"
    "b64_decode (cf_crypto cfg) nonce = Inr bs" "length bs = 32"
    and t: "build_device_auth_transcript d (cf_streamer_id cfg) (cf_fingerprint cfg) key nonce
      (b64_encode (cf_crypto cfg) r16) (b64_encode (cf_crypto cfg) r32) = Some t"
    using assms unfolding can_challenge_def by blast
  define ch where "ch = \<lparr>dc_challenge_id = b64_encode (cf_crypto cfg) r16,
    dc_challenge = b64_encode (cf_crypto cfg) r32,
    dc_pc_certificate_fingerprint = cf_fingerprint cfg, dc_pairing_code = pairing_code (cf_crypto cfg) t,
    dc_requires_approval = app, dc_expires_in_seconds = da_challenge_ttl m div secs 1\<rparr>"
  have "\<exists>m'. begin_challenge (cf_crypto cfg) (in_random16 inp) (in_random32 inp) (in_now inp) d
      (cf_streamer_id cfg) (cf_fingerprint cfg) app key nonce m = Some (m', Inr ch)"
    using assms r t
    by (simp add: begin_challenge_def can_challenge_def random_auth_value_def Let_def ch_def)
  with t show ?thesis by (auto simp: ch_def)
qed

lemma connect_begins:
  assumes "cr_pending_request_id req = None" "cr_device_auth req = Some auth"
    "ar_challenge_id auth = None" "ar_signature auth = None"
    and "begin_challenge (cf_crypto cfg) (in_random16 inp) (in_random32 inp) (in_now inp)
      (cr_device_id req) (cf_streamer_id cfg) (cf_fingerprint cfg)
      (\<not> is_trusted (cr_device_id req) (ar_public_key auth) (dk_trusted s))
      (ar_public_key auth) (ar_phone_nonce auth) (dk_device_auth s) = Some (m, Inr ch)"
  shows "handle_connect ops cfg inp (command_for req peer) s = Some (s\<lparr>dk_device_auth := m\<rparr>,
    Inr ((presence cfg inp (Some False))\<lparr>pr_device_auth_challenge := Some ch\<rparr>))"
  using assms by (simp add: handle_connect_def connect_gate_def gate_begin_def Let_def)

text \<open>A pairing request that waits for its user, opened at \<open>t0\<close> with the key \<open>key\<close>.\<close>

definition waiting_at :: "'a desk \<Rightarrow> string \<Rightarrow> device_id \<Rightarrow> string \<Rightarrow> nat \<Rightarrow> approval_status \<Rightarrow> bool" where
  "waiting_at s i d key t0 st \<longleftrightarrow> desk_ok s \<and> dk_is_broadcasting s \<and>
     ts_fingerprint (dk_trusted s) \<noteq> None \<and>
     (\<exists>ident. hm_get (da_pairings (dk_device_auth s)) i =
        Some \<lparr>pp_device_id = d, pp_identity = ident, pp_created_at = t0\<rparr> \<and> vi_public_key ident = key) \<and>
     hm_get (au_pending (dk_authorizer s)) i =
        Some \<lparr>pa_device_id = d, pa_status = st, pa_created_at = t0\<rparr> \<and>
     au_pending_ttl (dk_authorizer s) = PENDING_APPROVAL_TTL"

lemma connect_opens_pairing:
  assumes ok: "desk_ok s" "dk_is_broadcasting s" "ts_fingerprint (dk_trusted s) \<noteq> None"
      "au_pending_ttl (dk_authorizer s) = PENDING_APPROVAL_TTL"
    and req: "cr_pending_request_id req = None" "cr_device_auth req = Some auth"
      "ar_challenge_id auth = Some cid" "ar_phone_confirmation auth = Some True"
    and v: "verify_challenge (cf_crypto cfg) (in_now inp) (cr_device_id req) (cf_streamer_id cfg)
      (cf_fingerprint cfg) auth (dk_device_auth s) = Some (m, Inr ident)"
      "vi_public_key ident = ar_public_key auth"
    and r: "in_random_request inp = Inr bs"
  shows "\<exists>t. handle_connect ops cfg inp (command_for req peer) s = Some (t,
      Inr ((presence cfg inp (Some False))\<lparr>pr_pending_request_id := Some (hex_encode (cf_crypto cfg) bs)\<rparr>)) \<and>
    waiting_at t (hex_encode (cf_crypto cfg) bs) (cr_device_id req) (ar_public_key auth) (in_now inp)
      ApprovalPending"
proof -
  define a where "a = fst (create_pending (hex_encode (cf_crypto cfg)) (in_random_request inp)
      (in_now inp) (cr_device_id req) (dk_authorizer s))"
  have a: "create_pending (hex_encode (cf_crypto cfg)) (in_random_request inp) (in_now inp)
      (cr_device_id req) (dk_authorizer s) = (a, Inr (hex_encode (cf_crypto cfg) bs))"
    unfolding a_def using r by (simp add: create_pending_def pending_request_id_def Let_def)
  have "authorizer_ok a"
    unfolding a_def using ok(1) by (simp add: desk_ok_def)
  moreover have "hm_get (au_pending a) (hex_encode (cf_crypto cfg) bs) =
      Some \<lparr>pa_device_id = cr_device_id req, pa_status = ApprovalPending, pa_created_at = in_now inp\<rparr>"
    "au_pending_ttl a = PENDING_APPROVAL_TTL"
    unfolding a_def using r ok(4)
    by (simp_all add: create_pending_def pending_request_id_def prune_pending_def Let_def)
  moreover have "device_auth_ok m"
    using verify_challenge_ok [OF _ v(1)] ok(1) by (simp add: desk_ok_def)
  ultimately show ?thesis
    using assms a hold_pending_pairing_ok [of m]
    by (simp add: handle_connect_def connect_gate_def gate_verify_def gate_pair_def tray_def
        waiting_at_def desk_ok_def hold_pending_pairing_def Let_def)
qed

lemma pending_pairing_live:
  assumes "waiting_at s i d key t0 st" and "since now t0 \<le> PENDING_PAIRING_TTL"
  obtains ident where "pending_pairing_for now i d key (dk_device_auth s) =
      (prune_expired now (dk_device_auth s), Some ident)" "vi_public_key ident = key"
    "hm_get (da_pairings (prune_expired now (dk_device_auth s))) i =
      Some \<lparr>pp_device_id = d, pp_identity = ident, pp_created_at = t0\<rparr>"
proof -
  from assms(1) obtain ident where ident: "hm_get (da_pairings (dk_device_auth s)) i =
      Some \<lparr>pp_device_id = d, pp_identity = ident, pp_created_at = t0\<rparr>" "vi_public_key ident = key"
    and ok: "device_auth_ok (dk_device_auth s)"
    by (auto simp: waiting_at_def desk_ok_def)
  from pairings.live_kept [OF ok ident(1)] assms(2)
  have "hm_get (da_pairings (prune_expired now (dk_device_auth s))) i =
      Some \<lparr>pp_device_id = d, pp_identity = ident, pp_created_at = t0\<rparr>" by simp
  with ident(2) show thesis
    by (intro that) (simp_all add: pending_pairing_for_def Let_def)
qed

lemma pending_live:
  assumes "waiting_at s i d key t0 st" and "since now t0 \<le> PENDING_APPROVAL_TTL"
  shows "hm_get (au_pending (prune_pending now (dk_authorizer s))) i =
    Some \<lparr>pa_device_id = d, pa_status = st, pa_created_at = t0\<rparr>"
  using assms by (simp add: waiting_at_def prune_pending_def hm_get_retain desk_ok_def authorizer_ok_def)

lemma connect_polls:
  assumes w: "waiting_at s i d key t0 ApprovalPending" and live: "since (in_now inp) t0 \<le> PENDING_APPROVAL_TTL"
    and req: "cr_device_id req = d" "cr_pending_request_id req = Some i" "cr_device_auth req = Some auth"
      "ar_public_key auth = key"
  shows "\<exists>t. handle_connect ops cfg inp (command_for req peer) s = Some (t,
      Inr ((presence cfg inp (Some False))\<lparr>pr_pending_request_id := Some i\<rparr>)) \<and>
    waiting_at t i d key t0 ApprovalPending"
proof -
  have live': "since (in_now inp) t0 \<le> PENDING_PAIRING_TTL"
    using live by (simp add: PENDING_PAIRING_TTL_def PENDING_APPROVAL_TTL_def)
  obtain ident where p: "pending_pairing_for (in_now inp) i d key (dk_device_auth s) =
      (prune_expired (in_now inp) (dk_device_auth s), Some ident)" "vi_public_key ident = key"
    "hm_get (da_pairings (prune_expired (in_now inp) (dk_device_auth s))) i =
      Some \<lparr>pp_device_id = d, pp_identity = ident, pp_created_at = t0\<rparr>"
    by (rule pending_pairing_live [OF w live'])
  note st = pending_live [OF w live]
  have "au_pending_ttl (prune_pending (in_now inp) (dk_authorizer s)) = PENDING_APPROVAL_TTL"
    using w by (simp add: waiting_at_def prune_pending_def)
  then show ?thesis
    using w req p st
    by (simp add: handle_connect_def connect_gate_def gate_pending_def pending_status_def
        waiting_at_def desk_ok_def Let_def)
qed

lemma user_approves:
  assumes w: "waiting_at s i d key t0 ApprovalPending" and live: "since now t0 \<le> PENDING_APPROVAL_TTL"
  shows "waiting_at (approval_answered now i True s) i d key t0 Approved"
proof -
  define a where "a = fst (resolve_pending now i True (dk_authorizer s))"
  have "authorizer_ok a"
    unfolding a_def using w by (simp add: waiting_at_def desk_ok_def)
  moreover have "hm_get (au_pending a) i = Some \<lparr>pa_device_id = d, pa_status = Approved, pa_created_at = t0\<rparr>"
    "au_pending_ttl a = PENDING_APPROVAL_TTL"
    unfolding a_def using w pending_live [OF w live]
    by (simp_all add: resolve_pending_def prune_pending_def waiting_at_def Let_def)
  ultimately show ?thesis
    using w by (simp add: approval_answered_def waiting_at_def desk_ok_def flip: a_def)
qed

text \<open>A PC whose audio engine takes every subscription.\<close>

definition subscribes :: "'a audio_ops \<Rightarrow> bool" where
  "subscribes ops \<longleftrightarrow> (\<forall>d g addr src b a. snd (ao_subscribe ops d g addr src b a) = Inr ())"

lemma register_succeeds:
  assumes "subscribes ops"
  shows "\<exists>t. register_device ops now d g name addr peer tr src b s = (t, Inr ()) \<and>
    dk_authorizer t = dk_authorizer s \<and> dk_device_auth t = dk_device_auth s \<and>
    dk_trusted t = dk_trusted s"
proof -
  obtain a where "ao_subscribe ops d g (if is_loopback (addr_ip peer) then None else Some addr) src b
      (dk_audio s) = (a, Inr ())"
    using assms unfolding subscribes_def by (metis prod.collapse)
  then show ?thesis
    by (simp add: register_device_def audio_call_def notify_device_discovered_def notify_device_lost_def
        tray_def Let_def split: prod.splits registration_outcome.splits)
qed

lemma connect_completes:
  assumes w: "waiting_at s i d key t0 Approved" and live: "since (in_now inp) t0 \<le> PENDING_APPROVAL_TTL"
    and req: "cr_device_id req = d" "cr_pending_request_id req = Some i" "cr_device_auth req = Some auth"
      "ar_public_key auth = key"
    and inp: "in_random_token inp = Inr bs" "in_save_ok inp" and ops: "subscribes ops"
  shows "\<exists>t g. handle_connect ops cfg inp (command_for req peer) s = Some (t,
      Inr ((presence cfg inp (Some True))\<lparr>pr_session_token := Some (hex_encode (cf_crypto cfg) bs),
        pr_session_generation := Some g, pr_pending_request_id := Some i\<rparr>)) \<and>
    authenticate d (hex_encode (cf_crypto cfg) bs) (dk_authorizer t) =
      Some \<lparr>as_device_id = d, as_generation = g\<rparr> \<and>
    is_trusted d key (dk_trusted t)"
proof -
  have live': "since (in_now inp) t0 \<le> PENDING_PAIRING_TTL"
    using live by (simp add: PENDING_PAIRING_TTL_def PENDING_APPROVAL_TTL_def)
  obtain ident where p: "pending_pairing_for (in_now inp) i d key (dk_device_auth s) =
      (prune_expired (in_now inp) (dk_device_auth s), Some ident)" "vi_public_key ident = key"
    "hm_get (da_pairings (prune_expired (in_now inp) (dk_device_auth s))) i =
      Some \<lparr>pp_device_id = d, pp_identity = ident, pp_created_at = t0\<rparr>"
    by (rule pending_pairing_live [OF w live'])
  define s1 where "s1 = s\<lparr>dk_device_auth := prune_expired (in_now inp) (dk_device_auth s),
    dk_authorizer := prune_pending (in_now inp) (dk_authorizer s)\<rparr>"
  define g where "g = gen_next (au_next_generation (dk_authorizer s1))"
  define ps where "ps = \<lparr>ps_device_id = d, ps_token = hex_encode (cf_crypto cfg) bs, ps_generation = g\<rparr>"
  define s2 where "s2 = s1\<lparr>dk_authorizer := (dk_authorizer s1)\<lparr>au_next_generation := g\<rparr>\<rparr>"
  have gate: "connect_gate cfg inp (command_for req peer) s = Some (s1, GateProceed (Some i) (Some ident))"
    using req p pending_live [OF w live]
    by (simp add: connect_gate_def gate_pending_def pending_status_def s1_def Let_def)
  have prep: "prepare (hex_encode (cf_crypto cfg)) (in_random_token inp) d (dk_authorizer s1) =
      ((dk_authorizer s1)\<lparr>au_next_generation := g\<rparr>, Inr ps)"
    by (simp add: prepare_def inp g_def ps_def Let_def)
  from register_succeeds [OF ops, of "in_now inp" d g "cr_device_name req"
      "set_port AUDIO_UDP (cc_remote_addr (command_for req peer))" "cc_remote_addr (command_for req peer)"
      None "cc_source (command_for req peer)" "cc_bitrate (command_for req peer)" s2]
  obtain s3 where reg: "register_device ops (in_now inp) d g (cr_device_name req)
      (set_port AUDIO_UDP (cc_remote_addr (command_for req peer))) (cc_remote_addr (command_for req peer))
      None (cc_source (command_for req peer)) (cc_bitrate (command_for req peer)) s2 = (s3, Inr ())"
    and s3: "dk_trusted s3 = dk_trusted s" by (auto simp: s2_def s1_def)
  have bound: "ts_fingerprint (dk_trusted s3) \<noteq> None"
    using w by (simp add: s3 waiting_at_def)
  define t4 where "t4 = fst (trust_device True d (cr_device_name req) key (dk_trusted s3))"
  have saved: "trust_device True d (cr_device_name req) key (dk_trusted s3) = (t4, Inr ())"
    unfolding t4_def using bound by (simp add: trust_device_def save_state_def Let_def)
  have trusted: "is_trusted d key t4"
    unfolding t4_def using bound by (auto simp: trust_device_def save_state_def is_trusted_def Let_def)
  define s4 where "s4 = s3\<lparr>dk_trusted := t4\<rparr>"
  have "handle_connect ops cfg inp (command_for req peer) s = Some
     (forget_request (Some i) (s4\<lparr>dk_authorizer := fst (commit ps (dk_authorizer s4))\<rparr>),
      Inr ((presence cfg inp (Some True))\<lparr>pr_session_token := Some (hex_encode (cf_crypto cfg) bs),
        pr_session_generation := Some g, pr_pending_request_id := Some i\<rparr>))"
    using gate prep reg inp(2) p(2) saved
    by (simp add: handle_connect_def connect_start_def req remember_identity_def Let_def ps_def commit_def
        s4_def flip: s2_def)
  then show ?thesis
    using trusted
    by (simp add: forget_request_def commit_def ps_def authenticate_def s4_def remove_pending_def)
qed

section \<open>A whole pairing\<close>

definition pairing_setup ::
  "'a audio_ops \<Rightarrow> desk_config \<Rightarrow> phone_env \<Rightarrow> bytes \<Rightarrow> signer \<Rightarrow> string \<Rightarrow> 'a desk \<Rightarrow> bool" where
  "pairing_setup ops cfg env cert g key s \<longleftrightarrow> pe_crypto env = cf_crypto cfg \<and>
     cf_fingerprint cfg = sha256_fingerprint (cf_crypto cfg) cert \<and>
     to_ascii_lowercase (cf_fingerprint cfg) = cf_fingerprint cfg \<and>
     client_config env (Some (cf_fingerprint cfg)) = Inr (Some (cf_fingerprint cfg)) \<and>
     agreeable env g key (cf_streamer_id cfg) \<and> subscribes ops \<and>
     desk_ok s \<and> dk_is_broadcasting s \<and> ts_fingerprint (dk_trusted s) \<noteq> None \<and>
     au_pending_ttl (dk_authorizer s) = PENDING_APPROVAL_TTL \<and>
     da_challenge_ttl (dk_device_auth s) = CHALLENGE_TTL"

definition sent_run :: "bytes \<Rightarrow> connect_run \<Rightarrow> connect_run" where
  "sent_run cert run = run\<lparr>cn_client := act (Sent cert \<lparr>rq_pin = cn_pin run, rq_bearer = None,
     rq_request = PostConnect (cn_request run)\<rparr>) (cn_client run)\<rparr>"

lemma sent_run_fields [simp]:
  "cn_request (sent_run cert run) = cn_request run" "cn_pin (sent_run cert run) = cn_pin run"
  "cn_deadline (sent_run cert run) = cn_deadline run" "cn_candidate (sent_run cert run) = cn_candidate run"
  by (simp_all add: sent_run_def)

text \<open>One exchange: the PC's reply and what the phone makes of it.\<close>

lemma pair_asks:
  assumes pairs: "pairing_setup ops cfg env cert g key s0" and "dk_is_broadcasting s"
    and "verify_server_cert env (cn_pin run) cert"
    and "handle_connect ops cfg inp (command_for (cn_request run) peer) s = Some (t, Inr p)"
  shows "pair_run ops cfg he env cert peer g (PhoneAsks inp now # es) run s =
    (case (case pr_device_auth_challenge p of
        Some ch \<Rightarrow> answer_challenge env (Some g) cert (stamped cfg he (cn_request run) peer p) ch
          (cf_fingerprint cfg) (sent_run cert run)
      | None \<Rightarrow> Some (case (pr_session_token p, pr_session_generation p) of
          (Some token, Some gen) \<Rightarrow> accept_session env (Some g) cert
            (stamped cfg he (cn_request run) peer p) token gen (cf_fingerprint cfg) (Unreachable [])
            (sent_run cert run)
        | _ \<Rightarrow> await_approval now (stamped cfg he (cn_request run) peer p) (sent_run cert run))) of
       None \<Rightarrow> None
     | Some (run1, Again) \<Rightarrow> pair_run ops cfg he env cert peer g es run1 t
     | Some (run1, Finish v) \<Rightarrow> Some (run1, t, Finish v))"
proof -
  obtain st where st: "200 \<le> st" "st < 300"
    "http_connect ops cfg he inp Answers (cn_request run) peer None s =
       (t, st, BodyPresence (stamped cfg he (cn_request run) peer p))"
    using http_connect_reply [OF assms(2), of ops cfg inp "cn_request run" peer t p] assms(4)
    by (auto simp: command_for)
  have fp: "pr_pc_certificate_fingerprint (stamped cfg he (cn_request run) peer p) =
      Some (sha256_fingerprint (pe_crypto env) cert)"
    "to_ascii_lowercase (sha256_fingerprint (pe_crypto env) cert) = cf_fingerprint cfg"
    using pairs unfolding pairing_setup_def by (simp_all add: stamped_def) metis
  have fields: "pr_device_auth_challenge (stamped cfg he (cn_request run) peer p) = pr_device_auth_challenge p"
    "pr_session_token (stamped cfg he (cn_request run) peer p) = pr_session_token p"
    "pr_session_generation (stamped cfg he (cn_request run) peer p) = pr_session_generation p"
    by (simp_all add: stamped_def)
  show ?thesis
    unfolding pair_run.simps st(3) prod.case connect_step_presence [OF assms(3) st(1, 2) fp sent_run_def]
      fields by (rule refl)
qed

text \<open>The phone while the PC's user has not answered.\<close>

definition phone_waits :: "desk_config \<Rightarrow> connect_run \<Rightarrow> device_id \<Rightarrow> string \<Rightarrow> string \<Rightarrow> nat \<Rightarrow> bool" where
  "phone_waits cfg run d key i deadline \<longleftrightarrow> cr_device_id (cn_request run) = d \<and>
     cr_pending_request_id (cn_request run) = Some i \<and>
     (\<exists>auth. cr_device_auth (cn_request run) = Some auth \<and> ar_public_key auth = key) \<and>
     cn_pin run = Some (cf_fingerprint cfg) \<and>
     cn_candidate run = Some (cf_streamer_id cfg, cf_fingerprint cfg) \<and> cn_deadline run = Some deadline"

lemma pinned_cert:
  "pairing_setup ops cfg env cert g key s \<Longrightarrow> verify_server_cert env (Some (cf_fingerprint cfg)) cert"
  by (simp add: verify_server_cert_pin pairing_setup_def)

lemma phone_polls:
  assumes pairs: "pairing_setup ops cfg env cert g key s0"
    and "phone_waits cfg run d key i deadline" and "waiting_at s i d key t0 ApprovalPending"
    and "\<forall>(inp, now) \<in> set polls. since (in_now inp) t0 \<le> PENDING_APPROVAL_TTL \<and> now < deadline"
  shows "\<exists>run' s'. (\<forall>es. pair_run ops cfg he env cert peer g (map (\<lambda>(inp, now). PhoneAsks inp now) polls @ es) run s =
      pair_run ops cfg he env cert peer g es run' s') \<and>
    phone_waits cfg run' d key i deadline \<and> waiting_at s' i d key t0 ApprovalPending"
  using assms(2-)
proof (induction polls arbitrary: run s)
  case Nil
  then show ?case by auto
next
  case (Cons x polls)
  obtain inp now where x: "x = (inp, now)" by (cases x)
  from Cons.prems(1) obtain auth where req: "cr_device_id (cn_request run) = d"
    "cr_pending_request_id (cn_request run) = Some i" "cr_device_auth (cn_request run) = Some auth"
    "ar_public_key auth = key" "cn_pin run = Some (cf_fingerprint cfg)" "cn_deadline run = Some deadline"
    by (auto simp: phone_waits_def)
  have time: "since (in_now inp) t0 \<le> PENDING_APPROVAL_TTL" "now < deadline"
    using Cons.prems(3) by (simp_all add: x)
  from connect_polls [OF Cons.prems(2) time(1) req(1-4), of ops cfg peer] obtain t where
    h: "handle_connect ops cfg inp (command_for (cn_request run) peer) s = Some (t,
      Inr ((presence cfg inp (Some False))\<lparr>pr_pending_request_id := Some i\<rparr>))"
    and t: "waiting_at t i d key t0 ApprovalPending" by blast
  define run1 where "run1 = (sent_run cert run)\<lparr>cn_deadline := Some deadline,
    cn_request := (cn_request run)\<lparr>cr_pending_request_id := Some i\<rparr>\<rparr>"
  have on: "dk_is_broadcasting s" and pin: "verify_server_cert env (cn_pin run) cert"
    using Cons.prems(2) pinned_cert [OF pairs] by (simp_all add: waiting_at_def req(5))
  have "pair_run ops cfg he env cert peer g (PhoneAsks inp now # es) run s =
      pair_run ops cfg he env cert peer g es run1 t" for es
    by (subst pair_asks [OF pairs on pin h])
      (use time(2) in \<open>simp add: presence_def stamped_def await_approval_def req(6) run1_def\<close>)
  moreover have "phone_waits cfg run1 d key i deadline"
    using Cons.prems(1) by (simp add: phone_waits_def run1_def)
  from Cons.IH [OF this t] Cons.prems(3) obtain run' s' where
    "\<forall>es. pair_run ops cfg he env cert peer g (map (\<lambda>(inp, now). PhoneAsks inp now) polls @ es) run1 t =
      pair_run ops cfg he env cert peer g es run' s'"
    "phone_waits cfg run' d key i deadline" "waiting_at s' i d key t0 ApprovalPending" by auto
  ultimately show ?case by (auto simp: x)
qed

text \<open>
  C12: an honest pairing succeeds. A phone whose user and key store agree, meeting a PC it does not
  know, and a PC that is broadcasting, whose tables have room and whose user approves the request it
  shows, within their time limits and however often the phone asks meanwhile: the connect ends with a
  token that the PC accepts from this device, the PC trusts exactly the phone's key, and the phone has
  stored the PC with its certificate.
\<close>

theorem pairing_succeeds:
  assumes pairs: "pairing_setup ops cfg env cert g key s"
    and req: "cr_device_auth req = None" "cr_pending_request_id req = None"
    and run: "connect_begin env (Some g) (Inr nonce) req p = Inr run"
    and room: "can_challenge cfg inp1 (dk_device_auth s) (cr_device_id req) key (b64_encode (pe_crypto env) nonce)"
    and r2: "in_random_request inp2 = Inr rb" "since (in_now inp2) (in_now inp1) \<le> CHALLENGE_TTL"
    and polls: "\<forall>(inp, now) \<in> set polls.
      since (in_now inp) (in_now inp2) \<le> PENDING_APPROVAL_TTL \<and> now < now2 + CONNECT_TIMEOUT"
    and approved: "since u (in_now inp2) \<le> PENDING_APPROVAL_TTL"
    and r3: "since (in_now inp3) (in_now inp2) \<le> PENDING_APPROVAL_TTL" "in_random_token inp3 = Inr tb"
      "in_save_ok inp3"
  shows "\<exists>run' t r. pair_run ops cfg he env cert peer g
      (PhoneAsks inp1 now1 # PhoneAsks inp2 now2 # map (\<lambda>(inp, now). PhoneAsks inp now) polls @
       [UserApproves u (hex_encode (cf_crypto cfg) rb), PhoneAsks inp3 now3]) run s =
        Some (run', t, Finish (Inr r)) \<and>
    session_token (cr_device_id req) (cn_client run') = Some (hex_encode (cf_crypto cfg) tb) \<and>
    authenticate (cr_device_id req) (hex_encode (cf_crypto cfg) tb) (dk_authorizer t) \<noteq> None \<and>
    is_trusted (cr_device_id req) key (dk_trusted t) \<and>
    Remembered (cf_streamer_id cfg) (cf_fingerprint cfg) \<in> set (cl_log (cn_client run'))"
proof -
  define d i fp where "d = cr_device_id req" and "i = hex_encode (cf_crypto cfg) rb"
    and "fp = cf_fingerprint cfg"
  have P: "pe_crypto env = cf_crypto cfg" "client_config env (Some fp) = Inr (Some fp)"
    "agreeable env g key (cf_streamer_id cfg)" "subscribes ops" "desk_ok s" "dk_is_broadcasting s"
    "ts_fingerprint (dk_trusted s) \<noteq> None" "au_pending_ttl (dk_authorizer s) = PENDING_APPROVAL_TTL"
    "da_challenge_ttl (dk_device_auth s) = CHALLENGE_TTL"
    using pairs unfolding pairing_setup_def fp_def by blast+
  define auth where "auth = \<lparr>ar_public_key = key, ar_phone_nonce = b64_encode (pe_crypto env) nonce,
    ar_challenge_id = None, ar_signature = None, ar_phone_confirmation = None\<rparr>"
  have run_eq: "run = \<lparr>cn_client = p, cn_request = req\<lparr>cr_device_auth := Some auth\<rparr>, cn_pin = None,
      cn_deadline = None, cn_candidate = None\<rparr>"
    using run req P by (simp add: connect_begin_def agreeable_def auth_def Let_def)
  have on: "dk_is_broadcasting s" using P by simp
  obtain m ch t where b: "begin_challenge (cf_crypto cfg) (in_random16 inp1) (in_random32 inp1) (in_now inp1) d
      (cf_streamer_id cfg) fp (\<not> is_trusted d key (dk_trusted s)) key
      (b64_encode (pe_crypto env) nonce) (dk_device_auth s) = Some (m, Inr ch)"
    and t: "build_device_auth_transcript d (cf_streamer_id cfg) fp key (b64_encode (pe_crypto env) nonce)
      (dc_challenge_id ch) (dc_challenge ch) = Some t"
    and code: "dc_pairing_code ch = pairing_code (cf_crypto cfg) t" "dc_pc_certificate_fingerprint ch = fp"
    using begin_succeeds [OF room] unfolding d_def fp_def by blast
  define s1 where "s1 = s\<lparr>dk_device_auth := m\<rparr>"
  define pr1 where "pr1 = (presence cfg inp1 (Some False))\<lparr>pr_device_auth_challenge := Some ch\<rparr>"
  have h1: "handle_connect ops cfg inp1 (command_for (cn_request run) peer) s = Some (s1, Inr pr1)"
    unfolding s1_def pr1_def
    by (rule connect_begins [of _ auth])
      (use b req in \<open>simp_all add: run_eq auth_def d_def fp_def\<close>)
  define r1 where "r1 = stamped cfg he (cn_request run) peer pr1"
  have r1: "pr_device_id r1 = cf_streamer_id cfg" "pr_device_auth_challenge pr1 = Some ch"
    by (simp_all add: r1_def pr1_def stamped_def presence_def)
  obtain sig where sig: "verify_device_auth_signature (pe_crypto env) key sig t = Inr ()"
    and ans: "answer_challenge env (Some g) cert r1 ch fp (sent_run cert run) = Some (sent_run cert run
      \<lparr>cn_client := act (Signed cert t) (act (Confirmed (pr_device_id r1) fp
         (pairing_code (pe_crypto env) t)) (cn_client (sent_run cert run))),
       cn_request := (cn_request (sent_run cert run))\<lparr>cr_device_auth := Some (auth
         \<lparr>ar_challenge_id := Some (dc_challenge_id ch), ar_signature := Some sig,
          ar_phone_confirmation := Some True\<rparr>)\<rparr>,
       cn_pin := Some fp, cn_candidate := Some (pr_device_id r1, fp)\<rparr>, Again)"
    by (rule phone_answers [of env g key r1 "sent_run cert run" auth ch fp t "Some fp" cert])
      (use P code t in \<open>simp_all add: r1(1) run_eq auth_def d_def\<close>)
  define auth2 where "auth2 = auth\<lparr>ar_challenge_id := Some (dc_challenge_id ch), ar_signature := Some sig,
    ar_phone_confirmation := Some True\<rparr>"
  define run2 where "run2 = sent_run cert run
      \<lparr>cn_client := act (Signed cert t) (act (Confirmed (pr_device_id r1) fp
         (pairing_code (pe_crypto env) t)) (cn_client (sent_run cert run))),
       cn_request := (cn_request (sent_run cert run))\<lparr>cr_device_auth := Some auth2\<rparr>,
       cn_pin := Some fp, cn_candidate := Some (pr_device_id r1, fp)\<rparr>"
  have step1: "pair_run ops cfg he env cert peer g (PhoneAsks inp1 now1 # es) run s =
      pair_run ops cfg he env cert peer g es run2 s1" for es
  proof -
    have "verify_server_cert env (cn_pin run) cert" by (simp add: run_eq verify_server_cert_def)
    from pair_asks [OF pairs on this h1] show ?thesis
      by (simp add: r1(2) ans [unfolded r1_def fp_def] run2_def auth2_def r1_def fp_def)
  qed
  have req2: "cr_device_id (cn_request run2) = d" "cr_pending_request_id (cn_request run2) = None"
    "cr_device_auth (cn_request run2) = Some auth2" "cn_pin run2 = Some fp"
    "cn_candidate run2 = Some (cf_streamer_id cfg, fp)" "cn_deadline run2 = None"
    using req by (simp_all add: run2_def run_eq d_def r1(1))
  have "device_auth_ok (dk_device_auth s)" using P by (simp add: desk_ok_def)
  from honest_device_verifies [OF this b t sig [unfolded P(1)], of "in_now inp2" auth2] r2(2) P
  obtain m2 ident where v: "verify_challenge (cf_crypto cfg) (in_now inp2) d (cf_streamer_id cfg) fp auth2 m =
      Some (m2, Inr ident)" "vi_public_key ident = key"
    by (auto simp: auth2_def auth_def)
  have ok1: "desk_ok s1" "dk_is_broadcasting s1" "ts_fingerprint (dk_trusted s1) \<noteq> None"
    "au_pending_ttl (dk_authorizer s1) = PENDING_APPROVAL_TTL"
    using P begin_challenge_ok [OF \<open>device_auth_ok (dk_device_auth s)\<close> b] by (simp_all add: s1_def desk_ok_def)
  obtain s2 where h2: "handle_connect ops cfg inp2 (command_for (cn_request run2) peer) s1 = Some (s2,
      Inr ((presence cfg inp2 (Some False))\<lparr>pr_pending_request_id := Some i\<rparr>))"
    and s2: "waiting_at s2 i d key (in_now inp2) ApprovalPending"
    using connect_opens_pairing [OF ok1 req2(2, 3), of "dc_challenge_id ch" cfg inp2 m2 ident rb ops peer] v r2(1)
    by (auto simp: req2(1) auth2_def auth_def i_def fp_def s1_def)
  define run3 where "run3 = (sent_run cert run2)\<lparr>cn_deadline := Some (now2 + CONNECT_TIMEOUT),
    cn_request := (cn_request run2)\<lparr>cr_pending_request_id := Some i\<rparr>\<rparr>"
  have step2: "pair_run ops cfg he env cert peer g (PhoneAsks inp2 now2 # es) run2 s1 =
      pair_run ops cfg he env cert peer g es run3 s2" for es
  proof -
    have "verify_server_cert env (cn_pin run2) cert" using pinned_cert [OF pairs] by (simp add: req2(4) fp_def)
    from pair_asks [OF pairs ok1(2) this h2] show ?thesis
      by (simp add: presence_def stamped_def await_approval_def req2(6) run3_def CONNECT_TIMEOUT_def secs_def)
  qed
  have "phone_waits cfg run3 d key i (now2 + CONNECT_TIMEOUT)"
    using req2 by (simp add: phone_waits_def run3_def fp_def auth2_def auth_def)
  from phone_polls [OF pairs this s2 polls, of he peer] obtain run4 s4 where
    step3: "pair_run ops cfg he env cert peer g (map (\<lambda>(inp, now). PhoneAsks inp now) polls @ es) run3 s2 =
      pair_run ops cfg he env cert peer g es run4 s4"
    and run4: "phone_waits cfg run4 d key i (now2 + CONNECT_TIMEOUT)"
    and s4: "waiting_at s4 i d key (in_now inp2) ApprovalPending" for es
    by blast
  note s5 = user_approves [OF s4 approved]
  obtain auth4 where req4: "cr_device_id (cn_request run4) = d" "cr_pending_request_id (cn_request run4) = Some i"
    "cr_device_auth (cn_request run4) = Some auth4" "ar_public_key auth4 = key"
    "cn_pin run4 = Some fp" "cn_candidate run4 = Some (cf_streamer_id cfg, fp)"
    using run4 by (auto simp: phone_waits_def fp_def)
  have "subscribes ops" using P by simp
  from connect_completes [OF s5 r3(1) req4(1-4) r3(2, 3) this, of cfg peer] obtain t6 gen where
    h6: "handle_connect ops cfg inp3 (command_for (cn_request run4) peer) (approval_answered u i True s4) =
      Some (t6, Inr ((presence cfg inp3 (Some True))\<lparr>pr_session_token := Some (hex_encode (cf_crypto cfg) tb),
        pr_session_generation := Some gen, pr_pending_request_id := Some i\<rparr>))"
    and t6: "authenticate d (hex_encode (cf_crypto cfg) tb) (dk_authorizer t6) \<noteq> None"
      "is_trusted d key (dk_trusted t6)" by auto
  have on5: "dk_is_broadcasting (approval_answered u i True s4)" using s5 by (simp add: waiting_at_def)
  have pin4: "verify_server_cert env (cn_pin run4) cert" using pinned_cert [OF pairs] by (simp add: req4(5) fp_def)
  have remember: "sg_remember g (cf_streamer_id cfg) fp = Inr ()" using P by (simp add: agreeable_def)
  show ?thesis
    unfolding step1 step2 step3 i_def [symmetric] d_def [symmetric]
    using pair_asks [OF pairs on5 pin4 h6, of he now3 "[]"] t6 remember
    by (simp add: presence_def stamped_def accept_session_def req4 session_token_def credential_for_def
        act_def fp_def Let_def)
qed

definition honest_signer :: signer where
  "honest_signer = (toy_signer None)\<lparr>sg_sign := \<lambda>_. Inr [CHR 0x07]\<rparr>"

definition paired_cfg :: desk_config where
  "paired_cfg = sample_cfg\<lparr>cf_fingerprint := ''00''\<rparr>"

lemma paired_cfg_fields [simp]:
  "cf_fingerprint paired_cfg = ''00''" "cf_crypto paired_cfg = toy_crypto"
  "cf_streamer_id paired_cfg = ''desk''"
  by (simp_all add: paired_cfg_def sample_cfg_def)

lemma toy_env_crypto: "pe_crypto toy_env = toy_crypto"
  by (simp add: toy_env_def)

lemma sample_setup: "pairing_setup quiet_audio paired_cfg toy_env [1] honest_signer toy_key sample_desk"
proof -
  have "agreeable toy_env honest_signer toy_key ''desk''"
    using toy_signature by (simp add: agreeable_def honest_signer_def toy_signer_def toy_env_crypto)
  moreover have "subscribes quiet_audio"
    by (simp add: subscribes_def quiet_audio_def)
  moreover have "dk_is_broadcasting sample_desk" "ts_fingerprint (dk_trusted sample_desk) \<noteq> None"
    "au_pending_ttl (dk_authorizer sample_desk) = PENDING_APPROVAL_TTL"
    "da_challenge_ttl (dk_device_auth sample_desk) = CHALLENGE_TTL"
    by (simp_all add: sample_desk_def new_desk_def default_authorizer_def default_device_auth_def
        load_store_def sample_file_def)
  ultimately show ?thesis
    using sample_desk_ok by (simp add: pairing_setup_def toy_env_crypto)
qed

theorem pairing_succeeds_witness:
  "\<exists>run run' t r. connect_begin toy_env (Some honest_signer) (Inr (as_bytes toy_nonce)) sample_request new_client =
      Inr run \<and>
    pair_run quiet_audio paired_cfg sample_env toy_env [1] (SocketAddr (IpV4 10 0 0 2) 40000) honest_signer
      [PhoneAsks sample_inputs 0, PhoneAsks sample_inputs 0, PhoneAsks sample_inputs 1,
       UserApproves (secs 20) ''00'', PhoneAsks sample_inputs 2] run sample_desk = Some (run', t, Finish (Inr r)) \<and>
    is_trusted ''phone'' toy_key (dk_trusted t)"
proof -
  have req: "cr_device_auth sample_request = None" "cr_pending_request_id sample_request = None"
    "cr_device_id sample_request = ''phone''"
    by (simp_all add: sample_request_def)
  obtain run where run: "connect_begin toy_env (Some honest_signer) (Inr (as_bytes toy_nonce)) sample_request
      new_client = Inr run"
    by (simp add: connect_begin_def req honest_signer_def toy_signer_def Let_def)
  have nonce: "b64_encode toy_crypto (as_bytes toy_nonce) = toy_nonce"
    by (simp add: toy_crypto_def)
  have "validate_device_public_key toy_crypto toy_key = Inr ()"
    by (simp add: validate_device_public_key_def decode_device_public_key_def toy_crypto_def toy_key_bytes)
  moreover have "build_device_auth_transcript ''phone'' ''desk'' ''00'' toy_key toy_nonce
      (b64_encode toy_crypto (as_bytes ''i'')) (b64_encode toy_crypto (as_bytes ''c'')) \<noteq> None"
    by (simp add: build_device_auth_transcript_def DEVICE_AUTH_DOMAIN_def toy_key_def toy_nonce_def toy_crypto_def)
  ultimately have room: "can_challenge paired_cfg sample_inputs (dk_device_auth sample_desk)
      (cr_device_id sample_request) toy_key (b64_encode (pe_crypto toy_env) (as_bytes toy_nonce))"
    by (simp add: can_challenge_def toy_env_crypto nonce req sample_inputs_def sample_desk_def new_desk_def
        default_device_auth_def prune_expired_def hm_retain_def MAX_PENDING_CHALLENGES_def)
      (simp add: toy_crypto_def toy_nonce_def)
  have inputs: "in_random_request sample_inputs = Inr (as_bytes ''r'')" "in_random_token sample_inputs = Inr (as_bytes ''t'')"
    "in_save_ok sample_inputs" "in_now sample_inputs = secs 10"
    by (simp_all add: sample_inputs_def)
  have hex: "hex_encode toy_crypto bs = ''00''" for bs
    by (simp add: toy_crypto_def)
  from pairing_succeeds [OF sample_setup req(1, 2) run room inputs(1), of "[(sample_inputs, 1)]" 0 "secs 20"
      sample_inputs "as_bytes ''t''" sample_env "SocketAddr (IpV4 10 0 0 2) 40000" 0 2]
  show ?thesis
    using run inputs
    by (auto simp: hex req(3) since_def secs_def CHALLENGE_TTL_def PENDING_APPROVAL_TTL_def CONNECT_TIMEOUT_def)
qed

end
