(* ===== verification/Phone_Session.thy ===== *)
theory Phone_Session
  imports Phone_Pairing Float_Order
begin

text \<open>
  The phone's session: the volume mix (\<open>services/audio/volume.rs\<close>), the session manager with the
  tasks it spawns and aborts (\<open>adapters/session_manager.rs\<close>), the clients it keeps per PC
  (\<open>adapters/streamer_control.rs\<close>) and the audio service over them (\<open>services/audio/service.rs\<close>).

  A task of the runtime is an entry of \<open>ph_tasks\<close> as long as it runs: it leaves when it returns or
  is aborted, and its steps do nothing once it has left. A handle is the number of a task. Numbers
  are not used twice.
\<close>

section \<open>The volume mix\<close>

record volume_mix =
  vm_user_gain :: f32
  vm_match_pc :: bool
  vm_pc_level :: "f32 option"

definition f32_unity :: f32 where "f32_unity = 0x3F800000"

definition default_mix :: volume_mix where
  "default_mix = \<lparr>vm_user_gain = f32_unity, vm_match_pc = False, vm_pc_level = None\<rparr>"

text \<open>\<open>level.clamp(0.0, 1.0)\<close>\<close>

definition clamp_unit :: "f32 \<Rightarrow> f32" where
  "clamp_unit a = (if f32_lt a f32_0 then f32_0 else if f32_lt f32_unity a then f32_unity else a)"

lemma clamp_unit: "f32_clamp f32_0 f32_unity a = Some (clamp_unit a)"
proof -
  have "f32_key f32_0 = 0" "0 \<le> f32_key f32_unity" "\<not> f32_is_nan f32_0" "\<not> f32_is_nan f32_unity"
    by (simp_all add: f32_key_def f32_units_def f32_mant_def f32_frac_def f32_exp_def f32_is_nan_def
        f32_is_inf_def f32_sign_def f32_0_def f32_unity_def)
  then have "f32_le f32_0 f32_unity" by (simp add: f32_le_key)
  then show ?thesis by (simp add: f32_clamp_def clamp_unit_def)
qed

definition mix_effective :: "volume_mix \<Rightarrow> f32" where
  "mix_effective m =
     (if \<not> vm_match_pc m then vm_user_gain m
      else case vm_pc_level m of
        Some level \<Rightarrow> f32_mul (vm_user_gain m) (clamp_unit level) | None \<Rightarrow> vm_user_gain m)"

section \<open>State\<close>

text \<open>
  A playback task that was told to shut down is marked. A probe task shares the heartbeat counter
  of its session, named by the session's playback task. The WebSocket task has the delays it still
  has to use, the current one first, and whether its socket is open.
\<close>

record link_recovery =
  lr_ip :: ip_addr
  lr_device :: device_id
  lr_started :: nat
  lr_next_tick :: nat
  lr_interval :: nat
  lr_budget :: nat
  lr_attempts :: nat

datatype phone_task =
    PlaybackTask bool
  | ProbeTask ip_addr device_id nat "u64 option"
  | WsTask ip_addr device_id "nat list" bool
  | RecoveryTask link_recovery

record session_params =
  sp_jitter_config :: jitter_config
  sp_is_tcp :: bool
  sp_exclusive_mode :: bool
  sp_target_ip :: "ip_addr option"
  sp_mode :: connection_mode
  sp_device_id :: device_id
  sp_bitrate :: "i32 option"
  sp_session_token :: "string option"
  sp_session_generation :: "generation option"
  sp_network_link :: network_link

record active_session =
  sn_exclusive_mode :: bool
  sn_exclusive_granted :: bool
  sn_mode :: connection_mode
  sn_bitrate :: "i32 option"
  sn_user_wants_playing :: bool
  sn_volume :: f32
  sn_jitter_config :: jitter_config
  sn_playback_task :: nat
  sn_probe_task :: "nat option"
  sn_target_ip :: "ip_addr option"
  sn_device_id :: device_id
  sn_network_link :: network_link
  sn_session_token :: "string option"
  sn_session_generation :: "generation option"

datatype playback_state = Playing | Paused | Stopped

datatype frontend_event =
    LinkLost
  | LinkRecovered "bool option"
  | LinkRecoveryGaveUp
  | PlaybackError string
  | WsClosed
  | WsFailed string
  | PcVolumeChanged f32

record phone_app =
  ph_clients :: "(ip_addr, phone_client) hash_map"
  ph_session :: "active_session option"
  ph_ws_task :: "nat option"
  ph_recovery :: "nat option"
  ph_tasks :: "(nat, phone_task) hash_map"
  ph_next_task :: nat
  ph_epochs :: "(nat, u64) hash_map"
  ph_link_pair :: "link_pair option"
  ph_mix :: volume_mix
  ph_streaming :: bool
  ph_flag :: bool
  ph_service :: "playback_state \<times> bool"
  ph_events :: "frontend_event list"

definition new_phone :: phone_app where
  "new_phone = \<lparr>ph_clients = [], ph_session = None, ph_ws_task = None, ph_recovery = None,
     ph_tasks = [], ph_next_task = 0, ph_epochs = [], ph_link_pair = None, ph_mix = default_mix,
     ph_streaming = False, ph_flag = False, ph_service = (Stopped, False), ph_events = []\<rparr>"

section \<open>Tasks, events and clients\<close>

definition spawn :: "phone_task \<Rightarrow> phone_app \<Rightarrow> phone_app \<times> nat" where
  "spawn k a = (a\<lparr>ph_tasks := hm_insert (ph_next_task a) k (ph_tasks a),
                  ph_next_task := Suc (ph_next_task a)\<rparr>, ph_next_task a)"

text \<open>A task that was aborted or has returned.\<close>

definition task_ends :: "nat \<Rightarrow> phone_app \<Rightarrow> phone_app" where
  "task_ends t a = a\<lparr>ph_tasks := hm_remove t (ph_tasks a)\<rparr>"

definition task_goes_on :: "nat \<Rightarrow> phone_task \<Rightarrow> phone_app \<Rightarrow> phone_app" where
  "task_goes_on t k a = a\<lparr>ph_tasks := hm_insert t k (ph_tasks a)\<rparr>"

definition notify :: "frontend_event \<Rightarrow> phone_app \<Rightarrow> phone_app" where
  "notify e a = a\<lparr>ph_events := ph_events a @ [e]\<rparr>"

definition client_at :: "ip_addr \<Rightarrow> phone_app \<Rightarrow> phone_client" where
  "client_at ip a = (case hm_get (ph_clients a) ip of
       Some c \<Rightarrow> c | None \<Rightarrow> \<lparr>cl_credentials = None, cl_log = []\<rparr>)"

definition put_client :: "ip_addr \<Rightarrow> phone_client \<Rightarrow> phone_app \<Rightarrow> phone_app" where
  "put_client ip c a = a\<lparr>ph_clients := hm_insert ip c (ph_clients a)\<rparr>"

text \<open>A call through the client of a PC.\<close>

definition with_client ::
  "ip_addr \<Rightarrow> (phone_client \<Rightarrow> phone_client \<times> (control_failure + 'r)) \<Rightarrow> phone_app \<Rightarrow>
   phone_app \<times> (string + 'r)" where
  "with_client ip f a = (case f (client_at ip a) of
       (c, Inl e) \<Rightarrow> (put_client ip c a, Inl (display_control_failure e))
     | (c, Inr r) \<Rightarrow> (put_client ip c a, Inr r))"

section \<open>The session manager\<close>

definition session_set_volume :: "f32 \<Rightarrow> phone_app \<Rightarrow> phone_app" where
  "session_set_volume v a = a\<lparr>ph_session := map_option (\<lambda>s. s\<lparr>sn_volume := v\<rparr>) (ph_session a)\<rparr>"

definition session_update_jitter_config :: "jitter_config \<Rightarrow> phone_app \<Rightarrow> phone_app" where
  "session_update_jitter_config c a =
     a\<lparr>ph_session := map_option (\<lambda>s. s\<lparr>sn_jitter_config := c\<rparr>) (ph_session a)\<rparr>"

definition session_update_bitrate :: "i32 option \<Rightarrow> phone_app \<Rightarrow> phone_app" where
  "session_update_bitrate b a =
     a\<lparr>ph_session := map_option (\<lambda>s. s\<lparr>sn_bitrate := b\<rparr>) (ph_session a)\<rparr>"

definition record_control_heartbeat :: "phone_app \<Rightarrow> phone_app" where
  "record_control_heartbeat a = (case ph_session a of
       None \<Rightarrow> a
     | Some s \<Rightarrow> (case hm_get (ph_epochs a) (sn_playback_task s) of
         None \<Rightarrow> a
       | Some n \<Rightarrow> a\<lparr>ph_epochs := hm_insert (sn_playback_task s) (n + 1) (ph_epochs a)\<rparr>))"

definition start_ws_client :: "nat \<Rightarrow> phone_app \<Rightarrow> phone_app" where
  "start_ws_client t a =
     (case ph_ws_task a of None \<Rightarrow> a | Some old \<Rightarrow> task_ends old a)\<lparr>ph_ws_task := Some t\<rparr>"

definition stop_ws_client :: "phone_app \<Rightarrow> phone_app" where
  "stop_ws_client a = (case ph_ws_task a of
       None \<Rightarrow> a | Some t \<Rightarrow> (task_ends t a)\<lparr>ph_ws_task := None\<rparr>)"

text \<open>A shutdown sender that sends or is dropped: the playback task, if it runs, will return.\<close>

definition tell_playback :: "nat \<Rightarrow> phone_app \<Rightarrow> phone_app" where
  "tell_playback t a = (case hm_get (ph_tasks a) t of
       Some (PlaybackTask told) \<Rightarrow> task_goes_on t (PlaybackTask True) a | _ \<Rightarrow> a)"

text \<open>\<open>closes\<close>: the playback task returned within the 1.5 s that \<open>stop_session\<close> waits for it.\<close>

definition close_session :: "bool \<Rightarrow> phone_app \<Rightarrow> phone_app" where
  "close_session closes a = (case ph_session a of
       None \<Rightarrow> a
     | Some s \<Rightarrow>
       (let a1 = a\<lparr>ph_session := None\<rparr>;
            a2 = (case sn_probe_task s of None \<Rightarrow> a1 | Some t \<Rightarrow> task_ends t a1);
            a3 = tell_playback (sn_playback_task s) a2 in
        if closes then task_ends (sn_playback_task s) a3 else a3))"

definition stop_session :: "bool \<Rightarrow> phone_app \<Rightarrow> phone_app" where
  "stop_session closes a = stop_ws_client (close_session closes a)"

text \<open>
  The rest of \<open>start_session\<close> once the player is open. A session that is still in the slot is
  dropped with its handles and its shutdown sender.
\<close>

definition install_session :: "session_params \<Rightarrow> bool \<Rightarrow> phone_app \<Rightarrow> phone_app" where
  "install_session sp granted a =
     (let (a1, playback) = spawn (PlaybackTask False) a;
          a2 = a1\<lparr>ph_epochs := hm_insert playback 0 (ph_epochs a1)\<rparr>;
          (a3, probe) = (case sp_target_ip sp of
              None \<Rightarrow> (a2, None)
            | Some ip \<Rightarrow>
              if is_loopback ip then (a2, None)
              else case spawn (ProbeTask ip (sp_device_id sp) playback None) a2 of (b, t) \<Rightarrow> (b, Some t));
          a4 = (case ph_session a3 of None \<Rightarrow> a3 | Some s \<Rightarrow> tell_playback (sn_playback_task s) a3) in
      a4\<lparr>ph_session := Some
        \<lparr>sn_exclusive_mode = sp_exclusive_mode sp, sn_exclusive_granted = granted,
         sn_mode = sp_mode sp, sn_bitrate = sp_bitrate sp, sn_user_wants_playing = True,
         sn_volume = f32_unity, sn_jitter_config = sp_jitter_config sp,
         sn_playback_task = playback, sn_probe_task = probe, sn_target_ip = sp_target_ip sp,
         sn_device_id = sp_device_id sp, sn_network_link = sp_network_link sp,
         sn_session_token = sp_session_token sp,
         sn_session_generation = sp_session_generation sp\<rparr>\<rparr>)"

text \<open>\<open>player\<close>: the error of opening the sound card, or whether exclusive mode was granted.\<close>

definition start_session ::
  "session_params \<Rightarrow> string + bool \<Rightarrow> bool \<Rightarrow> phone_app \<Rightarrow> phone_app \<times> (string + unit)" where
  "start_session sp player closes a =
     (let a1 = stop_session closes a in
      case player of
        Inl e \<Rightarrow> (a1, Inl e)
      | Inr granted \<Rightarrow> (install_session sp granted a1, Inr ()))"

text \<open>
  \<open>PlaybackControl::set_user_playing\<close>: the command reaches a worker that answers, a worker that
  drops it, or nobody.
\<close>

datatype control_answer = ChannelClosed | WorkerSays "string + unit" | WorkerGone

definition set_user_playing ::
  "bool \<Rightarrow> control_answer \<Rightarrow> active_session \<Rightarrow> active_session \<times> (audio_error + unit)" where
  "set_user_playing playing answer s = (case answer of
       ChannelClosed \<Rightarrow> (s, Inl PlaybackControlUnavailable)
     | WorkerSays (Inr _) \<Rightarrow> (s\<lparr>sn_user_wants_playing := playing\<rparr>, Inr ())
     | WorkerSays (Inl message) \<Rightarrow> (s, Inl (PlaybackControlFailed message))
     | WorkerGone \<Rightarrow> (s, Inl PlaybackControlUnavailable))"

definition control_playback ::
  "bool \<Rightarrow> control_answer \<Rightarrow> phone_app \<Rightarrow> phone_app \<times> (string + unit)" where
  "control_playback playing answer a = (case ph_session a of
       None \<Rightarrow> (a, Inl ''No active session'')
     | Some s \<Rightarrow> (case set_user_playing playing answer s of
         (s', Inl e) \<Rightarrow> (a\<lparr>ph_session := Some s'\<rparr>, Inl (display_audio_error e))
       | (s', Inr _) \<Rightarrow> (a\<lparr>ph_session := Some s'\<rparr>, Inr ())))"

text \<open>\<open>set_playing\<close> only logs what goes wrong.\<close>

definition set_playing :: "bool \<Rightarrow> control_answer \<Rightarrow> phone_app \<Rightarrow> phone_app" where
  "set_playing playing answer a = fst (control_playback playing answer a)"

text \<open>One tick of the probe loop, or its first poll, which only reads the counter.\<close>

definition probe_tick :: "phone_env \<Rightarrow> nat \<Rightarrow> peer_answer \<Rightarrow> phone_app \<Rightarrow> phone_app" where
  "probe_tick env t answer a = (case hm_get (ph_tasks a) t of
       Some (ProbeTask ip d cell observed) \<Rightarrow>
         (let current = (case hm_get (ph_epochs a) cell of Some n \<Rightarrow> n | None \<Rightarrow> 0) in
          if observed \<noteq> Some current
          then task_goes_on t (ProbeTask ip d cell (Some current)) a
          else fst (with_client ip (send_probe env (Some d) answer) a))
     | _ \<Rightarrow> a)"

text \<open>The playback task returns by itself, with the error it ended with.\<close>

datatype playback_end = EndsQuietly | EndsLinkLost | EndsWith string

definition playback_ends :: "nat \<Rightarrow> playback_end \<Rightarrow> phone_app \<Rightarrow> phone_app" where
  "playback_ends t r a = (case hm_get (ph_tasks a) t of
       Some (PlaybackTask told) \<Rightarrow>
         (case r of
            EndsQuietly \<Rightarrow> task_ends t a
          | EndsLinkLost \<Rightarrow> notify LinkLost (task_ends t a)
          | EndsWith e \<Rightarrow> notify (PlaybackError e) (task_ends t a))
     | _ \<Rightarrow> a)"

section \<open>The audio service\<close>

definition apply_pc_level :: "f32 \<Rightarrow> phone_app \<Rightarrow> phone_app" where
  "apply_pc_level level a =
     (let mix = (ph_mix a)\<lparr>vm_pc_level := Some level\<rparr>; a1 = a\<lparr>ph_mix := mix\<rparr> in
      if vm_match_pc mix then session_set_volume (mix_effective mix) a1 else a1)"

definition set_volume :: "f32 \<Rightarrow> phone_app \<Rightarrow> phone_app" where
  "set_volume gain a =
     (let mix = (ph_mix a)\<lparr>vm_user_gain := gain\<rparr> in
      session_set_volume (mix_effective mix) (a\<lparr>ph_mix := mix\<rparr>))"

definition set_match_pc_volume :: "bool \<Rightarrow> phone_app \<Rightarrow> phone_app" where
  "set_match_pc_volume enabled a =
     (let mix = (ph_mix a)\<lparr>vm_match_pc := enabled\<rparr> in
      session_set_volume (mix_effective mix) (a\<lparr>ph_mix := mix\<rparr>))"

definition stop_link_recovery :: "phone_app \<Rightarrow> phone_app" where
  "stop_link_recovery a = (case ph_recovery a of
       None \<Rightarrow> a | Some t \<Rightarrow> (task_ends t a)\<lparr>ph_recovery := None\<rparr>)"

definition RECOVERY_PROBE_INTERVAL :: nat where "RECOVERY_PROBE_INTERVAL = secs 2"
definition RECOVERY_BUDGET :: nat where "RECOVERY_BUDGET = secs 60"

text \<open>The new task runs at once: its clock starts at \<open>now\<close>, and so does its interval.\<close>

definition start_link_recovery_paced ::
  "ip_addr \<Rightarrow> device_id \<Rightarrow> nat \<Rightarrow> nat \<Rightarrow> nat \<Rightarrow> phone_app \<Rightarrow> phone_app" where
  "start_link_recovery_paced ip d interval budget now a =
     (let a1 = stop_link_recovery a; a2 = put_client ip (client_at ip a1) a1 in
      case spawn (RecoveryTask \<lparr>lr_ip = ip, lr_device = d, lr_started = now, lr_next_tick = now,
             lr_interval = interval, lr_budget = budget, lr_attempts = 0\<rparr>) a2 of
        (a3, t) \<Rightarrow> a3\<lparr>ph_recovery := Some t\<rparr>)"

definition start_link_recovery :: "ip_addr \<Rightarrow> device_id \<Rightarrow> nat \<Rightarrow> phone_app \<Rightarrow> phone_app" where
  "start_link_recovery ip d = start_link_recovery_paced ip d RECOVERY_PROBE_INTERVAL RECOVERY_BUDGET"

text \<open>
  \<open>run_link_recovery\<close> is polled: before the deadline of the interval it goes on waiting; at a tick
  it gives up or probes. The interval keeps its pace however late a poll comes.
\<close>

definition recovery_poll :: "phone_env \<Rightarrow> nat \<Rightarrow> nat \<Rightarrow> peer_answer \<Rightarrow> phone_app \<Rightarrow> phone_app" where
  "recovery_poll env t now answer a = (case hm_get (ph_tasks a) t of
       Some (RecoveryTask r) \<Rightarrow>
         if now < lr_next_tick r then a
         else if lr_budget r \<le> since now (lr_started r)
         then notify LinkRecoveryGaveUp (task_ends t a)
         else (case with_client (lr_ip r) (send_probe env (Some (lr_device r)) answer) a of
             (a1, Inr p) \<Rightarrow> notify (LinkRecovered (pr_device_registered p)) (task_ends t a1)
           | (a1, Inl e) \<Rightarrow> task_goes_on t (RecoveryTask (r\<lparr>lr_attempts := lr_attempts r + 1,
               lr_next_tick := lr_next_tick r + lr_interval r\<rparr>)) a1)
     | _ \<Rightarrow> a)"

record connect_params =
  cp_ip :: "string + ip_addr"
  cp_device_id :: device_id
  cp_device_name :: string
  cp_mode :: connection_mode
  cp_exclusive_mode :: bool
  cp_jitter_config :: jitter_config
  cp_bitrate :: "i32 option"
  cp_phone_network_link :: "network_link option"

definition request_of :: "connect_params \<Rightarrow> connect_req" where
  "request_of p = \<lparr>cr_device_id = cp_device_id p, cr_device_name = cp_device_name p,
     cr_mode = cp_mode p, cr_jitter_config = cp_jitter_config p, cr_bitrate = cp_bitrate p,
     cr_source = None, cr_network_link = cp_phone_network_link p, cr_pending_request_id = None,
     cr_device_auth = None\<rparr>"

definition link_pair_of :: "connect_params \<Rightarrow> presence_response \<Rightarrow> link_pair" where
  "link_pair_of p r =
     \<lparr>phone = (case cp_phone_network_link p of None \<Rightarrow> LUnknown | Some l \<Rightarrow> l),
      pc = (case pr_pc_network_link r of None \<Rightarrow> LUnknown | Some l \<Rightarrow> l)\<rparr>"

definition playing_now :: "bool \<Rightarrow> phone_app \<Rightarrow> phone_app" where
  "playing_now exclusive a =
     a\<lparr>ph_streaming := True, ph_flag := True, ph_service := (Playing, exclusive)\<rparr>"

definition stopped_now :: "phone_app \<Rightarrow> phone_app" where
  "stopped_now a = a\<lparr>ph_streaming := False, ph_flag := False, ph_service := (Stopped, False)\<rparr>"

text \<open>What the service does with the PC's acceptance; \<open>farewell\<close> answers the disconnect of a failure.\<close>

definition open_session ::
  "phone_env \<Rightarrow> connect_params \<Rightarrow> ip_addr \<Rightarrow> presence_response \<Rightarrow> string + bool \<Rightarrow> bool \<Rightarrow> peer_answer \<Rightarrow>
   phone_app \<Rightarrow> phone_app \<times> (string + unit)" where
  "open_session env p ip r player closes farewell a =
     (let pair = link_pair_of p r;
          a1 = a\<lparr>ph_link_pair := Some pair\<rparr>;
          a2 = (case pr_pc_output_volume r of
                  None \<Rightarrow> a1 | Some level \<Rightarrow> notify (PcVolumeChanged level) (apply_pc_level level a1));
          config = (if is_auto_sentinel (cp_jitter_config p) then for_link_pair pair
                    else cp_jitter_config p) in
      case start_session \<lparr>sp_jitter_config = config, sp_is_tcp = (cp_mode p = ModeAdb),
               sp_exclusive_mode = cp_exclusive_mode p, sp_target_ip = Some ip, sp_mode = cp_mode p,
               sp_device_id = cp_device_id p, sp_bitrate = cp_bitrate p,
               sp_session_token = pr_session_token r,
               sp_session_generation = pr_session_generation r,
               sp_network_link = effective_link pair\<rparr> player closes a2 of
        (a3, Inl e) \<Rightarrow>
          ((fst (with_client ip (send_disconnect_request env (cp_device_id p) farewell) a3))
             \<lparr>ph_link_pair := None\<rparr>, Inl e)
      | (a3, Inr _) \<Rightarrow> (playing_now (cp_exclusive_mode p) a3, Inr ()))"

text \<open>
  Everything after the recovery was stopped. \<open>None\<close>: the connect panics, or it still runs after the
  rounds it was given.
\<close>

definition request_session ::
  "phone_env \<Rightarrow> signer \<Rightarrow> connect_params \<Rightarrow> string + bytes \<Rightarrow> connect_round list \<Rightarrow> string + bool \<Rightarrow>
   bool \<Rightarrow> peer_answer \<Rightarrow> phone_app \<Rightarrow> (phone_app \<times> (string + unit)) option" where
  "request_session env g p nonce rounds player closes farewell a = (case cp_ip p of
       Inl e \<Rightarrow> Some (a, Inl e)
     | Inr ip \<Rightarrow> (case send_connect_request env (Some g) nonce (request_of p) rounds (client_at ip a) of
         Some (c, Finish (Inl e)) \<Rightarrow> Some (put_client ip c a, Inl (display_control_failure e))
       | Some (c, Finish (Inr r)) \<Rightarrow>
           Some (open_session env p ip r player closes farewell (put_client ip c a))
       | _ \<Rightarrow> None))"

definition connect_to_streamer ::
  "phone_env \<Rightarrow> signer \<Rightarrow> connect_params \<Rightarrow> string + bytes \<Rightarrow> connect_round list \<Rightarrow> string + bool \<Rightarrow>
   bool \<Rightarrow> peer_answer \<Rightarrow> phone_app \<Rightarrow> (phone_app \<times> (string + unit)) option" where
  "connect_to_streamer env g p nonce rounds player closes farewell a =
     request_session env g p nonce rounds player closes farewell (stop_link_recovery a)"

definition disconnect_from_streamer ::
  "phone_env \<Rightarrow> ip_addr \<Rightarrow> device_id \<Rightarrow> peer_answer \<Rightarrow> bool \<Rightarrow> phone_app \<Rightarrow> phone_app" where
  "disconnect_from_streamer env ip d answer closes a =
     (let a1 = stop_link_recovery a;
          a2 = fst (with_client ip (send_disconnect_request env d answer) a1);
          a3 = stop_session closes a2 in
      stopped_now (a3\<lparr>ph_link_pair := None\<rparr>))"

definition start_audio_playback ::
  "control_answer \<Rightarrow> phone_app \<Rightarrow> phone_app \<times> (string + unit)" where
  "start_audio_playback answer a = (case control_playback True answer a of
       (a1, Inl e) \<Rightarrow> (a1, Inl e)
     | (a1, Inr _) \<Rightarrow> (a1\<lparr>ph_service := (Playing,
         case ph_session a1 of None \<Rightarrow> False | Some s \<Rightarrow> sn_exclusive_mode s)\<rparr>, Inr ()))"

definition stop_audio_playback ::
  "control_answer \<Rightarrow> phone_app \<Rightarrow> phone_app \<times> (string + unit)" where
  "stop_audio_playback answer a = (case control_playback False answer a of
       (a1, Inl e) \<Rightarrow> (a1, Inl e) | (a1, Inr _) \<Rightarrow> (a1\<lparr>ph_service := (Paused, False)\<rparr>, Inr ()))"

definition kill_playback :: "bool \<Rightarrow> phone_app \<Rightarrow> phone_app" where
  "kill_playback closes a =
     stopped_now ((stop_session closes (stop_link_recovery a))\<lparr>ph_link_pair := None\<rparr>)"

definition notify_streaming_stopped :: "phone_app \<Rightarrow> phone_app" where
  "notify_streaming_stopped a = stopped_now (stop_link_recovery a)"

text \<open>The jitter profile in effect when \<open>config\<close> is asked for.\<close>

definition effective_config :: "jitter_config \<Rightarrow> phone_app \<Rightarrow> jitter_config" where
  "effective_config config a =
     (if is_auto_sentinel config
      then case ph_link_pair a of Some pair \<Rightarrow> for_link_pair pair | None \<Rightarrow> config else config)"

definition restart_session ::
  "bool \<Rightarrow> string + bool \<Rightarrow> bool \<Rightarrow> phone_app \<Rightarrow> phone_app \<times> (string + unit)" where
  "restart_session exclusive player closes a = (case ph_session a of
       None \<Rightarrow> (a, Inl ''No active session to restart'')
     | Some s \<Rightarrow>
       (case start_session \<lparr>sp_jitter_config = effective_config (sn_jitter_config s) a,
               sp_is_tcp = (sn_mode s = ModeAdb), sp_exclusive_mode = exclusive,
               sp_target_ip = sn_target_ip s, sp_mode = sn_mode s, sp_device_id = sn_device_id s,
               sp_bitrate = sn_bitrate s, sp_session_token = sn_session_token s,
               sp_session_generation = sn_session_generation s,
               sp_network_link = sn_network_link s\<rparr> player closes a of
          (a1, Inl e) \<Rightarrow> (a1, Inl e)
        | (a1, Inr _) \<Rightarrow> (a1\<lparr>ph_service := (Playing, exclusive)\<rparr>, Inr ())))"

definition update_jitter_config :: "jitter_config \<Rightarrow> phone_app \<Rightarrow> phone_app" where
  "update_jitter_config config a = session_update_jitter_config (effective_config config a) a"

definition change_audio_bitrate ::
  "phone_env \<Rightarrow> ip_addr \<Rightarrow> device_id \<Rightarrow> i32 option \<Rightarrow> peer_answer \<Rightarrow> phone_app \<Rightarrow>
   phone_app \<times> (string + unit)" where
  "change_audio_bitrate env ip d b answer a =
     (case with_client ip (send_change_bitrate_request env d b answer) a of
        (a1, Inl e) \<Rightarrow> (a1, Inl e)
      | (a1, Inr _) \<Rightarrow> (session_update_bitrate b a1, Inr ()))"

definition change_audio_source ::
  "phone_env \<Rightarrow> ip_addr \<Rightarrow> device_id \<Rightarrow> audio_source \<Rightarrow> peer_answer \<Rightarrow> phone_app \<Rightarrow>
   phone_app \<times> (string + unit)" where
  "change_audio_source env ip d source answer =
     with_client ip (send_change_source_request env d source answer)"

definition probe_streamer ::
  "phone_env \<Rightarrow> ip_addr \<Rightarrow> device_id \<Rightarrow> peer_answer \<Rightarrow> phone_app \<Rightarrow>
   phone_app \<times> (string + presence_response)" where
  "probe_streamer env ip d answer = with_client ip (send_probe env (Some d) answer)"

definition get_audio_sources ::
  "phone_env \<Rightarrow> ip_addr \<Rightarrow> peer_answer \<Rightarrow> phone_app \<Rightarrow>
   phone_app \<times> (string + audio_source list \<times> streamer_capabilities)" where
  "get_audio_sources env ip answer = with_client ip (request_audio_sources env answer)"

definition get_process_list ::
  "phone_env \<Rightarrow> ip_addr \<Rightarrow> peer_answer \<Rightarrow> phone_app \<Rightarrow> phone_app \<times> (string + process_info list)" where
  "get_process_list env ip answer = with_client ip (request_process_list env answer)"

section \<open>The WebSocket task\<close>

definition RETRY_DELAYS :: "nat list" where
  "RETRY_DELAYS = [millis 250, millis 500, secs 1, secs 2]"

definition establish_websocket :: "ip_addr \<Rightarrow> device_id \<Rightarrow> phone_app \<Rightarrow> phone_app" where
  "establish_websocket ip d a = (case spawn (WsTask ip d (RETRY_DELAYS @ [0]) False) a of
       (a1, t) \<Rightarrow> start_ws_client t a1)"

text \<open>The socket failed: the next round of the loop, unless the current delay is the last one.\<close>

definition ws_retry :: "nat \<Rightarrow> ip_addr \<Rightarrow> device_id \<Rightarrow> nat list \<Rightarrow> phone_app \<Rightarrow> phone_app" where
  "ws_retry t ip d delays a =
     (if delays = [] \<or> hd delays = 0 \<or> tl delays = [] then task_ends t a
      else task_goes_on t (WsTask ip d (tl delays) False) a)"

text \<open>
  What the task waits for: the answer to a connection, with the errors of the URL and of the
  header, or the next event of an open socket.
\<close>

datatype ws_input =
    WsAnswer "string option" "string option" peer_answer
  | WsReceived "control_failure + ws_event"

definition ws_dial ::
  "phone_env \<Rightarrow> nat \<Rightarrow> ip_addr \<Rightarrow> device_id \<Rightarrow> nat list \<Rightarrow> string option \<Rightarrow> string option \<Rightarrow> peer_answer \<Rightarrow>
   phone_app \<Rightarrow> phone_app" where
  "ws_dial env t ip d delays url_error header_error answer a =
     (if ph_session a = None then task_ends t a
      else let credentials = session_credentials d (client_at ip a) in
        case with_client ip (ws_connect env url_error header_error d (map_option cd_token credentials)
               (map_option cd_pc_fingerprint credentials) answer) a of
          (a1, Inl e) \<Rightarrow> ws_retry t ip d delays a1
        | (a1, Inr _) \<Rightarrow> task_goes_on t (WsTask ip d delays True) a1)"

definition ws_receive ::
  "nat \<Rightarrow> ip_addr \<Rightarrow> device_id \<Rightarrow> nat list \<Rightarrow> control_failure + ws_event \<Rightarrow> phone_app \<Rightarrow> phone_app" where
  "ws_receive t ip d delays got a = (case got of
       Inr WsHeartbeatAcknowledged \<Rightarrow> record_control_heartbeat a
     | Inr WsDisconnectEvent \<Rightarrow> notify WsClosed (task_ends t a)
     | Inr (WsError message) \<Rightarrow> notify WsClosed (notify (WsFailed message) (task_ends t a))
     | Inr (WsVolumeChanged level) \<Rightarrow> notify (PcVolumeChanged level) (apply_pc_level level a)
     | Inl e \<Rightarrow> ws_retry t ip d delays a)"

definition ws_task_step :: "phone_env \<Rightarrow> nat \<Rightarrow> ws_input \<Rightarrow> phone_app \<Rightarrow> phone_app" where
  "ws_task_step env t inp a = (case hm_get (ph_tasks a) t of
       Some (WsTask ip d delays is_open) \<Rightarrow>
         (case inp of
            WsAnswer ue he answer \<Rightarrow> if is_open then a else ws_dial env t ip d delays ue he answer a
          | WsReceived got \<Rightarrow> if is_open then ws_receive t ip d delays got a else a)
     | _ \<Rightarrow> a)"

section \<open>Runs\<close>

datatype phone_event =
    PressConnect connect_params "string + bytes" "connect_round list" "string + bool" bool peer_answer
  | PressDisconnect ip_addr device_id peer_answer bool
  | PressResume control_answer
  | PressPause control_answer
  | SetPlaying bool control_answer
  | PressKill bool
  | StreamingStopped
  | AppShutdown bool
  | StartRecovery ip_addr device_id nat
  | StopRecovery
  | PressRestart bool "string + bool" bool
  | ChooseJitter jitter_config
  | ChooseVolume f32
  | ChooseMatch bool
  | AskSources ip_addr peer_answer
  | AskProbe ip_addr device_id peer_answer
  | ChooseSource ip_addr device_id audio_source peer_answer
  | ChooseBitrate ip_addr device_id "i32 option" peer_answer
  | AskProcesses ip_addr peer_answer
  | OpenWebsocket ip_addr device_id
  | WsStep nat ws_input
  | ProbeTick nat peer_answer
  | RecoveryPoll nat nat peer_answer
  | PlaybackEnds nat playback_end

fun phone_handle :: "phone_env \<Rightarrow> signer \<Rightarrow> phone_event \<Rightarrow> phone_app \<Rightarrow> phone_app option" where
  "phone_handle env g (PressConnect p nonce rounds player closes farewell) a =
     map_option fst (connect_to_streamer env g p nonce rounds player closes farewell a)"
| "phone_handle env g (PressDisconnect ip d answer closes) a =
     Some (disconnect_from_streamer env ip d answer closes a)"
| "phone_handle env g (PressResume answer) a = Some (fst (start_audio_playback answer a))"
| "phone_handle env g (PressPause answer) a = Some (fst (stop_audio_playback answer a))"
| "phone_handle env g (SetPlaying playing answer) a = Some (set_playing playing answer a)"
| "phone_handle env g (PressKill closes) a = Some (kill_playback closes a)"
| "phone_handle env g StreamingStopped a = Some (notify_streaming_stopped a)"
| "phone_handle env g (AppShutdown closes) a = Some (stop_session closes a)"
| "phone_handle env g (StartRecovery ip d now) a = Some (start_link_recovery ip d now a)"
| "phone_handle env g StopRecovery a = Some (stop_link_recovery a)"
| "phone_handle env g (PressRestart exclusive player closes) a =
     Some (fst (restart_session exclusive player closes a))"
| "phone_handle env g (ChooseJitter config) a = Some (update_jitter_config config a)"
| "phone_handle env g (ChooseVolume gain) a = Some (set_volume gain a)"
| "phone_handle env g (ChooseMatch enabled) a = Some (set_match_pc_volume enabled a)"
| "phone_handle env g (AskSources ip answer) a = Some (fst (get_audio_sources env ip answer a))"
| "phone_handle env g (AskProbe ip d answer) a = Some (fst (probe_streamer env ip d answer a))"
| "phone_handle env g (ChooseSource ip d source answer) a =
     Some (fst (change_audio_source env ip d source answer a))"
| "phone_handle env g (ChooseBitrate ip d b answer) a =
     Some (fst (change_audio_bitrate env ip d b answer a))"
| "phone_handle env g (AskProcesses ip answer) a = Some (fst (get_process_list env ip answer a))"
| "phone_handle env g (OpenWebsocket ip d) a = Some (establish_websocket ip d a)"
| "phone_handle env g (WsStep t inp) a = Some (ws_task_step env t inp a)"
| "phone_handle env g (ProbeTick t answer) a = Some (probe_tick env t answer a)"
| "phone_handle env g (RecoveryPoll t now answer) a = Some (recovery_poll env t now answer a)"
| "phone_handle env g (PlaybackEnds t r) a = Some (playback_ends t r a)"

fun phone_session_run :: "phone_env \<Rightarrow> signer \<Rightarrow> phone_event list \<Rightarrow> phone_app \<Rightarrow> phone_app option" where
  "phone_session_run env g [] a = Some a"
| "phone_session_run env g (e # es) a = (case phone_handle env g e a of
       None \<Rightarrow> None | Some b \<Rightarrow> phone_session_run env g es b)"

end
