(* ===== verification/Phone_Lifecycle.thy ===== *)
theory Phone_Lifecycle
  imports Phone_Session
begin

text \<open>
  What the phone's session manager and audio service keep of their tasks: who owns a running task,
  what a teardown leaves, how long the recovery of a link and the WebSocket go on, and what a new
  session does with the volume.
\<close>

section \<open>Owners of tasks\<close>

datatype task_role = RolePlayback | RoleProbe | RoleSocket | RoleRecovery

fun role_of :: "phone_task \<Rightarrow> task_role" where
  "role_of (PlaybackTask told) = RolePlayback"
| "role_of (ProbeTask ip d cell observed) = RoleProbe"
| "role_of (WsTask ip d delays is_open) = RoleSocket"
| "role_of (RecoveryTask r) = RoleRecovery"

text \<open>The task is the one its handle names, or a playback that was told to shut down.\<close>

definition task_owned :: "phone_app \<Rightarrow> nat \<Rightarrow> phone_task \<Rightarrow> bool" where
  "task_owned a t k = (case k of
       PlaybackTask told \<Rightarrow> told \<or> (\<exists>s. ph_session a = Some s \<and> sn_playback_task s = t)
     | ProbeTask _ _ _ _ \<Rightarrow> \<exists>s. ph_session a = Some s \<and> sn_probe_task s = Some t
     | WsTask _ _ _ _ \<Rightarrow> ph_ws_task a = Some t
     | RecoveryTask _ \<Rightarrow> ph_recovery a = Some t)"

definition handle_ok :: "phone_app \<Rightarrow> task_role \<Rightarrow> nat \<Rightarrow> bool" where
  "handle_ok a r t \<longleftrightarrow> t < ph_next_task a \<and> (\<forall>k. hm_get (ph_tasks a) t = Some k \<longrightarrow> role_of k = r)"

text \<open>The probe of a session over the network runs, for the session's own phone and counter.\<close>

definition session_probed :: "phone_app \<Rightarrow> active_session \<Rightarrow> bool" where
  "session_probed a s \<longleftrightarrow>
     (\<forall>t. sn_probe_task s = Some t \<longrightarrow> (\<exists>ip observed. sn_target_ip s = Some ip \<and>
        hm_get (ph_tasks a) t = Some (ProbeTask ip (sn_device_id s) (sn_playback_task s) observed))) \<and>
     (sn_probe_task s = None \<longleftrightarrow>
        (case sn_target_ip s of None \<Rightarrow> True | Some ip \<Rightarrow> is_loopback ip))"

definition phone_inv :: "phone_app \<Rightarrow> bool" where
  "phone_inv a \<longleftrightarrow>
     (\<forall>t k. hm_get (ph_tasks a) t = Some k \<longrightarrow> t < ph_next_task a \<and> task_owned a t k) \<and>
     (\<forall>t. ph_ws_task a = Some t \<longrightarrow> handle_ok a RoleSocket t) \<and>
     (\<forall>t. ph_recovery a = Some t \<longrightarrow> handle_ok a RoleRecovery t) \<and>
     (\<forall>s. ph_session a = Some s \<longrightarrow>
        handle_ok a RolePlayback (sn_playback_task s) \<and> session_probed a s \<and> ph_link_pair a \<noteq> None) \<and>
     ph_flag a = ph_streaming a"

lemma task_owned_simps [simp]:
  "task_owned a t (PlaybackTask told) \<longleftrightarrow> told \<or> (\<exists>s. ph_session a = Some s \<and> sn_playback_task s = t)"
  "task_owned a t (ProbeTask ip d cell ob) \<longleftrightarrow> (\<exists>s. ph_session a = Some s \<and> sn_probe_task s = Some t)"
  "task_owned a t (WsTask ip d delays is_open) \<longleftrightarrow> ph_ws_task a = Some t"
  "task_owned a t (RecoveryTask r) \<longleftrightarrow> ph_recovery a = Some t"
  by (simp_all add: task_owned_def)

text \<open>The invariant in terms of the five fields it reads.\<close>

lemma task_owned_cong:
  "ph_session b = ph_session a \<Longrightarrow> ph_ws_task b = ph_ws_task a \<Longrightarrow> ph_recovery b = ph_recovery a \<Longrightarrow>
   task_owned b t k = task_owned a t k"
  by (cases k) simp_all

lemma phone_inv_cong:
  assumes "ph_session b = ph_session a" "ph_ws_task b = ph_ws_task a" "ph_recovery b = ph_recovery a"
    "ph_tasks b = ph_tasks a" "ph_next_task b = ph_next_task a" "ph_link_pair b = ph_link_pair a"
    "ph_flag b = ph_streaming b" "phone_inv a"
  shows "phone_inv b"
proof -
  have "task_owned b t k = task_owned a t k" for t k by (rule task_owned_cong) (simp_all add: assms)
  with assms show ?thesis by (simp add: phone_inv_def handle_ok_def session_probed_def)
qed

lemma phone_inv_flags: "phone_inv a \<Longrightarrow> ph_flag a = ph_streaming a"
  by (simp add: phone_inv_def)

lemma phone_inv_frame [simp]:
  assumes "phone_inv a"
  shows "phone_inv (a\<lparr>ph_clients := c\<rparr>)" "phone_inv (a\<lparr>ph_mix := m\<rparr>)"
    "phone_inv (a\<lparr>ph_service := v\<rparr>)" "phone_inv (a\<lparr>ph_epochs := ep\<rparr>)"
    "phone_inv (notify e a)" "phone_inv (put_client ip cl a)"
    "phone_inv (playing_now x a)" "phone_inv (stopped_now a)"
  by (rule phone_inv_cong [of _ a]; simp add: notify_def put_client_def playing_now_def
      stopped_now_def phone_inv_flags [OF assms] assms)+

lemma phone_inv_link_pair [simp]:
  assumes "phone_inv a" "ph_session a = None \<or> p \<noteq> None"
  shows "phone_inv (a\<lparr>ph_link_pair := p\<rparr>)"
proof -
  have "task_owned (a\<lparr>ph_link_pair := p\<rparr>) t k = task_owned a t k" for t k
    by (rule task_owned_cong) simp_all
  with assms show ?thesis by (auto simp: phone_inv_def handle_ok_def session_probed_def)
qed

lemma phone_inv_task:
  "phone_inv a \<Longrightarrow> hm_get (ph_tasks a) t = Some k \<Longrightarrow> t < ph_next_task a \<and> task_owned a t k"
  by (simp add: phone_inv_def)

lemma with_client_state [simp]:
  "fst (with_client ip f a) = put_client ip (fst (f (client_at ip a))) a"
  by (auto simp: with_client_def split: prod.splits sum.splits)

lemma with_client_cases:
  "with_client ip f a = (b, r) \<Longrightarrow> b = put_client ip (fst (f (client_at ip a))) a"
  using with_client_state [of ip f a] by simp

text \<open>Changes of the session that leave its tasks alone.\<close>

lemma phone_inv_session:
  assumes a: "phone_inv a" "ph_session a = Some s"
    and s': "sn_playback_task s' = sn_playback_task s" "sn_probe_task s' = sn_probe_task s"
      "sn_target_ip s' = sn_target_ip s" "sn_device_id s' = sn_device_id s"
  shows "phone_inv (a\<lparr>ph_session := Some s'\<rparr>)"
proof -
  let ?b = "a\<lparr>ph_session := Some s'\<rparr>"
  have own: "task_owned ?b t k = task_owned a t k" for t k
    using a(2) s' by (cases k) simp_all
  have "session_probed a s" "handle_ok a RolePlayback (sn_playback_task s)" "ph_link_pair a \<noteq> None"
    using a by (simp_all add: phone_inv_def)
  then have "session_probed ?b s'" "handle_ok ?b RolePlayback (sn_playback_task s')" "ph_link_pair ?b \<noteq> None"
    using s' by (simp_all add: session_probed_def handle_ok_def)
  then show ?thesis
    using a(1) by (simp add: phone_inv_def own) (simp add: handle_ok_def)
qed

lemma phone_inv_map_session:
  assumes a: "phone_inv a"
    and f: "\<And>s. sn_playback_task (f s) = sn_playback_task s" "\<And>s. sn_probe_task (f s) = sn_probe_task s"
      "\<And>s. sn_target_ip (f s) = sn_target_ip s" "\<And>s. sn_device_id (f s) = sn_device_id s"
  shows "phone_inv (a\<lparr>ph_session := map_option f (ph_session a)\<rparr>)"
proof (cases "ph_session a")
  case None
  with a show ?thesis
    by (intro phone_inv_cong [OF _ _ _ _ _ _ _ a]) (simp_all add: phone_inv_flags)
next
  case (Some s)
  then show ?thesis using phone_inv_session [OF a Some, of "f s"] f by simp
qed

lemma phone_inv_session_updates [simp]:
  assumes "phone_inv a"
  shows "phone_inv (session_set_volume v a)" "phone_inv (session_update_jitter_config c a)"
    "phone_inv (session_update_bitrate b a)"
  unfolding session_set_volume_def session_update_jitter_config_def session_update_bitrate_def
  by (rule phone_inv_map_session [OF assms]; simp)+

lemma phone_inv_goes_on:
  assumes a: "phone_inv a" "hm_get (ph_tasks a) t = Some k" and role: "role_of k' = role_of k"
    and own: "task_owned a t k'"
    and probe: "\<And>ip d cell ob. k = ProbeTask ip d cell ob \<Longrightarrow> \<exists>ob'. k' = ProbeTask ip d cell ob'"
  shows "phone_inv (task_goes_on t k' a)"
proof -
  let ?b = "task_goes_on t k' a"
  have "task_owned ?b u j = task_owned a u j" for u j
    by (rule task_owned_cong) (simp_all add: task_goes_on_def)
  moreover have "session_probed ?b s" if "session_probed a s" for s
    using that a(2) probe by (fastforce simp: session_probed_def task_goes_on_def split: option.splits)
  moreover have "handle_ok ?b r u" if "handle_ok a r u" for r u
    using that a(2) role by (auto simp: handle_ok_def task_goes_on_def)
  ultimately show ?thesis
    using a own phone_inv_task [OF a]
    by (simp add: phone_inv_def) (simp add: task_goes_on_def)
qed

lemma phone_inv_ends:
  assumes a: "phone_inv a" and t: "\<And>k. hm_get (ph_tasks a) t = Some k \<Longrightarrow> role_of k \<noteq> RoleProbe"
  shows "phone_inv (task_ends t a)"
proof -
  let ?b = "task_ends t a"
  have "task_owned ?b u j = task_owned a u j" for u j
    by (rule task_owned_cong) (simp_all add: task_ends_def)
  moreover have "session_probed ?b s" if "session_probed a s" for s
    using that t by (fastforce simp: session_probed_def task_ends_def split: option.splits)
  moreover have "handle_ok ?b r u" if "handle_ok a r u" for r u
    using that by (auto simp: handle_ok_def task_ends_def)
  ultimately show ?thesis
    using a by (simp add: phone_inv_def) (simp add: task_ends_def)
qed

lemma phone_inv_no_ws:
  assumes a: "phone_inv a" and t: "\<And>t. ph_ws_task a = Some t \<Longrightarrow> hm_get (ph_tasks a) t = None"
  shows "phone_inv (a\<lparr>ph_ws_task := None\<rparr>)"
proof -
  have "task_owned (a\<lparr>ph_ws_task := None\<rparr>) u k" if "hm_get (ph_tasks a) u = Some k" for u k
    using phone_inv_task [OF a that] t that by (cases k) auto
  with a show ?thesis by (simp add: phone_inv_def handle_ok_def session_probed_def)
qed

lemma phone_inv_no_recovery:
  assumes a: "phone_inv a" and t: "\<And>t. ph_recovery a = Some t \<Longrightarrow> hm_get (ph_tasks a) t = None"
  shows "phone_inv (a\<lparr>ph_recovery := None\<rparr>)"
proof -
  have "task_owned (a\<lparr>ph_recovery := None\<rparr>) u k" if "hm_get (ph_tasks a) u = Some k" for u k
    using phone_inv_task [OF a that] t that by (cases k) auto
  with a show ?thesis by (simp add: phone_inv_def handle_ok_def session_probed_def)
qed

lemma phone_inv_handles:
  assumes "phone_inv a" "hm_get (ph_tasks a) t = Some k"
  shows "ph_ws_task a = Some t \<Longrightarrow> role_of k = RoleSocket"
    and "ph_recovery a = Some t \<Longrightarrow> role_of k = RoleRecovery"
    and "ph_session a = Some s \<Longrightarrow> sn_playback_task s = t \<Longrightarrow> role_of k = RolePlayback"
    and "ph_session a = Some s \<Longrightarrow> sn_probe_task s = Some t \<Longrightarrow> role_of k = RoleProbe"
  using assms by (auto simp: phone_inv_def handle_ok_def session_probed_def)

lemma phone_inv_stop_ws [simp]:
  assumes "phone_inv a"
  shows "phone_inv (stop_ws_client a)"
proof (cases "ph_ws_task a")
  case (Some t)
  with assms have "phone_inv (task_ends t a)"
    by (intro phone_inv_ends) (auto dest: phone_inv_handles(1))
  then have "phone_inv ((task_ends t a)\<lparr>ph_ws_task := None\<rparr>)"
    using Some by (intro phone_inv_no_ws) (simp_all add: task_ends_def)
  then show ?thesis using Some by (simp add: stop_ws_client_def task_ends_def)
qed (simp add: stop_ws_client_def assms)

lemma phone_inv_stop_recovery [simp]:
  assumes "phone_inv a"
  shows "phone_inv (stop_link_recovery a)"
proof (cases "ph_recovery a")
  case (Some t)
  with assms have "phone_inv (task_ends t a)"
    by (intro phone_inv_ends) (auto dest: phone_inv_handles(2))
  then have "phone_inv ((task_ends t a)\<lparr>ph_recovery := None\<rparr>)"
    using Some by (intro phone_inv_no_recovery) (simp_all add: task_ends_def)
  then show ?thesis using Some by (simp add: stop_link_recovery_def task_ends_def)
qed (simp add: stop_link_recovery_def assms)

section \<open>Closing and opening a session\<close>

lemma task_ends_fields [simp]:
  "hm_get (ph_tasks (task_ends t a)) u = (if u = t then None else hm_get (ph_tasks a) u)"
  "ph_session (task_ends t a) = ph_session a" "ph_ws_task (task_ends t a) = ph_ws_task a"
  "ph_recovery (task_ends t a) = ph_recovery a" "ph_next_task (task_ends t a) = ph_next_task a"
  "ph_link_pair (task_ends t a) = ph_link_pair a" "ph_flag (task_ends t a) = ph_flag a"
  "ph_streaming (task_ends t a) = ph_streaming a" "ph_mix (task_ends t a) = ph_mix a"
  "ph_events (task_ends t a) = ph_events a" "ph_clients (task_ends t a) = ph_clients a"
  "ph_service (task_ends t a) = ph_service a" "ph_epochs (task_ends t a) = ph_epochs a"
  by (simp_all add: task_ends_def)

lemma task_goes_on_fields [simp]:
  "hm_get (ph_tasks (task_goes_on t k a)) u = (if u = t then Some k else hm_get (ph_tasks a) u)"
  "ph_session (task_goes_on t k a) = ph_session a" "ph_ws_task (task_goes_on t k a) = ph_ws_task a"
  "ph_recovery (task_goes_on t k a) = ph_recovery a" "ph_next_task (task_goes_on t k a) = ph_next_task a"
  "ph_link_pair (task_goes_on t k a) = ph_link_pair a" "ph_flag (task_goes_on t k a) = ph_flag a"
  "ph_streaming (task_goes_on t k a) = ph_streaming a" "ph_mix (task_goes_on t k a) = ph_mix a"
  "ph_events (task_goes_on t k a) = ph_events a" "ph_clients (task_goes_on t k a) = ph_clients a"
  "ph_service (task_goes_on t k a) = ph_service a" "ph_epochs (task_goes_on t k a) = ph_epochs a"
  by (simp_all add: task_goes_on_def)

definition after_telling :: "phone_task option \<Rightarrow> phone_task option" where
  "after_telling ko = (case ko of Some (PlaybackTask told) \<Rightarrow> Some (PlaybackTask True) | _ \<Rightarrow> ko)"

lemma tell_playback_fields [simp]:
  "hm_get (ph_tasks (tell_playback t a)) u =
     (if u = t then after_telling (hm_get (ph_tasks a) u) else hm_get (ph_tasks a) u)"
  "ph_session (tell_playback t a) = ph_session a" "ph_ws_task (tell_playback t a) = ph_ws_task a"
  "ph_recovery (tell_playback t a) = ph_recovery a" "ph_next_task (tell_playback t a) = ph_next_task a"
  "ph_link_pair (tell_playback t a) = ph_link_pair a" "ph_flag (tell_playback t a) = ph_flag a"
  "ph_streaming (tell_playback t a) = ph_streaming a" "ph_mix (tell_playback t a) = ph_mix a"
  "ph_events (tell_playback t a) = ph_events a" "ph_clients (tell_playback t a) = ph_clients a"
  "ph_service (tell_playback t a) = ph_service a"
  by (auto simp: tell_playback_def after_telling_def split: option.splits phone_task.splits)

lemma close_session_fields [simp]:
  "ph_session (close_session closes a) = None" "ph_ws_task (close_session closes a) = ph_ws_task a"
  "ph_recovery (close_session closes a) = ph_recovery a"
  "ph_next_task (close_session closes a) = ph_next_task a"
  "ph_link_pair (close_session closes a) = ph_link_pair a"
  "ph_flag (close_session closes a) = ph_flag a"
  "ph_streaming (close_session closes a) = ph_streaming a"
  "ph_mix (close_session closes a) = ph_mix a" "ph_events (close_session closes a) = ph_events a"
  by (auto simp: close_session_def Let_def split: option.splits)

text \<open>What a closed session leaves running: no probe, and of the playbacks those told to stop.\<close>

lemma close_session_task:
  assumes a: "phone_inv a" and t: "hm_get (ph_tasks (close_session closes a)) t = Some k"
  shows "hm_get (ph_tasks a) t = Some k \<and> role_of k \<in> {RoleSocket, RoleRecovery} \<or>
    k = PlaybackTask True \<and> (\<exists>told. hm_get (ph_tasks a) t = Some (PlaybackTask told) \<and> (closes \<longrightarrow> told))"
proof (cases "ph_session a")
  case None
  with t have "hm_get (ph_tasks a) t = Some k" by (simp add: close_session_def)
  with phone_inv_task [OF a this] None show ?thesis by (cases k) auto
next
  case (Some s)
  have probe: "sn_probe_task s \<noteq> Some t"
    using t Some phone_inv_handles(3) [OF a _ Some]
    by (auto simp: close_session_def after_telling_def Let_def split: if_splits option.splits phone_task.splits)
  show ?thesis
  proof (cases "t = sn_playback_task s")
    case True
    with t Some probe have k: "after_telling (hm_get (ph_tasks a) t) = Some k" "\<not> closes"
      by (auto simp: close_session_def Let_def split: if_splits option.splits)
    then obtain j where j: "hm_get (ph_tasks a) t = Some j"
      by (cases "hm_get (ph_tasks a) t") (auto simp: after_telling_def)
    with phone_inv_handles(3) [OF a j Some] True have "role_of j = RolePlayback" by simp
    with j k show ?thesis by (cases j) (auto simp: after_telling_def)
  next
    case False
    with t Some have "hm_get (ph_tasks a) t = Some k"
      by (auto simp: close_session_def Let_def split: if_splits option.splits)
    with phone_inv_task [OF a this] Some False probe show ?thesis by (cases k) auto
  qed
qed

lemma phone_inv_close [simp]:
  assumes a: "phone_inv a"
  shows "phone_inv (close_session closes a)"
proof -
  let ?b = "close_session closes a"
  have "u < ph_next_task ?b \<and> task_owned ?b u k" if "hm_get (ph_tasks ?b) u = Some k" for u k
    using close_session_task [OF a that] phone_inv_task [OF a, of u] by (cases k) auto
  moreover have "handle_ok ?b r u" if "handle_ok a r u" for r u
    using that close_session_task [OF a, of closes u] by (auto simp: handle_ok_def)
  ultimately show ?thesis using a by (simp add: phone_inv_def)
qed

lemma phone_inv_stop_session [simp]: "phone_inv a \<Longrightarrow> phone_inv (stop_session closes a)"
  by (simp add: stop_session_def)

lemma stop_ws_fields [simp]:
  "ph_session (stop_ws_client a) = ph_session a" "ph_ws_task (stop_ws_client a) = None"
  "ph_recovery (stop_ws_client a) = ph_recovery a" "ph_next_task (stop_ws_client a) = ph_next_task a"
  "ph_link_pair (stop_ws_client a) = ph_link_pair a" "ph_flag (stop_ws_client a) = ph_flag a"
  "ph_streaming (stop_ws_client a) = ph_streaming a" "ph_mix (stop_ws_client a) = ph_mix a"
  "ph_events (stop_ws_client a) = ph_events a"
  by (simp_all add: stop_ws_client_def split: option.splits)

lemma stop_session_fields [simp]:
  "ph_session (stop_session closes a) = None" "ph_ws_task (stop_session closes a) = None"
  "ph_recovery (stop_session closes a) = ph_recovery a"
  "ph_next_task (stop_session closes a) = ph_next_task a"
  "ph_link_pair (stop_session closes a) = ph_link_pair a"
  "ph_flag (stop_session closes a) = ph_flag a"
  "ph_streaming (stop_session closes a) = ph_streaming a"
  "ph_mix (stop_session closes a) = ph_mix a" "ph_events (stop_session closes a) = ph_events a"
  by (simp_all add: stop_session_def)

lemma phone_inv_spawn:
  assumes a: "phone_inv a"
  shows "hm_get (ph_tasks a) (ph_next_task a) = None"
    and "handle_ok a r u \<Longrightarrow> u < ph_next_task a"
  using phone_inv_task [OF a, of "ph_next_task a"]
  by (cases "hm_get (ph_tasks a) (ph_next_task a)") (auto simp: handle_ok_def)

lemma phone_inv_install:
  assumes a: "phone_inv a" "ph_session a = None" "ph_link_pair a \<noteq> None"
  shows "phone_inv (install_session sp granted a)"
proof -
  let ?b = "install_session sp granted a"
  have "u < ph_next_task ?b \<and> task_owned ?b u k" if "hm_get (ph_tasks ?b) u = Some k" for u k
    using that a(2) phone_inv_task [OF a(1), of u k]
    by (cases k) (auto simp: install_session_def spawn_def Let_def split: option.splits if_splits)
  moreover have "handle_ok ?b r u" if "handle_ok a r u" for r u
    using that a(2)
    by (auto simp: handle_ok_def install_session_def spawn_def Let_def split: option.splits)
  moreover have "handle_ok ?b RolePlayback (sn_playback_task s) \<and> session_probed ?b s"
    if "ph_session ?b = Some s" for s
    using that a(2)
    by (auto simp: handle_ok_def session_probed_def install_session_def spawn_def Let_def
        split: option.splits if_splits)
  moreover have "ph_ws_task ?b = ph_ws_task a" "ph_recovery ?b = ph_recovery a"
    "ph_link_pair ?b = ph_link_pair a" "ph_flag ?b = ph_flag a" "ph_streaming ?b = ph_streaming a"
    using a(2) by (auto simp: install_session_def spawn_def Let_def split: option.splits)
  ultimately show ?thesis using a(1,3) by (simp add: phone_inv_def)
qed

lemma phone_inv_start_session:
  assumes "phone_inv a" "ph_link_pair a \<noteq> None" "start_session sp player closes a = (b, r)"
  shows "phone_inv b" "ph_link_pair b = None \<longrightarrow> ph_session b = None"
    "r = Inl e \<longrightarrow> ph_session b = None"
proof -
  have i: "phone_inv (install_session sp granted (stop_session closes a))" for granted
    using assms by (intro phone_inv_install) simp_all
  show "phone_inv b"
    using i assms by (auto simp: start_session_def Let_def split: sum.splits)
  then show "ph_link_pair b = None \<longrightarrow> ph_session b = None"
    by (cases "ph_session b") (auto simp: phone_inv_def)
  show "r = Inl e \<longrightarrow> ph_session b = None"
    using assms(3) by (auto simp: start_session_def Let_def split: sum.splits)
qed

section \<open>Every event keeps the invariant\<close>

lemma phone_inv_apply_pc_level [simp]: "phone_inv a \<Longrightarrow> phone_inv (apply_pc_level level a)"
  by (simp add: apply_pc_level_def Let_def)

lemma apply_pc_level_fields [simp]:
  "ph_link_pair (apply_pc_level level a) = ph_link_pair a"
  "ph_tasks (apply_pc_level level a) = ph_tasks a"
  by (simp_all add: apply_pc_level_def session_set_volume_def Let_def)

lemma notify_fields [simp]:
  "ph_tasks (notify e a) = ph_tasks a" "ph_session (notify e a) = ph_session a"
  "ph_link_pair (notify e a) = ph_link_pair a" "ph_events (notify e a) = ph_events a @ [e]"
  by (simp_all add: notify_def)

lemma put_client_fields [simp]:
  "ph_tasks (put_client ip c a) = ph_tasks a" "ph_session (put_client ip c a) = ph_session a"
  "ph_link_pair (put_client ip c a) = ph_link_pair a" "ph_events (put_client ip c a) = ph_events a"
  "ph_mix (put_client ip c a) = ph_mix a" "ph_epochs (put_client ip c a) = ph_epochs a"
  "ph_ws_task (put_client ip c a) = ph_ws_task a" "ph_recovery (put_client ip c a) = ph_recovery a"
  "ph_next_task (put_client ip c a) = ph_next_task a" "ph_streaming (put_client ip c a) = ph_streaming a"
  by (simp_all add: put_client_def)

lemma phone_inv_open_session:
  assumes a: "phone_inv a"
  shows "phone_inv (fst (open_session env p ip r player closes farewell a))"
proof -
  define sp where "sp = \<lparr>sp_jitter_config = (if is_auto_sentinel (cp_jitter_config p)
      then for_link_pair (link_pair_of p r) else cp_jitter_config p), sp_is_tcp = (cp_mode p = ModeAdb),
      sp_exclusive_mode = cp_exclusive_mode p, sp_target_ip = Some ip, sp_mode = cp_mode p,
      sp_device_id = cp_device_id p, sp_bitrate = cp_bitrate p, sp_session_token = pr_session_token r,
      sp_session_generation = pr_session_generation r,
      sp_network_link = effective_link (link_pair_of p r)\<rparr>"
  define a2 where "a2 = (case pr_pc_output_volume r of
      None \<Rightarrow> a\<lparr>ph_link_pair := Some (link_pair_of p r)\<rparr>
    | Some level \<Rightarrow> notify (PcVolumeChanged level)
        (apply_pc_level level (a\<lparr>ph_link_pair := Some (link_pair_of p r)\<rparr>)))"
  have a2: "phone_inv a2" "ph_link_pair a2 \<noteq> None"
    using a by (simp_all add: a2_def split: option.splits)
  obtain b q where b: "start_session sp player closes a2 = (b, q)" by fastforce
  note facts = phone_inv_start_session [OF a2 b]
  show ?thesis
    using facts b
    by (cases q) (simp_all add: open_session_def Let_def a2_def [symmetric] sp_def [symmetric])
qed

lemma phone_inv_request_session:
  assumes "phone_inv a" "request_session env g p nonce rounds player closes farewell a = Some (b, r)"
  shows "phone_inv b"
  using assms phone_inv_open_session
  by (auto simp: request_session_def split: sum.splits option.splits prod.splits verdict.splits)
    (metis fst_conv phone_inv_frame(6))

lemma phone_inv_control_playback:
  assumes "phone_inv a"
  shows "phone_inv (fst (control_playback playing answer a))"
proof (cases "ph_session a")
  case (Some s)
  show ?thesis
    by (cases "set_user_playing playing answer s")
      (auto simp: control_playback_def Some set_user_playing_def split: sum.splits control_answer.splits
        intro!: phone_inv_session [OF assms Some])
qed (simp add: control_playback_def assms)

lemma phone_inv_restart:
  assumes "phone_inv a"
  shows "phone_inv (fst (restart_session exclusive player closes a))"
proof (cases "ph_session a")
  case (Some s)
  with assms have pair: "ph_link_pair a \<noteq> None" by (simp add: phone_inv_def)
  show ?thesis
    using phone_inv_start_session(1) [OF assms pair]
    by (auto simp: restart_session_def Some split: prod.splits sum.splits)
qed (simp add: restart_session_def assms)

lemma phone_inv_websocket:
  assumes a: "phone_inv a"
  shows "phone_inv (establish_websocket ip d a)"
proof -
  let ?b = "establish_websocket ip d a"
  have fresh: "hm_get (ph_tasks a) (ph_next_task a) = None" by (rule phone_inv_spawn [OF a])
  have lt: "u < ph_next_task a" if "ph_ws_task a = Some u" for u
    using a that by (auto simp: phone_inv_def handle_ok_def)
  have "u < ph_next_task ?b \<and> task_owned ?b u k" if "hm_get (ph_tasks ?b) u = Some k" for u k
    using that phone_inv_task [OF a, of u k] phone_inv_handles(1) [OF a, of u k] lt
    by (cases k) (fastforce simp: establish_websocket_def start_ws_client_def spawn_def
        split: option.splits if_splits)+
  moreover have "handle_ok ?b r u" if "handle_ok a r u" for r u
    using that
    by (auto simp: handle_ok_def establish_websocket_def start_ws_client_def spawn_def split: option.splits)
  moreover have "session_probed ?b s" if "ph_session a = Some s" "session_probed a s" for s
    using that fresh phone_inv_handles(1) [OF a]
    by (fastforce simp: session_probed_def establish_websocket_def start_ws_client_def spawn_def
        split: option.splits)
  moreover have "handle_ok ?b RoleSocket (ph_next_task a)" "ph_ws_task ?b = Some (ph_next_task a)"
    "ph_session ?b = ph_session a" "ph_recovery ?b = ph_recovery a"
    "ph_link_pair ?b = ph_link_pair a" "ph_flag ?b = ph_flag a" "ph_streaming ?b = ph_streaming a"
    using lt by (auto simp: handle_ok_def establish_websocket_def start_ws_client_def spawn_def
        split: option.splits)
  ultimately show ?thesis using a by (simp add: phone_inv_def)
qed

lemma stop_recovery_fields [simp]:
  "ph_session (stop_link_recovery a) = ph_session a" "ph_recovery (stop_link_recovery a) = None"
  "ph_ws_task (stop_link_recovery a) = ph_ws_task a"
  "ph_next_task (stop_link_recovery a) = ph_next_task a"
  "ph_link_pair (stop_link_recovery a) = ph_link_pair a"
  "ph_flag (stop_link_recovery a) = ph_flag a" "ph_streaming (stop_link_recovery a) = ph_streaming a"
  "ph_mix (stop_link_recovery a) = ph_mix a" "ph_events (stop_link_recovery a) = ph_events a"
  by (simp_all add: stop_link_recovery_def split: option.splits)

lemma phone_inv_start_recovery:
  assumes a0: "phone_inv a0"
  shows "phone_inv (start_link_recovery_paced ip d interval budget now a0)"
proof -
  define a where "a = put_client ip (client_at ip (stop_link_recovery a0)) (stop_link_recovery a0)"
  have a: "phone_inv a" "ph_recovery a = None" using a0 by (simp_all add: a_def)
  let ?b = "start_link_recovery_paced ip d interval budget now a0"
  have def: "?b = a\<lparr>ph_tasks := hm_insert (ph_next_task a) (RecoveryTask \<lparr>lr_ip = ip, lr_device = d,
      lr_started = now, lr_next_tick = now, lr_interval = interval, lr_budget = budget,
      lr_attempts = 0\<rparr>) (ph_tasks a), ph_next_task := Suc (ph_next_task a),
      ph_recovery := Some (ph_next_task a)\<rparr>"
    unfolding start_link_recovery_paced_def Let_def a_def [symmetric] spawn_def by simp
  have fresh: "hm_get (ph_tasks a) (ph_next_task a) = None" by (rule phone_inv_spawn [OF a(1)])
  have "u < ph_next_task ?b \<and> task_owned ?b u k" if "hm_get (ph_tasks ?b) u = Some k" for u k
    using that phone_inv_task [OF a(1), of u k] a(2)
    by (cases k) (auto simp: def split: if_splits)
  moreover have "handle_ok ?b r u" if "handle_ok a r u" for r u
    using that by (auto simp: handle_ok_def def)
  moreover have "session_probed ?b s" if "session_probed a s" for s
    using that fresh by (fastforce simp: session_probed_def def)
  moreover have "handle_ok ?b RoleRecovery (ph_next_task a)" "ph_recovery ?b = Some (ph_next_task a)"
    "ph_session ?b = ph_session a" "ph_ws_task ?b = ph_ws_task a"
    "ph_link_pair ?b = ph_link_pair a" "ph_flag ?b = ph_flag a" "ph_streaming ?b = ph_streaming a"
    by (auto simp: handle_ok_def def)
  ultimately show ?thesis using a(1) by (simp add: phone_inv_def)
qed

lemma phone_inv_recovery_poll:
  assumes a: "phone_inv a"
  shows "phone_inv (recovery_poll env t now answer a)"
proof (cases "hm_get (ph_tasks a) t")
  case (Some k)
  show ?thesis
  proof (cases k)
    case (RecoveryTask r)
    with Some have t: "hm_get (ph_tasks a) t = Some (RecoveryTask r)" by simp
    then have ends: "phone_inv (task_ends t b)" if "phone_inv b" "ph_tasks b = ph_tasks a" for b
      using that by (intro phone_inv_ends) auto
    obtain b q where b: "with_client (lr_ip r) (send_probe env (Some (lr_device r)) answer) a = (b, q)"
      by fastforce
    then have eq: "b = put_client (lr_ip r) (fst (send_probe env (Some (lr_device r)) answer
        (client_at (lr_ip r) a))) a" by (rule with_client_cases)
    have "phone_inv (task_goes_on t (RecoveryTask r') b)" for r'
      using phone_inv_task [OF a t] t a unfolding eq
      by (intro phone_inv_goes_on [where k = "RecoveryTask r"]) simp_all
    then show ?thesis
      using ends a b t by (cases q) (simp_all add: recovery_poll_def eq)
  qed (simp_all add: recovery_poll_def Some a)
qed (simp add: recovery_poll_def a)

lemma phone_inv_ws_retry:
  assumes "phone_inv a" "hm_get (ph_tasks a) t = Some (WsTask ip d ds is_open)"
  shows "phone_inv (ws_retry t ip d delays a)"
  using assms phone_inv_task [OF assms]
  by (auto simp: ws_retry_def intro!: phone_inv_ends phone_inv_goes_on)

lemma phone_inv_ws_step:
  assumes a: "phone_inv a"
  shows "phone_inv (ws_task_step env t inp a)"
proof (cases "hm_get (ph_tasks a) t")
  case (Some k)
  show ?thesis
  proof (cases k)
    case (WsTask ip d delays is_open)
    with Some have t: "hm_get (ph_tasks a) t = Some (WsTask ip d delays is_open)" by simp
    then have ends: "phone_inv (task_ends t a)" using a by (intro phone_inv_ends) simp_all
    have "phone_inv (ws_dial env t ip d delays ue he answer a)" for ue he answer
    proof -
      define f where "f = ws_connect env ue he d (map_option cd_token (session_credentials d (client_at ip a)))
        (map_option cd_pc_fingerprint (session_credentials d (client_at ip a))) answer"
      define b where "b = put_client ip (fst (f (client_at ip a))) a"
      obtain q where "with_client ip f a = (b, q)"
        using with_client_state [of ip f a] by (cases "with_client ip f a") (auto simp: b_def)
      moreover have b: "phone_inv b" "hm_get (ph_tasks b) t = Some (WsTask ip d delays is_open)"
        using a t by (simp_all add: b_def)
      moreover have "phone_inv (task_goes_on t (WsTask ip d delays True) b)"
        using phone_inv_task [OF b] by (intro phone_inv_goes_on [OF b]) simp_all
      ultimately show ?thesis
        using ends phone_inv_ws_retry [OF b]
        by (cases q) (simp_all add: ws_dial_def f_def [symmetric] Let_def)
    qed
    moreover have "phone_inv (ws_receive t ip d delays got a)" for got
      using a ends phone_inv_ws_retry [OF a t]
      by (auto simp: ws_receive_def record_control_heartbeat_def split: sum.splits ws_event.splits option.splits)
    ultimately show ?thesis using t a by (simp add: ws_task_step_def split: ws_input.splits)
  qed (simp_all add: ws_task_step_def Some a)
qed (simp add: ws_task_step_def a)

lemma phone_inv_probe_tick:
  assumes a: "phone_inv a"
  shows "phone_inv (probe_tick env t answer a)"
proof (cases "hm_get (ph_tasks a) t")
  case (Some k)
  show ?thesis
  proof (cases k)
    case (ProbeTask ip d cell ob)
    with Some have t: "hm_get (ph_tasks a) t = Some (ProbeTask ip d cell ob)" by simp
    have "phone_inv (task_goes_on t (ProbeTask ip d cell ob') a)" for ob'
      using phone_inv_task [OF a t] by (intro phone_inv_goes_on [OF a t]) simp_all
    then show ?thesis using t a by (simp add: probe_tick_def Let_def)
  qed (simp_all add: probe_tick_def Some a)
qed (simp add: probe_tick_def a)

lemma phone_inv_playback_ends:
  assumes a: "phone_inv a"
  shows "phone_inv (playback_ends t r a)"
proof (cases "hm_get (ph_tasks a) t")
  case (Some k)
  show ?thesis
  proof (cases k)
    case (PlaybackTask told)
    with Some have t: "hm_get (ph_tasks a) t = Some (PlaybackTask told)" by simp
    then have "phone_inv (task_ends t a)" using a by (intro phone_inv_ends) simp_all
    then show ?thesis using t by (cases r) (simp_all add: playback_ends_def)
  qed (simp_all add: playback_ends_def Some a)
qed (simp add: playback_ends_def a)

lemma phone_inv_handle:
  assumes a: "phone_inv a" and e: "phone_handle env g e a = Some b"
  shows "phone_inv b"
proof (cases e)
  case (PressConnect p nonce rounds player closes farewell)
  with e a show ?thesis
    by (auto simp: connect_to_streamer_def intro: phone_inv_request_session [of "stop_link_recovery a"])
next
  case (PressResume answer)
  obtain b' q where b': "control_playback True answer a = (b', q)" by fastforce
  with phone_inv_control_playback [OF a, of True answer] have "phone_inv b'" by simp
  with e PressResume b' show ?thesis by (cases q) (auto simp: start_audio_playback_def)
next
  case (PressPause answer)
  obtain b' q where b': "control_playback False answer a = (b', q)" by fastforce
  with phone_inv_control_playback [OF a, of False answer] have "phone_inv b'" by simp
  with e PressPause b' show ?thesis by (cases q) (auto simp: stop_audio_playback_def)
next
  case (ChooseBitrate ip d br answer)
  obtain b' q where b': "with_client ip (send_change_bitrate_request env d br answer) a = (b', q)"
    by fastforce
  with a have "phone_inv b'" by (auto dest: with_client_cases)
  with e ChooseBitrate b' show ?thesis by (cases q) (auto simp: change_audio_bitrate_def)
qed (use e a phone_inv_control_playback [OF a] phone_inv_restart [OF a] in
    \<open>auto simp: disconnect_from_streamer_def Let_def set_playing_def kill_playback_def
      notify_streaming_stopped_def start_link_recovery_def phone_inv_start_recovery
      update_jitter_config_def set_volume_def set_match_pc_volume_def get_audio_sources_def
      probe_streamer_def change_audio_source_def get_process_list_def phone_inv_websocket
      phone_inv_ws_step phone_inv_probe_tick phone_inv_recovery_poll phone_inv_playback_ends\<close>)

lemma phone_inv_run:
  "phone_session_run env g es a = Some b \<Longrightarrow> phone_inv a \<Longrightarrow> phone_inv b"
  by (induction es arbitrary: a) (auto dest: phone_inv_handle split: option.splits)

lemma phone_inv_new: "phone_inv new_phone"
  by (simp add: phone_inv_def new_phone_def)

section \<open>Owned tasks, and what a teardown leaves\<close>


text \<open>What is left once the recovery, the session and the WebSocket are stopped.\<close>

lemma stop_recovery_task:
  assumes a: "phone_inv a" and t: "hm_get (ph_tasks (stop_link_recovery a)) t = Some k"
  shows "hm_get (ph_tasks a) t = Some k" "role_of k \<noteq> RoleRecovery"
proof -
  show *: "hm_get (ph_tasks a) t = Some k"
    using t by (auto simp: stop_link_recovery_def split: option.splits if_splits)
  show "role_of k \<noteq> RoleRecovery"
    using t phone_inv_task [OF a *] by (cases k) (auto simp: stop_link_recovery_def split: if_splits)
qed

lemma stop_session_task:
  assumes a: "phone_inv a" and t: "hm_get (ph_tasks (stop_session closes a)) t = Some k"
  shows "hm_get (ph_tasks a) t = Some k \<and> role_of k = RoleRecovery \<or>
    k = PlaybackTask True \<and> (\<exists>told. hm_get (ph_tasks a) t = Some (PlaybackTask told) \<and> (closes \<longrightarrow> told))"
proof -
  let ?b = "close_session closes a"
  have *: "hm_get (ph_tasks ?b) t = Some k"
    using t by (auto simp: stop_session_def stop_ws_client_def split: option.splits if_splits)
  have "role_of k \<noteq> RoleSocket"
    using t phone_inv_task [OF phone_inv_close [OF a] *]
    by (cases k) (auto simp: stop_session_def stop_ws_client_def)
  with close_session_task [OF a *] show ?thesis by auto
qed

definition torn_down :: "phone_app \<Rightarrow> phone_app \<Rightarrow> bool" where
  "torn_down a b \<longleftrightarrow>
     ph_session b = None \<and> ph_ws_task b = None \<and> ph_recovery b = None \<and> ph_link_pair b = None \<and>
     \<not> ph_streaming b \<and> \<not> ph_flag b \<and> ph_service b = (Stopped, False) \<and>
     (\<forall>t k. hm_get (ph_tasks b) t = Some k \<longrightarrow>
        k = PlaybackTask True \<and> hm_get (ph_tasks a) t = Some (PlaybackTask True))"

lemma torn_down:
  assumes a: "phone_inv a"
  shows "torn_down a (stopped_now ((stop_session True (put_client ip c (stop_link_recovery a)))\<lparr>ph_link_pair := None\<rparr>))"
    and "torn_down a (kill_playback True a)"
proof -
  have task: "k = PlaybackTask True \<and> hm_get (ph_tasks a) t = Some (PlaybackTask True)"
    if b: "phone_inv b" "ph_tasks b = ph_tasks (stop_link_recovery a)"
      and t: "hm_get (ph_tasks (stop_session True b)) t = Some k" for b t k
    using stop_session_task [OF b(1) t] stop_recovery_task [OF a] b(2) by auto
  show "torn_down a (stopped_now ((stop_session True (put_client ip c (stop_link_recovery a)))\<lparr>ph_link_pair := None\<rparr>))"
    using task [of "put_client ip c (stop_link_recovery a)"] a by (simp add: torn_down_def stopped_now_def)
  show "torn_down a (kill_playback True a)"
    using task [of "stop_link_recovery a"] a by (simp add: torn_down_def stopped_now_def kill_playback_def)
qed

lemma torn_down_silent:
  assumes "torn_down a b"
  shows "ws_task_step env t inp b = b" "probe_tick env t answer b = b" "recovery_poll env t now answer b = b"
proof -
  have "hm_get (ph_tasks b) t = None \<or> hm_get (ph_tasks b) t = Some (PlaybackTask True)"
    using assms by (cases "hm_get (ph_tasks b) t") (auto simp: torn_down_def)
  then show "ws_task_step env t inp b = b" "probe_tick env t answer b = b"
    "recovery_poll env t now answer b = b"
    by (auto simp: ws_task_step_def probe_tick_def recovery_poll_def)
qed


section \<open>Two starts at once\<close>

text \<open>
  C17: \<open>start_session\<close> does not keep the session slot locked between taking the old session and
  putting the new one. Two starts that overlap (a restart during a connect) leave the probe of the
  first running with no handle to it: even killing the playback does not end it, and it goes on
  probing the PC.
\<close>

theorem overlapping_starts_leak_probe:
  assumes run: "phone_session_run env g es new_phone = Some a"
    and ip: "sp_target_ip sp1 = Some ip" "\<not> is_loopback ip"
    and b: "b = install_session sp2 granted2 (install_session sp1 granted1
      (stop_session closes2 (stop_session closes1 a)))"
  shows "\<exists>t k. role_of k = RoleProbe \<and> hm_get (ph_tasks b) t = Some k \<and> \<not> task_owned b t k \<and>
    hm_get (ph_tasks (kill_playback closes3 b)) t = Some k"
proof -
  define c where "c = stop_session closes2 (stop_session closes1 a)"
  define n where "n = ph_next_task c"
  let ?probe = "ProbeTask ip (sp_device_id sp1) n None"
  have c: "phone_inv c" "ph_session c = None" "ph_ws_task c = None"
    using phone_inv_run [OF run phone_inv_new] by (simp_all add: c_def)
  have r: "u < n" if "ph_recovery c = Some u" for u
    using c(1) that by (auto simp: phone_inv_def handle_ok_def n_def)
  define b1 where "b1 = install_session sp1 granted1 c"
  have b1: "hm_get (ph_tasks b1) (Suc n) = Some ?probe" "ph_next_task b1 = Suc (Suc n)"
    "ph_recovery b1 = ph_recovery c" "ph_ws_task b1 = None"
    using c ip by (simp_all add: b1_def install_session_def spawn_def Let_def n_def)
  obtain s1 where s1: "ph_session b1 = Some s1" "sn_playback_task s1 = n"
    using c ip by (simp add: b1_def install_session_def spawn_def Let_def n_def)
  have b: "b = install_session sp2 granted2 b1" unfolding b b1_def c_def ..
  have b': "hm_get (ph_tasks b) (Suc n) = Some ?probe" "ph_recovery b = ph_recovery c"
    "ph_ws_task b = None" "\<exists>s2. ph_session b = Some s2 \<and> sn_playback_task s2 = Suc (Suc n) \<and>
      sn_probe_task s2 \<in> {None, Some (Suc (Suc (Suc n)))}"
    unfolding b by (cases "sp_target_ip sp2"; simp add: b1 s1 install_session_def spawn_def Let_def)+
  have "\<not> task_owned b (Suc n) ?probe" using b'(4) by auto
  moreover have "hm_get (ph_tasks (kill_playback closes3 b)) (Suc n) = Some ?probe"
  proof -
    obtain s2 where s2: "ph_session b = Some s2" "sn_playback_task s2 = Suc (Suc n)"
      "sn_probe_task s2 = None \<or> sn_probe_task s2 = Some (Suc (Suc (Suc n)))"
      using b'(4) by auto
    define d where "d = stop_link_recovery b"
    have "ph_recovery b \<noteq> Some (Suc n)" using r [of "Suc n"] b'(2) by auto
    then have d: "hm_get (ph_tasks d) (Suc n) = Some ?probe" "ph_session d = Some s2" "ph_ws_task d = None"
      using b'(1,3) s2(1) by (cases "ph_recovery b"; simp add: d_def stop_link_recovery_def)+
    have "hm_get (ph_tasks (close_session closes3 d)) (Suc n) = Some ?probe"
      using s2(3) by (elim disjE) (simp_all add: close_session_def d s2(2) Let_def)
    then have "hm_get (ph_tasks (stop_session closes3 d)) (Suc n) = Some ?probe"
      by (simp add: stop_session_def stop_ws_client_def d(3))
    then show ?thesis by (simp add: kill_playback_def stopped_now_def d_def)
  qed
  ultimately show ?thesis using b'(1) by (intro exI conjI) auto
qed

section \<open>A concrete phone\<close>

text \<open>The phone pairs with the PC at \<open>toy_ip\<close> and a session starts.\<close>

definition toy_ip :: ip_addr where "toy_ip = IpV4 192 168 1 5"

definition toy_params :: connect_params where
  "toy_params = \<lparr>cp_ip = Inr toy_ip, cp_device_id = ''phone'', cp_device_name = ''Pixel'',
     cp_mode = ModeWifi, cp_exclusive_mode = False, cp_jitter_config = default_jitter_config,
     cp_bitrate = default_bitrate, cp_phone_network_link = None\<rparr>"

definition toy_press :: phone_event where
  "toy_press = PressConnect toy_params (Inr [1]) [toy_round toy_asks, toy_round toy_grants]
     (Inr False) True (Unreachable [])"

definition toy_session_params :: session_params where
  "toy_session_params = \<lparr>sp_jitter_config = default_jitter_config, sp_is_tcp = False,
     sp_exclusive_mode = False, sp_target_ip = Some toy_ip, sp_mode = ModeWifi,
     sp_device_id = ''phone'', sp_bitrate = default_bitrate, sp_session_token = Some ''t'',
     sp_session_generation = Some 1, sp_network_link = LUnknown\<rparr>"

definition toy_phone :: "phone_client \<Rightarrow> phone_app" where
  "toy_phone q = playing_now False (install_session toy_session_params False
     ((put_client toy_ip q new_phone)\<lparr>ph_link_pair := Some \<lparr>phone = LUnknown, pc = LUnknown\<rparr>\<rparr>))"

lemma toy_phone_fields [simp]:
  "ph_tasks (toy_phone q) = [(0, PlaybackTask False), (1, ProbeTask toy_ip ''phone'' 0 None)]"
  "ph_ws_task (toy_phone q) = None" "ph_recovery (toy_phone q) = None" "ph_next_task (toy_phone q) = 2"
  "ph_mix (toy_phone q) = default_mix" "hm_get (ph_clients (toy_phone q)) toy_ip = Some q"
  "ph_link_pair (toy_phone q) = Some \<lparr>phone = LUnknown, pc = LUnknown\<rparr>"
  by (simp_all add: toy_phone_def playing_now_def install_session_def spawn_def Let_def put_client_def
      new_phone_def toy_session_params_def toy_ip_def hm_insert_def hm_get_def)

lemma toy_phone_session:
  "ph_session (toy_phone q) = Some \<lparr>sn_exclusive_mode = False, sn_exclusive_granted = False,
     sn_mode = ModeWifi, sn_bitrate = default_bitrate, sn_user_wants_playing = True,
     sn_volume = f32_unity, sn_jitter_config = default_jitter_config, sn_playback_task = 0,
     sn_probe_task = Some 1, sn_target_ip = Some toy_ip, sn_device_id = ''phone'',
     sn_network_link = LUnknown, sn_session_token = Some ''t'', sn_session_generation = Some 1\<rparr>"
  by (simp add: toy_phone_def playing_now_def install_session_def spawn_def Let_def put_client_def
      new_phone_def toy_session_params_def toy_ip_def)

lemma toy_run:
  obtains q where "phone_session_run toy_env (toy_signer None) [toy_press] new_phone = Some (toy_phone q)"
    "cl_credentials q = Some \<lparr>cd_device_id = ''phone'', cd_token = ''t'', cd_generation = 1,
       cd_pc_device_id = ''desk'', cd_pc_fingerprint = ''00''\<rparr>"
proof -
  obtain q rq1 rq2 where q: "send_connect_request toy_env (Some (toy_signer None)) (Inr [1]) sample_request
       [toy_round toy_asks, toy_round toy_grants] new_client = Some (q, Finish (Inr toy_grants))"
    "cl_credentials q = Some \<lparr>cd_device_id = ''phone'', cd_token = ''t'', cd_generation = 1,
       cd_pc_device_id = ''desk'', cd_pc_fingerprint = ''00''\<rparr>"
    by (rule toy_connects) blast
  have req: "request_of toy_params = sample_request"
    by (simp add: request_of_def toy_params_def sample_request_def)
  have addr: "cp_ip toy_params = Inr toy_ip" by (simp add: toy_params_def)
  have client: "client_at toy_ip new_phone = new_client"
    by (simp add: client_at_def new_phone_def new_client_def)
  have stop: "stop_link_recovery new_phone = new_phone"
    by (simp add: stop_link_recovery_def new_phone_def)
  let ?a = "(put_client toy_ip q new_phone)\<lparr>ph_link_pair := Some \<lparr>phone = LUnknown, pc = LUnknown\<rparr>\<rparr>"
  have idle: "stop_session True ?a = ?a"
    by (simp add: stop_session_def close_session_def stop_ws_client_def put_client_def new_phone_def)
  have "open_session toy_env toy_params toy_ip toy_grants (Inr False) True (Unreachable [])
      (put_client toy_ip q new_phone) = (toy_phone q, Inr ())"
    using idle
    by (simp add: open_session_def start_session_def toy_phone_def toy_session_params_def toy_params_def
        toy_grants_def toy_presence_def link_pair_of_def effective_link_def has_link_def
        is_auto_sentinel_def default_jitter_config_def Let_def)
  then have "request_session toy_env (toy_signer None) toy_params (Inr [1])
      [toy_round toy_asks, toy_round toy_grants] (Inr False) True (Unreachable []) new_phone =
      Some (toy_phone q, Inr ())"
    using q(1) by (simp add: request_session_def req client addr)
  then have "phone_session_run toy_env (toy_signer None) [toy_press] new_phone = Some (toy_phone q)"
    by (simp add: toy_press_def connect_to_streamer_def stop)
  then show thesis using q(2) by (rule that)
qed



theorem overlapping_starts_leak_probe_witness:
  "\<exists>t k. role_of k = RoleProbe \<and> hm_get (ph_tasks (kill_playback True
     (install_session toy_session_params False (install_session toy_session_params False
       (stop_session True (stop_session True new_phone)))))) t = Some k"
proof -
  have run: "phone_session_run toy_env (toy_signer None) [] new_phone = Some new_phone" by simp
  have ip: "sp_target_ip toy_session_params = Some toy_ip" "\<not> is_loopback toy_ip"
    by (simp_all add: toy_session_params_def toy_ip_def)
  from overlapping_starts_leak_probe [OF run ip refl] show ?thesis by blast
qed

end
