(* ===== verification/Phone_Recovery.thy ===== *)
theory Phone_Recovery
  imports Phone_Lifecycle
begin

text \<open>
  How long the phone's background tasks go on (link recovery and WebSocket), and the volume a
  session plays at.
\<close>

section \<open>Link recovery\<close>

definition recovery_polls :: "phone_env \<Rightarrow> nat \<Rightarrow> (nat \<times> peer_answer) list \<Rightarrow> phone_app \<Rightarrow> phone_app" where
  "recovery_polls env t polls a = foldl (\<lambda>b (now, answer). recovery_poll env t now answer b) a polls"

lemma length_log_send:
  "length (cl_log (fst (send env rq answer p))) \<le> Suc (length (cl_log p))"
  by (cases answer) (auto simp: send_def act_def)

lemma length_log_probe:
  "length (cl_log (fst (send_probe env d answer p))) \<le> Suc (length (cl_log p))"
proof (cases "client_for env (credential_for d p)")
  case (Inr pin)
  let ?rq = "\<lparr>rq_pin = pin, rq_bearer = None, rq_request = PostProbe d\<rparr>"
  show ?thesis
    using length_log_send [of env ?rq answer p]
    by (cases "send env ?rq answer p") (auto simp: send_probe_def Inr split: sum.splits prod.splits)
qed (simp add: send_probe_def)

lemma client_at_put [simp]: "client_at ip (put_client ip c a) = c"
  by (simp add: client_at_def put_client_def)

lemma client_at_fields [simp]:
  "client_at ip (notify e a) = client_at ip a" "client_at ip (task_ends t a) = client_at ip a"
  "client_at ip (task_goes_on t k a) = client_at ip a"
  by (simp_all add: client_at_def notify_def)

definition recovering :: "ip_addr \<Rightarrow> device_id \<Rightarrow> nat \<Rightarrow> nat \<Rightarrow> nat \<Rightarrow> phone_app \<Rightarrow> phone_app \<Rightarrow> bool" where
  "recovering ip d start t n a b \<longleftrightarrow>
     hm_get (ph_tasks b) t = Some (RecoveryTask \<lparr>lr_ip = ip, lr_device = d, lr_started = start,
       lr_next_tick = start + n * RECOVERY_PROBE_INTERVAL, lr_interval = RECOVERY_PROBE_INTERVAL,
       lr_budget = RECOVERY_BUDGET, lr_attempts = n\<rparr>) \<and>
     ph_events b = ph_events a \<and> ph_session b = ph_session a \<and> n \<le> 30 \<and>
     length (cl_log (client_at ip b)) \<le> length (cl_log (client_at ip a)) + n"

text \<open>The outcome \<open>e\<close>, and for a success the poll that brought it.\<close>

definition recovery_over ::
  "phone_env \<Rightarrow> ip_addr \<Rightarrow> device_id \<Rightarrow> nat \<Rightarrow> nat \<Rightarrow> (nat \<times> peer_answer) set \<Rightarrow> phone_app \<Rightarrow> phone_app \<Rightarrow> bool" where
  "recovery_over env ip d start t polls a b \<longleftrightarrow>
     hm_get (ph_tasks b) t = None \<and> ph_session b = ph_session a \<and>
     (\<exists>e. ph_events b = ph_events a @ [e] \<and> (e = LinkRecoveryGaveUp \<or>
       (\<exists>(now, answer) \<in> polls. now < start + RECOVERY_BUDGET \<and>
         (\<exists>c p. snd (send_probe env (Some d) answer c) = Inr p \<and> e = LinkRecovered (pr_device_registered p))))) \<and>
     length (cl_log (client_at ip b)) \<le> length (cl_log (client_at ip a)) + 30"

lemma with_client_snd:
  "with_client ip f a = (b, Inr r) \<Longrightarrow> snd (f (client_at ip a)) = Inr r"
  by (auto simp: with_client_def split: prod.splits sum.splits)

lemma recovery_poll_step:
  assumes r: "recovering ip d start t n a b" and p: "(now, answer) \<in> polls"
  shows "recovery_over env ip d start t polls a (recovery_poll env t now answer b) \<or>
    now < start + RECOVERY_BUDGET \<and> (\<exists>m. recovering ip d start t m a (recovery_poll env t now answer b))"
proof -
  let ?r = "\<lparr>lr_ip = ip, lr_device = d, lr_started = start,
       lr_next_tick = start + n * RECOVERY_PROBE_INTERVAL, lr_interval = RECOVERY_PROBE_INTERVAL,
       lr_budget = RECOVERY_BUDGET, lr_attempts = n\<rparr>"
  have t: "hm_get (ph_tasks b) t = Some (RecoveryTask ?r)" and n: "n \<le> 30"
    using r by (simp_all add: recovering_def)
  have budget: "RECOVERY_BUDGET = 30 * RECOVERY_PROBE_INTERVAL"
    by (simp add: RECOVERY_BUDGET_def RECOVERY_PROBE_INTERVAL_def secs_def)
  consider "now < start + n * RECOVERY_PROBE_INTERVAL" |
    "start + n * RECOVERY_PROBE_INTERVAL \<le> now" "RECOVERY_BUDGET \<le> since now start" |
    "start + n * RECOVERY_PROBE_INTERVAL \<le> now" "since now start < RECOVERY_BUDGET"
    by linarith
  then show ?thesis
  proof cases
    case 1
    then have "recovery_poll env t now answer b = b" by (simp add: recovery_poll_def t)
    moreover have "n * RECOVERY_PROBE_INTERVAL \<le> RECOVERY_BUDGET"
      using n by (simp add: budget)
    ultimately show ?thesis using r 1 by auto
  next
    case 2
    then have "recovery_poll env t now answer b = notify LinkRecoveryGaveUp (task_ends t b)"
      by (simp add: recovery_poll_def t)
    then show ?thesis using r by (auto simp: recovery_over_def recovering_def)
  next
    case 3
    let ?f = "send_probe env (Some d) answer"
    obtain c q where c: "with_client ip ?f b = (c, q)" by fastforce
    have cb: "c = put_client ip (fst (?f (client_at ip b))) b" by (rule with_client_cases [OF c])
    have log: "length (cl_log (client_at ip c)) \<le> length (cl_log (client_at ip a)) + Suc n"
      using r length_log_probe [of env "Some d" answer "client_at ip b"] by (simp add: cb recovering_def)
    have early: "now < start + RECOVERY_BUDGET" "n < 30"
      using 3 by (auto simp: since_def budget RECOVERY_PROBE_INTERVAL_def secs_def)
    show ?thesis
    proof (cases q)
      case (Inl e)
      then have "recovery_poll env t now answer b = task_goes_on t (RecoveryTask (?r\<lparr>lr_attempts := n + 1,
          lr_next_tick := start + n * RECOVERY_PROBE_INTERVAL + RECOVERY_PROBE_INTERVAL\<rparr>)) c"
        using 3 c by (simp add: recovery_poll_def t)
      then have "recovering ip d start t (Suc n) a (recovery_poll env t now answer b)"
        using r log early by (simp add: recovering_def cb algebra_simps)
      with early show ?thesis by blast
    next
      case (Inr pr)
      then have "recovery_poll env t now answer b =
          notify (LinkRecovered (pr_device_registered pr)) (task_ends t c)"
        using 3 c by (simp add: recovery_poll_def t)
      moreover have "snd (?f (client_at ip b)) = Inr pr" using c Inr by (auto intro: with_client_snd)
      ultimately show ?thesis
        using r log early p by (auto simp: recovery_over_def recovering_def cb intro!: bexI [OF _ p])
    qed
  qed
qed

lemma recovery_polls_Cons:
  "recovery_polls env t ((now, answer) # ps) b = recovery_polls env t ps (recovery_poll env t now answer b)"
  by (simp add: recovery_polls_def)

lemma recovery_over_stays:
  "recovery_over env ip d start t polls a b \<Longrightarrow> recovery_polls env t ps b = b"
  by (induction ps) (auto simp: recovery_over_def recovery_poll_def recovery_polls_def)

lemma recovery_polls_end:
  assumes "recovering ip d start t n a b" "set ps \<subseteq> polls"
  shows "recovery_over env ip d start t polls a (recovery_polls env t ps b) \<or>
    (\<forall>(now, answer) \<in> set ps. now < start + RECOVERY_BUDGET)"
  using assms
proof (induction ps arbitrary: b n)
  case (Cons p ps)
  obtain now answer where p: "p = (now, answer)" by (cases p)
  have sub: "set ps \<subseteq> polls" "(now, answer) \<in> polls" using Cons.prems(2) p by auto
  from recovery_poll_step [OF Cons.prems(1) sub(2), of env] show ?case
  proof
    assume "recovery_over env ip d start t polls a (recovery_poll env t now answer b)"
    then show ?thesis by (simp add: p recovery_polls_Cons recovery_over_stays)
  next
    assume "now < start + RECOVERY_BUDGET \<and>
      (\<exists>m. recovering ip d start t m a (recovery_poll env t now answer b))"
    then obtain m where m: "now < start + RECOVERY_BUDGET"
      "recovering ip d start t m a (recovery_poll env t now answer b)" by auto
    from Cons.IH [OF m(2) sub(1)] m(1) show ?thesis by (simp add: p recovery_polls_Cons)
  qed
qed simp

text \<open>
  C16: a link recovery that is polled at some instant 60 s or more after it started is over, whatever
  the PC answered: its task has ended, it sent at most 30 probes, it reported exactly one outcome
  (that it gave up, or that the link is back with what a probe answered within the 60 s said of the
  phone's registration), and it left the session alone.
\<close>

theorem link_recovery_ends:
  assumes "(late, answer) \<in> set polls" "start + RECOVERY_BUDGET \<le> late"
    and "b = recovery_polls env (ph_next_task a) polls (start_link_recovery ip d start a)"
  shows "recovery_over env ip d start (ph_next_task a) (set polls) a b"
proof -
  have "client_at ip (stop_link_recovery a) = client_at ip a"
    by (simp add: client_at_def stop_link_recovery_def split: option.splits)
  then have "recovering ip d start (ph_next_task a) 0 a (start_link_recovery ip d start a)"
    by (simp add: recovering_def start_link_recovery_def start_link_recovery_paced_def spawn_def Let_def)
      (simp add: client_at_def put_client_def)
  moreover have "\<not> (\<forall>(now, answer) \<in> set polls. now < start + RECOVERY_BUDGET)"
    using bspec [OF _ assms(1), of "\<lambda>(now, answer). now < start + RECOVERY_BUDGET"] assms(2) by auto
  ultimately show ?thesis
    using recovery_polls_end [OF _ order.refl] unfolding assms(3) by blast
qed

theorem link_recovery_ends_witness:
  "ph_events (recovery_polls toy_env 0 [(0, Unreachable ''down''), (secs 1, Unreachable ''down''),
     (secs 60, Unreachable ''down'')] (start_link_recovery toy_ip ''phone'' 0 new_phone)) =
   [LinkRecoveryGaveUp]"
proof -
  let ?polls = "[(0, Unreachable ''down''), (secs 1, Unreachable ''down''), (secs 60, Unreachable ''down'')]"
  have "recovery_over toy_env toy_ip ''phone'' 0 (ph_next_task new_phone) (set ?polls) new_phone
      (recovery_polls toy_env (ph_next_task new_phone) ?polls (start_link_recovery toy_ip ''phone'' 0 new_phone))"
    by (rule link_recovery_ends [of "secs 60" "Unreachable ''down''"]) (simp_all add: RECOVERY_BUDGET_def)
  moreover have "snd (send_probe toy_env (Some ''phone'') (Unreachable ''down'') c) \<noteq> Inr p" for c p
    by (auto simp: send_probe_def send_def split: sum.splits)
  ultimately show ?thesis by (auto simp: recovery_over_def new_phone_def)
qed

section \<open>The WebSocket\<close>

definition ws_steps :: "phone_env \<Rightarrow> nat \<Rightarrow> ws_input list \<Rightarrow> phone_app \<Rightarrow> phone_app" where
  "ws_steps env t inps a = foldl (\<lambda>b inp. ws_task_step env t inp b) a inps"

lemma length_log_ws:
  "length (cl_log (fst (ws_connect env ue he d token fp answer p))) \<le> Suc (length (cl_log p))"
proof -
  have log: "length (cl_log q) \<le> Suc (length (cl_log p))" if "send env rq answer p = (q, r)" for rq q r
    using length_log_send [of env rq answer p] that by simp
  show ?thesis
    by (auto simp: ws_connect_def split: option.splits sum.splits prod.splits dest: log)
qed

text \<open>
  \<open>n\<close> connections were made by a task that has \<open>delays\<close> left; an open socket is one of them.
\<close>

definition ws_budget :: "ip_addr \<Rightarrow> nat \<Rightarrow> phone_app \<Rightarrow> phone_app \<Rightarrow> bool" where
  "ws_budget ip t a b \<longleftrightarrow>
     (\<exists>n. length (cl_log (client_at ip b)) \<le> length (cl_log (client_at ip a)) + n \<and>
        (case hm_get (ph_tasks b) t of
           Some (WsTask i d delays is_open) \<Rightarrow> i = ip \<and> delays \<noteq> [] \<and>
             n + length delays \<le> (if is_open then 6 else 5)
         | Some _ \<Rightarrow> False | None \<Rightarrow> n \<le> 5))"

lemma client_at_frames [simp]:
  "client_at ip (a\<lparr>ph_epochs := ep\<rparr>) = client_at ip a" "client_at ip (apply_pc_level l a) = client_at ip a"
  by (simp_all add: client_at_def apply_pc_level_def session_set_volume_def Let_def)

lemma ws_budget_bound:
  assumes "ws_budget ip t a b"
  shows "length (cl_log (client_at ip b)) \<le> length (cl_log (client_at ip a)) + 5"
proof (cases "hm_get (ph_tasks b) t")
  case (Some k)
  obtain n where n: "length (cl_log (client_at ip b)) \<le> length (cl_log (client_at ip a)) + n"
    "case k of WsTask i d delays is_open \<Rightarrow> i = ip \<and> delays \<noteq> [] \<and>
       n + length delays \<le> (if is_open then 6 else 5) | _ \<Rightarrow> False"
    using assms unfolding ws_budget_def Some option.case by blast
  have "n \<le> 5"
    using n(2) by (cases k) (auto simp: Suc_le_eq neq_Nil_conv split: if_splits)
  with n(1) show ?thesis by linarith
qed (use assms in \<open>auto simp: ws_budget_def\<close>)

lemma ws_retry_budget:
  assumes "hm_get (ph_tasks b) t = Some (WsTask ip d delays is_open)" "delays \<noteq> []"
    and "length (cl_log (client_at ip b)) \<le> length (cl_log (client_at ip a)) + n"
    and "n + length delays \<le> 6"
  shows "ws_budget ip t a (ws_retry t ip d delays b)"
  using assms
  by (cases delays) (auto simp: ws_budget_def ws_retry_def intro!: exI [of _ n])

lemma ws_step_budget:
  assumes b: "ws_budget ip t a b"
  shows "ws_budget ip t a (ws_task_step env t inp b)"
proof (cases "hm_get (ph_tasks b) t")
  case (Some k)
  obtain n where n: "length (cl_log (client_at ip b)) \<le> length (cl_log (client_at ip a)) + n"
    "case k of WsTask i d delays is_open \<Rightarrow> i = ip \<and> delays \<noteq> [] \<and>
       n + length delays \<le> (if is_open then 6 else 5) | _ \<Rightarrow> False"
    using b unfolding ws_budget_def Some option.case by blast
  obtain d delays is_open where k: "hm_get (ph_tasks b) t = Some (WsTask ip d delays is_open)"
    "delays \<noteq> []" "n + length delays \<le> (if is_open then 6 else 5)"
    "length (cl_log (client_at ip b)) \<le> length (cl_log (client_at ip a)) + n"
    using n by (cases k) (simp_all add: Some)
  have n5: "n \<le> 5" using k(2,3) by (cases delays) (auto split: if_splits)
  have ended: "ws_budget ip t a (task_ends t b)"
    using k n5 by (auto simp: ws_budget_def intro!: exI [of _ n])
  show ?thesis
  proof (cases inp)
    case (WsReceived got)
    have same: "ws_budget ip t a c" if "ph_tasks c = ph_tasks b" "client_at ip c = client_at ip b" for c
      using b that by (simp add: ws_budget_def)
    have quit: "ws_budget ip t a c"
      if "hm_get (ph_tasks c) t = None" "client_at ip c = client_at ip b" for c
      using k(4) n5 that by (auto simp: ws_budget_def)
    have "ws_budget ip t a (ws_receive t ip d delays got b)"
    proof (cases got)
      case (Inl e)
      with k ws_retry_budget [OF k(1,2,4)] show ?thesis by (simp add: ws_receive_def split: if_splits)
    next
      case (Inr e)
      then show ?thesis
        by (cases e)
          (simp_all add: ws_receive_def record_control_heartbeat_def same quit split: option.splits)
    qed
    with b k(1) WsReceived show ?thesis by (simp add: ws_task_step_def)
  next
    case (WsAnswer ue he answer)
    have "ws_budget ip t a (ws_dial env t ip d delays ue he answer b)" if "\<not> is_open"
    proof (cases "ph_session b = None")
      case False
      define f where "f = ws_connect env ue he d (map_option cd_token (session_credentials d (client_at ip b)))
        (map_option cd_pc_fingerprint (session_credentials d (client_at ip b))) answer"
      obtain c q where c: "with_client ip f b = (c, q)" by fastforce
      have cb: "c = put_client ip (fst (f (client_at ip b))) b" by (rule with_client_cases [OF c])
      have log: "length (cl_log (client_at ip c)) \<le> length (cl_log (client_at ip a)) + Suc n"
        using k(4) length_log_ws [of env ue he d _ _ answer "client_at ip b"]
        by (simp add: cb f_def) (meson Suc_le_mono le_trans)
      have "ws_budget ip t a (ws_retry t ip d delays c)"
        using k(1-3) log that by (intro ws_retry_budget [where n = "Suc n"]) (auto simp: cb)
      moreover have "ws_budget ip t a (task_goes_on t (WsTask ip d delays True) c)"
        using k(2,3) log that by (auto simp: ws_budget_def intro!: exI [of _ "Suc n"])
      ultimately show ?thesis
        using False c by (cases q) (auto simp: ws_dial_def f_def [symmetric] Let_def)
    qed (simp add: ws_dial_def ended)
    with b k(1) WsAnswer show ?thesis by (simp add: ws_task_step_def)
  qed
qed (use b in \<open>simp add: ws_task_step_def\<close>)

text \<open>
  C18: however long the session lasts and however many events come in between, the WebSocket task
  makes at most five connections to the PC: a socket that was open and worked does not give back the
  attempts the earlier drops have used.
\<close>

theorem websocket_connects_five_times:
  "length (cl_log (client_at ip (ws_steps env (ph_next_task a) inps (establish_websocket ip d a))))
     \<le> length (cl_log (client_at ip a)) + 5"
proof -
  let ?t = "ph_next_task a"
  have "ws_budget ip ?t a (establish_websocket ip d a)"
    by (cases "ph_ws_task a")
      (auto simp: ws_budget_def establish_websocket_def start_ws_client_def spawn_def client_at_def
        RETRY_DELAYS_def intro!: exI [of _ 0])
  then have "ws_budget ip ?t a (ws_steps env ?t inps (establish_websocket ip d a))"
    unfolding ws_steps_def by (induction inps rule: rev_induct) (simp_all add: ws_step_budget)
  then show ?thesis by (rule ws_budget_bound)
qed

section \<open>Volume\<close>

definition volume_ok :: "phone_app \<Rightarrow> bool" where
  "volume_ok a \<longleftrightarrow> (\<forall>s. ph_session a = Some s \<longrightarrow>
     sn_volume s = f32_unity \<or> sn_volume s = mix_effective (ph_mix a))"

lemma volume_ok_set:
  "volume_ok (session_set_volume (mix_effective (ph_mix a)) a)"
  by (cases "ph_session a") (simp_all add: volume_ok_def session_set_volume_def)

lemma volume_ok_apply [simp]:
  assumes "volume_ok a"
  shows "volume_ok (apply_pc_level level a)"
proof (cases "vm_match_pc (ph_mix a)")
  case True
  then show ?thesis
    using volume_ok_set [of "a\<lparr>ph_mix := (ph_mix a)\<lparr>vm_pc_level := Some level\<rparr>\<rparr>"]
    by (simp add: apply_pc_level_def Let_def)
next
  case False
  with assms show ?thesis by (simp add: apply_pc_level_def Let_def volume_ok_def mix_effective_def)
qed

lemma volume_ok_frame [simp]:
  assumes "volume_ok a"
  shows "volume_ok (notify e a)" "volume_ok (put_client ip c a)" "volume_ok (task_ends t a)"
    "volume_ok (task_goes_on t k a)" "volume_ok (a\<lparr>ph_link_pair := p\<rparr>)" "volume_ok (stop_link_recovery a)"
    "volume_ok (a\<lparr>ph_service := v\<rparr>)" "volume_ok (a\<lparr>ph_epochs := ep\<rparr>)"
    "volume_ok (playing_now x a)" "volume_ok (stopped_now a)" "volume_ok (stop_session closes a)"
  using assms by (simp_all add: volume_ok_def notify_def put_client_def playing_now_def stopped_now_def)

lemma volume_ok_install:
  "volume_ok (install_session sp granted a)"
  by (cases "ph_session a"; cases "sp_target_ip sp")
    (simp_all add: volume_ok_def install_session_def spawn_def Let_def)

lemma volume_ok_start:
  "volume_ok a \<Longrightarrow> start_session sp player closes a = (b, r) \<Longrightarrow> volume_ok b"
  by (auto simp: start_session_def Let_def volume_ok_install split: sum.splits)

lemma volume_ok_open_session:
  assumes "volume_ok a"
  shows "volume_ok (fst (open_session env p ip r player closes farewell a))"
proof -
  define a2 where "a2 = (case pr_pc_output_volume r of
      None \<Rightarrow> a\<lparr>ph_link_pair := Some (link_pair_of p r)\<rparr>
    | Some level \<Rightarrow> notify (PcVolumeChanged level)
        (apply_pc_level level (a\<lparr>ph_link_pair := Some (link_pair_of p r)\<rparr>)))"
  have a2: "volume_ok a2" using assms by (simp add: a2_def split: option.splits)
  show ?thesis
    unfolding open_session_def Let_def a2_def [symmetric]
    by (auto dest: volume_ok_start [OF a2] split: prod.splits sum.splits)
qed

lemma volume_ok_session:
  assumes "volume_ok a" "ph_session a = Some s" "sn_volume s' = sn_volume s"
  shows "volume_ok (a\<lparr>ph_session := Some s'\<rparr>)"
  using assms by (simp add: volume_ok_def)

lemma volume_ok_control:
  assumes "volume_ok a" "control_playback playing answer a = (b, r)"
  shows "volume_ok b"
proof (cases "ph_session a")
  case (Some s)
  then show ?thesis
    using assms(2) volume_ok_session [OF assms(1) Some]
    by (auto simp: control_playback_def set_user_playing_def split: sum.splits control_answer.splits)
qed (use assms in \<open>simp add: control_playback_def\<close>)

lemma volume_ok_updates [simp]:
  assumes "volume_ok a"
  shows "volume_ok (session_update_jitter_config c a)" "volume_ok (session_update_bitrate b a)"
  using assms by (auto simp: volume_ok_def session_update_jitter_config_def session_update_bitrate_def)

lemma volume_ok_with_client:
  "volume_ok a \<Longrightarrow> with_client ip f a = (b, r) \<Longrightarrow> volume_ok b"
  by (auto dest!: with_client_cases)

lemma volume_ok_ws_step:
  assumes "volume_ok a"
  shows "volume_ok (ws_task_step env t inp a)"
  using assms
  by (auto simp: ws_task_step_def ws_dial_def ws_receive_def ws_retry_def record_control_heartbeat_def
      Let_def dest: volume_ok_with_client
      split: option.splits phone_task.splits ws_input.splits prod.splits sum.splits ws_event.splits)

lemma volume_ok_recovery_poll:
  assumes "volume_ok a"
  shows "volume_ok (recovery_poll env t now answer a)"
  using assms
  by (auto simp: recovery_poll_def dest: volume_ok_with_client
      split: option.splits phone_task.splits prod.splits sum.splits)

lemma volume_ok_handle:
  assumes a: "volume_ok a" and e: "phone_handle env g e a = Some b"
  shows "volume_ok b"
proof (cases e)
  case (PressConnect p nonce rounds player closes farewell)
  have opened: "volume_ok c \<Longrightarrow> open_session env p ip r player closes farewell c = (d, q) \<Longrightarrow> volume_ok d"
    for c d ip r q using volume_ok_open_session [of c env p ip r player closes farewell] by simp
  with PressConnect e a show ?thesis
    by (auto simp: connect_to_streamer_def request_session_def dest: opened [rotated]
        split: sum.splits option.splits prod.splits verdict.splits)
next
  case (PressResume answer)
  obtain b' q where b': "control_playback True answer a = (b', q)" by fastforce
  with volume_ok_control [OF a b'] e PressResume show ?thesis
    by (cases q) (auto simp: start_audio_playback_def)
next
  case (PressPause answer)
  obtain b' q where b': "control_playback False answer a = (b', q)" by fastforce
  with volume_ok_control [OF a b'] e PressPause show ?thesis
    by (cases q) (auto simp: stop_audio_playback_def)
next
  case (SetPlaying playing answer)
  obtain b' q where b': "control_playback playing answer a = (b', q)" by fastforce
  with volume_ok_control [OF a b'] e SetPlaying show ?thesis by (auto simp: set_playing_def)
next
  case (PressRestart exclusive player closes)
  with e a show ?thesis
    by (auto simp: restart_session_def dest: volume_ok_start split: option.splits prod.splits sum.splits)
next
  case (ChooseBitrate ip d br answer)
  with e a show ?thesis
    by (auto simp: change_audio_bitrate_def dest: volume_ok_with_client split: prod.splits sum.splits)
next
  case (ChooseVolume v)
  with e show ?thesis
    using volume_ok_set [of "a\<lparr>ph_mix := (ph_mix a)\<lparr>vm_user_gain := v\<rparr>\<rparr>"]
    by (auto simp: set_volume_def Let_def)
next
  case (ChooseMatch v)
  with e show ?thesis
    using volume_ok_set [of "a\<lparr>ph_mix := (ph_mix a)\<lparr>vm_match_pc := v\<rparr>\<rparr>"]
    by (auto simp: set_match_pc_volume_def Let_def)
next
  case (StartRecovery ip d now)
  with e a show ?thesis
    by (auto simp: start_link_recovery_def start_link_recovery_paced_def spawn_def Let_def volume_ok_def
        put_client_def)
next
  case (OpenWebsocket ip d)
  with e a show ?thesis
    by (auto simp: establish_websocket_def start_ws_client_def spawn_def volume_ok_def split: option.splits)
next
  case (PlaybackEnds t r)
  with e a show ?thesis
    by (auto simp: playback_ends_def split: option.splits phone_task.splits playback_end.splits)
next
  case (ProbeTick t answer)
  with e a show ?thesis
    by (auto simp: probe_tick_def Let_def split: option.splits phone_task.splits)
qed (use e a in \<open>auto simp: disconnect_from_streamer_def Let_def kill_playback_def
      notify_streaming_stopped_def update_jitter_config_def get_audio_sources_def probe_streamer_def
      change_audio_source_def get_process_list_def volume_ok_ws_step volume_ok_recovery_poll\<close>)

text \<open>
  After any run the session plays at the volume the mix asks for, that is the user's gain, times
  the PC's level clamped to the unit interval when the user wants it followed; or at full volume.
\<close>

theorem session_volume_from_mix:
  assumes "phone_session_run env g es new_phone = Some a" "ph_session a = Some s"
  shows "sn_volume s = f32_unity \<or> sn_volume s = (if vm_match_pc (ph_mix a)
    then (case vm_pc_level (ph_mix a) of Some level \<Rightarrow> f32_mul (vm_user_gain (ph_mix a)) (clamp_unit level)
          | None \<Rightarrow> vm_user_gain (ph_mix a)) else vm_user_gain (ph_mix a))"
proof -
  have "volume_ok b" if "phone_session_run env g es c = Some b" "volume_ok c" for b c
    using that by (induction es arbitrary: c) (auto dest: volume_ok_handle split: option.splits)
  then have "volume_ok a" using assms(1) by (simp add: volume_ok_def new_phone_def)
  then show ?thesis using assms(2) by (auto simp: volume_ok_def mix_effective_def)
qed

text \<open>
  C19: a restart keeps the PC, the phone's identity, the credentials, the mode, the bitrate and the
  link of the session; but the new session plays at full volume until the next change of the volume,
  whatever the mix is, and the WebSocket is gone, with no task left for it.
\<close>

theorem restart_forgets_volume_and_websocket:
  assumes run: "phone_session_run env g es new_phone = Some a" and s: "ph_session a = Some s"
    and r: "restart_session exclusive (Inr granted) closes a = (b, r)"
  shows "r = Inr () \<and> ph_mix b = ph_mix a \<and> ph_ws_task b = None \<and>
    (\<forall>t k. hm_get (ph_tasks b) t = Some k \<longrightarrow> role_of k \<noteq> RoleSocket) \<and>
    (\<exists>s'. ph_session b = Some s' \<and> sn_volume s' = f32_unity \<and> sn_target_ip s' = sn_target_ip s \<and>
      sn_device_id s' = sn_device_id s \<and> sn_session_token s' = sn_session_token s \<and>
      sn_session_generation s' = sn_session_generation s \<and> sn_mode s' = sn_mode s \<and>
      sn_bitrate s' = sn_bitrate s \<and> sn_network_link s' = sn_network_link s \<and>
      sn_jitter_config s' = effective_config (sn_jitter_config s) a)"
proof -
  have inv: "phone_inv a" by (rule phone_inv_run [OF run phone_inv_new])
  define c where "c = stop_session closes a"
  have c: "ph_session c = None" "ph_ws_task c = None" "ph_mix c = ph_mix a"
    by (simp_all add: c_def)
  have b: "r = Inr ()" "\<exists>sp. b = (install_session sp granted c)\<lparr>ph_service := (Playing, exclusive)\<rparr> \<and>
      sp_target_ip sp = sn_target_ip s \<and> sp_device_id sp = sn_device_id s \<and>
      sp_session_token sp = sn_session_token s \<and> sp_session_generation sp = sn_session_generation s \<and>
      sp_mode sp = sn_mode s \<and> sp_bitrate sp = sn_bitrate s \<and> sp_network_link sp = sn_network_link s \<and>
      sp_jitter_config sp = effective_config (sn_jitter_config s) a"
    using r by (auto simp: restart_session_def s start_session_def Let_def c_def)
  have keep: "phone_inv b"
    using phone_inv_restart [OF inv, of exclusive "Inr granted" closes] r by simp
  have ws: "ph_ws_task b = None" "ph_mix b = ph_mix a"
    using b c by (auto simp: install_session_def spawn_def Let_def split: option.splits)
  have "role_of k \<noteq> RoleSocket" if "hm_get (ph_tasks b) t = Some k" for t k
    using phone_inv_task [OF keep that] ws(1) by (cases k) auto
  moreover have "\<exists>s'. ph_session b = Some s' \<and> sn_volume s' = f32_unity \<and> sn_target_ip s' = sn_target_ip s \<and>
      sn_device_id s' = sn_device_id s \<and> sn_session_token s' = sn_session_token s \<and>
      sn_session_generation s' = sn_session_generation s \<and> sn_mode s' = sn_mode s \<and>
      sn_bitrate s' = sn_bitrate s \<and> sn_network_link s' = sn_network_link s \<and>
      sn_jitter_config s' = effective_config (sn_jitter_config s) a"
    using b(2) c by (auto simp: install_session_def spawn_def Let_def split: option.splits)
  ultimately show ?thesis using b(1) ws by blast
qed

text \<open>The phone of before: half the gain, then a restart.\<close>

theorem session_volume_from_mix_witness:
  "\<exists>a s. phone_session_run toy_env (toy_signer None) [toy_press, ChooseVolume f32_0_5] new_phone = Some a \<and>
     ph_session a = Some s \<and> sn_volume s \<noteq> f32_unity \<and> vm_user_gain (ph_mix a) = f32_0_5 \<and>
     sn_volume s = f32_0_5"
proof -
  obtain q where q: "phone_session_run toy_env (toy_signer None) [toy_press] new_phone = Some (toy_phone q)"
    by (rule toy_run)
  define a where "a = set_volume f32_0_5 (toy_phone q)"
  have run: "phone_session_run toy_env (toy_signer None) [toy_press, ChooseVolume f32_0_5] new_phone = Some a"
    using q by (simp add: a_def split: option.splits)
  obtain s where s: "ph_session a = Some s" "sn_volume s = f32_0_5"
    "ph_mix a = default_mix\<lparr>vm_user_gain := f32_0_5\<rparr>"
    by (simp add: a_def set_volume_def session_set_volume_def Let_def toy_phone_session mix_effective_def
        default_mix_def)
  have "f32_0_5 \<noteq> f32_unity" by (simp add: f32_0_5_def f32_unity_def)
  with session_volume_from_mix [OF run s(1)] run s show ?thesis by (simp add: default_mix_def)
qed

theorem restart_forgets_volume_and_websocket_witness:
  "\<exists>a b s. phone_session_run toy_env (toy_signer None) [toy_press, ChooseVolume f32_0_5] new_phone = Some a \<and>
     restart_session True (Inr True) True a = (b, Inr ()) \<and> ph_session b = Some s \<and>
     sn_volume s = f32_unity \<and> mix_effective (ph_mix b) = f32_0_5"
proof -
  obtain q where q: "phone_session_run toy_env (toy_signer None) [toy_press] new_phone = Some (toy_phone q)"
    by (rule toy_run)
  define a where "a = set_volume f32_0_5 (toy_phone q)"
  have run: "phone_session_run toy_env (toy_signer None) [toy_press, ChooseVolume f32_0_5] new_phone = Some a"
    using q by (simp add: a_def split: option.splits)
  obtain s where s: "ph_session a = Some s" and mix: "ph_mix a = default_mix\<lparr>vm_user_gain := f32_0_5\<rparr>"
    by (simp add: a_def set_volume_def session_set_volume_def Let_def toy_phone_session)
  obtain b r where b: "restart_session True (Inr True) True a = (b, r)" by fastforce
  from restart_forgets_volume_and_websocket [OF run s b] run b mix show ?thesis
    by (auto simp: mix_effective_def default_mix_def)
qed

end
