(* ===== verification/Phone_Player.thy ===== *)
theory Phone_Player
  imports Playback_Properties Pcm_Assembly Control_Dispatcher
begin

text \<open>
  The phone's audio stream: the thread that receives packets (\<open>stream/player/packet_receiver.rs\<close>,
  \<open>source_idle.rs\<close>), the thread that starts and pauses the sound card (\<open>playback_worker.rs\<close>,
  \<open>playback_control.rs\<close>), the audio callback (\<open>stream.rs\<close>) and what ends them (\<open>listener.rs\<close>).

  The threads share the ring of packets, the command channel and three flags. A step is an iteration
  of one thread, with the answer of the socket or the sound card as its input; the instants an
  iteration reads after a packet has arrived are one.
\<close>

section \<open>The silence detector\<close>

record idle_detector =
  id_idle_after :: nat
  id_silence_started :: "nat option"
  id_suspended :: bool

definition new_detector :: "nat \<Rightarrow> idle_detector" where
  "new_detector idle_after = \<lparr>id_idle_after = idle_after, id_silence_started = None, id_suspended = False\<rparr>"

text \<open>The edge, if there is one: \<open>Some True\<close> suspends, \<open>Some False\<close> wakes.\<close>

definition observe_silence :: "bool \<Rightarrow> nat \<Rightarrow> idle_detector \<Rightarrow> idle_detector \<times> bool option" where
  "observe_silence silent now d =
     (if \<not> silent
      then (let d1 = d\<lparr>id_silence_started := None\<rparr> in
        if id_suspended d then (d1\<lparr>id_suspended := False\<rparr>, Some False) else (d1, None))
      else (let started = (case id_silence_started d of None \<Rightarrow> now | Some t \<Rightarrow> t);
                d1 = d\<lparr>id_silence_started := Some started\<rparr> in
        if \<not> id_suspended d \<and> id_idle_after d \<le> since now started
        then (d1\<lparr>id_suspended := True\<rparr>, Some True) else (d1, None)))"

definition SOURCE_IDLE_SUSPEND_AFTER :: nat where "SOURCE_IDLE_SUSPEND_AFTER = secs 5"

section \<open>State\<close>

text \<open>A user's command has a number for its answer and the wish to restore if it fails.\<close>

datatype playback_command = SetUserPlaying nat bool bool | SetSourceIdle bool | ShutdownWorker

record playback_worker =
  wk_user :: bool
  wk_idle :: bool
  wk_running :: bool
  wk_alive :: bool

definition new_worker :: playback_worker where
  "new_worker = \<lparr>wk_user = True, wk_idle = False, wk_running = True, wk_alive = True\<rparr>"

record packet_receiver =
  rx_alive :: bool
  rx_allowed :: "ip_addr option"
  rx_last_packet :: nat
  rx_first :: bool
  rx_detector :: "idle_detector option"
  rx_assembly :: pcm_assembly
  rx_ip_waiting :: bool

definition PACKET_CHANNEL_CAPACITY :: nat where "PACKET_CHANNEL_CAPACITY = 1024"

datatype command_result = Done | Refused string | Unheard

datatype stream_end = EndShutdown | EndConnectionLost | EndControlFailed string | EndStreamError string

record audio_stream =
  st_user_wants :: bool
  st_commands :: "playback_command list"
  st_worker :: playback_worker
  st_render_enabled :: bool
  st_reset_requested :: bool
  st_ring :: "raw_packet list"
  st_receiver :: packet_receiver
  st_player :: player
  st_active :: bool
  st_heartbeat :: bool
  st_port :: u16
  st_dropped :: bool
  st_control_error :: "string option"
  st_results :: "(nat \<times> command_result) list"
  st_connected :: "ip_addr list"
  st_rtts :: "f32 list"
  st_levels :: "f32 list"
  st_end :: "stream_end option"

text \<open>The stream after \<open>activate_playback_stream\<close>, as the threads start at \<open>now\<close>.\<close>

definition new_stream :: "ip_addr option \<Rightarrow> bool \<Rightarrow> jitter_config \<Rightarrow> network_link \<Rightarrow> nat \<Rightarrow> audio_stream" where
  "new_stream target android config link now =
     \<lparr>st_user_wants = True, st_commands = [], st_worker = new_worker, st_render_enabled = True,
      st_reset_requested = False, st_ring = [],
      st_receiver = \<lparr>rx_alive = True, rx_allowed = target, rx_last_packet = now, rx_first = False,
        rx_detector = (if android then Some (new_detector SOURCE_IDLE_SUSPEND_AFTER) else None),
        rx_assembly = new_assembly, rx_ip_waiting = True\<rparr>,
      st_player = new_player config link now, st_active = True, st_heartbeat = True,
      st_port = AUDIO_UDP, st_dropped = False, st_control_error = None, st_results = [],
      st_connected = [], st_rtts = [], st_levels = [], st_end = None\<rparr>"

section \<open>Commands and the worker\<close>

text \<open>A command nobody will take any more is an error of the channel; the wish is restored.\<close>

definition user_swap :: "bool \<Rightarrow> audio_stream \<Rightarrow> audio_stream \<times> bool" where
  "user_swap playing s = (s\<lparr>st_user_wants := playing\<rparr>, st_user_wants s)"

definition user_send :: "nat \<Rightarrow> bool \<Rightarrow> bool \<Rightarrow> audio_stream \<Rightarrow> audio_stream" where
  "user_send n playing previous s =
     (if wk_alive (st_worker s)
      then s\<lparr>st_commands := st_commands s @ [SetUserPlaying n playing previous]\<rparr>
      else s\<lparr>st_user_wants := previous, st_results := st_results s @ [(n, Unheard)]\<rparr>)"

definition set_user_wish :: "nat \<Rightarrow> bool \<Rightarrow> audio_stream \<Rightarrow> audio_stream" where
  "set_user_wish n playing s = (case user_swap playing s of (s1, previous) \<Rightarrow> user_send n playing previous s1)"

definition set_source_idle :: "bool \<Rightarrow> audio_stream \<Rightarrow> audio_stream" where
  "set_source_idle idle s =
     (if wk_alive (st_worker s) then s\<lparr>st_commands := st_commands s @ [SetSourceIdle idle]\<rparr> else s)"

definition shutdown_worker :: "audio_stream \<Rightarrow> audio_stream" where
  "shutdown_worker s =
     (if wk_alive (st_worker s) then s\<lparr>st_commands := st_commands s @ [ShutdownWorker]\<rparr> else s)"

definition answer_command :: "playback_command \<Rightarrow> command_result \<Rightarrow> audio_stream \<Rightarrow> audio_stream" where
  "answer_command c r s = (case c of
       SetUserPlaying n playing previous \<Rightarrow>
         (let s1 = s\<lparr>st_results := st_results s @ [(n, r)]\<rparr> in
          if r = Done then s1 else s1\<lparr>st_user_wants := previous\<rparr>)
     | _ \<Rightarrow> s)"

text \<open>The worker's thread ends: what is still queued is dropped, and its senders notice.\<close>

definition worker_stops :: "audio_stream \<Rightarrow> audio_stream" where
  "worker_stops s =
     (foldl (\<lambda>t c. answer_command c Unheard t) s (st_commands s))
       \<lparr>st_commands := [], st_render_enabled := False, st_worker := (st_worker s)\<lparr>wk_alive := False\<rparr>\<rparr>"

definition worker_update :: "playback_command \<Rightarrow> playback_worker \<Rightarrow> playback_worker" where
  "worker_update c w = (case c of
       SetUserPlaying n playing previous \<Rightarrow> w\<lparr>wk_user := playing\<rparr>
     | SetSourceIdle idle \<Rightarrow> w\<lparr>wk_idle := idle\<rparr>
     | ShutdownWorker \<Rightarrow> w)"

definition should_run :: "playback_worker \<Rightarrow> bool" where
  "should_run w \<longleftrightarrow> wk_user w \<and> \<not> wk_idle w"

text \<open>The start or the pause that a command brings about, if it does, fails with \<open>failure\<close>.\<close>

definition worker_transition :: "string option \<Rightarrow> audio_stream \<Rightarrow> audio_stream \<times> string option" where
  "worker_transition failure s =
     (let w = st_worker s in
      if should_run w \<and> \<not> wk_running w
      then (s\<lparr>st_reset_requested := True, st_render_enabled := True,
              st_worker := (if failure = None then w\<lparr>wk_running := True\<rparr> else w)\<rparr>, failure)
      else if \<not> should_run w \<and> wk_running w
      then (s\<lparr>st_reset_requested := True, st_render_enabled := False,
              st_worker := (if failure = None then w\<lparr>wk_running := False\<rparr> else w)\<rparr>, failure)
      else (s, None))"

definition worker_step :: "string option \<Rightarrow> audio_stream \<Rightarrow> audio_stream" where
  "worker_step failure s = (case st_commands s of
       [] \<Rightarrow> s
     | c # cs \<Rightarrow>
       if \<not> wk_alive (st_worker s) then s
       else if c = ShutdownWorker then worker_stops (s\<lparr>st_commands := cs\<rparr>)
       else (case worker_transition failure
               (s\<lparr>st_commands := cs, st_worker := worker_update c (st_worker s)\<rparr>) of
           (s1, None) \<Rightarrow> answer_command c Done s1
         | (s1, Some message) \<Rightarrow>
             worker_stops ((answer_command c (Refused message) s1)
               \<lparr>st_control_error := Some message\<rparr>)))"

section \<open>The receiver\<close>

datatype read_error = RxTimedOut | RxWouldBlock | RxInterrupted | RxEof | RxReset | RxOther string

definition RECV_BUFFER :: nat where "RECV_BUFFER = SEQ_NUM_SIZE + FORMAT_FLAG_SIZE + MAX_OPUS_PACKET_SIZE"

definition OPUS_BITRATE :: nat where "OPUS_BITRATE = 128000"

text \<open>\<open>AudioPacketDecoder::estimate_rms\<close>; \<open>sample_of\<close> reads a sample on a little-endian machine.\<close>

definition sample_of :: "bytes \<Rightarrow> f32" where "sample_of bs = u32_from_be_bytes (rev bs)"

fun samples_of :: "bytes \<Rightarrow> f32 list" where
  "samples_of (a # b # c # d # bs) = sample_of [a, b, c, d] # samples_of bs"
| "samples_of _ = []"

definition estimate_rms :: "bytes \<Rightarrow> bool \<Rightarrow> bool \<Rightarrow> f32" where
  "estimate_rms rms_data silent raw =
     (if silent then f32_0
      else if raw
      then (let samples = samples_of rms_data in
        if samples = [] then f32_0
        else f32_sqrt (f32_div (foldl (\<lambda>sum x. f32_add sum (f32_mul x x)) f32_0 samples)
               (f32_of_nat (length samples))))
      else (let ms_per_frame = f32_mul (f32_div (f32_div (f32_of_nat OPUS_FRAME_SAMPLES)
                  (f32_of_nat OPUS_CHANNELS)) (f32_of_nat OPUS_SAMPLE_RATE)) (f32_of_nat 1000);
                bytes_per_sec = f32_div (f32_of_nat OPUS_BITRATE) (f32_of_nat 8);
                typical_max = f32_div (f32_mul bytes_per_sec ms_per_frame) (f32_of_nat 1000) in
        f32_sqrt (f32_min (f32_div (f32_of_nat (length rms_data)) typical_max) (f32_of_nat 1))))"

definition drop_network :: "audio_stream \<Rightarrow> audio_stream" where
  "drop_network s = s\<lparr>st_dropped := True, st_receiver := (st_receiver s)\<lparr>rx_alive := False\<rparr>\<rparr>"

text \<open>The packet a datagram completes, if it does.\<close>

definition decode_datagram :: "nat \<Rightarrow> bytes \<Rightarrow> pcm_assembly \<Rightarrow> pcm_assembly \<times> raw_packet option" where
  "decode_datagram now d a =
     (if SEQ_NUM_SIZE < length d \<and> d ! SEQ_NUM_SIZE = PCM_FORMAT
      then (case pcm_decode d of Inl e \<Rightarrow> (a, None) | Inr chunk \<Rightarrow> push a chunk now)
      else (case packet_decode d (length d) now of Inl e \<Rightarrow> (a, None) | Inr p \<Rightarrow> (a, Some p)))"

definition deliver :: "nat \<Rightarrow> raw_packet \<Rightarrow> audio_stream \<Rightarrow> audio_stream" where
  "deliver now p s =
     (let r = st_receiver s;
          (detector, edge) = (case rx_detector r of
              None \<Rightarrow> (None, None)
            | Some d \<Rightarrow> (case observe_silence (is_silence p) now d of (d', e) \<Rightarrow> (Some d', e)));
          suspended = (case detector of None \<Rightarrow> False | Some d \<Rightarrow> id_suspended d);
          enqueue = (st_user_wants s \<and> \<not> (suspended \<and> is_silence p));
          s1 = s\<lparr>st_receiver := r\<lparr>rx_detector := detector\<rparr>,
                 st_ring := (if enqueue \<and> length (st_ring s) < PACKET_CHANNEL_CAPACITY
                             then st_ring s @ [p] else st_ring s)\<rparr>;
          s2 = (case edge of None \<Rightarrow> s1 | Some idle \<Rightarrow> set_source_idle idle s1) in
      if 100 dvd unat (seq_num p)
      then s2\<lparr>st_levels := st_levels s2 @
             [estimate_rms (packet_payload p) (is_silence p) (is_uncompressed p)]\<rparr>
      else s2)"

definition receive_audio :: "nat \<Rightarrow> socket_addr \<Rightarrow> bytes \<Rightarrow> audio_stream \<Rightarrow> audio_stream" where
  "receive_audio now from d s =
     (let r = st_receiver s;
          (assembly, packet) = decode_datagram now d (rx_assembly r);
          s1 = s\<lparr>st_port := addr_port from,
                 st_connected := (if rx_ip_waiting r then st_connected s @ [addr_ip from]
                                  else st_connected s),
                 st_receiver := r\<lparr>rx_last_packet := now, rx_first := True, rx_ip_waiting := False,
                                  rx_assembly := assembly\<rparr>\<rparr> in
      case packet of None \<Rightarrow> s1 | Some p \<Rightarrow> deliver now p s1)"

text \<open>
  One iteration: it begins at \<open>before\<close>, and the socket returns at \<open>now\<close>; \<open>micros\<close> is the clock of
  the echo pings.
\<close>

definition receive_step ::
  "nat \<Rightarrow> nat \<Rightarrow> u64 \<Rightarrow> read_error + socket_addr \<times> bytes \<Rightarrow> audio_stream \<Rightarrow> audio_stream" where
  "receive_step before now micros result s =
     (if \<not> rx_alive (st_receiver s) then s
      else if \<not> st_active s then s\<lparr>st_receiver := (st_receiver s)\<lparr>rx_alive := False\<rparr>\<rparr>
      else let s1 = s\<lparr>st_receiver := (st_receiver s)
                 \<lparr>rx_assembly := expire (rx_assembly (st_receiver s)) before\<rparr>\<rparr> in
        case result of
          Inl e \<Rightarrow>
            if e = RxEof \<or> e = RxReset then drop_network s1
            else if 10 \<le> since now (rx_last_packet (st_receiver s1)) div 10 ^ 9 then drop_network s1
            else if e \<notin> {RxTimedOut, RxWouldBlock, RxInterrupted} then drop_network s1
            else s1
        | Inr (from, datagram) \<Rightarrow>
            (let d = take RECV_BUFFER datagram in
             if rx_allowed (st_receiver s1) \<notin> {None, Some (addr_ip from)} then s1
             else if echo_matches d (length d)
             then s1\<lparr>st_rtts := st_rtts s1 @ [echo_round_trip_ms_at d micros]\<rparr>
             else receive_audio now from d s1))"

section \<open>The audio callback\<close>

text \<open>
  \<open>render\<close>: the frames a callback needs are decoded one by one, each with its inputs. \<open>None\<close> would
  be a callback that does not return. An idle callback hands over silence.
\<close>

fun fill_frames :: "frame_inputs list \<Rightarrow> player \<Rightarrow> (player \<times> emission list list) option" where
  "fill_frames [] p = Some (p, [])"
| "fill_frames (inp # inps) p = (case process_next_frame inp (p\<lparr>pm_out := []\<rparr>) of
       None \<Rightarrow> None
     | Some q \<Rightarrow> map_option (\<lambda>(r, outs). (r, pm_out q # outs)) (fill_frames inps q))"

definition render_reset :: "frame_inputs \<Rightarrow> audio_stream \<Rightarrow> audio_stream" where
  "render_reset inp s =
     (if st_reset_requested s
      then s\<lparr>st_reset_requested := False, st_player := trigger_reset inp (st_player s), st_ring := []\<rparr>
      else s)"

definition render ::
  "frame_inputs \<Rightarrow> frame_inputs list \<Rightarrow> audio_stream \<Rightarrow> (audio_stream \<times> emission list list) option" where
  "render inp inps s0 =
     (let s = render_reset inp s0 in
      if \<not> st_render_enabled s then Some (s\<lparr>st_ring := []\<rparr>, [[EmSilence]])
      else map_option (\<lambda>(p, outs). (s\<lparr>st_ring := [], st_player := p\<rparr>, outs))
        (fill_frames inps (foldl (\<lambda>p pkt. ingest_packet pkt p) (st_player s) (st_ring s))))"

section \<open>The end of a stream\<close>

text \<open>
  \<open>run_audio_receive_loop\<close> waits for the first of four causes; leaving it drops the guard, which
  stops the threads.
\<close>

definition end_possible :: "stream_end \<Rightarrow> audio_stream \<Rightarrow> bool" where
  "end_possible e s = (case e of
       EndConnectionLost \<Rightarrow> st_dropped s
     | EndControlFailed m \<Rightarrow> st_control_error s = Some m
     | _ \<Rightarrow> True)"

definition end_stream :: "stream_end \<Rightarrow> audio_stream \<Rightarrow> audio_stream" where
  "end_stream e s =
     (if st_end s \<noteq> None \<or> \<not> end_possible e s then s
      else (shutdown_worker (s\<lparr>st_heartbeat := False, st_active := False\<rparr>))\<lparr>st_end := Some e\<rparr>)"

section \<open>Runs\<close>

datatype stream_event =
    UserCommand nat bool
  | WorkerTakes "string option"
  | Receives nat nat u64 "read_error + socket_addr \<times> bytes"
  | Renders frame_inputs "frame_inputs list"
  | Ends stream_end

fun stream_handle :: "stream_event \<Rightarrow> audio_stream \<Rightarrow> audio_stream option" where
  "stream_handle (UserCommand n playing) s = Some (set_user_wish n playing s)"
| "stream_handle (WorkerTakes failure) s = Some (worker_step failure s)"
| "stream_handle (Receives before now micros result) s = Some (receive_step before now micros result s)"
| "stream_handle (Renders inp inps) s = map_option fst (render inp inps s)"
| "stream_handle (Ends e) s = Some (end_stream e s)"

fun stream_run :: "stream_event list \<Rightarrow> audio_stream \<Rightarrow> audio_stream option" where
  "stream_run [] s = Some s"
| "stream_run (e # es) s = (case stream_handle e s of None \<Rightarrow> None | Some t \<Rightarrow> stream_run es t)"

end
