(* ===== verification/Phone_Playback.thy ===== *)
theory Phone_Playback
  imports Phone_Player
begin

text \<open>
  What the phone's audio stream guarantees: when the source counts as silent, that the sound card
  follows the user and the source, that commands are answered, which packets reach the ring, when
  the connection counts as lost, and that every audio callback returns.
\<close>

section \<open>The silence detector\<close>

definition observe_all :: "(bool \<times> nat) list \<Rightarrow> idle_detector \<Rightarrow> idle_detector \<times> bool list" where
  "observe_all obs d = foldl (\<lambda>(d, edges) (silent, now). case observe_silence silent now d of
       (d', None) \<Rightarrow> (d', edges) | (d', Some e) \<Rightarrow> (d', edges @ [e])) (d, []) obs"

text \<open>The observations since the last one that was not silent, the newest first.\<close>

definition silent_tail :: "(bool \<times> nat) list \<Rightarrow> (bool \<times> nat) list" where
  "silent_tail obs = takeWhile fst (rev obs)"

lemma silent_tail_snoc [simp]:
  "silent_tail (obs @ [(False, now)]) = []"
  "silent_tail (obs @ [(True, now)]) = (True, now) # silent_tail obs"
  by (simp_all add: silent_tail_def)

definition quiet_for :: "nat \<Rightarrow> (bool \<times> nat) list \<Rightarrow> bool" where
  "quiet_for k tail \<longleftrightarrow> (\<exists>(b, now) \<in> set tail. k \<le> since now (snd (last tail)))"

definition detector_at :: "nat \<Rightarrow> (bool \<times> nat) list \<Rightarrow> idle_detector" where
  "detector_at k obs = \<lparr>id_idle_after = k,
     id_silence_started = (if silent_tail obs = [] then None else Some (snd (last (silent_tail obs)))),
     id_suspended = quiet_for k (silent_tail obs)\<rparr>"

lemma alternates_snoc:
  "(\<forall>i < length es. es ! i = even i) \<Longrightarrow> e = even (length es) \<Longrightarrow>
   (\<forall>i < length (es @ [e]). (es @ [e]) ! i = even i)"
  by (auto simp: nth_append less_Suc_eq)

lemma observe_all_at:
  "fst (observe_all obs (new_detector k)) = detector_at k obs \<and>
   (\<forall>i < length (snd (observe_all obs (new_detector k))). snd (observe_all obs (new_detector k)) ! i = even i) \<and>
   (quiet_for k (silent_tail obs) \<longleftrightarrow> odd (length (snd (observe_all obs (new_detector k)))))"
proof (induction obs rule: rev_induct)
  case Nil
  show ?case by (simp add: observe_all_def new_detector_def detector_at_def silent_tail_def quiet_for_def)
next
  case (snoc ob obs)
  obtain silent now where ob: "ob = (silent, now)" by (cases ob)
  obtain d edges where o: "observe_all obs (new_detector k) = (d, edges)" by fastforce
  have d: "d = detector_at k obs" and alt: "\<forall>i < length edges. edges ! i = even i"
    and odd: "quiet_for k (silent_tail obs) \<longleftrightarrow> odd (length edges)"
    using snoc o by auto
  have step: "observe_all (obs @ [(silent, now)]) (new_detector k) = (case observe_silence silent now d of
       (d', None) \<Rightarrow> (d', edges) | (d', Some e) \<Rightarrow> (d', edges @ [e]))"
    using o by (simp add: observe_all_def split: option.split prod.split)
  show ?case
  proof (cases silent)
    case False
    with step have step: "observe_all (obs @ [(False, now)]) (new_detector k) =
        (case observe_silence False now d of (d', None) \<Rightarrow> (d', edges) | (d', Some e) \<Rightarrow> (d', edges @ [e]))"
      by simp
    from False show ?thesis
      using alternates_snoc [OF alt, of False] alt odd
      by (cases "quiet_for k (silent_tail obs)")
        (simp_all add: ob step observe_silence_def d detector_at_def, simp_all add: quiet_for_def)
  next
    case True
    with step have step: "observe_all (obs @ [(True, now)]) (new_detector k) =
        (case observe_silence True now d of (d', None) \<Rightarrow> (d', edges) | (d', Some e) \<Rightarrow> (d', edges @ [e]))"
      by simp
    let ?started = "if silent_tail obs = [] then now else snd (last (silent_tail obs))"
    have quiet: "quiet_for k (silent_tail (obs @ [(True, now)])) \<longleftrightarrow>
        quiet_for k (silent_tail obs) \<or> k \<le> since now ?started"
      by (cases "silent_tail obs") (auto simp: quiet_for_def)
    have tail: "snd (last (silent_tail (obs @ [(True, now)]))) = ?started" by simp
    have "observe_silence True now d = (detector_at k (obs @ [(True, now)]),
        if \<not> quiet_for k (silent_tail obs) \<and> k \<le> since now ?started then Some True else None)"
      using tail quiet by (auto simp: observe_silence_def d detector_at_def Let_def)
    then show ?thesis
      using alternates_snoc [OF alt, of True] alt odd quiet True
      by (cases "\<not> quiet_for k (silent_tail obs) \<and> k \<le> since now ?started") (auto simp: step ob)
  qed
qed

text \<open>
  C23: after any observations the source counts as idle exactly if it has been silent since some
  packet, and one of the packets since then came at least the grace period after the first of them;
  the edges reported alternate, beginning with a suspension, and there is one for every change.
\<close>

theorem idle_detector_exact:
  assumes "observe_all obs (new_detector k) = (d, edges)"
  shows "(id_suspended d \<longleftrightarrow> (\<exists>(b, now) \<in> set (silent_tail obs). k \<le> since now (snd (last (silent_tail obs))))) \<and>
    (\<forall>i < length edges. edges ! i = even i) \<and> (id_suspended d \<longleftrightarrow> odd (length edges))"
  using observe_all_at [of obs k] assms by (simp add: detector_at_def quiet_for_def)

theorem idle_detector_exact_witness:
  "observe_all [(True, 0), (True, 4), (True, 5), (False, 6)] (new_detector 5) =
     (\<lparr>id_idle_after = 5, id_silence_started = None, id_suspended = False\<rparr>, [True, False]) \<and>
   [True, False] ! 0 = even (0 :: nat) \<and> [True, False] ! 1 = even (1 :: nat)"
proof -
  have "observe_all [(True, 0), (True, 4), (True, 5), (False, 6)] (new_detector 5) =
     (\<lparr>id_idle_after = 5, id_silence_started = None, id_suspended = False\<rparr>, [True, False])"
    by (simp add: observe_all_def observe_silence_def new_detector_def since_def)
  from idle_detector_exact [OF this] this show ?thesis by (metis length_Cons less_Suc0 lessI list.size(3) zero_less_Suc One_nat_def)
qed

section \<open>The sound card follows\<close>

fun user_after :: "bool \<Rightarrow> playback_command \<Rightarrow> bool" where
  "user_after b (SetUserPlaying n playing previous) = playing" | "user_after b _ = b"

fun idle_after :: "bool \<Rightarrow> playback_command \<Rightarrow> bool" where
  "idle_after b (SetSourceIdle idle) = idle" | "idle_after b _ = b"

definition suspended :: "audio_stream \<Rightarrow> bool" where
  "suspended s = (case rx_detector (st_receiver s) of None \<Rightarrow> False | Some d \<Rightarrow> id_suspended d)"

definition command_number :: "playback_command \<Rightarrow> nat list" where
  "command_number c = (case c of SetUserPlaying n playing previous \<Rightarrow> [n] | _ \<Rightarrow> [])"

definition answered :: "audio_stream \<Rightarrow> nat list" where
  "answered s = map fst (st_results s) @ concat (map command_number (st_commands s))"

definition worker_inv :: "audio_stream \<Rightarrow> bool" where
  "worker_inv s \<longleftrightarrow>
     (let w = st_worker s in
      if wk_alive w
      then wk_running w = should_run w \<and> st_render_enabled s = wk_running w \<and>
        foldl user_after (wk_user w) (st_commands s) = st_user_wants s \<and>
        foldl idle_after (wk_idle w) (st_commands s) = suspended s
      else \<not> st_render_enabled s \<and> st_commands s = [])"

lemma set_user_wish_inv:
  assumes "worker_inv s"
  shows "worker_inv (set_user_wish n playing s)" "answered (set_user_wish n playing s) = answered s @ [n]"
  using assms
  by (auto simp: set_user_wish_def user_swap_def user_send_def worker_inv_def suspended_def answered_def
      command_number_def Let_def)

lemma answer_fields [simp]:
  "st_worker (answer_command c r s) = st_worker s" "st_ring (answer_command c r s) = st_ring s"
  "st_render_enabled (answer_command c r s) = st_render_enabled s"
  "st_reset_requested (answer_command c r s) = st_reset_requested s"
  "st_commands (answer_command c r s) = st_commands s" "st_receiver (answer_command c r s) = st_receiver s"
  "map fst (st_results (answer_command c r s)) = map fst (st_results s) @ command_number c"
  "st_player (answer_command c r s) = st_player s" "st_dropped (answer_command c r s) = st_dropped s"
  "st_active (answer_command c r s) = st_active s" "st_end (answer_command c r s) = st_end s"
  by (cases c; simp add: answer_command_def command_number_def Let_def)+

lemma answer_done [simp]: "st_user_wants (answer_command c Done s) = st_user_wants s"
  by (cases c) (simp_all add: answer_command_def Let_def)

lemma answer_all_fields [simp]:
  fixes s :: audio_stream
  defines "f \<equiv> foldl (\<lambda>t c. answer_command c Unheard t)"
  shows "st_worker (f s cs) = st_worker s" "st_ring (f s cs) = st_ring s"
    "st_receiver (f s cs) = st_receiver s" "st_player (f s cs) = st_player s"
    "st_dropped (f s cs) = st_dropped s" "st_active (f s cs) = st_active s" "st_end (f s cs) = st_end s"
    "map fst (st_results (f s cs)) = map fst (st_results s) @ concat (map command_number cs)"
  unfolding f_def by (induction cs arbitrary: s) simp_all

lemma worker_stops_fields [simp]:
  "st_ring (worker_stops s) = st_ring s" "st_receiver (worker_stops s) = st_receiver s"
  "st_player (worker_stops s) = st_player s" "st_dropped (worker_stops s) = st_dropped s"
  "st_active (worker_stops s) = st_active s" "answered (worker_stops s) = answered s"
  "worker_inv (worker_stops s)" "wk_alive (st_worker (worker_stops s)) = False"
  by (simp_all add: worker_stops_def answered_def worker_inv_def Let_def)

lemma transition_fields:
  assumes "worker_transition failure s = (t, r)"
  shows "st_results t = st_results s" "st_commands t = st_commands s" "st_receiver t = st_receiver s"
    "st_ring t = st_ring s" "st_player t = st_player s" "st_dropped t = st_dropped s"
    "st_active t = st_active s" "st_user_wants t = st_user_wants s" "st_end t = st_end s"
    "wk_alive (st_worker t) = wk_alive (st_worker s)" "wk_user (st_worker t) = wk_user (st_worker s)"
    "wk_idle (st_worker t) = wk_idle (st_worker s)"
    "r = None \<Longrightarrow> wk_running (st_worker s) = st_render_enabled s \<Longrightarrow>
       wk_running (st_worker t) = should_run (st_worker t) \<and> st_render_enabled t = wk_running (st_worker t)"
  using assms by (auto simp: worker_transition_def should_run_def Let_def split: if_splits)

lemma worker_update_fields [simp]:
  "wk_alive (worker_update c w) = wk_alive w" "wk_running (worker_update c w) = wk_running w"
  "wk_user (worker_update c w) = user_after (wk_user w) c"
  "wk_idle (worker_update c w) = idle_after (wk_idle w) c"
  by (cases c; simp add: worker_update_def)+

lemma worker_step_inv:
  assumes s: "worker_inv s"
  shows "worker_inv (worker_step failure s) \<and> answered (worker_step failure s) = answered s"
proof (cases "st_commands s = [] \<or> \<not> wk_alive (st_worker s)")
  case False
  then obtain c cs where c: "st_commands s = c # cs" and alive: "wk_alive (st_worker s)"
    by (cases "st_commands s") auto
  let ?s = "s\<lparr>st_commands := cs, st_worker := worker_update c (st_worker s)\<rparr>"
  obtain s1 r where tr: "worker_transition failure ?s = (s1, r)" by fastforce
  note t = transition_fields [OF tr]
  have ans: "answered (answer_command c x s1) = answered s" for x
    using t by (simp add: answered_def c)
  show ?thesis
  proof (cases "c = ShutdownWorker")
    case True
    then have "answered (s\<lparr>st_commands := cs\<rparr>) = answered s"
      by (simp add: answered_def c command_number_def)
    with True show ?thesis by (simp add: worker_step_def c alive)
  next
    case no: False
    show ?thesis
    proof (cases r)
      case None
      have "worker_inv (answer_command c Done s1)"
        using s c alive t None by (simp add: worker_inv_def suspended_def Let_def)
      then show ?thesis using no None ans by (simp add: worker_step_def c alive tr)
    next
      case (Some m)
      have "answered (u\<lparr>st_control_error := e\<rparr>) = answered u" for u e by (simp add: answered_def)
      then show ?thesis using no Some ans by (simp add: worker_step_def c alive tr)
    qed
  qed
qed (use s in \<open>auto simp: worker_step_def split: list.splits\<close>)

text \<open>The other threads.\<close>

lemma set_source_idle_fields [simp]:
  "st_ring (set_source_idle i s) = st_ring s" "st_receiver (set_source_idle i s) = st_receiver s"
  "st_player (set_source_idle i s) = st_player s" "st_dropped (set_source_idle i s) = st_dropped s"
  "st_active (set_source_idle i s) = st_active s" "st_end (set_source_idle i s) = st_end s"
  "st_results (set_source_idle i s) = st_results s" "st_worker (set_source_idle i s) = st_worker s"
  by (simp_all add: set_source_idle_def)

lemma worker_inv_cong:
  assumes "worker_inv s" "st_worker t = st_worker s" "st_render_enabled t = st_render_enabled s"
    "st_commands t = st_commands s" "st_user_wants t = st_user_wants s" "suspended t = suspended s"
  shows "worker_inv t"
  using assms by (simp add: worker_inv_def Let_def)

lemma observe_silence_edge:
  assumes "observe_silence silent now d = (d', edge)"
  shows "case edge of None \<Rightarrow> id_suspended d' = id_suspended d | Some i \<Rightarrow> id_suspended d' = i"
  using assms by (auto simp: observe_silence_def Let_def split: if_splits)

lemma deliver_inv:
  assumes s: "worker_inv s"
  shows "worker_inv (deliver now p s) \<and> answered (deliver now p s) = answered s"
proof -
  let ?r = "st_receiver s"
  obtain detector edge where d: "(case rx_detector ?r of None \<Rightarrow> (None, None)
      | Some d \<Rightarrow> (case observe_silence (is_silence p) now d of (d', e) \<Rightarrow> (Some d', e))) = (detector, edge)"
    by fastforce
  define s1 where "s1 = s\<lparr>st_receiver := ?r\<lparr>rx_detector := detector\<rparr>,
     st_ring := (if (st_user_wants s \<and> \<not> ((case detector of None \<Rightarrow> False | Some d \<Rightarrow> id_suspended d) \<and> is_silence p))
         \<and> length (st_ring s) < PACKET_CHANNEL_CAPACITY then st_ring s @ [p] else st_ring s)\<rparr>"
  define s2 where "s2 = (case edge of None \<Rightarrow> s1 | Some idle \<Rightarrow> set_source_idle idle s1)"
  have del: "deliver now p s = (if 100 dvd unat (seq_num p)
      then s2\<lparr>st_levels := st_levels s2 @ [estimate_rms (packet_payload p) (is_silence p) (is_uncompressed p)]\<rparr>
      else s2)"
    unfolding deliver_def Let_def d prod.case s1_def s2_def ..
  have sus: "case edge of None \<Rightarrow> suspended s1 = suspended s | Some i \<Rightarrow> suspended s1 = i"
    using d observe_silence_edge by (cases "rx_detector ?r")
      (fastforce simp: suspended_def s1_def split: prod.splits option.splits)+
  have same: "st_worker s1 = st_worker s" "st_render_enabled s1 = st_render_enabled s"
    "st_commands s1 = st_commands s" "st_user_wants s1 = st_user_wants s" "st_results s1 = st_results s"
    by (simp_all add: s1_def)
  have "worker_inv s2 \<and> answered s2 = answered s"
  proof (cases edge)
    case None
    with sus s same worker_inv_cong [OF s same(1-4)] show ?thesis
      by (simp add: s2_def answered_def)
  next
    case (Some i)
    then have "suspended (set_source_idle i s1) = i" using sus by (simp add: suspended_def)
    with Some s same show ?thesis
      by (simp add: s2_def answered_def worker_inv_def set_source_idle_def command_number_def
          should_run_def Let_def split: if_splits)
  qed
  moreover have "worker_inv (s2\<lparr>st_levels := l\<rparr>) = worker_inv s2" "answered (s2\<lparr>st_levels := l\<rparr>) = answered s2" for l
    by (simp_all add: worker_inv_def answered_def suspended_def)
  ultimately show ?thesis by (simp add: del)
qed

text \<open>The datagram of an iteration that counts as audio of the streamer, if it does.\<close>

definition audio_of :: "ip_addr option \<Rightarrow> read_error + socket_addr \<times> bytes \<Rightarrow> (socket_addr \<times> bytes) option" where
  "audio_of target result = (case result of
       Inl e \<Rightarrow> None
     | Inr (src, datagram) \<Rightarrow>
         (let d = take RECV_BUFFER datagram in
          if target \<noteq> None \<and> target \<noteq> Some (addr_ip src) \<or> echo_matches d (length d) then None
          else Some (src, d)))"

definition gives_up :: "nat \<Rightarrow> nat \<Rightarrow> read_error + socket_addr \<times> bytes \<Rightarrow> bool" where
  "gives_up latest now result = (case result of
       Inl e \<Rightarrow> e \<notin> {RxTimedOut, RxWouldBlock, RxInterrupted} \<or> 10 \<le> since now latest div 10 ^ 9
     | Inr _ \<Rightarrow> False)"

definition swept :: "nat \<Rightarrow> audio_stream \<Rightarrow> audio_stream" where
  "swept before s =
     s\<lparr>st_receiver := (st_receiver s)\<lparr>rx_assembly := expire (rx_assembly (st_receiver s)) before\<rparr>\<rparr>"

definition untouched :: "audio_stream \<Rightarrow> audio_stream \<Rightarrow> bool" where
  "untouched s t \<longleftrightarrow> st_worker t = st_worker s \<and> st_render_enabled t = st_render_enabled s \<and>
     st_reset_requested t = st_reset_requested s \<and> st_commands t = st_commands s \<and>
     st_user_wants t = st_user_wants s \<and> st_ring t = st_ring s \<and> st_player t = st_player s \<and>
     st_results t = st_results s \<and> st_active t = st_active s \<and> st_end t = st_end s \<and>
     rx_detector (st_receiver t) = rx_detector (st_receiver s) \<and>
     rx_allowed (st_receiver t) = rx_allowed (st_receiver s) \<and>
     rx_last_packet (st_receiver t) = rx_last_packet (st_receiver s) \<and>
     (rx_assembly (st_receiver t) = rx_assembly (st_receiver s) \<or>
       (\<exists>before. rx_assembly (st_receiver t) = expire (rx_assembly (st_receiver s)) before))"

lemma receive_step_cases:
  assumes "rx_alive (st_receiver s)" "st_active s"
  shows "case audio_of (rx_allowed (st_receiver s)) result of
     Some (src, d) \<Rightarrow> receive_step before now micros result s = receive_audio now src d (swept before s)
   | None \<Rightarrow> untouched s (receive_step before now micros result s) \<and>
       (if gives_up (rx_last_packet (st_receiver s)) now result
        then \<not> rx_alive (st_receiver (receive_step before now micros result s)) \<and>
          st_dropped (receive_step before now micros result s)
        else rx_alive (st_receiver (receive_step before now micros result s)) \<and>
          st_dropped (receive_step before now micros result s) = st_dropped s)"
proof (cases result)
  case (Inl e)
  then show ?thesis
    using assms by (cases e) (auto simp: receive_step_def audio_of_def gives_up_def untouched_def
        drop_network_def Let_def)
next
  case (Inr r)
  obtain src dg where "r = (src, dg)" by (cases r)
  with Inr assms show ?thesis
    by (auto simp: receive_step_def audio_of_def gives_up_def untouched_def swept_def Let_def)
qed

lemma receive_step_over:
  "\<not> rx_alive (st_receiver s) \<or> \<not> st_active s \<Longrightarrow> untouched s (receive_step before now micros result s) \<and>
     st_dropped (receive_step before now micros result s) = st_dropped s \<and>
     \<not> rx_alive (st_receiver (receive_step before now micros result s))"
  by (auto simp: receive_step_def untouched_def)

lemma untouched_inv:
  "untouched s t \<Longrightarrow> worker_inv s \<Longrightarrow> worker_inv t \<and> answered t = answered s"
  using worker_inv_cong [of s t] by (simp add: untouched_def suspended_def answered_def)

lemma receive_audio_inv:
  assumes "worker_inv s"
  shows "worker_inv (receive_audio now src d s) \<and> answered (receive_audio now src d s) = answered s"
proof -
  obtain assembly packet where p: "decode_datagram now d (rx_assembly (st_receiver s)) = (assembly, packet)"
    by fastforce
  define s1 where "s1 = s\<lparr>st_port := addr_port src,
    st_connected := (if rx_ip_waiting (st_receiver s) then st_connected s @ [addr_ip src] else st_connected s),
    st_receiver := (st_receiver s)\<lparr>rx_last_packet := now, rx_first := True, rx_ip_waiting := False,
      rx_assembly := assembly\<rparr>\<rparr>"
  have "worker_inv s1" by (rule worker_inv_cong [OF assms]) (simp_all add: s1_def suspended_def)
  moreover have "answered s1 = answered s" by (simp add: s1_def answered_def)
  ultimately show ?thesis
    using deliver_inv [of s1 now] p
    by (cases packet) (simp_all add: receive_audio_def s1_def [symmetric])
qed

lemma swept_inv: "worker_inv s \<Longrightarrow> worker_inv (swept before s) \<and> answered (swept before s) = answered s"
  using untouched_inv [of s "swept before s"] by (auto simp: untouched_def swept_def)

lemma receive_inv:
  assumes s: "worker_inv s"
  shows "worker_inv (receive_step before now micros result s) \<and>
    answered (receive_step before now micros result s) = answered s"
proof (cases "rx_alive (st_receiver s) \<and> st_active s")
  case True
  then have "rx_alive (st_receiver s)" "st_active s" by simp_all
  note c = receive_step_cases [OF this, where result = result and before = before and now = now and micros = micros]
  show ?thesis
  proof (cases "audio_of (rx_allowed (st_receiver s)) result")
    case None
    with c have "untouched s (receive_step before now micros result s)" by simp
    with s untouched_inv show ?thesis by blast
  next
    case (Some r)
    then show ?thesis
      using c swept_inv [OF s] receive_audio_inv [of "swept before s"] by (cases r) simp
  qed
next
  case False
  with receive_step_over [of s] s untouched_inv show ?thesis by blast
qed

lemma render_inv:
  assumes "worker_inv s" "render inp inps s = Some (t, outs)"
  shows "worker_inv t \<and> answered t = answered s"
proof -
  have "st_worker t = st_worker s" "st_render_enabled t = st_render_enabled s" "st_commands t = st_commands s"
    "st_user_wants t = st_user_wants s" "st_receiver t = st_receiver s" "st_results t = st_results s"
    using assms(2) by (auto simp: render_def render_reset_def Let_def split: if_splits)
  then show ?thesis
    using worker_inv_cong [OF assms(1)] by (simp add: suspended_def answered_def)
qed

lemma end_inv:
  assumes "worker_inv s"
  shows "worker_inv (end_stream e s) \<and> answered (end_stream e s) = answered s"
  using assms
  by (auto simp: end_stream_def shutdown_worker_def worker_inv_def suspended_def answered_def
      command_number_def should_run_def Let_def)

definition issued :: "stream_event \<Rightarrow> nat list" where
  "issued e = (case e of UserCommand n playing \<Rightarrow> [n] | _ \<Rightarrow> [])"

lemma handle_inv:
  assumes "worker_inv s" "stream_handle e s = Some t"
  shows "worker_inv t \<and> answered t = answered s @ issued e"
proof (cases e)
  case (UserCommand n playing)
  then show ?thesis
    using set_user_wish_inv [OF assms(1)] assms(2) by (auto simp: issued_def)
next
  case (Renders inp inps)
  then show ?thesis using assms render_inv [OF assms(1), of inp inps] by (auto simp: issued_def)
qed (use assms worker_step_inv receive_inv end_inv in \<open>auto simp: issued_def\<close>)

lemma stream_run_inv:
  "stream_run es s = Some t \<Longrightarrow> worker_inv s \<Longrightarrow>
   worker_inv t \<and> answered t = answered s @ concat (map issued es)"
proof (induction es arbitrary: s)
  case (Cons e es)
  then obtain u where u: "stream_handle e s = Some u" "stream_run es u = Some t"
    by (auto split: option.splits)
  with Cons.IH [OF u(2)] handle_inv [OF Cons.prems(2) u(1)] show ?case by simp
qed simp

lemma new_stream_inv: "worker_inv (new_stream target android config link now)"
  by (simp add: worker_inv_def new_stream_def new_worker_def should_run_def suspended_def new_detector_def)


text \<open>
  C24: every command of the user is answered exactly once and in the order they were given: with what
  the sound card said, or with the news that nobody listens any more; the rest still waits in order.
\<close>

theorem commands_answered_in_order:
  assumes "stream_run es (new_stream target android config link now) = Some s"
  shows "map fst (st_results s) @ concat (map command_number (st_commands s)) = concat (map issued es) \<and>
    (\<not> wk_alive (st_worker s) \<longrightarrow> map fst (st_results s) = concat (map issued es))"
proof -
  have "answered s = concat (map issued es)"
    using stream_run_inv [OF assms new_stream_inv] by (simp add: answered_def new_stream_def)
  moreover have "\<not> wk_alive (st_worker s) \<longrightarrow> st_commands s = []"
    using stream_run_inv [OF assms new_stream_inv] by (auto simp: worker_inv_def Let_def)
  ultimately show ?thesis by (auto simp: answered_def)
qed

section \<open>What reaches the ring\<close>

definition chunks_in :: "(nat \<times> bytes) set \<Rightarrow> pcm_chunk set" where
  "chunks_in S = {c. \<exists>(now, d) \<in> S. pcm_decode d = Inr c}"

text \<open>A packet that one datagram decodes to, or that is put together from the chunks of several.\<close>

definition from_datagrams :: "(nat \<times> bytes) set \<Rightarrow> raw_packet \<Rightarrow> bool" where
  "from_datagrams S p \<longleftrightarrow> (\<exists>(now, d) \<in> S. packet_decode d (length d) now = Inr p) \<or>
     (\<exists>c \<in> chunks_in S. assembled_from (chunks_in S) c p)"

lemma from_datagrams_mono: "from_datagrams S p \<Longrightarrow> S \<subseteq> S' \<Longrightarrow> from_datagrams S' p"
proof -
  assume "from_datagrams S p" "S \<subseteq> S'"
  moreover from this(2) have "chunks_in S \<subseteq> chunks_in S'" by (auto simp: chunks_in_def)
  ultimately show ?thesis
    unfolding from_datagrams_def by (meson assembled_from_mono subsetD)
qed

definition ring_inv :: "ip_addr option \<Rightarrow> (nat \<times> bytes) set \<Rightarrow> audio_stream \<Rightarrow> bool" where
  "ring_inv target S s \<longleftrightarrow> length (st_ring s) \<le> PACKET_CHANNEL_CAPACITY \<and>
     (\<forall>p \<in> set (st_ring s). from_datagrams S p) \<and> asm_inv (chunks_in S) (rx_assembly (st_receiver s)) \<and>
     rx_allowed (st_receiver s) = target"

definition heard_audio :: "ip_addr option \<Rightarrow> stream_event list \<Rightarrow> (nat \<times> bytes) set" where
  "heard_audio target es = {(now, d). \<exists>before micros result src.
     Receives before now micros result \<in> set es \<and> audio_of target result = Some (src, d)}"

lemma heard_audio_Nil [simp]: "heard_audio target [] = {}"
  by (simp add: heard_audio_def)

lemma heard_audio_Cons: "heard_audio target (e # es) = heard_audio target [e] \<union> heard_audio target es"
  by (auto simp: heard_audio_def)

lemma ring_inv_mono: "ring_inv target S s \<Longrightarrow> S \<subseteq> S' \<Longrightarrow> ring_inv target S' s"
proof -
  assume r: "ring_inv target S s" and S: "S \<subseteq> S'"
  then have "chunks_in S \<subseteq> chunks_in S'" by (auto simp: chunks_in_def)
  with r S show ?thesis
    by (auto simp: ring_inv_def intro: from_datagrams_mono asm_inv_mono)
qed

lemma ring_inv_untouched:
  "ring_inv target S s \<Longrightarrow> untouched s t \<Longrightarrow> ring_inv target S t"
  by (auto simp: ring_inv_def untouched_def intro: asm_inv_expire)

lemma decode_datagram_inv:
  assumes a: "asm_inv (chunks_in S) a" and d: "(now, d) \<in> S" and r: "decode_datagram now d a = (b, po)"
  shows "asm_inv (chunks_in S) b \<and> (\<forall>p. po = Some p \<longrightarrow> from_datagrams S p)"
proof (cases "SEQ_NUM_SIZE < length d \<and> d ! SEQ_NUM_SIZE = PCM_FORMAT")
  case True
  show ?thesis
  proof (cases "pcm_decode d")
    case (Inl e)
    with r True a show ?thesis by (simp add: decode_datagram_def)
  next
    case (Inr c)
    then have "c \<in> chunks_in S" using d by (auto simp: chunks_in_def)
    moreover from this have "insert c (chunks_in S) = chunks_in S" by blast
    moreover have "push a c now = (b, po)" using r True Inr by (simp add: decode_datagram_def)
    ultimately show ?thesis
      using asm_inv_push [OF a decoded_chunk_ok [OF Inr], of now] by (auto simp: from_datagrams_def)
  qed
next
  case False
  then have "b = a" "po = Some p \<Longrightarrow> packet_decode d (length d) now = Inr p" for p
    using r by (auto simp: decode_datagram_def split: sum.splits)
  with a d show ?thesis unfolding from_datagrams_def by blast
qed

lemma deliver_ring:
  "set (st_ring (deliver now p s)) \<subseteq> insert p (set (st_ring s))"
  "length (st_ring s) \<le> PACKET_CHANNEL_CAPACITY \<Longrightarrow> length (st_ring (deliver now p s)) \<le> PACKET_CHANNEL_CAPACITY"
  "rx_assembly (st_receiver (deliver now p s)) = rx_assembly (st_receiver s)"
  "rx_allowed (st_receiver (deliver now p s)) = rx_allowed (st_receiver s)"
  "rx_last_packet (st_receiver (deliver now p s)) = rx_last_packet (st_receiver s)"
  "rx_alive (st_receiver (deliver now p s)) = rx_alive (st_receiver s)"
  "st_player (deliver now p s) = st_player s" "st_dropped (deliver now p s) = st_dropped s"
  "st_active (deliver now p s) = st_active s"
  by (auto simp: deliver_def Let_def split: prod.splits option.splits)

lemma receive_audio_ring:
  assumes s: "ring_inv target S s" and d: "(now, d) \<in> S"
  shows "ring_inv target S (receive_audio now src d s)"
proof -
  obtain b po where p: "decode_datagram now d (rx_assembly (st_receiver s)) = (b, po)" by fastforce
  note dec = decode_datagram_inv [OF _ d p]
  show ?thesis
  proof -
    define s1 where "s1 = s\<lparr>st_port := addr_port src,
      st_connected := (if rx_ip_waiting (st_receiver s) then st_connected s @ [addr_ip src] else st_connected s),
      st_receiver := (st_receiver s)\<lparr>rx_last_packet := now, rx_first := True, rx_ip_waiting := False,
        rx_assembly := b\<rparr>\<rparr>"
    have s1: "ring_inv target S s1"
      using s dec by (simp add: s1_def ring_inv_def)
    have "ring_inv target S (deliver now q s1)" if "po = Some q" for q
    proof -
      have "from_datagrams S q" using s dec that by (simp add: ring_inv_def)
      with s1 deliver_ring(1) [of now q s1] deliver_ring(2) [of s1 now q] show ?thesis
        by (auto simp: ring_inv_def deliver_ring(3,4))
    qed
    with s1 show ?thesis
      by (cases po) (simp_all add: receive_audio_def p s1_def [symmetric])
  qed
qed

lemma swept_untouched: "untouched s (swept before s)"
  by (auto simp: untouched_def swept_def)

lemma ring_inv_frame:
  "ring_inv target S s \<Longrightarrow> st_receiver t = st_receiver s \<Longrightarrow> st_ring t = st_ring s \<or> st_ring t = [] \<Longrightarrow>
   ring_inv target S t"
  by (auto simp: ring_inv_def)

lemma worker_step_frame:
  "st_receiver (worker_step failure s) = st_receiver s" "st_ring (worker_step failure s) = st_ring s"
  "st_player (worker_step failure s) = st_player s" "st_dropped (worker_step failure s) = st_dropped s"
  by (auto simp: worker_step_def dest: transition_fields split: list.splits prod.splits option.splits)

lemma end_frame:
  "st_receiver (end_stream e s) = st_receiver s" "st_ring (end_stream e s) = st_ring s"
  "st_player (end_stream e s) = st_player s" "st_dropped (end_stream e s) = st_dropped s"
  by (auto simp: end_stream_def shutdown_worker_def)

lemma wish_frame:
  "st_receiver (set_user_wish n playing s) = st_receiver s" "st_ring (set_user_wish n playing s) = st_ring s"
  "st_player (set_user_wish n playing s) = st_player s" "st_dropped (set_user_wish n playing s) = st_dropped s"
  by (auto simp: set_user_wish_def user_swap_def user_send_def)

lemma render_frame:
  assumes "render inp inps s = Some (t, outs)"
  shows "st_receiver t = st_receiver s" "st_ring t = []" "st_dropped t = st_dropped s"
  using assms by (auto simp: render_def render_reset_def Let_def split: if_splits)

lemma ring_inv_handle:
  assumes s: "ring_inv target S s" and e: "stream_handle e s = Some t"
  shows "ring_inv target (S \<union> heard_audio target [e]) t"
proof -
  have s': "ring_inv target (S \<union> heard_audio target [e]) s" by (rule ring_inv_mono [OF s]) simp
  show ?thesis
  proof (cases e)
    case (Receives before now micros result)
    then have t: "t = receive_step before now micros result s" using e by simp
    show ?thesis
    proof (cases "rx_alive (st_receiver s) \<and> st_active s")
      case True
      then have al: "rx_alive (st_receiver s)" "st_active s" by simp_all
      have target: "rx_allowed (st_receiver s) = target" using s by (simp add: ring_inv_def)
      note c = receive_step_cases [OF al, where result = result and before = before and now = now and micros = micros]
      show ?thesis
      proof (cases "audio_of target result")
        case None
        with c have "untouched s t" by (simp add: target t)
        with s' show ?thesis by (rule ring_inv_untouched)
      next
        case (Some r)
        obtain src d where r: "r = (src, d)" by (cases r)
        then have "(now, d) \<in> S \<union> heard_audio target [e]"
          using Some Receives by (auto simp: heard_audio_def)
        moreover have "t = receive_audio now src d (swept before s)"
          using c Some r by (simp add: target t)
        ultimately show ?thesis
          using receive_audio_ring ring_inv_untouched [OF s' swept_untouched] by blast
      qed
    next
      case False
      then have "untouched s t" using receive_step_over t by blast
      with s' show ?thesis by (rule ring_inv_untouched)
    qed
  next
    case (Renders inp inps)
    with e obtain outs where "render inp inps s = Some (t, outs)" by auto
    from render_frame [OF this] ring_inv_frame [OF s'] show ?thesis by blast
  qed (use e ring_inv_frame [OF s'] worker_step_frame end_frame wish_frame in auto)
qed

lemma ring_inv_run:
  "stream_run es s = Some t \<Longrightarrow> ring_inv target S s \<Longrightarrow> ring_inv target (S \<union> heard_audio target es) t"
proof (induction es arbitrary: s S)
  case (Cons e es)
  then obtain u where u: "stream_handle e s = Some u" "stream_run es u = Some t"
    by (auto split: option.splits)
  from Cons.IH [OF u(2) ring_inv_handle [OF Cons.prems(2) u(1)]]
  show ?case by (simp add: heard_audio_Cons [of target e es] Un_assoc)
qed simp

lemma ring_inv_new: "ring_inv target {} (new_stream target android config link now)"
  by (simp add: ring_inv_def new_stream_def asm_inv_new)

text \<open>
  C22: a packet waits for the audio callback only if it is what a datagram of the streamer's address
  (any address, if none is fixed) decodes to, or is put together from PCM chunks such datagrams
  carried, never an echo; and at most 1024 packets wait.
\<close>

theorem ring_holds_only_streamer_audio:
  assumes "stream_run es (new_stream target android config link now) = Some s"
  shows "length (st_ring s) \<le> 1024 \<and> (\<forall>p \<in> set (st_ring s). from_datagrams (heard_audio target es) p)"
  using ring_inv_run [OF assms ring_inv_new] by (simp add: ring_inv_def PACKET_CHANNEL_CAPACITY_def)

section \<open>When the connection counts as lost\<close>

fun last_audio :: "ip_addr option \<Rightarrow> stream_event list \<Rightarrow> nat \<Rightarrow> nat" where
  "last_audio target [] start = start"
| "last_audio target (Receives before now micros result # es) start =
     last_audio target es (if audio_of target result = None then start else now)"
| "last_audio target (_ # es) start = last_audio target es start"

lemma receive_audio_receiver:
  "rx_allowed (st_receiver (receive_audio now src d s)) = rx_allowed (st_receiver s)"
  "rx_last_packet (st_receiver (receive_audio now src d s)) = now"
  "rx_alive (st_receiver (receive_audio now src d s)) = rx_alive (st_receiver s)"
  "st_dropped (receive_audio now src d s) = st_dropped s" "st_active (receive_audio now src d s) = st_active s"
  by (auto simp: receive_audio_def deliver_ring Let_def split: prod.splits option.splits)

lemma swept_fields [simp]:
  "rx_allowed (st_receiver (swept before s)) = rx_allowed (st_receiver s)"
  "rx_alive (st_receiver (swept before s)) = rx_alive (st_receiver s)"
  "st_dropped (swept before s) = st_dropped s" "st_active (swept before s) = st_active s"
  "st_ring (swept before s) = st_ring s" "st_player (swept before s) = st_player s"
  by (simp_all add: swept_def)

text \<open>A receiver that still runs has heard what it heard; one that ended stays ended.\<close>

lemma handle_receiver:
  assumes e: "stream_handle e s = Some t" and alive: "rx_alive (st_receiver t)"
    and target: "rx_allowed (st_receiver s) = target"
  shows "rx_alive (st_receiver s) \<and> rx_allowed (st_receiver t) = target \<and>
    rx_last_packet (st_receiver t) = last_audio target [e] (rx_last_packet (st_receiver s)) \<and>
    st_dropped t = st_dropped s"
proof (cases e)
  case (Receives before now micros result)
  then have t: "t = receive_step before now micros result s" using e by simp
  show ?thesis
  proof (cases "rx_alive (st_receiver s) \<and> st_active s")
    case True
    then have al: "rx_alive (st_receiver s)" "st_active s" by simp_all
    note c = receive_step_cases [OF al, where result = result and before = before and now = now and micros = micros]
    show ?thesis
    proof (cases "audio_of target result")
      case None
      with c al alive Receives show ?thesis by (auto simp: target t untouched_def split: if_splits)
    next
      case (Some r)
      then show ?thesis using c al Receives
        by (cases r) (simp add: target t receive_audio_receiver)
    qed
  qed (use receive_step_over t alive in blast)
next
  case (Renders inp inps)
  with e obtain outs where "render inp inps s = Some (t, outs)" by auto
  from render_frame [OF this] alive target Renders show ?thesis by simp
qed (use e alive target in \<open>auto simp: worker_step_frame end_frame wish_frame\<close>)

lemma last_audio_Cons: "last_audio target (e # es) start = last_audio target es (last_audio target [e] start)"
  by (cases e) simp_all

lemma stream_run_alive: "stream_run es s = Some t \<Longrightarrow> rx_alive (st_receiver t) \<Longrightarrow> rx_alive (st_receiver s)"
proof (induction es arbitrary: s)
  case (Cons e es)
  then obtain u where u: "stream_handle e s = Some u" "stream_run es u = Some t"
    by (auto split: option.splits)
  with Cons.IH [OF u(2) Cons.prems(2)] handle_receiver [OF u(1) _ refl] show ?case by blast
qed simp

lemma run_receiver:
  assumes "stream_run es s = Some t" "rx_alive (st_receiver t)" "rx_allowed (st_receiver s) = target"
  shows "rx_alive (st_receiver s) \<and> rx_allowed (st_receiver t) = target \<and>
    rx_last_packet (st_receiver t) = last_audio target es (rx_last_packet (st_receiver s)) \<and>
    st_dropped t = st_dropped s"
  using assms
proof (induction es arbitrary: s)
  case (Cons e es)
  then obtain u where u: "stream_handle e s = Some u" "stream_run es u = Some t"
    by (auto split: option.splits)
  from handle_receiver [OF u(1) stream_run_alive [OF u(2) Cons.prems(2)] Cons.prems(3)]
    Cons.IH [OF u(2) Cons.prems(2)]
  show ?case by (simp add: last_audio_Cons [of target e es])
qed simp

text \<open>
  C21: while its thread runs and the stream has not ended, the receiver reports the connection lost
  exactly if the socket returns an error that is not a timeout, or returns any error ten seconds or
  more after the last audio datagram of the streamer (or after the start); a datagram never does.
  Nothing else counts: not an echo, not the datagrams of others.
\<close>

theorem lost_after_ten_silent_seconds:
  assumes "stream_run es (new_stream target android config link start) = Some s"
    and "rx_alive (st_receiver s)" "st_active s"
  shows "st_dropped (receive_step before now micros result s) \<longleftrightarrow>
    (case result of Inr _ \<Rightarrow> False
     | Inl e \<Rightarrow> e \<in> {RxEof, RxReset} \<or> (\<exists>m. e = RxOther m) \<or>
         secs 10 \<le> since now (last_audio target es start))"
proof -
  have new: "rx_allowed (st_receiver (new_stream target android config link start)) = target"
    "rx_last_packet (st_receiver (new_stream target android config link start)) = start"
    "\<not> st_dropped (new_stream target android config link start)" by (simp_all add: new_stream_def)
  note r = run_receiver [OF assms(1,2) new(1), unfolded new]
  note c = receive_step_cases [OF assms(2,3), where result = result and before = before and now = now and micros = micros]
  have ten: "10 \<le> n div 1000000000 \<longleftrightarrow> secs 10 \<le> n" for n
    by (simp add: secs_def less_eq_div_iff_mult_less_eq)
  show ?thesis
  proof (cases result)
    case (Inl e)
    then have "audio_of target result = None" by (simp add: audio_of_def)
    with c r new(3) Inl show ?thesis
      by (cases e) (auto simp: gives_up_def ten split: if_splits)
  next
    case (Inr p)
    then have "\<not> gives_up l now result" for l by (simp add: gives_up_def)
    with c r new(3) Inr show ?thesis
      by (cases "audio_of target result") (auto simp: receive_audio_receiver)
  qed
qed

text \<open>
  Datagrams of others keep the socket from timing out. As long as they come, nothing ends the
  receiver, however long the streamer has been silent.
\<close>

theorem foreign_traffic_hides_loss:
  assumes "rx_alive (st_receiver s)" "st_active s" "rx_allowed (st_receiver s) = Some ip"
    and "\<forall>e \<in> set es. \<exists>before now micros src d. e = Receives before now micros (Inr (src, d)) \<and> addr_ip src \<noteq> ip"
  shows "\<exists>t. stream_run es s = Some t \<and> rx_alive (st_receiver t) \<and> st_dropped t = st_dropped s \<and>
    st_ring t = st_ring s"
  using assms
proof (induction es arbitrary: s)
  case (Cons e es)
  then obtain before now micros src d where e: "e = Receives before now micros (Inr (src, d))" "addr_ip src \<noteq> ip"
    by auto
  define u where "u = receive_step before now micros (Inr (src, d)) s"
  have none: "audio_of (Some ip) (Inr (src, d)) = None" "\<not> gives_up l now (Inr (src, d))" for l
    using e(2) by (simp_all add: audio_of_def gives_up_def Let_def)
  have u: "untouched s u" "rx_alive (st_receiver u)" "st_dropped u = st_dropped s"
    using receive_step_cases [OF Cons.prems(1,2), where result = "Inr (src, d)" and before = before
        and now = now and micros = micros] none Cons.prems(3) by (simp_all add: u_def)
  then have "st_active u" "rx_allowed (st_receiver u) = Some ip" "st_ring u = st_ring s"
    using Cons.prems(2,3) by (simp_all add: untouched_def)
  with Cons.IH [OF u(2)] Cons.prems(4) u(3) show ?case by (simp add: e u_def)
qed simp

section \<open>Two commands at once\<close>

text \<open>
  \<open>set_user_playing\<close> swaps the wish and sends the command in two steps. A pause and a resume that
  overlap leave the wish at playing and the sound card paused, both commands answered with success.
\<close>

theorem overlapping_commands_disagree:
  assumes w: "wk_alive (st_worker s)" "wk_user (st_worker s)" "\<not> wk_idle (st_worker s)" "wk_running (st_worker s)"
    and s: "st_commands s = []" "st_user_wants s"
    and sw: "user_swap False s = (s1, p1)" "user_swap True s1 = (s2, p2)"
    and t: "t = worker_step None (worker_step None (user_send 1 False p1 (user_send 2 True p2 s2)))"
  shows "st_user_wants t \<and> \<not> wk_running (st_worker t) \<and> wk_alive (st_worker t) \<and> st_commands t = [] \<and>
    st_results t = st_results s @ [(2, Done), (1, Done)]"
  using assms
  by (auto simp: user_swap_def user_send_def worker_step_def worker_transition_def worker_update_def
      should_run_def answer_command_def Let_def)

section \<open>The callback returns\<close>

definition sequences_below :: "(nat \<times> bytes) set \<Rightarrow> bool" where
  "sequences_below S \<longleftrightarrow> (\<forall>(now, d) \<in> S. 8 \<le> length d \<longrightarrow> unat (u64_from_be_bytes (take 8 d)) < SEQ_LIMIT)"

lemma from_datagrams_below:
  assumes S: "sequences_below S" and p: "from_datagrams S p"
  shows "unat (seq_num p) < SEQ_LIMIT"
  using p unfolding from_datagrams_def
proof
  assume "\<exists>(now, d) \<in> S. packet_decode d (length d) now = Inr p"
  then obtain now d where d: "(now, d) \<in> S" "packet_decode d (length d) now = Inr p" by auto
  then have "seq_num p = u64_from_be_bytes (take 8 d)" "8 \<le> length d"
    by (auto simp: packet_decode_def Let_def SEQ_NUM_SIZE_def FORMAT_FLAG_SIZE_def split: if_splits)
  with S d(1) show ?thesis by (fastforce simp: sequences_below_def)
next
  assume "\<exists>c \<in> chunks_in S. assembled_from (chunks_in S) c p"
  then obtain c now d where c: "seq_num p = ch_sequence c" "(now, d) \<in> S" "pcm_decode d = Inr c"
    by (auto simp: chunks_in_def assembled_from_def)
  then have "ch_sequence c = u64_from_be_bytes (take 8 d)" "8 \<le> length d"
    by (auto simp: pcm_decode_def wire_consts split: if_splits)
  with S c(1,2) show ?thesis by (fastforce simp: sequences_below_def)
qed

lemma fill_frames_total:
  "player_ok p \<Longrightarrow> \<exists>q outs. fill_frames inps p = Some (q, outs) \<and> player_ok q \<and> length outs = length inps \<and>
     (\<forall>out \<in> set outs. \<exists>e \<in> set out. audible e)"
proof (induction inps arbitrary: p)
  case (Cons inp inps)
  from callback_ok [OF Cons.prems, of inp] obtain q where
    q: "process_next_frame inp (p\<lparr>pm_out := []\<rparr>) = Some q" "player_ok q" "callback_post SEQ_LIMIT p q" by blast
  from Cons.IH [OF q(2)] q show ?case by (auto simp: callback_post_def)
qed simp

lemma ingest_all_ok:
  "player_ok p \<Longrightarrow> \<forall>pkt \<in> set ring. unat (seq_num pkt) < SEQ_LIMIT \<Longrightarrow>
   player_ok (foldl (\<lambda>p pkt. ingest_packet pkt p) p ring)"
  by (induction ring arbitrary: p) (auto intro: ingest_ok)

lemma player_ok_reset: "player_ok p \<Longrightarrow> player_ok (trigger_reset inp p)"
  by (simp add: player_ok_def reset_below)

lemma render_total:
  assumes "player_ok (st_player s)" "\<forall>p \<in> set (st_ring s). unat (seq_num p) < SEQ_LIMIT"
  shows "\<exists>t outs. render inp inps s = Some (t, outs) \<and> player_ok (st_player t) \<and>
    (st_render_enabled s \<longrightarrow> length outs = length inps \<and> (\<forall>out \<in> set outs. \<exists>e \<in> set out. audible e))"
proof -
  define r where "r = render_reset inp s"
  have r: "player_ok (st_player r)" "\<forall>p \<in> set (st_ring r). unat (seq_num p) < SEQ_LIMIT"
    "st_render_enabled r = st_render_enabled s"
    using assms player_ok_reset by (auto simp: r_def render_reset_def)
  from fill_frames_total [OF ingest_all_ok [OF r(1,2)], of inps] r(1,3) show ?thesis
    by (auto simp: render_def r_def [symmetric] Let_def)
qed

lemma receive_player [simp]: "st_player (receive_step before now micros result s) = st_player s"
  by (auto simp: receive_step_def receive_audio_def deliver_ring drop_network_def Let_def
      split: sum.splits prod.splits option.splits)

lemma handle_total:
  assumes r: "ring_inv target S s" and S: "sequences_below S" and p: "player_ok (st_player s)"
  shows "\<exists>t. stream_handle e s = Some t \<and> player_ok (st_player t)"
proof -
  have "\<forall>q \<in> set (st_ring s). unat (seq_num q) < SEQ_LIMIT"
    using r from_datagrams_below [OF S] by (auto simp: ring_inv_def)
  note render = render_total [OF p this]
  show ?thesis
  proof (cases e)
    case (Renders inp inps)
    from render [of inp inps] Renders show ?thesis by auto
  qed (use p in \<open>simp_all add: worker_step_frame end_frame wish_frame\<close>)
qed

text \<open>
  C25: however user, network, sound card and callbacks interleave, with pauses, idle sources, resets
  and lost connections, no step of the stream gets stuck: every audio callback returns, as long as
  the sequence numbers the streamer sends stay 1024 below the maximum of 64 bits.
\<close>

theorem stream_never_stalls:
  assumes "sequences_below (heard_audio target es)"
  shows "\<exists>s. stream_run es (new_stream target android config link now) = Some s"
proof -
  have "\<exists>t. stream_run es s = Some t"
    if "ring_inv target S s" "player_ok (st_player s)" "sequences_below (S \<union> heard_audio target es)" for s S
    using that
  proof (induction es arbitrary: s S)
    case (Cons e es)
    have below: "sequences_below S" "sequences_below (S \<union> heard_audio target [e] \<union> heard_audio target es)"
      using Cons.prems(3) by (auto simp: sequences_below_def heard_audio_Cons [of target e es])
    obtain u where u: "stream_handle e s = Some u" "player_ok (st_player u)"
      using handle_total [OF Cons.prems(1) below(1) Cons.prems(2)] by blast
    from Cons.IH [OF ring_inv_handle [OF Cons.prems(1) u(1)] u(2) below(2)] u(1) show ?case by simp
  qed simp
  from this [OF ring_inv_new, of android config link now] assms new_player_ok show ?thesis
    by (simp add: new_stream_def)
qed

section \<open>A concrete stream\<close>

definition silent_datagram :: "u64 \<Rightarrow> bytes" where
  "silent_datagram n = u64_to_be_bytes n @ [FORMAT_SILENCE]"

definition toy_source :: socket_addr where "toy_source = SocketAddr (IpV4 192 168 1 5) AUDIO_UDP"

text \<open>The user pauses, the source falls silent for six seconds, and the user resumes.\<close>

definition toy_events :: "stream_event list" where
  "toy_events = [UserCommand 1 False, WorkerTakes None,
     Receives 0 0 0 (Inr (toy_source, silent_datagram 7)),
     Receives 0 (secs 6) 0 (Inr (toy_source, silent_datagram 8)),
     UserCommand 2 True, WorkerTakes None, WorkerTakes None]"

definition toy_stream :: audio_stream where
  "toy_stream = new_stream (Some (IpV4 192 168 1 5)) True default_jitter_config Wifi24Ghz 0"

lemma silent_decodes:
  "packet_decode (silent_datagram n) (length (silent_datagram n)) now =
     Inr ((zeroed now)\<lparr>seq_num := n, is_silence := True\<rparr>)"
  "\<not> echo_matches (silent_datagram n) (length (silent_datagram n))"
  "take RECV_BUFFER (silent_datagram n) = silent_datagram n" "\<not> SEQ_NUM_SIZE < length (silent_datagram n) \<or>
     silent_datagram n ! SEQ_NUM_SIZE \<noteq> PCM_FORMAT"
  by (simp_all add: silent_datagram_def packet_decode_def zeroed_def wire_consts Let_def
      copy_at_def echo_matches_def RECV_BUFFER_def ECHO_PACKET_LEN_def nth_append)

lemmas stream_simps = set_user_wish_def user_swap_def user_send_def set_source_idle_def worker_step_def
  worker_transition_def worker_update_def should_run_def answer_command_def new_worker_def

lemma toy_audio:
  "audio_of (Some (IpV4 192 168 1 5)) (Inr (toy_source, silent_datagram n)) = Some (toy_source, silent_datagram n)"
  by (simp add: audio_of_def toy_source_def silent_decodes Let_def del: length_take)

text \<open>A silence marker of the streamer, received while the receiver runs.\<close>

lemma receive_silence:
  assumes "rx_alive (st_receiver s)" "st_active s" "rx_allowed (st_receiver s) = Some (IpV4 192 168 1 5)"
    and "rx_detector (st_receiver s) = Some det" "observe_silence True now det = (det', edge)"
    and "\<not> 100 dvd unat n"
  shows "receive_step before now micros (Inr (toy_source, silent_datagram n)) s =
    (let s1 = (swept before s)\<lparr>st_port := AUDIO_UDP,
           st_connected := (if rx_ip_waiting (st_receiver s) then st_connected s @ [IpV4 192 168 1 5]
                            else st_connected s),
           st_receiver := (st_receiver (swept before s))\<lparr>rx_last_packet := now, rx_first := True,
             rx_ip_waiting := False, rx_detector := Some det'\<rparr>,
           st_ring := (if st_user_wants s \<and> \<not> id_suspended det' \<and> length (st_ring s) < PACKET_CHANNEL_CAPACITY
             then st_ring s @ [(zeroed now)\<lparr>seq_num := n, is_silence := True\<rparr>] else st_ring s)\<rparr> in
     case edge of None \<Rightarrow> s1 | Some idle \<Rightarrow> set_source_idle idle s1)"
proof -
  have "receive_step before now micros (Inr (toy_source, silent_datagram n)) s =
      receive_audio now toy_source (silent_datagram n) (swept before s)"
    using receive_step_cases [OF assms(1,2), where before = before and now = now and micros = micros and
        result = "Inr (toy_source, silent_datagram n)"] toy_audio [of n]
    unfolding assms(3) by simp
  then show ?thesis
    using assms silent_decodes(4) [of n]
    by (cases edge) (auto simp: receive_audio_def decode_datagram_def silent_decodes deliver_def Let_def
        swept_def toy_source_def set_source_idle_def zeroed_def)
qed

lemma toy_stream_fields:
  "rx_alive (st_receiver toy_stream)" "st_active toy_stream" "st_user_wants toy_stream"
  "rx_allowed (st_receiver toy_stream) = Some (IpV4 192 168 1 5)" "st_commands toy_stream = []"
  "st_worker toy_stream = new_worker" "st_results toy_stream = []" "st_ring toy_stream = []"
  "rx_detector (st_receiver toy_stream) = Some (new_detector (secs 5))"
  "st_dropped toy_stream = False" "st_render_enabled toy_stream"
  by (simp_all add: toy_stream_def new_stream_def SOURCE_IDLE_SUSPEND_AFTER_def)

lemma toy_silence:
  "observe_silence True 0 (new_detector (secs 5)) =
     (\<lparr>id_idle_after = secs 5, id_silence_started = Some 0, id_suspended = False\<rparr>, None)"
  "observe_silence True (secs 6) \<lparr>id_idle_after = secs 5, id_silence_started = Some 0, id_suspended = False\<rparr> =
     (\<lparr>id_idle_after = secs 5, id_silence_started = Some 0, id_suspended = True\<rparr>, Some True)"
  by (simp_all add: observe_silence_def new_detector_def since_def secs_def)

lemma toy_run_ends:
  obtains s where "stream_run toy_events toy_stream = Some s" "wk_alive (st_worker s)" "st_commands s = []"
    "st_user_wants s" "suspended s" "st_results s = [(1, Done), (2, Done)]"
proof -
  define a where "a = worker_step None (set_user_wish 1 False toy_stream)"
  have a: "rx_alive (st_receiver a)" "st_active a" "\<not> st_user_wants a"
    "rx_allowed (st_receiver a) = Some (IpV4 192 168 1 5)" "st_commands a = []"
    "st_worker a = \<lparr>wk_user = False, wk_idle = False, wk_running = False, wk_alive = True\<rparr>"
    "st_results a = [(1, Done)]" "rx_detector (st_receiver a) = Some (new_detector (secs 5))"
    by (simp_all add: a_def stream_simps Let_def toy_stream_fields)
  define b where "b = receive_step 0 0 0 (Inr (toy_source, silent_datagram 7)) a"
  have b: "rx_alive (st_receiver b)" "st_active b" "\<not> st_user_wants b"
    "rx_allowed (st_receiver b) = Some (IpV4 192 168 1 5)" "st_commands b = []"
    "st_worker b = st_worker a" "st_results b = [(1, Done)]"
    "rx_detector (st_receiver b) = Some \<lparr>id_idle_after = secs 5, id_silence_started = Some 0, id_suspended = False\<rparr>"
    using a unfolding b_def by (subst receive_silence [OF a(1,2,4,8) toy_silence(1)]; simp add: swept_def Let_def)+
  define c where "c = receive_step 0 (secs 6) 0 (Inr (toy_source, silent_datagram 8)) b"
  have c: "st_commands c = [SetSourceIdle True]" "\<not> st_user_wants c" "st_worker c = st_worker a"
    "st_results c = [(1, Done)]" "suspended c"
    using a(6) b unfolding c_def
    by (subst receive_silence [OF b(1,2,4,8) toy_silence(2)];
        simp add: swept_def Let_def set_source_idle_def suspended_def)+
  have run: "stream_run toy_events toy_stream =
      Some (worker_step None (worker_step None (set_user_wish 2 True c)))"
    by (simp add: toy_events_def a_def b_def c_def)
  show thesis
    by (rule that [OF run]) (use c a(6) in \<open>simp_all add: stream_simps Let_def suspended_def\<close>)
qed


theorem commands_answered_in_order_witness:
  "\<exists>s. stream_run toy_events toy_stream = Some s \<and> map fst (st_results s) = [1, 2]"
proof -
  obtain s where s: "stream_run toy_events toy_stream = Some s" "st_commands s = []"
    by (rule toy_run_ends)
  from commands_answered_in_order [OF s(1) [unfolded toy_stream_def]] s show ?thesis
    by (simp add: toy_events_def issued_def)
qed

lemma one_packet:
  obtains s where "stream_run [Receives 0 0 0 (Inr (toy_source, silent_datagram 7))] toy_stream = Some s"
    "st_ring s = [(zeroed 0)\<lparr>seq_num := 7, is_silence := True\<rparr>]" "rx_alive (st_receiver s)" "st_active s"
proof -
  define b where "b = receive_step 0 0 0 (Inr (toy_source, silent_datagram 7)) toy_stream"
  have "st_ring b = [(zeroed 0)\<lparr>seq_num := 7, is_silence := True\<rparr>]" "rx_alive (st_receiver b)" "st_active b"
    unfolding b_def
    by (subst receive_silence [OF toy_stream_fields(1,2,4,9) toy_silence(1)];
        simp add: swept_def Let_def toy_stream_fields PACKET_CHANNEL_CAPACITY_def)+
  then show thesis by (intro that [of b]) (simp_all add: b_def)
qed

theorem ring_holds_only_streamer_audio_witness:
  "\<exists>s. stream_run [Receives 0 0 0 (Inr (toy_source, silent_datagram 7))] toy_stream = Some s \<and>
     (\<exists>p \<in> set (st_ring s). from_datagrams (heard_audio (Some (IpV4 192 168 1 5))
        [Receives 0 0 0 (Inr (toy_source, silent_datagram 7))]) p)"
proof -
  obtain s where s: "stream_run [Receives 0 0 0 (Inr (toy_source, silent_datagram 7))] toy_stream = Some s"
    "st_ring s = [(zeroed 0)\<lparr>seq_num := 7, is_silence := True\<rparr>]" by (rule one_packet)
  from ring_holds_only_streamer_audio [OF s(1) [unfolded toy_stream_def]] s show ?thesis by auto
qed

theorem lost_after_ten_silent_seconds_witness:
  "\<exists>s. stream_run [Receives 0 0 0 (Inr (toy_source, silent_datagram 7))] toy_stream = Some s \<and>
     st_dropped (receive_step 0 (secs 10) 0 (Inl RxTimedOut) s) \<and>
     \<not> st_dropped (receive_step 0 (secs 9) 0 (Inl RxTimedOut) s)"
proof -
  obtain s where s: "stream_run [Receives 0 0 0 (Inr (toy_source, silent_datagram 7))] toy_stream = Some s"
    "rx_alive (st_receiver s)" "st_active s" by (rule one_packet)
  note lost = lost_after_ten_silent_seconds [OF s(1) [unfolded toy_stream_def] s(2,3)]
  from lost [of 0 "secs 10" 0 "Inl RxTimedOut"] lost [of 0 "secs 9" 0 "Inl RxTimedOut"] s(1)
  show ?thesis by (auto simp: toy_audio since_def secs_def)
qed

theorem stream_never_stalls_witness:
  "\<exists>s. stream_run [Receives 0 0 0 (Inr (toy_source, silent_datagram 7)),
     Renders (calm_inputs 0) [calm_inputs 0]] toy_stream = Some s"
proof -
  have "u64_from_be_bytes (take 8 (silent_datagram 7)) = 7" by (simp add: silent_datagram_def)
  then have "sequences_below (heard_audio (Some (IpV4 192 168 1 5)) [Receives 0 0 0 (Inr (toy_source, silent_datagram 7)),
      Renders (calm_inputs 0) [calm_inputs 0]])"
    by (auto simp: sequences_below_def heard_audio_def toy_audio SEQ_LIMIT_def)
  from stream_never_stalls [OF this] show ?thesis unfolding toy_stream_def by blast
qed

end
