(* ===== verification/Spec2Isabelle.thy ===== *)
theory Spec2Isabelle
  imports Adb_Link Pcm_Assembly Jitter_Buffer Desk_Audio Streamer_Send Control_Http
    Playback_Depth Phone_Recovery Phone_Playback
begin

text \<open>
  Gemacast sends the sound of a PC to Android phones. This library models the logic of both
  ends, from the Rust sources of the crates \<open>gemacast-core\<close> (shared), \<open>gemacast-pc\<close> (the tray
  application on the PC) and \<open>gemacast-mobile\<close> (the phone), and proves what makes it correct.

  \<^bold>\<open>The program.\<close> On the PC an HTTPS server (\<open>control/server.rs\<close>, \<open>handlers.rs\<close>, \<open>ws.rs\<close>) checks the
  bearer token of a request and sends a command over a channel to \<open>ControlDispatcher\<close>
  (\<open>tasks/control_dispatcher.rs\<close>). The dispatcher, the tray commands
  (\<open>tasks/command_handler.rs\<close>) and the watchdog (\<open>tasks/device_watchdog.rs\<close>) share the device
  registry, the session authorizer, the device authentication and the trusted device store, and
  reach the audio engine through the trait \<open>AudioController\<close>. The engine
  (\<open>stream/streamer/engine.rs\<close>) keeps the players' sessions and a pool of captures with their
  encoders; captured samples go through the capture loop to a UDP sender or a TCP (ADB) encoder.
  On the phone packets are parsed, uncompressed frames are reassembled from four datagrams, and
  the playback manager orders them in a jitter buffer, measures their arrival, chooses a depth
  and, at each audio callback, plays, waits, stretches or conceals.

  \<^bold>\<open>Theories\<close>, in the order of their imports.
  \<^item> \<open>Prelude\<close>: machine integers, bytes, association lists as hash maps, instants;
    \<open>Contracts\<close>: the locales \<open>generation_table\<close> and the table of expiring requests.
  \<^item> \<open>Domain\<close>: \<open>domain/types.rs\<close>, \<open>domain/error.rs\<close>. \<open>Float32\<close>, \<open>Float_Order\<close>: single precision
    arithmetic on bit patterns, rounded as IEEE 754 requires, and its order.
  \<^item> The wire: \<open>Wire\<close> (\<open>audio/pcm_datagram.rs\<close>, \<open>stream/player/packet.rs\<close>,
    \<open>streamer/encode.rs\<close>, \<open>stream/echo.rs\<close>), \<open>Adb_Link\<close> (framing and handshake of the USB
    connection), \<open>Pcm_Assembly\<close> (\<open>stream/player/pcm_assembly.rs\<close>). Each format has a round trip; the
    reassembly never mixes frames and completes in every order of arrival.
  \<^item> The control plane of the PC: \<open>Session_Auth\<close> (\<open>control/auth.rs\<close>), \<open>Device_Auth\<close>
    (\<open>device_auth.rs\<close> of both crates), \<open>Trusted_Devices\<close>, \<open>Device_Registry\<close> (\<open>state.rs\<close>),
    \<open>Control_Types\<close> (requests, commands, events), \<open>Control_Dispatcher\<close> and \<open>Desk_Tasks\<close> (every
    handler over the record \<open>desk\<close>, the state the PC's tasks share), \<open>Desk_Safety\<close>,
    \<open>Desk_Connect\<close>, \<open>Desk_Properties\<close> (properties of all tasks in any order: trust needs the
    user's consent, sessions need permission, a kick ends everything), \<open>Control_Http\<close> (the
    endpoints and WebSocket connections composed with the dispatcher).
  \<^item> The audio plane of the PC: \<open>Capture_Pool\<close> (\<open>capture_pool.rs\<close>, \<open>failure.rs\<close>), \<open>Stream_Engine\<close>
    (\<open>engine.rs\<close>, \<open>stream_session.rs\<close>, \<open>command.rs\<close>; refinement: the pool encodes exactly what the
    sessions ask for), \<open>Desk_Audio\<close> (\<open>adapters/audio.rs\<close>; the desk and the engine agree),
    \<open>Streamer_Send\<close> (\<open>capture_instance.rs\<close>, \<open>captured_frame.rs\<close>, \<open>packet_pacer.rs\<close>,
    \<open>udp_audio_sender.rs\<close>).
  \<^item> The player: \<open>Jitter_Buffer\<close> (\<open>jitter/buffer.rs\<close>; refinement of a partial map),
    \<open>Playback_Flow\<close> (\<open>flow.rs\<close>), \<open>Arrival_Stats\<close> (\<open>stats.rs\<close>; the percentile walk equals its
    specification, the gap window equals a filter of the history), \<open>Target_Controller\<close>
    (\<open>target.rs\<close>; dwell and ramps), \<open>Playback_Manager\<close> (\<open>manager.rs\<close>; one definition per method of
    the callback), \<open>Playback_Safety\<close>, \<open>Playback_Properties\<close>, \<open>Playback_Depth\<close> (runs of arrivals and
    callbacks in any order).
  \<^bold>\<open>Conventions.\<close> \<open>u32\<close> and \<open>u64\<close> are words and wrap where the code wraps, with its saturating
  operations written out; \<open>i32\<close> and \<open>i64\<close> are integers, exact because the values are bounded (a
  histogram bin by \<open>2^30\<close>, a product by \<open>2^46\<close>). A struct is a record, an enum a datatype, a
  \<open>HashMap\<close> an association list, a \<open>Result\<close> a sum, a panic or a loop that does not return the value
  \<open>None\<close>. A handler is one step; what other tasks do while it awaits comes before or after it.
  Time, random bytes, what the network, the file system, the clock, Opus and the sound card
  answer, and base64, SHA-256, ECDSA and JSON are arguments or fields of an input record.
  Logging, its counters and poisoned locks are left out.

  \<^bold>\<open>Bounds and loops.\<close> The sequence numbers of the player are below \<open>2^64 - 1024\<close> and a run has at
  most \<open>2^22\<close> steps in the properties that step the playhead, so that it never wraps: a stream at a
  hundred packets a second takes longer than the age of the universe to get there. Generations
  are 64-bit and the properties that identify a session by its generation bound the number of
  sessions started. The flush of the playback manager is a loop of the code with no evident
  bound: it is a \<open>partial_function (option)\<close>, and \<open>callbacks_always_play\<close> shows that it returns from
  every state a run reaches. Every other loop is structural or has a measure.

  \<^bold>\<open>Not modelled.\<close> The capture adapters (WASAPI, PipeWire, ScreenCaptureKit, cpal), the output
  device, codecs and the time-scaler's signal processing: their answers are inputs. The user
  interfaces, tray and dialogs, the updater's downloads, mDNS and broadcast sockets, TLS identity,
  firewall and autostart integration, and the enumeration of network interfaces: input and
  output around libraries and the operating system.
\<close>

end
